(* ===== verification/Prelude.thy ===== *)
theory Prelude
  imports Main "HOL-Library.Word" "HOL-Library.AList" "HOL-Library.Sublist" "HOL-Library.Char_ord" "HOL-Library.List_Lexorder"
begin

text \<open>
  Shared vocabulary of the development: Go's byte strings, the errors the modelled packages
  return, two's complement wrap-around for Go's \<^verbatim>\<open>int64\<close>, and the generic facts on lists and
  association lists that the component theories use.  A Go \<^verbatim>\<open>string\<close> or \<^verbatim>\<open>[]byte\<close> is a
  \<^typ>\<open>char list\<close>: a HOL character is exactly one byte.
\<close>

section \<open>Types and errors\<close>

type_synonym bytes = "char list"

text \<open>
  The sentinel errors of \<^verbatim>\<open>vfs\<close>, \<^verbatim>\<open>quota\<close>, \<^verbatim>\<open>os\<close> and \<^verbatim>\<open>io\<close> that the code compares with
  \<^verbatim>\<open>errors.Is\<close> are constructors of their own; every \<^verbatim>\<open>errors.New(...)\<close> that is never compared is
  \<open>ErrMsg\<close>.  \<open>GoPanic\<close> is a run-time panic (an out-of-range slice), \<open>NoFuel\<close> marks a
  loop of the model that was cut off before it ended and stands for no value of the program.
\<close>

datatype goerr =
    ErrNotExist | ErrExist | ErrPermission | ErrInvalid | ErrClosed
  | EOF | ErrUnexpectedEOF
  | ErrNoMount | ErrPathEscape | ErrForbiddenPathChar | ErrPathTooDeep
  | ErrForbiddenExtension | ErrFileTooLarge
  | ErrStorageExceeded | ErrFileCountExceeded
  | ErrMsg string
  | GoPanic
  | NoFuel

type_synonym 'a res = "goerr + 'a"

text \<open>The text \<^verbatim>\<open>err.Error()\<close> returns.\<close>

fun err_text :: "goerr \<Rightarrow> string" where
  "err_text ErrNotExist = ''file does not exist''"
| "err_text ErrExist = ''file already exists''"
| "err_text ErrPermission = ''permission denied''"
| "err_text ErrInvalid = ''invalid argument''"
| "err_text ErrClosed = ''file already closed''"
| "err_text EOF = ''EOF''"
| "err_text ErrUnexpectedEOF = ''unexpected EOF''"
| "err_text ErrNoMount = ''no mount found for path''"
| "err_text ErrPathEscape = ''path escapes virtual root''"
| "err_text ErrForbiddenPathChar = ''path contains forbidden characters''"
| "err_text ErrPathTooDeep = ''path exceeds maximum depth''"
| "err_text ErrForbiddenExtension = ''extension is not allowed''"
| "err_text ErrFileTooLarge = ''file exceeds maximum allowed size''"
| "err_text ErrStorageExceeded = ''storage quota exceeded''"
| "err_text ErrFileCountExceeded = ''file count quota exceeded''"
| "err_text (ErrMsg s) = s"
| "err_text GoPanic = ''panic''"
| "err_text NoFuel = ''no fuel''"

section \<open>Rendering numbers\<close>

text \<open>\<^verbatim>\<open>strconv\<close> in base ten (the fuel is the number itself, which has no more digits) and one hexadecimal digit.\<close>

fun digits :: "nat \<Rightarrow> nat \<Rightarrow> string" where
  "digits 0 n = []"
| "digits (Suc k) n = (if n < 10 then [char_of (48 + n)] else digits k (n div 10) @ [char_of (48 + n mod 10)])"

definition show_int :: "int \<Rightarrow> string" where
  "show_int i = (if i < 0 then ''-'' @ digits (nat (- i) + 1) (nat (- i)) else digits (nat i + 1) (nat i))"

definition hex_digit :: "nat \<Rightarrow> char" where
  "hex_digit d = (if d < 10 then char_of (48 + d) else char_of (87 + d))"

section \<open>Go's 64-bit signed integers\<close>

text \<open>
  \<^verbatim>\<open>int64\<close> (and \<^verbatim>\<open>int\<close> on the 64-bit targets the program is built for) values are \<^typ>\<open>int\<close>s in
  range; \<open>wrap64\<close> is the two's complement wrap-around of a sum or difference.
\<close>

definition max_int64 :: int where
  "max_int64 = 9223372036854775807"

definition wrap64 :: "int \<Rightarrow> int" where
  "wrap64 x = (x + 9223372036854775808) mod 18446744073709551616 - 9223372036854775808"

definition in_int64 :: "int \<Rightarrow> bool" where
  "in_int64 x \<longleftrightarrow> - 9223372036854775808 \<le> x \<and> x \<le> 9223372036854775807"

named_theorems int64_simps \<open>evaluation and range facts of 64-bit arithmetic\<close>

lemma wrap64_id [simp, int64_simps]: "in_int64 x \<Longrightarrow> wrap64 x = x"
  by (simp add: wrap64_def in_int64_def)

lemma in_int64_wrap64 [simp, int64_simps]: "in_int64 (wrap64 x)"
  unfolding in_int64_def wrap64_def by linarith

lemma wrap64_add_left: "wrap64 (wrap64 x + y) = wrap64 (x + y)"
proof -
  have "(x + 9223372036854775808) mod 18446744073709551616 - 9223372036854775808 + y + 9223372036854775808
      = (x + 9223372036854775808) mod 18446744073709551616 + y" by simp
  then show ?thesis
    unfolding wrap64_def by (simp only: mod_add_left_eq) (simp add: algebra_simps)
qed

lemma wrap64_cancel: "in_int64 x \<Longrightarrow> wrap64 (wrap64 (x + n) - n) = x"
  using wrap64_add_left [of "x + n" "- n"] by simp

lemma in_int64_nonneg: "0 \<le> x \<Longrightarrow> x \<le> max_int64 \<Longrightarrow> in_int64 x"
  by (simp add: in_int64_def max_int64_def)

section \<open>Times\<close>

text \<open>
  A \<^verbatim>\<open>time.Time\<close> is its distance from the Unix epoch in nanoseconds; the zero value is 1 January of year 1.  The
  difference of two times saturates at the range of a \<^verbatim>\<open>time.Duration\<close>.
\<close>

definition zero_time :: int where
  "zero_time = - 62135596800000000000"

definition time_sub :: "int \<Rightarrow> int \<Rightarrow> int" where
  "time_sub a b = max (- 9223372036854775808) (min 9223372036854775807 (a - b))"

section \<open>Association lists\<close>

text \<open>
  A Go map whose iteration the code uses is an association list with distinct keys, looked up
  with \<^const>\<open>map_of\<close>, updated with \<^const>\<open>AList.update\<close> and deleted from with \<^const>\<open>AList.delete\<close>.
\<close>

named_theorems alist_simps \<open>lookup after update and delete on association lists\<close>

lemma map_of_update [alist_simps, simp]:
  "map_of (AList.update k v xs) = (map_of xs)(k \<mapsto> v)"
  by (rule update_conv')

lemma map_of_delete [alist_simps, simp]:
  "map_of (AList.delete k xs) = (map_of xs)(k := None)"
  by (rule delete_conv')

lemma distinct_keys_update [alist_simps, simp]:
  "distinct (map fst xs) \<Longrightarrow> distinct (map fst (AList.update k v xs))"
  by (rule distinct_update)

lemma distinct_keys_delete [alist_simps, simp]:
  "distinct (map fst xs) \<Longrightarrow> distinct (map fst (AList.delete k xs))"
  by (rule distinct_delete)

lemma keys_update [alist_simps, simp]:
  "fst ` set (AList.update k v xs) = insert k (fst ` set xs)"
  using dom_update [of k v xs] by (simp add: dom_map_of_conv_image_fst)

lemma keys_delete [alist_simps, simp]:
  "fst ` set (AList.delete k xs) = fst ` set xs - {k}"
  by (rule delete_keys [THEN arg_cong, THEN trans, of set, simplified])
   (auto simp: removeAll_filter_not_eq)

declare map_of_eq_Some_iff [simp del] Some_eq_map_of_iff [simp del]

lemma option_eqI: "(\<And>c. x = Some c \<longleftrightarrow> y = Some c) \<Longrightarrow> x = y"
  by (cases x; cases y) auto

lemma map_list_update_same: "(map g xs)[a := g (xs ! a)] = map g xs"
  by (metis list_update_id map_update)

lemma foldl_update_map:
  "map_of (foldl (\<lambda>acc (p, c). AList.update p c acc) acc ms) = map_of acc ++ map_of (rev ms)"
  by (induction ms arbitrary: acc) (auto simp: map_add_def fun_eq_iff split: option.splits)

lemma distinct_foldl_update:
  "distinct (map fst acc) \<Longrightarrow> distinct (map fst (foldl (\<lambda>acc (p, c). AList.update p c acc) acc ms))"
  by (induction ms arbitrary: acc) auto

lemma map_of_filter_key: "map_of (filter (\<lambda>(k, _). Q k) ns) = (\<lambda>k. if Q k then map_of ns k else None)"
  by (induction ns) (auto simp: fun_eq_iff)

lemma delete_filter: "AList.delete p ns = filter (\<lambda>(k, _). k \<noteq> p) ns"
  by (simp add: AList.delete_eq eq_commute [of p])

end
