(* ===== verification/GoPath.thy ===== *)
theory GoPath
  imports Prelude
begin

text \<open>
  The part of Go's \<^verbatim>\<open>strings\<close> and \<^verbatim>\<open>path\<close> packages the program relies on: splitting and joining,
  \<^verbatim>\<open>path.Clean\<close>, \<^verbatim>\<open>path.Dir\<close>, \<^verbatim>\<open>path.Base\<close>, \<^verbatim>\<open>path.Ext\<close>, \<^verbatim>\<open>path.Join\<close> and
  \<^verbatim>\<open>strings.TrimSpace\<close>.  The lemmas represent a cleaned absolute path as the list of its
  components (\<open>abs_path\<close>), so that the components above reason about lists of names and never
  about slashes.
\<close>

section \<open>strings\<close>

text \<open>\<^verbatim>\<open>strings.Split(s, sep)\<close> for a one-byte separator and \<^verbatim>\<open>strings.Join\<close>.\<close>

fun split_on :: "char \<Rightarrow> string \<Rightarrow> string list" where
  "split_on c [] = [[]]"
| "split_on c (x # xs) =
     (if x = c then [] # split_on c xs
      else (case split_on c xs of [] \<Rightarrow> [[x]] | y # ys \<Rightarrow> (x # y) # ys))"

fun join_with :: "string \<Rightarrow> string list \<Rightarrow> string" where
  "join_with sep [] = []"
| "join_with sep [x] = x"
| "join_with sep (x # y # zs) = x @ sep @ join_with sep (y # zs)"

definition trim_prefix :: "string \<Rightarrow> string \<Rightarrow> string" where
  "trim_prefix p s = (if prefix p s then drop (length p) s else s)"

definition trim_suffix :: "string \<Rightarrow> string \<Rightarrow> string" where
  "trim_suffix p s = (if suffix p s then take (length s - length p) s else s)"

text \<open>
  \<^verbatim>\<open>strings.TrimSpace\<close> removes Unicode white space, given here by its UTF-8 encodings: the ASCII
  blanks, U+0085, U+00A0, U+1680, U+2000 to U+200A, U+2028, U+2029, U+202F, U+205F and U+3000.
\<close>

definition space_runes :: "string list" where
  "space_runes =
     map (\<lambda>n. [char_of (n::nat)]) [9, 10, 11, 12, 13, 32]
     @ map (map (char_of :: nat \<Rightarrow> char))
         ([[0xC2, 0x85], [0xC2, 0xA0], [0xE1, 0x9A, 0x80]]
          @ map (\<lambda>n. [0xE2, 0x80, n]) [0x80, 0x81, 0x82, 0x83, 0x84, 0x85, 0x86, 0x87, 0x88, 0x89, 0x8A]
          @ [[0xE2, 0x80, 0xA8], [0xE2, 0x80, 0xA9], [0xE2, 0x80, 0xAF],
             [0xE2, 0x81, 0x9F], [0xE3, 0x80, 0x80]])"

fun trim_left_fuel :: "nat \<Rightarrow> string list \<Rightarrow> string \<Rightarrow> string" where
  "trim_left_fuel 0 rs s = s"
| "trim_left_fuel (Suc n) rs s =
     (case find (\<lambda>r. prefix r s) rs of
        None \<Rightarrow> s
      | Some r \<Rightarrow> trim_left_fuel n rs (drop (length r) s))"

text \<open>Each round drops at least one byte, so the length of the string is enough fuel.\<close>

definition trim_space :: "string \<Rightarrow> string" where
  "trim_space s =
     (let l = trim_left_fuel (length s) space_runes s
      in rev (trim_left_fuel (length l) (map rev space_runes) (rev l)))"

text \<open>
  \<^verbatim>\<open>strings.ToLower\<close> and \<^verbatim>\<open>strings.EqualFold\<close> on ASCII letters; other bytes are compared as they are.
\<close>

definition lower_char :: "char \<Rightarrow> char" where
  "lower_char c = (if CHR ''A'' \<le> c \<and> c \<le> CHR ''Z'' then char_of (of_char c + 32 :: nat) else c)"

definition ToLower :: "string \<Rightarrow> string" where
  "ToLower s = map lower_char s"

definition EqualFold :: "string \<Rightarrow> string \<Rightarrow> bool" where
  "EqualFold s t \<longleftrightarrow> ToLower s = ToLower t"

section \<open>path\<close>

text \<open>
  \<^verbatim>\<open>path.Clean\<close>: empty and \<^verbatim>\<open>.\<close> elements vanish, \<^verbatim>\<open>..\<close> cancels the element before it and is
  dropped at the root.  \<open>clean_step\<close> handles one element, with the elements kept so far reversed.
\<close>

definition clean_step :: "bool \<Rightarrow> string list \<Rightarrow> string \<Rightarrow> string list" where
  "clean_step rooted stk c =
     (if c = [] \<or> c = ''.'' then stk
      else if c = ''..'' then
        (case stk of
           [] \<Rightarrow> (if rooted then [] else [''..''])
         | t # ts \<Rightarrow> if t = ''..'' then ''..'' # t # ts else ts)
      else c # stk)"

definition path_clean :: "string \<Rightarrow> string" where
  "path_clean p =
     (if p = [] then ''.''
      else
        let rooted = (hd p = CHR ''/'');
            s = join_with ''/'' (rev (foldl (clean_step rooted) [] (split_on CHR ''/'' p)))
        in if rooted then CHR ''/'' # s else if s = [] then ''.'' else s)"

definition path_dir :: "string \<Rightarrow> string" where
  "path_dir p = path_clean (rev (dropWhile (\<lambda>c. c \<noteq> CHR ''/'') (rev p)))"

definition path_base :: "string \<Rightarrow> string" where
  "path_base p =
     (if p = [] then ''.''
      else let r = dropWhile (\<lambda>c. c = CHR ''/'') (rev p);
               b = rev (takeWhile (\<lambda>c. c \<noteq> CHR ''/'') r)
           in if b = [] then ''/'' else b)"

definition path_ext :: "string \<Rightarrow> string" where
  "path_ext p =
     (let t = takeWhile (\<lambda>c. c \<noteq> CHR ''/'') (rev p)
      in if CHR ''.'' \<in> set t then CHR ''.'' # rev (takeWhile (\<lambda>c. c \<noteq> CHR ''.'') t) else [])"

definition path_join :: "string list \<Rightarrow> string" where
  "path_join xs =
     (let ys = filter (\<lambda>x. x \<noteq> []) xs in if ys = [] then [] else path_clean (join_with ''/'' ys))"

section \<open>Trimming\<close>

text \<open>A trimmed string stays as it is when trimmed again.\<close>

lemma trim_left_suffix: "suffix (trim_left_fuel n rs s) s"
  by (induction n arbitrary: s)
     (auto split: option.splits intro: suffix_order.trans [OF _ suffix_drop])

lemma trim_left_done:
  assumes "\<forall>r\<in>set rs. r \<noteq> []" and "length s \<le> n"
  shows "find (\<lambda>r. prefix r (trim_left_fuel n rs s)) rs = None"
  using assms(2)
proof (induction n arbitrary: s)
  case 0
  then show ?case using assms(1) by (auto simp: find_None_iff)
next
  case (Suc n)
  show ?case
  proof (cases "find (\<lambda>r. prefix r s) rs")
    case (Some r)
    then have "r \<noteq> []" "prefix r s" using assms(1) by (auto simp: find_Some_iff)
    then have "length (drop (length r) s) \<le> n" using Suc.prems by (cases r) auto
    then show ?thesis using Suc.IH Some by simp
  qed simp
qed

lemma trim_left_fixed: "find (\<lambda>r. prefix r s) rs = None \<Longrightarrow> trim_left_fuel n rs s = s"
  by (cases n) simp_all

lemma space_runes_ne: "\<forall>r\<in>set space_runes. r \<noteq> []" "\<forall>r\<in>set (map rev space_runes). r \<noteq> []"
  by (simp_all add: space_runes_def)

lemma trim_space_idem [simp]: "trim_space (trim_space s) = trim_space s"
proof -
  define l where "l = trim_left_fuel (length s) space_runes s"
  define r where "r = trim_left_fuel (length l) (map rev space_runes) (rev l)"
  have t: "trim_space s = rev r" by (simp add: trim_space_def l_def r_def Let_def)
  have "prefix (rev r) l"
    using trim_left_suffix [of "length l" "map rev space_runes" "rev l"] by (simp add: r_def suffix_to_prefix)
  moreover have "find (\<lambda>r. prefix r l) space_runes = None"
    unfolding l_def by (rule trim_left_done) (simp_all add: space_runes_ne)
  ultimately have "find (\<lambda>x. prefix x (rev r)) space_runes = None"
    by (meson find_None_iff prefix_order.trans)
  moreover have "find (\<lambda>x. prefix x r) (map rev space_runes) = None"
    unfolding r_def by (rule trim_left_done [OF space_runes_ne(2)]) simp
  ultimately have "trim_left_fuel (length (rev r)) space_runes (rev r) = rev r"
    "trim_left_fuel (length (rev r)) (map rev space_runes) r = r"
    by (simp_all only: trim_left_fixed)
  then show ?thesis unfolding t by (simp add: trim_space_def)
qed

text \<open>A string that begins and ends with a printable ASCII character has nothing to trim.\<close>

definition plain_char :: "char \<Rightarrow> bool" where
  "plain_char c \<longleftrightarrow> (32::nat) < of_char c \<and> of_char c < (127::nat)"

lemma space_runes_heads: "list_all (\<lambda>r. \<not> plain_char (hd r) \<and> \<not> plain_char (last r)) space_runes"
  by (simp add: space_runes_def plain_char_def take_bit_eq_mod)

lemma trim_space_plain:
  assumes "s \<noteq> []" and "plain_char (hd s)" and "plain_char (last s)"
  shows "trim_space s = s"
proof -
  have ne: "\<forall>r\<in>set space_runes. r \<noteq> [] \<and> \<not> plain_char (hd r) \<and> \<not> plain_char (last r)"
    using space_runes_heads space_runes_ne(1) by (auto simp: list_all_iff)
  have "find (\<lambda>r. prefix r s) space_runes = None"
    using ne assms(1,2) by (auto simp: find_None_iff prefix_def)
  moreover have "\<not> prefix (rev r) (rev s)" if "r \<in> set space_runes" for r
  proof
    assume "prefix (rev r) (rev s)"
    then obtain zs where "rev s = rev r @ zs" by (auto simp: prefix_def)
    then have "last s = last r" using ne that by (metis hd_append2 hd_rev rev_is_Nil_conv)
    then show False using ne that assms(3) by auto
  qed
  then have "find (\<lambda>r. prefix r (rev s)) (map rev space_runes) = None"
    by (auto simp: find_None_iff)
  ultimately show ?thesis by (simp add: trim_space_def trim_left_fixed)
qed

section \<open>Component representation of cleaned absolute paths\<close>

definition abs_path :: "string list \<Rightarrow> string" where
  "abs_path cs = CHR ''/'' # join_with ''/'' cs"

definition clean_comp :: "string \<Rightarrow> bool" where
  "clean_comp c \<longleftrightarrow> c \<noteq> [] \<and> CHR ''/'' \<notin> set c \<and> c \<noteq> ''.'' \<and> c \<noteq> ''..''"

definition clean_comps :: "string \<Rightarrow> string list" where
  "clean_comps p = rev (foldl (clean_step True) [] (split_on CHR ''/'' p))"

definition abs_clean :: "string \<Rightarrow> bool" where
  "abs_clean p \<longleftrightarrow> p = abs_path (clean_comps p)"

named_theorems path_simps \<open>rewrite rules for cleaned absolute paths\<close>

subsection \<open>Splitting and joining\<close>

lemma split_on_nonempty [simp]: "split_on c s \<noteq> []"
  by (cases s) (auto split: list.splits)

lemma split_on_append: "split_on c (x @ c # y) = split_on c x @ split_on c y"
proof (induction x)
  case Nil
  then show ?case by simp
next
  case (Cons a x)
  then show ?case
    by (cases "split_on c x") (auto split: list.splits)
qed

lemma split_on_id: "c \<notin> set x \<Longrightarrow> split_on c x = [x]"
  by (induction x) auto

lemma split_on_no_sep: "x \<in> set (split_on c s) \<Longrightarrow> c \<notin> set x"
proof (induction s arbitrary: x)
  case Nil
  then show ?case by simp
next
  case (Cons a s)
  then show ?case
    by (cases "split_on c s") (auto split: if_splits)
qed

lemma join_append:
  "xs \<noteq> [] \<Longrightarrow> ys \<noteq> [] \<Longrightarrow> join_with sep (xs @ ys) = join_with sep xs @ sep @ join_with sep ys"
proof (induction sep xs rule: join_with.induct)
  case (2 sep x)
  then show ?case by (cases ys) auto
qed auto

lemma split_join:
  "cs \<noteq> [] \<Longrightarrow> \<forall>x\<in>set cs. c \<notin> set x \<Longrightarrow> split_on c (join_with [c] cs) = cs"
  by (induction "[c]" cs rule: join_with.induct) (auto simp: split_on_append split_on_id)

lemma join_eq_Nil: "join_with ''/'' cs = [] \<longleftrightarrow> cs = [] \<or> cs = [[]]"
  by (induction "''/''" cs rule: join_with.induct) auto

subsection \<open>Cleaning\<close>

lemma clean_step_clean:
  "\<forall>d\<in>set stk. clean_comp d \<Longrightarrow> CHR ''/'' \<notin> set c \<Longrightarrow> \<forall>d\<in>set (clean_step True stk c). clean_comp d"
  by (cases stk) (simp_all add: clean_step_def clean_comp_def)

lemma foldl_clean_step_clean:
  "\<forall>d\<in>set stk. clean_comp d \<Longrightarrow> \<forall>c\<in>set cs. CHR ''/'' \<notin> set c
    \<Longrightarrow> \<forall>d\<in>set (foldl (clean_step True) stk cs). clean_comp d"
proof (induction cs arbitrary: stk)
  case (Cons c cs)
  then have "\<forall>d\<in>set (clean_step True stk c). clean_comp d"
    by (intro clean_step_clean) simp_all
  with Cons show ?case by simp
qed simp

lemma clean_comps_clean [simp]: "list_all clean_comp (clean_comps p)"
  using foldl_clean_step_clean [of "[]" "split_on CHR ''/'' p"]
  by (auto simp: clean_comps_def list_all_iff split_on_no_sep)

lemma clean_comps_slash [simp]: "clean_comps (CHR ''/'' # p) = clean_comps p"
  by (simp add: clean_comps_def clean_step_def)

lemma path_clean_rooted [path_simps]: "path_clean (CHR ''/'' # p) = abs_path (clean_comps p)"
  by (simp add: path_clean_def abs_path_def clean_comps_def clean_step_def Let_def)

lemma foldl_clean_step_id:
  "list_all clean_comp cs \<Longrightarrow> foldl (clean_step True) stk cs = rev cs @ stk"
  by (induction cs arbitrary: stk) (auto simp: clean_step_def clean_comp_def)

lemma clean_comp_no_slash: "list_all clean_comp cs \<Longrightarrow> \<forall>x\<in>set cs. CHR ''/'' \<notin> set x"
  by (auto simp: list_all_iff clean_comp_def)

lemma clean_comps_join [simp]:
  assumes "list_all clean_comp cs"
  shows "clean_comps (join_with ''/'' cs) = cs"
proof (cases "cs = []")
  case True
  then show ?thesis by (simp add: clean_comps_def clean_step_def)
next
  case False
  then show ?thesis
    using assms by (simp add: clean_comps_def split_join clean_comp_no_slash foldl_clean_step_id)
qed

lemma clean_comps_abs_path [simp]: "list_all clean_comp cs \<Longrightarrow> clean_comps (abs_path cs) = cs"
  by (simp add: abs_path_def)

lemma abs_clean_abs_path [simp]: "list_all clean_comp cs \<Longrightarrow> abs_clean (abs_path cs)"
  by (simp add: abs_clean_def)

lemma abs_cleanE:
  assumes "abs_clean p"
  obtains cs where "p = abs_path cs" "list_all clean_comp cs"
  using assms that [of "clean_comps p"] by (simp add: abs_clean_def)

lemma path_clean_abs_path [path_simps, simp]:
  "list_all clean_comp cs \<Longrightarrow> path_clean (abs_path cs) = abs_path cs"
  using path_clean_rooted [of "join_with ''/'' cs"] by (simp add: abs_path_def)

lemma path_clean_slash_abs [path_simps, simp]:
  "list_all clean_comp cs \<Longrightarrow> path_clean (CHR ''/'' # abs_path cs) = abs_path cs"
  by (simp add: path_clean_rooted)

lemma abs_path_inject [simp]:
  "list_all clean_comp cs \<Longrightarrow> list_all clean_comp ds \<Longrightarrow> abs_path cs = abs_path ds \<longleftrightarrow> cs = ds"
  by (metis clean_comps_abs_path)

lemma abs_path_Nil [simp]: "abs_path [] = ''/''"
  by (simp add: abs_path_def)

lemma abs_path_single: "abs_path [c] = CHR ''/'' # c"
  by (simp add: abs_path_def)

lemma abs_clean_root [simp]: "abs_clean ''/''"
  using abs_clean_abs_path [of "[]"] by simp

subsection \<open>Parent, base name and prefixes\<close>

lemma join_snoc:
  "join_with ''/'' (cs @ [c]) = (if cs = [] then c else join_with ''/'' cs @ CHR ''/'' # c)"
  by (cases "cs = []") (simp_all add: join_append)

lemma abs_path_snoc:
  "abs_path (cs @ [c]) = (if cs = [] then CHR ''/'' # c else abs_path cs @ CHR ''/'' # c)"
  by (simp add: abs_path_def join_snoc)

lemma takeWhile_no_slash:
  "CHR ''/'' \<notin> set c \<Longrightarrow> takeWhile (\<lambda>x. x \<noteq> CHR ''/'') (rev c @ CHR ''/'' # xs) = rev c"
  by (rule takeWhile_tail [of _ "CHR ''/''" _, THEN trans])
     (auto simp: takeWhile_eq_all_conv)

lemma dropWhile_no_slash:
  "CHR ''/'' \<notin> set c \<Longrightarrow> dropWhile (\<lambda>x. x \<noteq> CHR ''/'') (rev c @ CHR ''/'' # xs) = CHR ''/'' # xs"
  by (subst dropWhile_append2) auto

lemma path_dir_snoc [path_simps, simp]:
  assumes "list_all clean_comp cs" "clean_comp c"
  shows "path_dir (abs_path (cs @ [c])) = abs_path cs"
proof -
  obtain q where q: "abs_path (cs @ [c]) = q @ CHR ''/'' # c" "path_clean (q @ ''/'') = abs_path cs"
  proof (cases "cs = []")
    case True
    show ?thesis
      using that [of "[]"] True assms path_clean_rooted [of "[]"]
      by (simp add: abs_path_single clean_comps_def clean_step_def)
  next
    case False
    have "path_clean (CHR ''/'' # (join_with ''/'' cs @ ''/'')) = abs_path cs"
      using assms False unfolding path_clean_rooted
      by (simp add: clean_comps_def split_on_append split_join clean_comp_no_slash
          foldl_clean_step_id clean_step_def)
    then show ?thesis
      using that [of "abs_path cs"] False by (simp add: abs_path_snoc) (simp add: abs_path_def)
  qed
  have "rev (dropWhile (\<lambda>x. x \<noteq> CHR ''/'') (rev (q @ CHR ''/'' # c))) = q @ ''/''"
    using assms(2) dropWhile_no_slash [of c "rev q"] by (simp add: clean_comp_def)
  then show ?thesis by (simp add: path_dir_def q)
qed

lemma path_dir_root [path_simps, simp]: "path_dir ''/'' = ''/''"
  by (simp add: path_dir_def path_clean_def clean_step_def)

lemma path_base_root [path_simps, simp]: "path_base ''/'' = ''/''"
  by (simp add: path_base_def)

lemma path_base_snoc [path_simps, simp]:
  assumes "list_all clean_comp cs" "clean_comp c"
  shows "path_base (abs_path (cs @ [c])) = c"
proof -
  obtain q where q: "abs_path (cs @ [c]) = q @ CHR ''/'' # c"
    by (cases "cs = []") (auto simp: abs_path_single abs_path_snoc intro: that)
  have c: "c \<noteq> []" "CHR ''/'' \<notin> set c"
    using assms(2) by (auto simp: clean_comp_def)
  then have "dropWhile (\<lambda>x. x = CHR ''/'') (rev c @ CHR ''/'' # rev q) = rev c @ CHR ''/'' # rev q"
    by (cases "rev c") (auto simp: dropWhile_eq_self_iff)
  then show ?thesis
    using c takeWhile_no_slash [of c "rev q"] by (simp add: path_base_def q Let_def)
qed

lemma abs_path_append:
  "es \<noteq> [] \<Longrightarrow> abs_path (cs @ es)
     = (if cs = [] then abs_path es else abs_path cs @ CHR ''/'' # join_with ''/'' es)"
  by (simp add: abs_path_def join_append)

lemma prefix_abs_path [path_simps]:
  assumes cs: "list_all clean_comp cs" "cs \<noteq> []" and ds: "list_all clean_comp ds"
  shows "prefix (abs_path cs @ ''/'') (abs_path ds) \<longleftrightarrow> strict_prefix cs ds"
proof
  assume "prefix (abs_path cs @ ''/'') (abs_path ds)"
  then obtain r where r: "join_with ''/'' ds = join_with ''/'' cs @ CHR ''/'' # r"
    by (auto simp: prefix_def abs_path_def)
  then have "ds \<noteq> []" by auto
  then have "ds = split_on CHR ''/'' (join_with ''/'' cs @ CHR ''/'' # r)"
    using ds by (simp flip: r add: split_join clean_comp_no_slash)
  also have "\<dots> = cs @ split_on CHR ''/'' r"
    using cs by (simp add: split_on_append split_join clean_comp_no_slash)
  finally show "strict_prefix cs ds"
    by (metis prefixI split_on_nonempty strict_prefixI append_Nil2 same_append_eq)
next
  assume "strict_prefix cs ds"
  then obtain es where "ds = cs @ es" "es \<noteq> []"
    by (auto elim: strict_prefixE')
  then show "prefix (abs_path cs @ ''/'') (abs_path ds)"
    using cs by (simp add: abs_path_append)
qed

lemma prefix_root_abs [simp]: "prefix ''/'' (abs_path ds)"
  by (simp add: abs_path_def)

lemma trim_prefix_abs_path [path_simps]:
  assumes "cs \<noteq> []" "es \<noteq> []"
  shows "trim_prefix (abs_path cs @ ''/'') (abs_path (cs @ es)) = join_with ''/'' es"
proof -
  have "abs_path (cs @ es) = (abs_path cs @ ''/'') @ join_with ''/'' es"
    using assms by (simp add: abs_path_append)
  then show ?thesis
    unfolding trim_prefix_def by (metis append_eq_conv_conj prefixI)
qed

lemma path_join_abs_path [path_simps]:
  assumes "list_all clean_comp ns" "list_all clean_comp es" "es \<noteq> []"
  shows "path_join [abs_path ns, join_with ''/'' es] = abs_path (ns @ es)"
proof -
  have ne: "join_with ''/'' es \<noteq> []"
    using assms by (auto simp: join_eq_Nil clean_comp_def)
  have "clean_comps (join_with ''/'' ns @ CHR ''/'' # join_with ''/'' es) = ns @ es"
    using assms
    by (cases "ns = []")
       (simp_all add: clean_comps_def split_on_append split_join clean_comp_no_slash
         foldl_clean_step_id clean_step_def)
  then show ?thesis
    using ne by (simp add: path_join_def abs_path_def path_clean_rooted)
qed

end
