(* ===== verification/Vfs_Interface.thy ===== *)
theory Vfs_Interface
  imports GoPath
begin

text \<open>
  The interfaces of \<^verbatim>\<open>internal/vfs/vfs.go\<close>.  A Go interface value is a record of its methods over
  an explicit world \<open>'w\<close> (everything the methods read or mutate); a method that can change the
  world returns the new one.  Buffers are values: \<^verbatim>\<open>Read(p)\<close> takes \<^verbatim>\<open>len(p)\<close> and returns the bytes it
  stored, so its \<^verbatim>\<open>n\<close> is their length.  The locales state what the callers rely on.
\<close>

unbundle bit_operations_syntax

section \<open>Open flags, modes and file information\<close>

type_synonym flags = "64 word"
type_synonym filemode = "32 word"

text \<open>The values of package \<^verbatim>\<open>os\<close> on Linux.\<close>

definition O_RDONLY :: flags where "O_RDONLY = 0"
definition O_WRONLY :: flags where "O_WRONLY = 1"
definition O_RDWR :: flags where "O_RDWR = 2"
definition O_CREATE :: flags where "O_CREATE = 0x40"
definition O_EXCL :: flags where "O_EXCL = 0x80"
definition O_TRUNC :: flags where "O_TRUNC = 0x200"
definition O_APPEND :: flags where "O_APPEND = 0x400"

lemmas open_flag_defs = O_RDONLY_def O_WRONLY_def O_RDWR_def O_CREATE_def O_EXCL_def O_TRUNC_def
  O_APPEND_def

definition ModeDir :: filemode where "ModeDir = 0x80000000"
definition ModePerm :: filemode where "ModePerm = 0x1FF"
definition ModeType :: filemode where "ModeType = 0x8F280000"

text \<open>Times are nanoseconds since the Unix epoch.\<close>

record fileinfo =
  fi_name :: string
  fi_size :: int
  fi_mode :: filemode
  fi_modTime :: int
  fi_isDir :: bool

record statvfs =
  BlockSize :: "64 word"
  TotalBlocks :: "64 word"
  FreeBlocks :: "64 word"
  AvailBlocks :: "64 word"
  TotalFiles :: "64 word"
  FreeFiles :: "64 word"
  NameMaxLen :: "64 word"

record userPermissions =
  pm_Upload :: bool
  pm_Download :: bool
  pm_Delete :: bool
  pm_Rename :: bool
  pm_CreateDir :: bool
  pm_ListDir :: bool
  pm_Chmod :: bool
  pm_MaxFileSize :: int
  pm_AllowedExts :: "string list"
  pm_DeniedExts :: "string list"

section \<open>Interface values\<close>

record 'w direntry =
  de_name :: "'w \<Rightarrow> string"
  de_isDir :: "'w \<Rightarrow> bool"
  de_type :: "'w \<Rightarrow> filemode"
  de_info :: "'w \<Rightarrow> fileinfo res"

text \<open>Go's \<^verbatim>\<open>io.SeekStart\<close>, \<^verbatim>\<open>io.SeekCurrent\<close> and \<^verbatim>\<open>io.SeekEnd\<close>.\<close>

definition SeekStart :: int where "SeekStart = 0"
definition SeekCurrent :: int where "SeekCurrent = 1"
definition SeekEnd :: int where "SeekEnd = 2"

record 'w vfile =
  f_read :: "nat \<Rightarrow> 'w \<Rightarrow> (bytes \<times> goerr option) \<times> 'w"
  f_readAt :: "nat \<Rightarrow> int \<Rightarrow> 'w \<Rightarrow> (bytes \<times> goerr option) \<times> 'w"
  f_write :: "bytes \<Rightarrow> 'w \<Rightarrow> (nat \<times> goerr option) \<times> 'w"
  f_writeAt :: "bytes \<Rightarrow> int \<Rightarrow> 'w \<Rightarrow> (nat \<times> goerr option) \<times> 'w"
  f_seek :: "int \<Rightarrow> int \<Rightarrow> 'w \<Rightarrow> int res \<times> 'w"
  f_close :: "'w \<Rightarrow> goerr option \<times> 'w"
  f_stat :: "'w \<Rightarrow> fileinfo res"
  f_sync :: "'w \<Rightarrow> goerr option \<times> 'w"
  f_truncate :: "int \<Rightarrow> 'w \<Rightarrow> goerr option \<times> 'w"
  f_readDir :: "int \<Rightarrow> 'w \<Rightarrow> 'w direntry list res"
  f_name :: string

text \<open>\<open>fs_id\<close> is the identity of the interface value, which \<^verbatim>\<open>oldBackend != newBackend\<close> compares.\<close>

record 'w filesystem =
  fs_id :: nat
  fs_open :: "string \<Rightarrow> flags \<Rightarrow> filemode \<Rightarrow> 'w \<Rightarrow> 'w vfile res \<times> 'w"
  fs_stat :: "string \<Rightarrow> 'w \<Rightarrow> fileinfo res"
  fs_lstat :: "string \<Rightarrow> 'w \<Rightarrow> fileinfo res"
  fs_rename :: "string \<Rightarrow> string \<Rightarrow> 'w \<Rightarrow> goerr option \<times> 'w"
  fs_remove :: "string \<Rightarrow> 'w \<Rightarrow> goerr option \<times> 'w"
  fs_removeAll :: "string \<Rightarrow> 'w \<Rightarrow> goerr option \<times> 'w"
  fs_mkdir :: "string \<Rightarrow> filemode \<Rightarrow> 'w \<Rightarrow> goerr option \<times> 'w"
  fs_mkdirAll :: "string \<Rightarrow> filemode \<Rightarrow> 'w \<Rightarrow> goerr option \<times> 'w"
  fs_readDir :: "string \<Rightarrow> 'w \<Rightarrow> 'w direntry list res"
  fs_symlink :: "string \<Rightarrow> string \<Rightarrow> 'w \<Rightarrow> goerr option \<times> 'w"
  fs_readlink :: "string \<Rightarrow> 'w \<Rightarrow> string res"
  fs_chmod :: "string \<Rightarrow> filemode \<Rightarrow> 'w \<Rightarrow> goerr option \<times> 'w"
  fs_chown :: "string \<Rightarrow> int \<Rightarrow> int \<Rightarrow> 'w \<Rightarrow> goerr option \<times> 'w"
  fs_chtimes :: "string \<Rightarrow> int \<Rightarrow> int \<Rightarrow> 'w \<Rightarrow> goerr option \<times> 'w"
  fs_statvfs :: "string \<Rightarrow> 'w \<Rightarrow> statvfs res"

section \<open>Contracts\<close>

text \<open>
  What every caller relies on (the documented contract of \<^verbatim>\<open>io.Reader\<close>, \<^verbatim>\<open>io.ReaderAt\<close> and
  \<^verbatim>\<open>io.Writer\<close>): a read never returns more bytes than asked for, a write never reports more bytes
  than given, and both keep the world's invariant.
\<close>

locale file_contract =
  fixes inv :: "'w \<Rightarrow> bool" and f :: "'w vfile"
  assumes read_len: "inv w \<Longrightarrow> f_read f n w = ((bs, e), w') \<Longrightarrow> length bs \<le> n"
    and read_inv: "inv w \<Longrightarrow> f_read f n w = (r, w') \<Longrightarrow> inv w'"
    and readAt_len: "inv w \<Longrightarrow> f_readAt f n off w = ((bs, e), w') \<Longrightarrow> length bs \<le> n"
    and readAt_inv: "inv w \<Longrightarrow> f_readAt f n off w = (r, w') \<Longrightarrow> inv w'"
    and write_len: "inv w \<Longrightarrow> f_write f p w = ((n, e), w') \<Longrightarrow> n \<le> length p"
    and write_inv: "inv w \<Longrightarrow> f_write f p w = (r', w') \<Longrightarrow> inv w'"
    and writeAt_len: "inv w \<Longrightarrow> f_writeAt f p off w = ((n, e), w') \<Longrightarrow> n \<le> length p"
    and writeAt_inv: "inv w \<Longrightarrow> f_writeAt f p off w = (r', w') \<Longrightarrow> inv w'"
    and seek_inv: "inv w \<Longrightarrow> f_seek f off wh w = (s, w') \<Longrightarrow> inv w'"
    and close_inv: "inv w \<Longrightarrow> f_close f w = (c, w') \<Longrightarrow> inv w'"
    and sync_inv: "inv w \<Longrightarrow> f_sync f w = (c, w') \<Longrightarrow> inv w'"
    and truncate_inv: "inv w \<Longrightarrow> f_truncate f sz w = (c, w') \<Longrightarrow> inv w'"

text \<open>A file system keeps its invariant and hands out files that satisfy the contract.\<close>

locale fs_contract =
  fixes inv :: "'w \<Rightarrow> bool" and fs :: "'w filesystem"
  assumes open_inv: "inv w \<Longrightarrow> fs_open fs p fl pm w = (r, w') \<Longrightarrow> inv w'"
    and open_file: "inv w \<Longrightarrow> fs_open fs p fl pm w = (Inr f, w') \<Longrightarrow> file_contract inv f"
    and rename_inv: "inv w \<Longrightarrow> fs_rename fs p q w = (c, w') \<Longrightarrow> inv w'"
    and remove_inv: "inv w \<Longrightarrow> fs_remove fs p w = (c, w') \<Longrightarrow> inv w'"
    and removeAll_inv: "inv w \<Longrightarrow> fs_removeAll fs p w = (c, w') \<Longrightarrow> inv w'"
    and mkdir_inv: "inv w \<Longrightarrow> fs_mkdir fs p pm w = (c, w') \<Longrightarrow> inv w'"
    and mkdirAll_inv: "inv w \<Longrightarrow> fs_mkdirAll fs p pm w = (c, w') \<Longrightarrow> inv w'"
    and symlink_inv: "inv w \<Longrightarrow> fs_symlink fs p q w = (c, w') \<Longrightarrow> inv w'"
    and chmod_inv: "inv w \<Longrightarrow> fs_chmod fs p pm w = (c, w') \<Longrightarrow> inv w'"
    and chown_inv: "inv w \<Longrightarrow> fs_chown fs p u g w = (c, w') \<Longrightarrow> inv w'"
    and chtimes_inv: "inv w \<Longrightarrow> fs_chtimes fs p at mt w = (c, w') \<Longrightarrow> inv w'"

end
