(* ===== verification/Vfs_Mounts.thy ===== *)
theory Vfs_Mounts
  imports Vfs_Interface
begin

text \<open>
  \<^verbatim>\<open>internal/vfs/resolver.go\<close> and \<^verbatim>\<open>internal/vfs/mount.go\<close>: canonical virtual paths and the mount
  table.  The theorems show that a resolved path is confined to the virtual root, and that
  \<^verbatim>\<open>Lookup\<close> on any table built by \<^verbatim>\<open>Mount\<close> calls is longest-prefix matching on path components.
\<close>

section \<open>Resolver\<close>

definition maxPathDepth :: nat where
  "maxPathDepth = 256"

definition NUL :: char where
  "NUL = CHR 0x00"

definition Resolve :: "string \<Rightarrow> string res" where
  "Resolve virtualPath =
     (let cleaned = path_clean (CHR ''/'' # virtualPath) in
      if NUL \<in> set cleaned then Inl ErrForbiddenPathChar
      else if \<not> prefix ''/'' cleaned then Inl ErrPathEscape
      else let depth = length (filter (\<lambda>part. part \<noteq> []) (split_on CHR ''/'' cleaned)) in
        if depth > maxPathDepth then Inl ErrPathTooDeep else Inr cleaned)"

definition ResolvePair :: "string \<Rightarrow> string \<Rightarrow> (string \<times> string) res" where
  "ResolvePair from to =
     (case Resolve from of
        Inl e \<Rightarrow> Inl e
      | Inr f \<Rightarrow> (case Resolve to of Inl e \<Rightarrow> Inl e | Inr t \<Rightarrow> Inr (f, t)))"

section \<open>Mount table\<close>

record 'w mountEntry =
  me_path :: string
  me_backend :: "'w filesystem"
  me_readOnly :: bool

type_synonym 'w mountTable = "'w mountEntry list"

definition NewMountTable :: "'w mountTable" where
  "NewMountTable = []"

definition Mount :: "'w mountTable \<Rightarrow> string \<Rightarrow> 'w filesystem \<Rightarrow> bool \<Rightarrow> 'w mountTable" where
  "Mount mt virtualPath backend readOnly =
     sort_key (\<lambda>m. - int (length (me_path m)))
       (mt @ [\<lparr>me_path = path_clean (CHR ''/'' # virtualPath), me_backend = backend,
               me_readOnly = readOnly\<rparr>])"

fun lookup_loop :: "'w mountEntry list \<Rightarrow> string \<Rightarrow> ('w filesystem \<times> string \<times> bool) res" where
  "lookup_loop [] cleaned = Inl ErrNoMount"
| "lookup_loop (m # ms) cleaned =
     (if me_path m = ''/'' then
        Inr (me_backend m, (if cleaned = [] then ''/'' else cleaned), me_readOnly m)
      else if cleaned = me_path m \<or> prefix (me_path m @ ''/'') cleaned then
        (let rel = trim_prefix (me_path m) cleaned in
         Inr (me_backend m, (if rel = [] then ''/'' else rel), me_readOnly m))
      else lookup_loop ms cleaned)"

definition Lookup :: "'w mountTable \<Rightarrow> string \<Rightarrow> ('w filesystem \<times> string \<times> bool) res" where
  "Lookup mt virtualPath = lookup_loop mt (path_clean (CHR ''/'' # virtualPath))"

definition ListMountPoints :: "'w mountTable \<Rightarrow> string \<Rightarrow> string list" where
  "ListMountPoints mt dir =
     (let d = path_clean (CHR ''/'' # dir) in
      sort (map (\<lambda>m. path_base (me_path m))
        (filter (\<lambda>m. path_dir (me_path m) = d \<and> me_path m \<noteq> d) mt)))"

text \<open>The table after a sequence of \<^verbatim>\<open>Mount\<close> calls.\<close>

definition mounted :: "(string \<times> 'w filesystem \<times> bool) list \<Rightarrow> 'w mountTable" where
  "mounted ms = foldl (\<lambda>mt (p, b, ro). Mount mt p b ro) NewMountTable ms"

section \<open>Resolution is confined\<close>

lemma filter_nonempty_split:
  "list_all clean_comp cs \<Longrightarrow> filter (\<lambda>part. part \<noteq> []) (split_on CHR ''/'' (abs_path cs)) = cs"
  by (cases "cs = []")
     (auto simp: abs_path_def split_join clean_comp_no_slash clean_comp_def list_all_iff
       intro: filter_True)

lemma Resolve_eq:
  "Resolve p =
     (if NUL \<in> set (abs_path (clean_comps p)) then Inl ErrForbiddenPathChar
      else if length (clean_comps p) > 256 then Inl ErrPathTooDeep
      else Inr (abs_path (clean_comps p)))"
  by (simp add: Resolve_def path_clean_rooted filter_nonempty_split maxPathDepth_def Let_def)

lemma Resolve_Inr:
  "Resolve p = Inr r \<Longrightarrow>
     r = abs_path (clean_comps p) \<and> NUL \<notin> set r \<and> length (clean_comps p) \<le> 256"
  by (auto simp: Resolve_eq split: if_splits)

section \<open>Longest-prefix matching\<close>

definition covers :: "'w mountEntry \<Rightarrow> string \<Rightarrow> bool" where
  "covers m p \<longleftrightarrow> prefix (clean_comps (me_path m)) (clean_comps p)"

definition depth :: "'w mountEntry \<Rightarrow> nat" where
  "depth m = length (clean_comps (me_path m))"

definition table_ok :: "'w mountTable \<Rightarrow> bool" where
  "table_ok mt \<longleftrightarrow> (\<forall>m\<in>set mt. abs_clean (me_path m)) \<and> sorted (map (\<lambda>m. - int (length (me_path m))) mt)"

lemma table_ok_Mount: "table_ok mt \<Longrightarrow> table_ok (Mount mt p b ro)"
  by (auto simp: table_ok_def Mount_def path_clean_rooted)

lemma table_ok_mounted: "table_ok (mounted (ms :: (string \<times> 'w filesystem \<times> bool) list))"
proof -
  have "table_ok mt \<Longrightarrow> table_ok (foldl (\<lambda>mt (p, b, ro). Mount mt p b ro) mt ms)" for mt :: "'w mountTable"
    by (induction ms arbitrary: mt) (auto simp: table_ok_Mount)
  from this [of NewMountTable] show ?thesis
    by (simp add: mounted_def) (simp add: NewMountTable_def table_ok_def)
qed

text \<open>The test of the loop, and the relative path it computes, in terms of components.\<close>

lemma match_iff:
  assumes "list_all clean_comp cs" "cs \<noteq> []" "list_all clean_comp ds"
  shows "(abs_path ds = abs_path cs \<or> prefix (abs_path cs @ ''/'') (abs_path ds)) \<longleftrightarrow> prefix cs ds"
  unfolding prefix_abs_path [OF assms] using assms by (auto simp: strict_prefix_def)

lemma trim_prefix_mount:
  assumes "list_all clean_comp cs" "cs \<noteq> []" "list_all clean_comp (cs @ es)"
  shows "(let rel = trim_prefix (abs_path cs) (abs_path (cs @ es)) in if rel = [] then ''/'' else rel)
         = abs_path es"
proof (cases "es = []")
  case True
  then show ?thesis by (simp add: trim_prefix_def)
next
  case False
  then have "abs_path (cs @ es) = abs_path cs @ abs_path es"
    using assms(2) by (simp add: abs_path_append) (simp add: abs_path_def)
  then show ?thesis by (simp add: trim_prefix_def abs_path_def)
qed

lemma lookup_loop_Cons:
  assumes "abs_clean (me_path m)"
  shows "lookup_loop (m # ms) (abs_path (clean_comps p)) =
     (if covers m p
      then Inr (me_backend m, abs_path (drop (depth m) (clean_comps p)), me_readOnly m)
      else lookup_loop ms (abs_path (clean_comps p)))"
proof -
  obtain cs where cs: "me_path m = abs_path cs" "list_all clean_comp cs"
    using assms by (rule abs_cleanE)
  show ?thesis
  proof (cases "cs = []")
    case True
    then show ?thesis
      using cs clean_comps_abs_path [of "[]"] by (simp add: covers_def depth_def) (simp add: abs_path_def)
  next
    case False
    have root: "me_path m \<noteq> ''/''"
      using cs False abs_path_inject [of cs "[]"] by simp
    show ?thesis
    proof (cases "prefix cs (clean_comps p)")
      case True
      then obtain es where es: "clean_comps p = cs @ es" by (auto elim: prefixE)
      have "list_all clean_comp (cs @ es)"
        using clean_comps_clean [of p] es by simp
      then show ?thesis
        using cs False root True trim_prefix_mount [of cs es] match_iff [of cs "clean_comps p"]
        by (simp add: covers_def depth_def es del: lookup_loop.simps list_all_append)
           (simp add: Let_def)
    next
      case no: False
      then show ?thesis
        using cs False root match_iff [of cs "clean_comps p"]
        by (simp add: covers_def)
    qed
  qed
qed

lemma covers_same_depth:
  assumes "abs_clean (me_path m)" "abs_clean (me_path m')" "covers m p" "covers m' p"
    "length (me_path m') \<le> length (me_path m)"
  shows "depth m' \<le> depth m"
proof (rule ccontr)
  assume "\<not> depth m' \<le> depth m"
  then obtain es where es: "clean_comps (me_path m') = clean_comps (me_path m) @ es" "es \<noteq> []"
    using assms(3,4) unfolding covers_def depth_def
    by (metis append_Nil2 order_refl prefixE prefix_length_prefix linear)
  have ne: "list_all clean_comp es"
    using clean_comps_clean [of "me_path m'"] es by simp
  have "length (me_path m) < length (me_path m')"
    using assms(1,2) es ne unfolding abs_clean_def
    by (cases "clean_comps (me_path m) = []")
       (simp_all add: abs_path_append,
        auto simp: abs_path_def join_eq_Nil clean_comp_def)
  with assms(5) show False by simp
qed

lemma lookup_loop_correct:
  assumes "table_ok ms"
  shows "case lookup_loop ms (abs_path (clean_comps p)) of
      Inl e \<Rightarrow> e = ErrNoMount \<and> (\<forall>m\<in>set ms. \<not> covers m p)
    | Inr (b, rel, ro) \<Rightarrow> \<exists>m\<in>set ms. covers m p \<and> (\<forall>m'\<in>set ms. covers m' p \<longrightarrow> depth m' \<le> depth m)
        \<and> b = me_backend m \<and> ro = me_readOnly m \<and> rel = abs_path (drop (depth m) (clean_comps p))"
  using assms
proof (induction ms)
  case Nil
  then show ?case by simp
next
  case (Cons m ms)
  then have ok: "abs_clean (me_path m)" "table_ok ms" and
    longest: "\<forall>m'\<in>set ms. length (me_path m') \<le> length (me_path m) \<and> abs_clean (me_path m')"
    by (auto simp: table_ok_def)
  show ?case
  proof (cases "covers m p")
    case True
    then show ?thesis
      using ok longest covers_same_depth [of m _ p]
      by (auto simp: lookup_loop_Cons simp del: lookup_loop.simps)
  next
    case False
    then show ?thesis
      using Cons.IH [OF ok(2)]
      by (auto simp: lookup_loop_Cons [OF ok(1)] simp del: lookup_loop.simps split: sum.splits)
  qed
qed


lemma child_mount_iff:
  assumes "abs_clean (me_path m)"
  shows "path_dir (me_path m) = abs_path (clean_comps d) \<and> me_path m \<noteq> abs_path (clean_comps d)
     \<longleftrightarrow> (\<exists>c. clean_comps (me_path m) = clean_comps d @ [c])"
    and "clean_comps (me_path m) = clean_comps d @ [c] \<Longrightarrow> path_base (me_path m) = c"
proof -
  obtain cs where cs: "me_path m = abs_path cs" "list_all clean_comp cs"
    using assms by (rule abs_cleanE)
  have base: "clean_comps (me_path m) = cs @ [] " using cs by simp
  show "path_dir (me_path m) = abs_path (clean_comps d) \<and> me_path m \<noteq> abs_path (clean_comps d)
     \<longleftrightarrow> (\<exists>c. clean_comps (me_path m) = clean_comps d @ [c])"
  proof (cases cs rule: rev_cases)
    case Nil
    then show ?thesis using cs abs_path_inject [of "[]" "clean_comps d"] base by auto
  next
    case (snoc es e)
    then show ?thesis using cs by auto
  qed
  show "path_base (me_path m) = c" if "clean_comps (me_path m) = clean_comps d @ [c]"
    using that cs by auto
qed

lemma set_ListMountPoints:
  assumes "table_ok mt"
  shows "c \<in> set (ListMountPoints mt d) \<longleftrightarrow> (\<exists>m\<in>set mt. clean_comps (me_path m) = clean_comps d @ [c])"
proof -
  have "c \<in> set (ListMountPoints mt d) \<longleftrightarrow>
      (\<exists>m\<in>set mt. (\<exists>e. clean_comps (me_path m) = clean_comps d @ [e]) \<and> c = path_base (me_path m))"
    using assms child_mount_iff(1) [of _ d]
    by (simp add: ListMountPoints_def path_clean_rooted table_ok_def image_iff Let_def) blast
  also have "\<dots> \<longleftrightarrow> (\<exists>m\<in>set mt. clean_comps (me_path m) = clean_comps d @ [c])"
    using assms child_mount_iff(2) [of _ d] by (auto simp: table_ok_def)
  finally show ?thesis .
qed

section \<open>Properties\<close>

text \<open>
  Path confinement: whatever path a client sends, \<^verbatim>\<open>Resolve\<close> either fails with one of its two
  errors, exactly when the canonical path holds a NUL byte or has more than 256 elements, or
  returns an absolute path whose elements are all proper names: no empty element, no
  \<^verbatim>\<open>.\<close>, no \<^verbatim>\<open>..\<close>, no NUL; and resolving the result again changes nothing.
\<close>

theorem Resolve_confined:
  "case Resolve p of
     Inl e \<Rightarrow> (e = ErrForbiddenPathChar \<and> NUL \<in> set (abs_path (clean_comps p)))
           \<or> (e = ErrPathTooDeep \<and> length (clean_comps p) > 256)
   | Inr r \<Rightarrow> (\<exists>cs. r = abs_path cs \<and> list_all clean_comp cs \<and> NUL \<notin> set r \<and> length cs \<le> 256)
           \<and> Resolve r = Inr r"
proof (cases "Resolve p")
  case (Inl e)
  then show ?thesis by (auto simp: Resolve_eq split: if_splits)
next
  case (Inr r)
  then have r: "r = abs_path (clean_comps p)" "NUL \<notin> set r" "length (clean_comps p) \<le> 256"
    by (auto dest: Resolve_Inr)
  then have "Resolve r = Inr r" by (simp add: Resolve_eq)
  then show ?thesis using Inr r clean_comps_clean [of p] by auto
qed

text \<open>
  C30. Longest-prefix match: on the table left by any sequence of \<^verbatim>\<open>Mount\<close> calls, \<^verbatim>\<open>Lookup\<close> fails
  exactly when no mount point is a prefix (by path elements) of the path, and otherwise returns
  the backend and read-only flag of a mount point that covers the path, deeper than or as deep
  as every other that does, with the remaining elements as the backend-relative path.
\<close>

theorem Lookup_longest_prefix:
  "case Lookup (mounted ms) p of
     Inl e \<Rightarrow> e = ErrNoMount \<and> (\<forall>m\<in>set (mounted ms). \<not> covers m p)
   | Inr (b, rel, ro) \<Rightarrow>
       \<exists>m\<in>set (mounted ms). covers m p
         \<and> (\<forall>m'\<in>set (mounted ms). covers m' p \<longrightarrow> depth m' \<le> depth m)
         \<and> b = me_backend m \<and> ro = me_readOnly m
         \<and> rel = abs_path (drop (depth m) (clean_comps p))"
  using lookup_loop_correct [OF table_ok_mounted, of ms p]
  by (simp add: Lookup_def path_clean_rooted)

text \<open>
  Directory listings merge exactly the mount points directly below the directory: a name is
  listed by \<^verbatim>\<open>ListMountPoints\<close> iff some mount point is the directory extended by that one
  element, and the names come sorted.
\<close>

theorem ListMountPoints_children:
  "sorted (ListMountPoints (mounted ms) d)
   \<and> (c \<in> set (ListMountPoints (mounted ms) d)
      \<longleftrightarrow> (\<exists>m\<in>set (mounted ms). clean_comps (me_path m) = clean_comps d @ [c]))"
  using set_ListMountPoints [OF table_ok_mounted] by (simp add: ListMountPoints_def Let_def)

end
