(* ===== verification/Memory_Backend.thy ===== *)
theory Memory_Backend
  imports Vfs_Mounts
begin

text \<open>
  \<^verbatim>\<open>internal/storage/memory/memory.go\<close>: the in-memory backend.  The Go map of node pointers is an
  association list from paths to addresses into a heap of nodes, because open files keep the
  node pointer they were opened with while the map entry may be renamed or removed.  Open files
  live in a heap of their own and buffer the whole contents in a slice, modelled with its spare
  capacity, since \<^verbatim>\<open>Write\<close> re-slices into it.  How much spare capacity the run-time's \<^verbatim>\<open>append\<close>
  leaves is not specified by the language: it is the parameter \<open>append_spare\<close>, a function of the old
  capacity and the new length.  Each operation holds the backend's mutex for its
  whole body and is one function here; \<open>clock\<close> is what \<^verbatim>\<open>time.Now()\<close> returns.
\<close>

section \<open>State\<close>

record node =
  n_name :: string
  n_data :: bytes
  n_mode :: filemode
  n_modTime :: int
  n_isDir :: bool

text \<open>A byte slice: the visible part and the rest of its backing array up to the capacity.\<close>

record slice =
  sl_vis :: bytes
  sl_spare :: bytes

definition sl_cap :: "slice \<Rightarrow> nat" where
  "sl_cap s = length (sl_vis s) + length (sl_spare s)"

record memFile =
  mf_path :: string
  mf_node :: nat
  mf_offset :: int
  mf_closed :: bool
  mf_data :: slice
  mf_mode :: filemode
  mf_modTime :: int

record mem =
  nodes :: "(string \<times> nat) list"
  heap :: "node list"
  files :: "memFile list"
  clock :: int
  append_spare :: "nat \<Rightarrow> nat \<Rightarrow> nat"

definition mem_New :: "int \<Rightarrow> (nat \<Rightarrow> nat \<Rightarrow> nat) \<Rightarrow> mem" where
  "mem_New now sp =
     \<lparr>nodes = [(''/'', 0)],
      heap = [\<lparr>n_name = ''/'', n_data = [], n_mode = 0x1ED OR ModeDir, n_modTime = now, n_isDir = True\<rparr>],
      files = [], clock = now, append_spare = sp\<rparr>"

definition mem_clean :: "string \<Rightarrow> string" where
  "mem_clean p = (let out = path_clean (CHR ''/'' # p) in if out = ''.'' then ''/'' else out)"

definition upd_node :: "nat \<Rightarrow> (node \<Rightarrow> node) \<Rightarrow> mem \<Rightarrow> mem" where
  "upd_node a f m = m\<lparr>heap := (heap m)[a := f (heap m ! a)]\<rparr>"

definition upd_file :: "nat \<Rightarrow> (memFile \<Rightarrow> memFile) \<Rightarrow> mem \<Rightarrow> mem" where
  "upd_file i f m = m\<lparr>files := (files m)[i := f (files m ! i)]\<rparr>"

definition node_info :: "node \<Rightarrow> fileinfo" where
  "node_info n =
     \<lparr>fi_name = n_name n, fi_size = int (length (n_data n)),
      fi_mode = (if n_isDir n then n_mode n OR ModeDir else n_mode n),
      fi_modTime = n_modTime n, fi_isDir = n_isDir n\<rparr>"

section \<open>Open files\<close>

definition maxMemFileSize :: int where
  "maxMemFileSize = 4294967296"

definition maxMemHole :: int where
  "maxMemHole = 67108864"

definition errMemFileTooLarge :: goerr where
  "errMemFileTooLarge = ErrMsg ''memory backend: file would exceed 4 GiB''"

definition errMemHoleTooLarge :: goerr where
  "errMemHoleTooLarge = ErrMsg ''memory backend: write leaves a gap larger than 64 MiB''"

text \<open>\<open>append([]byte(nil), n.data...)\<close>: a fresh copy, with \<open>sp\<close> zeroed bytes of spare capacity.\<close>

definition fresh_slice :: "nat \<Rightarrow> bytes \<Rightarrow> slice" where
  "fresh_slice sp bs = \<lparr>sl_vis = bs, sl_spare = replicate sp NUL\<rparr>"

definition newMemFile :: "string \<Rightarrow> nat \<Rightarrow> int \<Rightarrow> mem \<Rightarrow> nat \<times> mem" where
  "newMemFile p a off m =
     (let n = heap m ! a in
      (length (files m),
       m\<lparr>files := files m @ [\<lparr>mf_path = p, mf_node = a, mf_offset = off, mf_closed = False,
          mf_data = fresh_slice (append_spare m 0 (length (n_data n))) (n_data n), mf_mode = n_mode n, mf_modTime = n_modTime n\<rparr>]\<rparr>))"

definition memfile_read :: "nat \<Rightarrow> nat \<Rightarrow> mem \<Rightarrow> (bytes \<times> goerr option) \<times> mem" where
  "memfile_read i k m =
     (let f = files m ! i; data = sl_vis (mf_data f) in
      if mf_closed f then (([], Some ErrClosed), m)
      else if mf_offset f \<ge> int (length data) then (([], Some EOF), m)
      else let bs = take k (drop (nat (mf_offset f)) data) in
        ((bs, None), upd_file i (\<lambda>f. f\<lparr>mf_offset := mf_offset f + int (length bs)\<rparr>) m))"

text \<open>\<open>data[off:]\<close> with a negative offset is a run-time panic.\<close>

definition memfile_readAt :: "nat \<Rightarrow> nat \<Rightarrow> int \<Rightarrow> mem \<Rightarrow> (bytes \<times> goerr option) \<times> mem" where
  "memfile_readAt i k off m =
     (let f = files m ! i; data = sl_vis (mf_data f) in
      if mf_closed f then (([], Some ErrClosed), m)
      else if off \<ge> int (length data) then (([], Some EOF), m)
      else if off < 0 then (([], Some GoPanic), m)
      else let bs = take k (drop (nat off) data) in
        ((bs, if length bs < k then Some EOF else None), m))"

definition splice :: "bytes \<Rightarrow> nat \<Rightarrow> bytes \<Rightarrow> bytes" where
  "splice data off p = take off data @ p @ drop (off + length p) data"

text \<open>
  The slice operations of \<^verbatim>\<open>Write\<close>, after the size checks.  When the new end is past the length but
  within the capacity, the code re-slices and clears \<open>m.data[oldLen:m.offset]\<close>; that slice
  expression panics when the write starts before the old end.
\<close>

definition slice_write :: "slice \<Rightarrow> nat \<Rightarrow> bytes \<Rightarrow> goerr option \<times> slice" where
  "slice_write s off p =
     (let fin = off + length p; oldLen = length (sl_vis s) in
      if fin > oldLen then
        if fin \<le> sl_cap s then
          let s1 = \<lparr>sl_vis = sl_vis s @ take (fin - oldLen) (sl_spare s),
                    sl_spare = drop (fin - oldLen) (sl_spare s)\<rparr> in
          if off < oldLen then (Some GoPanic, s1)
          else (None, s1\<lparr>sl_vis := splice (splice (sl_vis s1) oldLen (replicate (off - oldLen) NUL)) off p\<rparr>)
        else
          let cap' = max fin (2 * sl_cap s) in
          (None, \<lparr>sl_vis = splice (sl_vis s @ replicate (fin - oldLen) NUL) off p,
                  sl_spare = replicate (cap' - fin) NUL\<rparr>)
      else (None, s\<lparr>sl_vis := splice (sl_vis s) off p\<rparr>))"

definition memfile_write :: "nat \<Rightarrow> bytes \<Rightarrow> mem \<Rightarrow> (nat \<times> goerr option) \<times> mem" where
  "memfile_write i p m =
     (let f = files m ! i; len = int (length p) in
      if mf_closed f then ((0, Some ErrClosed), m)
      else if mf_offset f > maxMemFileSize \<or> len > maxMemFileSize - mf_offset f
        then ((0, Some errMemFileTooLarge), m)
      else if mf_offset f > int (length (sl_vis (mf_data f))) + maxMemHole
        then ((0, Some errMemHoleTooLarge), m)
      else (case slice_write (mf_data f) (nat (mf_offset f)) p of
          (Some e, s) \<Rightarrow> ((0, Some e), upd_file i (\<lambda>f. f\<lparr>mf_data := s\<rparr>) m)
        | (None, s) \<Rightarrow> ((length p, None),
            upd_file i (\<lambda>f. f\<lparr>mf_data := s, mf_offset := mf_offset f + len\<rparr>) m)))"

definition memfile_seek :: "nat \<Rightarrow> int \<Rightarrow> int \<Rightarrow> mem \<Rightarrow> int res \<times> mem" where
  "memfile_seek i offset whence m =
     (let f = files m ! i in
      if mf_closed f then (Inl ErrClosed, m)
      else if whence \<noteq> SeekStart \<and> whence \<noteq> SeekCurrent \<and> whence \<noteq> SeekEnd
        then (Inl (ErrMsg ''invalid whence''), m)
      else
        let base = (if whence = SeekStart then 0
                    else if whence = SeekCurrent then mf_offset f
                    else int (length (sl_vis (mf_data f)))) in
        if offset > max_int64 - base then (Inl (ErrMsg ''seek offset overflows''), m)
        else let nxt = base + offset in
          if nxt < 0 then (Inl (ErrMsg ''negative seek''), m)
          else (Inr nxt, upd_file i (\<lambda>f. f\<lparr>mf_offset := nxt\<rparr>) m))"

definition memfile_writeAt :: "nat \<Rightarrow> bytes \<Rightarrow> int \<Rightarrow> mem \<Rightarrow> (nat \<times> goerr option) \<times> mem" where
  "memfile_writeAt i p off m =
     (case memfile_seek i off SeekStart m of
        (Inl e, m') \<Rightarrow> ((0, Some e), m')
      | (Inr _, m') \<Rightarrow> memfile_write i p m')"

text \<open>Every handle, also one opened for reading, writes its buffered contents back.\<close>

definition memfile_close :: "nat \<Rightarrow> mem \<Rightarrow> goerr option \<times> mem" where
  "memfile_close i m =
     (let f = files m ! i in
      if mf_closed f then (None, m)
      else (None,
        upd_node (mf_node f)
          (\<lambda>n. n\<lparr>n_data := sl_vis (mf_data f), n_modTime := clock m, n_mode := mf_mode f\<rparr>)
          (upd_file i (\<lambda>f. f\<lparr>mf_closed := True\<rparr>) m)))"

definition memfile_stat :: "nat \<Rightarrow> mem \<Rightarrow> fileinfo res" where
  "memfile_stat i m =
     (let f = files m ! i in
      if mf_closed f then Inl ErrClosed
      else Inr \<lparr>fi_name = path_base (mf_path f), fi_size = int (length (sl_vis (mf_data f))),
                fi_mode = mf_mode f, fi_modTime = mf_modTime f, fi_isDir = False\<rparr>)"

definition slice_resize :: "(nat \<Rightarrow> nat \<Rightarrow> nat) \<Rightarrow> slice \<Rightarrow> nat \<Rightarrow> slice" where
  "slice_resize sp s sz =
     (let len = length (sl_vis s) in
      if sz < len then
        \<lparr>sl_vis = take sz (sl_vis s), sl_spare = drop sz (sl_vis s) @ sl_spare s\<rparr>
      else if sz > len then
        \<lparr>sl_vis = sl_vis s @ replicate (sz - len) NUL,
         sl_spare = (if sz \<le> sl_cap s then drop (sz - len) (sl_spare s)
                      else replicate (sp (sl_cap s) sz) NUL)\<rparr>
      else s)"

definition memfile_truncate :: "nat \<Rightarrow> int \<Rightarrow> mem \<Rightarrow> goerr option \<times> mem" where
  "memfile_truncate i sz m =
     (let f = files m ! i in
      if sz < 0 then (Some (ErrMsg ''negative size''), m)
      else if sz > maxMemFileSize then (Some errMemFileTooLarge, m)
      else if sz > int (length (sl_vis (mf_data f))) + maxMemHole then (Some errMemHoleTooLarge, m)
      else (None, upd_file i (\<lambda>f. f\<lparr>mf_data := slice_resize (append_spare m) (mf_data f) (nat sz),
              mf_offset := (if mf_offset f > sz then sz else mf_offset f)\<rparr>) m))"

text \<open>
  The \<^verbatim>\<open>vfs.File\<close> value for handle \<open>i\<close>.  Handles come from \<open>mem_open\<close> only; a number that was never
  handed out (which the code cannot form) answers as a panic and changes nothing.
\<close>

definition guarded :: "nat \<Rightarrow> 'r \<Rightarrow> (mem \<Rightarrow> 'r \<times> mem) \<Rightarrow> mem \<Rightarrow> 'r \<times> mem" where
  "guarded i d k m = (if i < length (files m) then k m else (d, m))"

definition mem_file :: "nat \<Rightarrow> string \<Rightarrow> mem vfile" where
  "mem_file i p =
     \<lparr>f_read = (\<lambda>k. guarded i ([], Some GoPanic) (memfile_read i k)),
      f_readAt = (\<lambda>k off. guarded i ([], Some GoPanic) (memfile_readAt i k off)),
      f_write = (\<lambda>q. guarded i (0, Some GoPanic) (memfile_write i q)),
      f_writeAt = (\<lambda>q off. guarded i (0, Some GoPanic) (memfile_writeAt i q off)),
      f_seek = (\<lambda>off wh. guarded i (Inl GoPanic) (memfile_seek i off wh)),
      f_close = guarded i (Some GoPanic) (memfile_close i),
      f_stat = (\<lambda>m. if i < length (files m) then memfile_stat i m else Inl GoPanic),
      f_sync = (\<lambda>m. (None, m)),
      f_truncate = (\<lambda>sz. guarded i (Some GoPanic) (memfile_truncate i sz)),
      f_readDir = (\<lambda>_ _. Inl (ErrMsg ''not a directory'')),
      f_name = p\<rparr>"

section \<open>Backend operations\<close>

definition ensureParent :: "string \<Rightarrow> mem \<Rightarrow> goerr option" where
  "ensureParent parent m =
     (case map_of (nodes m) (mem_clean parent) of
        None \<Rightarrow> Some ErrNotExist
      | Some a \<Rightarrow> if n_isDir (heap m ! a) then None else Some (ErrMsg ''parent is not a directory''))"

definition add_node :: "string \<Rightarrow> node \<Rightarrow> mem \<Rightarrow> mem" where
  "add_node p n m = m\<lparr>nodes := AList.update p (length (heap m)) (nodes m), heap := heap m @ [n]\<rparr>"

definition open_node :: "string \<Rightarrow> nat \<Rightarrow> flags \<Rightarrow> mem \<Rightarrow> mem vfile res \<times> mem" where
  "open_node p a fl m =
     (if n_isDir (heap m ! a) then (Inl (ErrMsg ''cannot open directory''), m)
      else
        let m1 = (if fl AND O_TRUNC \<noteq> 0
                  then upd_node a (\<lambda>n. n\<lparr>n_data := [], n_modTime := clock m\<rparr>) m else m);
            off = (if fl AND O_APPEND \<noteq> 0 then int (length (n_data (heap m1 ! a))) else 0)
        in (case newMemFile p a off m1 of (i, m2) \<Rightarrow> (Inr (mem_file i p), m2)))"

definition mem_open :: "string \<Rightarrow> flags \<Rightarrow> filemode \<Rightarrow> mem \<Rightarrow> mem vfile res \<times> mem" where
  "mem_open name fl perm m =
     (let p = mem_clean name in
      case map_of (nodes m) p of
        Some a \<Rightarrow>
          if fl AND (O_CREATE OR O_EXCL) = O_CREATE OR O_EXCL then (Inl ErrExist, m)
          else open_node p a fl m
      | None \<Rightarrow>
          if fl AND O_CREATE = 0 then (Inl ErrNotExist, m)
          else (case ensureParent (path_dir p) m of
              Some e \<Rightarrow> (Inl e, m)
            | None \<Rightarrow>
                open_node p (length (heap m)) fl
                  (add_node p \<lparr>n_name = path_base p, n_data = [],
                     n_mode = (if perm = 0 then 0x1A4 else perm), n_modTime = clock m, n_isDir = False\<rparr> m)))"

definition mem_stat :: "string \<Rightarrow> mem \<Rightarrow> fileinfo res" where
  "mem_stat name m =
     (case map_of (nodes m) (mem_clean name) of
        None \<Rightarrow> Inl ErrNotExist
      | Some a \<Rightarrow> Inr (node_info (heap m ! a)))"

definition has_below :: "string \<Rightarrow> mem \<Rightarrow> bool" where
  "has_below pre m \<longleftrightarrow> list_ex (\<lambda>(k, _). prefix pre k) (nodes m)"

definition rename_conflict :: "node \<Rightarrow> string \<Rightarrow> mem \<Rightarrow> goerr option" where
  "rename_conflict n newP m =
     (case map_of (nodes m) newP of
        None \<Rightarrow> None
      | Some b \<Rightarrow>
          let dst = heap m ! b in
          if n_isDir dst \<and> \<not> n_isDir n then Some (ErrMsg ''cannot rename a file over a directory'')
          else if \<not> n_isDir dst \<and> n_isDir n then Some (ErrMsg ''cannot rename a directory over a file'')
          else if n_isDir dst \<and> n_isDir n
            \<and> has_below (if newP \<noteq> ''/'' then newP @ ''/'' else newP) m
            then Some (ErrMsg ''directory not empty'')
          else None)"

definition move_children :: "string \<Rightarrow> string \<Rightarrow> (string \<times> nat) list \<Rightarrow> (string \<times> nat) list" where
  "move_children oldP newP ns =
     (let pre = oldP @ ''/'';
          moved = map (\<lambda>(p, c). (path_join [newP, trim_prefix pre p], c))
                    (filter (\<lambda>(p, c). prefix pre p) ns)
      in foldl (\<lambda>acc (p, c). AList.update p c acc) (filter (\<lambda>(p, c). \<not> prefix pre p) ns) moved)"

definition mem_rename :: "string \<Rightarrow> string \<Rightarrow> mem \<Rightarrow> goerr option \<times> mem" where
  "mem_rename oldname newname m =
     (let oldP = mem_clean oldname; newP = mem_clean newname in
      case map_of (nodes m) oldP of
        None \<Rightarrow> (Some ErrNotExist, m)
      | Some a \<Rightarrow>
          let n = heap m ! a in
          if oldP = newP then (None, m)
          else if n_isDir n \<and> prefix (trim_suffix ''/'' oldP @ ''/'') newP then (Some ErrInvalid, m)
          else (case rename_conflict n newP m of
              Some e \<Rightarrow> (Some e, m)
            | None \<Rightarrow>
                (case ensureParent (path_dir newP) m of
                   Some e \<Rightarrow> (Some e, m)
                 | None \<Rightarrow>
                     let ns = (if n_isDir n then move_children oldP newP (nodes m) else nodes m) in
                     (None,
                      upd_node a (\<lambda>n. n\<lparr>n_name := path_base newP, n_modTime := clock m\<rparr>)
                        (m\<lparr>nodes := AList.update newP a (AList.delete oldP ns)\<rparr>)))))"

definition mem_remove :: "string \<Rightarrow> mem \<Rightarrow> goerr option \<times> mem" where
  "mem_remove name m =
     (let p = mem_clean name in
      if p = ''/'' then (Some ErrPermission, m)
      else (case map_of (nodes m) p of
          None \<Rightarrow> (Some ErrNotExist, m)
        | Some a \<Rightarrow>
            if n_isDir (heap m ! a) \<and> has_below (p @ ''/'') m
            then (Some (ErrMsg ''directory not empty''), m)
            else (None, m\<lparr>nodes := AList.delete p (nodes m)\<rparr>)))"

definition mem_removeAll :: "string \<Rightarrow> mem \<Rightarrow> goerr option \<times> mem" where
  "mem_removeAll name m =
     (let p = mem_clean name in
      if p = ''/'' then (Some ErrPermission, m)
      else (None, m\<lparr>nodes := filter (\<lambda>(k, _). \<not> (k = p \<or> prefix (p @ ''/'') k)) (nodes m)\<rparr>))"

definition dir_node :: "string \<Rightarrow> filemode \<Rightarrow> mem \<Rightarrow> node" where
  "dir_node name perm m =
     \<lparr>n_name = name, n_data = [], n_mode = perm OR ModeDir, n_modTime = clock m, n_isDir = True\<rparr>"

definition mem_mkdir :: "string \<Rightarrow> filemode \<Rightarrow> mem \<Rightarrow> goerr option \<times> mem" where
  "mem_mkdir name perm m =
     (let p = mem_clean name in
      case map_of (nodes m) p of
        Some _ \<Rightarrow> (Some ErrExist, m)
      | None \<Rightarrow>
          (case ensureParent (path_dir p) m of
             Some e \<Rightarrow> (Some e, m)
           | None \<Rightarrow>
               (None, add_node p (dir_node (path_base p) (if perm = 0 then 0x1ED else perm) m) m)))"

fun mkdirAll_loop :: "string list \<Rightarrow> string \<Rightarrow> filemode \<Rightarrow> mem \<Rightarrow> goerr option \<times> mem" where
  "mkdirAll_loop [] cur perm m = (None, m)"
| "mkdirAll_loop (part # parts) cur perm m =
     (if part = [] then mkdirAll_loop parts cur perm m
      else
        let cur' = (if cur = ''/'' then ''/'' @ part else cur @ ''/'' @ part) in
        case map_of (nodes m) cur' of
          None \<Rightarrow> mkdirAll_loop parts cur' perm (add_node cur' (dir_node part perm m) m)
        | Some a \<Rightarrow>
            if \<not> n_isDir (heap m ! a) then (Some (ErrMsg ''path component is not a directory''), m)
            else mkdirAll_loop parts cur' perm m)"

definition mem_mkdirAll :: "string \<Rightarrow> filemode \<Rightarrow> mem \<Rightarrow> goerr option \<times> mem" where
  "mem_mkdirAll name perm m =
     mkdirAll_loop (split_on CHR ''/'' (trim_prefix ''/'' (mem_clean name))) ''/''
       (if perm = 0 then 0x1ED else perm) m"

text \<open>A directory entry holds the node pointer and reads the node when its methods are called.\<close>

definition mem_entry :: "nat \<Rightarrow> mem direntry" where
  "mem_entry a =
     \<lparr>de_name = (\<lambda>m. n_name (heap m ! a)), de_isDir = (\<lambda>m. n_isDir (heap m ! a)), de_type = (\<lambda>m. n_mode (heap m ! a) AND ModeType),
      de_info = (\<lambda>m. Inr (node_info (heap m ! a)))\<rparr>"

definition children_of :: "string \<Rightarrow> (string \<times> nat) list \<Rightarrow> (string \<times> nat) list" where
  "children_of p ns =
     (let pre = (if p \<noteq> ''/'' then p @ ''/'' else p) in
      map (\<lambda>(k, a). (trim_prefix pre k, a))
        (filter (\<lambda>(k, a). prefix pre k \<and> k \<noteq> p \<and> CHR ''/'' \<notin> set (trim_prefix pre k)) ns))"

definition mem_readDir :: "string \<Rightarrow> mem \<Rightarrow> mem direntry list res" where
  "mem_readDir name m =
     (let p = mem_clean name in
      case map_of (nodes m) p of
        None \<Rightarrow> Inl ErrNotExist
      | Some a \<Rightarrow>
          if \<not> n_isDir (heap m ! a) then Inl (ErrMsg ''not a directory'')
          else
            let children = children_of p (nodes m) in
            Inr (map (\<lambda>nm. mem_entry (the (map_of children nm))) (sort (map fst children))))"

definition mem_chmod :: "string \<Rightarrow> filemode \<Rightarrow> mem \<Rightarrow> goerr option \<times> mem" where
  "mem_chmod name mode m =
     (case map_of (nodes m) (mem_clean name) of
        None \<Rightarrow> (Some ErrNotExist, m)
      | Some a \<Rightarrow> (None, upd_node a (\<lambda>n. n\<lparr>n_mode := mode\<rparr>) m))"

definition mem_chtimes :: "string \<Rightarrow> int \<Rightarrow> int \<Rightarrow> mem \<Rightarrow> goerr option \<times> mem" where
  "mem_chtimes name atime mtime m =
     (case map_of (nodes m) (mem_clean name) of
        None \<Rightarrow> (Some ErrNotExist, m)
      | Some a \<Rightarrow> (None, upd_node a (\<lambda>n. n\<lparr>n_modTime := mtime\<rparr>) m))"

definition zero_statvfs :: statvfs where
  "zero_statvfs = \<lparr>BlockSize = 0, TotalBlocks = 0, FreeBlocks = 0, AvailBlocks = 0,
     TotalFiles = 0, FreeFiles = 0, NameMaxLen = 0\<rparr>"

definition mem_fs :: "mem filesystem" where
  "mem_fs =
     \<lparr>fs_id = 0, fs_open = mem_open, fs_stat = mem_stat, fs_lstat = mem_stat,
      fs_rename = mem_rename, fs_remove = mem_remove, fs_removeAll = mem_removeAll,
      fs_mkdir = mem_mkdir, fs_mkdirAll = mem_mkdirAll, fs_readDir = mem_readDir,
      fs_symlink = (\<lambda>_ _ m. (Some (ErrMsg ''not supported''), m)),
      fs_readlink = (\<lambda>_ _. Inl (ErrMsg ''not supported'')),
      fs_chmod = mem_chmod, fs_chown = (\<lambda>_ _ _ m. (None, m)), fs_chtimes = mem_chtimes,
      fs_statvfs = (\<lambda>_ _. Inr zero_statvfs)\<rparr>"

end
