(* ===== verification/Memory_Tree.thy ===== *)
theory Memory_Tree
  imports Memory_Backend
begin

text \<open>
  The in-memory backend keeps a tree: the invariant \<open>mem_wf\<close> (the path map is closed under parents,
  parents are directories, names are base names, no node has two paths, handles point to regular
  files) and its preservation by every operation of \<^verbatim>\<open>memory.go\<close>, concluded by interpreting the
  interface contracts of \<^verbatim>\<open>vfs.go\<close> on the backend.
\<close>

section \<open>Path lemmas\<close>

lemma mem_clean_eq: "mem_clean p = abs_path (clean_comps p)"
  by (simp add: mem_clean_def path_clean_rooted) (simp add: abs_path_def Let_def)

lemma abs_clean_mem_clean [simp]: "abs_clean (mem_clean p)"
  by (simp add: mem_clean_eq)

lemma mem_clean_id [simp]: "abs_clean p \<Longrightarrow> mem_clean p = p"
  by (simp add: mem_clean_eq abs_clean_def)

lemma abs_clean_cases:
  assumes "abs_clean p"
  obtains "p = ''/''"
  | cs c where "p = abs_path (cs @ [c])" "list_all clean_comp cs" "clean_comp c"
      "path_dir p = abs_path cs" "path_base p = c" "p \<noteq> ''/''"
proof -
  obtain ds where ds: "p = abs_path ds" "list_all clean_comp ds"
    using assms by (rule abs_cleanE)
  show thesis
  proof (cases ds rule: rev_cases)
    case Nil
    then show thesis using ds that(1) by simp
  next
    case (snoc cs c)
    then have "p \<noteq> ''/''" using ds abs_path_inject [of ds "[]"] by simp
    then show thesis using ds snoc that(2) [of cs c] by simp
  qed
qed

lemma abs_clean_path_dir [simp]: "abs_clean p \<Longrightarrow> abs_clean (path_dir p)"
  by (erule abs_clean_cases) auto

lemma path_dir_neq: "abs_clean p \<Longrightarrow> p \<noteq> ''/'' \<Longrightarrow> path_dir p \<noteq> p"
  by (erule abs_clean_cases) auto

text \<open>\<open>below p k\<close>: the path \<open>k\<close> lies strictly below \<open>p\<close>.\<close>

definition below :: "string \<Rightarrow> string \<Rightarrow> bool" where
  "below p k \<longleftrightarrow> strict_prefix (clean_comps p) (clean_comps k)"

lemma below_prefix:
  "abs_clean p \<Longrightarrow> p \<noteq> ''/'' \<Longrightarrow> abs_clean k \<Longrightarrow> prefix (p @ ''/'') k \<longleftrightarrow> below p k"
  by (elim abs_cleanE) (rename_tac cs ds, case_tac "cs = []", simp_all add: below_def prefix_abs_path)

lemma below_path_dir:
  assumes "abs_clean p" "abs_clean k" "k \<noteq> ''/''"
  shows "below p k \<longleftrightarrow> path_dir k = p \<or> below p (path_dir k)"
proof -
  obtain cs where "p = abs_path cs" "list_all clean_comp cs"
    using assms(1) by (rule abs_cleanE)
  with assms(2,3) show ?thesis
    by (elim abs_clean_cases) (auto simp: below_def prefix_snoc strict_prefix_def)
qed

lemma below_trans: "below p q \<Longrightarrow> below q r \<Longrightarrow> below p r"
  by (auto simp: below_def)

section \<open>The tree invariant\<close>

text \<open>
  The path map is a tree: the root is a directory, keys are cleaned paths, the parent of every
  other key is a directory, nodes carry their base name and no node has two paths.
\<close>

definition map_wf :: "(string \<rightharpoonup> nat) \<Rightarrow> node list \<Rightarrow> bool" where
  "map_wf mp hp \<longleftrightarrow>
     (\<forall>k a. mp k = Some a \<longrightarrow>
          abs_clean k \<and> a < length hp \<and> n_name (hp ! a) = path_base k
          \<and> (k \<noteq> ''/'' \<longrightarrow> (\<exists>b. mp (path_dir k) = Some b \<and> n_isDir (hp ! b))))
     \<and> (\<exists>a. mp ''/'' = Some a \<and> n_isDir (hp ! a))
     \<and> (\<forall>k k' a. mp k = Some a \<longrightarrow> mp k' = Some a \<longrightarrow> k = k')"

definition heap_wf :: "node list \<Rightarrow> bool" where
  "heap_wf hp \<longleftrightarrow> (\<forall>n\<in>set hp. n_isDir n \<longrightarrow> n_data n = [])"

definition files_wf :: "node list \<Rightarrow> memFile list \<Rightarrow> bool" where
  "files_wf hp fs \<longleftrightarrow>
     (\<forall>f\<in>set fs. mf_node f < length hp \<and> \<not> n_isDir (hp ! mf_node f) \<and> 0 \<le> mf_offset f)"

definition mem_wf :: "mem \<Rightarrow> bool" where
  "mem_wf m \<longleftrightarrow> distinct (map fst (nodes m)) \<and> map_wf (map_of (nodes m)) (heap m)
     \<and> heap_wf (heap m) \<and> files_wf (heap m) (files m)"

lemma map_wfD:
  assumes "map_wf mp hp" "mp k = Some a"
  shows "abs_clean k" "a < length hp" "n_name (hp ! a) = path_base k"
    "k \<noteq> ''/'' \<Longrightarrow> \<exists>b. mp (path_dir k) = Some b \<and> n_isDir (hp ! b)"
  using assms by (auto simp: map_wf_def)

lemma map_wf_inj: "map_wf mp hp \<Longrightarrow> mp k = Some a \<Longrightarrow> mp k' = Some a \<Longrightarrow> k = k'"
  unfolding map_wf_def by blast

lemma map_wf_root: "map_wf mp hp \<Longrightarrow> \<exists>a. mp ''/'' = Some a \<and> n_isDir (hp ! a)"
  unfolding map_wf_def by blast

lemma map_wfI:
  assumes "\<And>k a. mp k = Some a \<Longrightarrow> abs_clean k \<and> a < length hp \<and> n_name (hp ! a) = path_base k"
    and "\<And>k a. mp k = Some a \<Longrightarrow> k \<noteq> ''/'' \<Longrightarrow> \<exists>b. mp (path_dir k) = Some b \<and> n_isDir (hp ! b)"
    and "\<exists>a. mp ''/'' = Some a \<and> n_isDir (hp ! a)"
    and "\<And>k k' a. mp k = Some a \<Longrightarrow> mp k' = Some a \<Longrightarrow> k = k'"
  shows "map_wf mp hp"
  using assms unfolding map_wf_def by blast

text \<open>Nothing lies below a path that is absent or a regular file.\<close>

lemma no_below:
  assumes wf: "map_wf mp hp" and p: "abs_clean p"
    and leaf: "\<And>b. mp p = Some b \<Longrightarrow> \<not> n_isDir (hp ! b)"
  shows "below p k \<Longrightarrow> mp k = None"
proof (induction "length (clean_comps k)" arbitrary: k rule: less_induct)
  case less
  show ?case
  proof (rule ccontr)
    assume "mp k \<noteq> None"
    then obtain a where a: "mp k = Some a" by auto
    note D = map_wfD [OF wf a]
    have ne: "k \<noteq> ''/''"
      using less.prems clean_comps_abs_path [of "[]"] by (auto simp: below_def)
    obtain b where b: "mp (path_dir k) = Some b" "n_isDir (hp ! b)"
      using D(4) ne by blast
    have "path_dir k \<noteq> p" using b leaf by auto
    then have "below p (path_dir k)"
      using below_path_dir [OF p D(1) ne] less.prems by simp
    moreover have "length (clean_comps (path_dir k)) < length (clean_comps k)"
      using D(1) ne by (elim abs_clean_cases) auto
    ultimately show False using less.hyps b by fastforce
  qed
qed

section \<open>Preservation by the elementary updates\<close>


lemma map_wf_restrict:
  assumes wf: "map_wf mp hp" and root: "Q ''/''"
    and closed: "\<And>k a. mp k = Some a \<Longrightarrow> k \<noteq> ''/'' \<Longrightarrow> Q k \<Longrightarrow> Q (path_dir k)"
  shows "map_wf (\<lambda>k. if Q k then mp k else None) hp"
proof (rule map_wfI)
  show "\<exists>a. (if Q ''/'' then mp ''/'' else None) = Some a \<and> n_isDir (hp ! a)"
    using root map_wf_root [OF wf] by simp
qed (use map_wfD [OF wf] closed map_wf_inj [OF wf] in \<open>auto split: if_splits\<close>)

lemma map_wf_heap_upd:
  assumes "map_wf mp hp" "n_isDir n = n_isDir (hp ! a)" "n_name n = n_name (hp ! a)"
  shows "map_wf mp (hp[a := n])"
proof -
  have "n_isDir (hp[a := n] ! b) = n_isDir (hp ! b)" "n_name (hp[a := n] ! b) = n_name (hp ! b)" for b
    using assms(2,3) by (cases "a < length hp"; cases "a = b"; simp add: list_update_beyond)+
  then show ?thesis using assms(1) by (simp add: map_wf_def)
qed

lemma map_wf_insert:
  assumes wf: "map_wf mp hp" and p: "abs_clean p" "p \<noteq> ''/''" "mp p = None"
    and parent: "mp (path_dir p) = Some b" "n_isDir (hp ! b)" and nm: "n_name n = path_base p"
  shows "map_wf (mp(p \<mapsto> length hp)) (hp @ [n])"
proof (rule map_wfI)
  have pd: "path_dir p \<noteq> p" using p by (simp add: path_dir_neq)
  have old: "a < length hp" if "mp k = Some a" for k a using map_wfD(2) [OF wf that] .
  fix k a assume k: "(mp(p \<mapsto> length hp)) k = Some a"
  show "abs_clean k \<and> a < length (hp @ [n]) \<and> n_name ((hp @ [n]) ! a) = path_base k"
    using k p nm map_wfD [OF wf, of k a] by (auto simp: nth_append split: if_splits)
  show "\<exists>b. (mp(p \<mapsto> length hp)) (path_dir k) = Some b \<and> n_isDir ((hp @ [n]) ! b)"
    if ne: "k \<noteq> ''/''"
  proof (cases "k = p")
    case True
    then show ?thesis using pd parent old by (auto simp: nth_append)
  next
    case False
    then obtain c where c: "mp (path_dir k) = Some c" "n_isDir (hp ! c)"
      using map_wfD(4) [OF wf, of k a] k ne by auto
    then show ?thesis using old [OF c(1)] p by (auto simp: nth_append)
  qed
  show "k = k'" if "(mp(p \<mapsto> length hp)) k' = Some a" for k'
    using k that map_wf_inj [OF wf, of k a k'] old [of k a] old [of k' a]
    by (auto split: if_splits)
next
  show "\<exists>a. (mp(p \<mapsto> length hp)) ''/'' = Some a \<and> n_isDir ((hp @ [n]) ! a)"
    using map_wf_root [OF wf] map_wfD(2) [OF wf] p by (auto simp: nth_append)
qed

lemma heap_wf_append: "heap_wf hp \<Longrightarrow> (n_isDir n \<Longrightarrow> n_data n = []) \<Longrightarrow> heap_wf (hp @ [n])"
  by (auto simp: heap_wf_def)

lemma heap_wf_upd: "heap_wf hp \<Longrightarrow> (n_isDir n \<Longrightarrow> n_data n = []) \<Longrightarrow> heap_wf (hp[a := n])"
  using set_update_subset_insert [of hp a n] by (auto simp: heap_wf_def)

lemma heap_wf_nth: "heap_wf hp \<Longrightarrow> a < length hp \<Longrightarrow> n_isDir (hp ! a) \<Longrightarrow> n_data (hp ! a) = []"
  by (auto simp: heap_wf_def)

lemma files_wf_heap_append: "files_wf hp fs \<Longrightarrow> files_wf (hp @ [n]) fs"
  by (auto simp: files_wf_def nth_append)

lemma files_wf_heap_upd:
  assumes "files_wf hp fs" "n_isDir n = n_isDir (hp ! a)"
  shows "files_wf (hp[a := n]) fs"
proof -
  have "n_isDir (hp[a := n] ! b) = n_isDir (hp ! b)" for b
    using assms(2) by (cases "a < length hp"; cases "a = b"; simp add: list_update_beyond)
  then show ?thesis using assms(1) by (simp add: files_wf_def)
qed

section \<open>Preservation by the backend operations\<close>

lemma mem_wfD:
  assumes "mem_wf m"
  shows "distinct (map fst (nodes m))" "map_wf (map_of (nodes m)) (heap m)"
    "heap_wf (heap m)" "files_wf (heap m) (files m)"
  using assms by (simp_all add: mem_wf_def)

lemma mem_wf_New: "mem_wf (mem_New now sp)"
  by (simp add: mem_wf_def mem_New_def heap_wf_def files_wf_def map_wf_def)

lemma ensureParent_None:
  "abs_clean p \<Longrightarrow> ensureParent p m = None \<longleftrightarrow> (\<exists>b. map_of (nodes m) p = Some b \<and> n_isDir (heap m ! b))"
  by (auto simp: ensureParent_def split: option.splits)

lemma mem_wf_root: "mem_wf m \<Longrightarrow> map_of (nodes m) ''/'' \<noteq> None"
  using map_wf_root by (fastforce simp: mem_wf_def)

lemma mem_wf_keys:
  assumes "mem_wf m" "(k, a) \<in> set (nodes m)"
  shows "abs_clean k"
proof -
  have "map_of (nodes m) k = Some a"
    using assms by (intro map_of_is_SomeI) (auto simp: mem_wf_def)
  then show ?thesis using assms map_wfD(1) by (auto simp: mem_wf_def)
qed

lemma mem_wf_add_node:
  assumes "mem_wf m" "abs_clean p" "map_of (nodes m) p = None"
    "map_of (nodes m) (path_dir p) = Some b" "n_isDir (heap m ! b)"
    "n_name n = path_base p" "n_isDir n \<Longrightarrow> n_data n = []"
  shows "mem_wf (add_node p n m)"
proof -
  have "p \<noteq> ''/''" using assms mem_wf_root by auto
  then show ?thesis
    using assms by (simp add: mem_wf_def add_node_def map_wf_insert heap_wf_append files_wf_heap_append)
qed

lemma mem_wf_upd_node:
  assumes "mem_wf m" "n_isDir (g (heap m ! a)) = n_isDir (heap m ! a)"
    "n_name (g (heap m ! a)) = n_name (heap m ! a)"
    "n_isDir (heap m ! a) \<Longrightarrow> n_data (g (heap m ! a)) = []"
  shows "mem_wf (upd_node a g m)"
proof -
  have "heap_wf ((heap m)[a := g (heap m ! a)])"
    using assms mem_wfD(3) [OF assms(1)] by (intro heap_wf_upd) auto
  then show ?thesis
    using assms by (simp add: mem_wf_def upd_node_def map_wf_heap_upd files_wf_heap_upd)
qed

lemma mem_wf_upd_file:
  assumes "mem_wf m" "i < length (files m)"
    "mf_node (g (files m ! i)) = mf_node (files m ! i)" "0 \<le> mf_offset (g (files m ! i))"
  shows "mem_wf (upd_file i g m)"
proof -
  have "files_wf (heap m) ((files m)[i := g (files m ! i)])"
    using assms set_update_subset_insert [of "files m" i "g (files m ! i)"]
    by (auto simp: mem_wf_def files_wf_def dest!: nth_mem)
  then show ?thesis using assms by (simp add: mem_wf_def upd_file_def)
qed

lemma mem_wf_filter:
  assumes wf: "mem_wf m" and root: "Q ''/''"
    and closed: "\<And>k a. map_of (nodes m) k = Some a \<Longrightarrow> k \<noteq> ''/'' \<Longrightarrow> Q k \<Longrightarrow> Q (path_dir k)"
  shows "mem_wf (m\<lparr>nodes := filter (\<lambda>(k, _). Q k) (nodes m)\<rparr>)"
  using wf map_wf_restrict [OF mem_wfD(2) [OF wf], of Q] root closed
  by (auto simp: mem_wf_def map_of_filter_key distinct_map_filter)

lemma has_below_iff:
  assumes "mem_wf m" "abs_clean p" "p \<noteq> ''/''"
  shows "has_below (p @ ''/'') m \<longleftrightarrow> (\<exists>k a. map_of (nodes m) k = Some a \<and> below p k)"
proof -
  have "has_below (p @ ''/'') m \<longleftrightarrow> (\<exists>k a. (k, a) \<in> set (nodes m) \<and> below p k)"
    using below_prefix [OF assms(2,3)] mem_wf_keys [OF assms(1)]
    unfolding has_below_def list_ex_iff by fast
  also have "\<dots> \<longleftrightarrow> (\<exists>k a. map_of (nodes m) k = Some a \<and> below p k)"
    using mem_wfD(1) [OF assms(1)] by (simp add: map_of_eq_Some_iff)
  finally show ?thesis .
qed

lemma newMemFile_wf:
  assumes "mem_wf m" "a < length (heap m)" "\<not> n_isDir (heap m ! a)" "0 \<le> off"
  shows "mem_wf (snd (newMemFile p a off m))"
  using assms by (auto simp: newMemFile_def mem_wf_def files_wf_def Let_def)

definition open_base :: "nat \<Rightarrow> flags \<Rightarrow> mem \<Rightarrow> mem" where
  "open_base a fl m =
     (if fl AND O_TRUNC \<noteq> 0 then upd_node a (\<lambda>n. n\<lparr>n_data := [], n_modTime := clock m\<rparr>) m else m)"

lemma open_node_eq:
  "open_node p a fl m =
     (if n_isDir (heap m ! a) then (Inl (ErrMsg ''cannot open directory''), m)
      else (Inr (mem_file (length (files m)) p),
        snd (newMemFile p a
          (if fl AND O_APPEND \<noteq> 0 then int (length (n_data (heap (open_base a fl m) ! a))) else 0)
          (open_base a fl m))))"
  by (simp add: open_node_def open_base_def newMemFile_def upd_node_def Let_def)

lemma open_node_wf:
  assumes "mem_wf m" "a < length (heap m)"
  shows "mem_wf (snd (open_node p a fl m))"
proof -
  have "mem_wf (open_base a fl m)"
    using assms by (auto simp: open_base_def intro!: mem_wf_upd_node)
  moreover have "a < length (heap (open_base a fl m))"
    "n_isDir (heap (open_base a fl m) ! a) = n_isDir (heap m ! a)"
    using assms by (simp_all add: open_base_def upd_node_def)
  ultimately show ?thesis
    using assms by (auto simp: open_node_eq intro!: newMemFile_wf)
qed

lemma mem_open_wf: "mem_wf m \<Longrightarrow> mem_wf (snd (mem_open p fl pm m))"
proof -
  assume wf: "mem_wf m"
  show ?thesis
  proof (cases "map_of (nodes m) (mem_clean p)")
    case (Some a)
    then have "a < length (heap m)" using wf map_wfD(2) by (fastforce simp: mem_wf_def)
    then show ?thesis using wf Some open_node_wf by (simp add: mem_open_def)
  next
    case None
    then show ?thesis
      using wf ensureParent_None [of "path_dir (mem_clean p)" m]
      by (auto simp: mem_open_def Let_def split: option.splits
          intro!: open_node_wf mem_wf_add_node) (auto simp: add_node_def)
  qed
qed

lemma mem_mkdir_wf: "mem_wf m \<Longrightarrow> mem_wf (snd (mem_mkdir p pm m))"
  using ensureParent_None [of "path_dir (mem_clean p)" m]
  by (auto simp: mem_mkdir_def dir_node_def Let_def split: option.splits intro!: mem_wf_add_node)


lemma mem_remove_wf:
  assumes wf: "mem_wf m"
  shows "mem_wf (snd (mem_remove p m))"
proof -
  define q where "q = mem_clean p"
  have "mem_wf (m\<lparr>nodes := filter (\<lambda>(k, _). k \<noteq> q) (nodes m)\<rparr>)"
    if "q \<noteq> ''/''" and "map_of (nodes m) q = Some a"
      and "n_isDir (heap m ! a) \<Longrightarrow> \<not> has_below (q @ ''/'') m" for a
  proof (rule mem_wf_filter [OF wf])
    fix k b assume k: "map_of (nodes m) k = Some b" "k \<noteq> ''/''"
    show "path_dir k \<noteq> q"
    proof
      assume q: "path_dir k = q"
      have kc: "abs_clean k" using wf k map_wfD(1) by (fastforce simp: mem_wf_def)
      have "\<exists>c. map_of (nodes m) q = Some c \<and> n_isDir (heap m ! c)"
        using wf k q map_wfD(4) by (fastforce simp: mem_wf_def)
      then have "\<not> has_below (q @ ''/'') m" using that by auto
      then have "\<not> below q k" using has_below_iff [OF wf, of q] that(1) k(1) unfolding q_def
        by (metis abs_clean_mem_clean)
      then show False using q kc k(2) by (simp add: below_path_dir q_def)
    qed
  qed (use that in simp)
  then show ?thesis
    using wf by (auto simp: mem_remove_def q_def delete_filter Let_def split: option.splits)
qed

lemma mem_removeAll_wf:
  assumes wf: "mem_wf m"
  shows "mem_wf (snd (mem_removeAll p m))"
proof -
  define q where "q = mem_clean p"
  have "mem_wf (m\<lparr>nodes := filter (\<lambda>(k, _). \<not> (k = q \<or> prefix (q @ ''/'') k)) (nodes m)\<rparr>)" if "q \<noteq> ''/''"
  proof (rule mem_wf_filter [OF wf])
    show "\<not> (''/'' = q \<or> prefix (q @ ''/'') ''/'')"
      using that by (auto simp: q_def mem_clean_eq) (auto simp: abs_path_def)
    fix k b assume k: "map_of (nodes m) k = Some b" "k \<noteq> ''/''" "\<not> (k = q \<or> prefix (q @ ''/'') k)"
    have kc: "abs_clean k" using wf k map_wfD(1) by (fastforce simp: mem_wf_def)
    show "\<not> (path_dir k = q \<or> prefix (q @ ''/'') (path_dir k))"
      using k kc that by (simp add: below_prefix q_def below_path_dir)
  qed
  then show ?thesis using wf by (auto simp: mem_removeAll_def q_def Let_def)
qed

lemma mem_chmod_wf: "mem_wf m \<Longrightarrow> mem_wf (snd (mem_chmod p md m))"
proof -
  assume wf: "mem_wf m"
  have "n_data (heap m ! a) = []" if "map_of (nodes m) k = Some a" "n_isDir (heap m ! a)" for k a
    using wf that heap_wf_nth map_wfD(2) by (fastforce simp: mem_wf_def)
  then show ?thesis
    using wf by (auto simp: mem_chmod_def split: option.splits intro!: mem_wf_upd_node)
qed

lemma mem_chtimes_wf: "mem_wf m \<Longrightarrow> mem_wf (snd (mem_chtimes p at mt m))"
proof -
  assume wf: "mem_wf m"
  have "n_data (heap m ! a) = []" if "map_of (nodes m) k = Some a" "n_isDir (heap m ! a)" for k a
    using wf that heap_wf_nth map_wfD(2) by (fastforce simp: mem_wf_def)
  then show ?thesis
    using wf by (auto simp: mem_chtimes_def split: option.splits intro!: mem_wf_upd_node)
qed

text \<open>\<^verbatim>\<open>MkdirAll\<close> walks the components of the cleaned path; the walk has reached a directory.\<close>

lemma mkdirAll_loop_wf:
  assumes "mem_wf m" "list_all clean_comp cs" "list_all clean_comp parts"
    "\<exists>a. map_of (nodes m) (abs_path cs) = Some a \<and> n_isDir (heap m ! a)"
  shows "mem_wf (snd (mkdirAll_loop parts (abs_path cs) perm m))"
  using assms
proof (induction parts arbitrary: cs m)
  case Nil
  then show ?case by simp
next
  case (Cons part parts)
  have part: "clean_comp part" "part \<noteq> []" using Cons.prems by (auto simp: clean_comp_def)
  have cur: "(if abs_path cs = ''/'' then ''/'' @ part else abs_path cs @ ''/'' @ part) = abs_path (cs @ [part])"
    using Cons.prems(2) abs_path_inject [of cs "[]"] by (auto simp: abs_path_snoc abs_path_single)
  have cs': "list_all clean_comp (cs @ [part])" using Cons.prems part by simp
  show ?case
  proof (cases "map_of (nodes m) (abs_path (cs @ [part]))")
    case None
    let ?m = "add_node (abs_path (cs @ [part])) (dir_node part perm m) m"
    obtain b where "map_of (nodes m) (abs_path cs) = Some b" "n_isDir (heap m ! b)"
      using Cons.prems(4) by blast
    then have wf': "mem_wf ?m"
      using Cons.prems part None cs' by (intro mem_wf_add_node) (auto simp: dir_node_def)
    have dir': "\<exists>a. map_of (nodes ?m) (abs_path (cs @ [part])) = Some a \<and> n_isDir (heap ?m ! a)"
      by (simp add: add_node_def dir_node_def)
    show ?thesis
      using Cons.IH [OF wf' cs' _ dir'] Cons.prems(3) None part by (simp add: cur Let_def)
  next
    case (Some a)
    then show ?thesis
      using Cons.IH [OF Cons.prems(1) cs'] Cons.prems part by (simp add: cur Let_def)
  qed
qed

lemma mkdirAll_parts:
  "filter (\<lambda>p. p \<noteq> []) (split_on CHR ''/'' (trim_prefix ''/'' (abs_path (clean_comps p)))) = clean_comps p"
proof -
  have "trim_prefix ''/'' (abs_path cs) = join_with ''/'' cs" for cs
    by (simp add: trim_prefix_def abs_path_def)
  moreover have "filter (\<lambda>p. p \<noteq> []) (split_on CHR ''/'' (join_with ''/'' cs)) = cs"
    if "list_all clean_comp cs" for cs
    using that
    by (cases "cs = []") (auto simp: split_join clean_comp_no_slash clean_comp_def list_all_iff intro!: filter_True)
  ultimately show ?thesis using clean_comps_clean [of p] by simp
qed

lemma mkdirAll_loop_filter:
  "mkdirAll_loop (filter (\<lambda>p. p \<noteq> []) parts) cur perm m = mkdirAll_loop parts cur perm m"
  by (induction parts arbitrary: cur m) (auto simp: Let_def split: option.splits)

lemma mem_mkdirAll_wf: "mem_wf m \<Longrightarrow> mem_wf (snd (mem_mkdirAll p pm m))"
proof -
  assume wf: "mem_wf m"
  have "\<exists>a. map_of (nodes m) (abs_path []) = Some a \<and> n_isDir (heap m ! a)"
    using map_wf_root [OF mem_wfD(2) [OF wf]] by simp
  from mkdirAll_loop_wf [OF wf _ clean_comps_clean this, of p "if pm = 0 then 0x1ED else pm"]
  show ?thesis
    using mkdirAll_loop_filter [of "split_on CHR ''/'' (trim_prefix ''/'' (mem_clean p))" "''/''"]
    unfolding mem_mkdirAll_def by (simp add: mem_clean_eq mkdirAll_parts)
qed

section \<open>Rename\<close>




lemma below_abs:
  "list_all clean_comp cs \<Longrightarrow> list_all clean_comp ds \<Longrightarrow> below (abs_path cs) (abs_path ds) \<longleftrightarrow> strict_prefix cs ds"
  by (simp add: below_def)

text \<open>The entries \<^verbatim>\<open>Rename\<close> moves: those below the old path, re-keyed below the new one.\<close>

definition moved_entries :: "string \<Rightarrow> string \<Rightarrow> (string \<times> nat) list \<Rightarrow> (string \<times> nat) list" where
  "moved_entries oldP newP ns =
     map (\<lambda>(p, c). (path_join [newP, trim_prefix (oldP @ ''/'') p], c))
       (filter (\<lambda>(p, c). prefix (oldP @ ''/'') p) ns)"

lemma prefix_abs_pathE:
  assumes oc: "list_all clean_comp oc" "oc \<noteq> []" and p: "abs_clean p" "prefix (abs_path oc @ ''/'') p"
  obtains es where "p = abs_path (oc @ es)" "es \<noteq> []" "list_all clean_comp es"
proof -
  obtain ds where ds: "p = abs_path ds" "list_all clean_comp ds"
    using p(1) by (rule abs_cleanE)
  then obtain es where "ds = oc @ es" "es \<noteq> []"
    using p(2) oc by (auto simp: prefix_abs_path elim: strict_prefixE')
  then show thesis using ds that by simp
qed

lemma moved_entries_iff:
  assumes oc: "list_all clean_comp oc" "oc \<noteq> []" and nc: "list_all clean_comp nc"
    and keys: "\<And>k a. (k, a) \<in> set ns \<Longrightarrow> abs_clean k"
  shows "(k, c) \<in> set (moved_entries (abs_path oc) (abs_path nc) ns) \<longleftrightarrow>
     (\<exists>es. es \<noteq> [] \<and> list_all clean_comp es \<and> k = abs_path (nc @ es) \<and> (abs_path (oc @ es), c) \<in> set ns)"
proof
  assume "(k, c) \<in> set (moved_entries (abs_path oc) (abs_path nc) ns)"
  then obtain p where p: "(p, c) \<in> set ns" "prefix (abs_path oc @ ''/'') p"
    "k = path_join [abs_path nc, trim_prefix (abs_path oc @ ''/'') p]"
    by (auto simp: moved_entries_def)
  obtain es where es: "p = abs_path (oc @ es)" "es \<noteq> []" "list_all clean_comp es"
    using prefix_abs_pathE [OF oc keys [OF p(1)] p(2)] .
  then show "\<exists>es. es \<noteq> [] \<and> list_all clean_comp es \<and> k = abs_path (nc @ es) \<and> (abs_path (oc @ es), c) \<in> set ns"
    using p oc nc by (intro exI [of _ es]) (simp add: trim_prefix_abs_path path_join_abs_path)
next
  assume "\<exists>es. es \<noteq> [] \<and> list_all clean_comp es \<and> k = abs_path (nc @ es) \<and> (abs_path (oc @ es), c) \<in> set ns"
  then obtain es where es: "es \<noteq> []" "list_all clean_comp es" "k = abs_path (nc @ es)"
    "(abs_path (oc @ es), c) \<in> set ns" by blast
  have "prefix (abs_path oc @ ''/'') (abs_path (oc @ es))"
    using oc es by (simp add: prefix_abs_path strict_prefix_def)
  moreover have "path_join [abs_path nc, trim_prefix (abs_path oc @ ''/'') (abs_path (oc @ es))] = k"
    using oc nc es by (simp add: trim_prefix_abs_path path_join_abs_path)
  ultimately show "(k, c) \<in> set (moved_entries (abs_path oc) (abs_path nc) ns)"
    using es(4) unfolding moved_entries_def by force
qed

lemma distinct_moved_entries:
  assumes oc: "list_all clean_comp oc" "oc \<noteq> []" and nc: "list_all clean_comp nc"
    and keys: "\<And>k a. (k, a) \<in> set ns \<Longrightarrow> abs_clean k" and dist: "distinct (map fst ns)"
  shows "distinct (map fst (moved_entries (abs_path oc) (abs_path nc) ns))"
proof -
  let ?ms = "filter (\<lambda>(p, c). prefix (abs_path oc @ ''/'') p) ns"
  let ?f = "\<lambda>p. path_join [abs_path nc, trim_prefix (abs_path oc @ ''/'') p]"
  have "inj_on ?f (fst ` set ?ms)"
  proof (rule inj_onI)
    fix x y assume "x \<in> fst ` set ?ms" "y \<in> fst ` set ?ms" and eq: "?f x = ?f y"
    then have "abs_clean x" "prefix (abs_path oc @ ''/'') x" "abs_clean y" "prefix (abs_path oc @ ''/'') y"
      using keys by auto
    then obtain es fs where "x = abs_path (oc @ es)" "es \<noteq> []" "list_all clean_comp es"
      "y = abs_path (oc @ fs)" "fs \<noteq> []" "list_all clean_comp fs"
      using prefix_abs_pathE [OF oc] by metis
    then show "x = y" using eq oc nc by (simp add: trim_prefix_abs_path path_join_abs_path)
  qed
  moreover have "distinct (map fst ?ms)" using dist by (simp add: distinct_map_filter)
  ultimately have "distinct (map ?f (map fst ?ms))"
    by (subst distinct_map) (simp only: set_map)
  moreover have "map fst (moved_entries (abs_path oc) (abs_path nc) ns) = map ?f (map fst ?ms)"
    by (simp add: moved_entries_def case_prod_unfold)
  ultimately show ?thesis by simp
qed

lemma move_children_lookup:
  assumes oc: "list_all clean_comp oc" "oc \<noteq> []" and nc: "list_all clean_comp nc"
    and keys: "\<And>k a. (k, a) \<in> set ns \<Longrightarrow> abs_clean k" and dist: "distinct (map fst ns)"
    and ks: "list_all clean_comp ks"
    and free: "\<And>ds. list_all clean_comp ds \<Longrightarrow> strict_prefix nc ds \<Longrightarrow> map_of ns (abs_path ds) = None"
  shows "map_of (move_children (abs_path oc) (abs_path nc) ns) (abs_path ks) =
     (if strict_prefix nc ks then map_of ns (abs_path (oc @ drop (length nc) ks))
      else if strict_prefix oc ks then None else map_of ns (abs_path ks))"
proof -
  let ?mv = "moved_entries (abs_path oc) (abs_path nc) ns"
  have rest: "map_of (filter (\<lambda>(p, c). \<not> prefix (abs_path oc @ ''/'') p) ns) (abs_path ks) =
      (if strict_prefix oc ks then None else map_of ns (abs_path ks))"
    using oc ks by (simp add: map_of_filter_key prefix_abs_path)
  have mv: "map_of (rev ?mv) (abs_path ks) =
      (if strict_prefix nc ks then map_of ns (abs_path (oc @ drop (length nc) ks)) else None)"
  proof (rule option_eqI)
    fix c
      have "map_of (rev ?mv) (abs_path ks) = Some c \<longleftrightarrow> (abs_path ks, c) \<in> set ?mv"
        using distinct_moved_entries [OF oc nc keys dist] by (simp add: map_of_eq_Some_iff flip: rev_map)
      also have "\<dots> \<longleftrightarrow> (\<exists>es. es \<noteq> [] \<and> list_all clean_comp es \<and> ks = nc @ es \<and> (abs_path (oc @ es), c) \<in> set ns)"
        using nc ks by (auto simp: moved_entries_iff [OF oc nc keys])
      also have "\<dots> \<longleftrightarrow> strict_prefix nc ks \<and> map_of ns (abs_path (oc @ drop (length nc) ks)) = Some c"
        using ks dist by (auto simp: map_of_eq_Some_iff strict_prefix_def elim!: prefixE)
      finally show "map_of (rev ?mv) (abs_path ks) = Some c \<longleftrightarrow>
        (if strict_prefix nc ks then map_of ns (abs_path (oc @ drop (length nc) ks)) else None) = Some c"
        by simp
  qed
  show ?thesis
    unfolding move_children_def Let_def foldl_update_map
    using mv rest free [OF ks] by (auto simp: map_add_def moved_entries_def [symmetric] split: option.splits)
qed

lemma suffix_slash_abs_path:
  assumes "list_all clean_comp cs" "cs \<noteq> []"
  shows "\<not> suffix ''/'' (abs_path cs)"
proof -
  obtain ds d where "cs = ds @ [d]" using assms(2) by (metis rev_exhaust)
  moreover obtain xs x where "d = xs @ [x]" "x \<noteq> CHR ''/''"
    using assms calculation by (cases d rule: rev_cases) (auto simp: clean_comp_def)
  ultimately show ?thesis
    by (auto simp: abs_path_snoc abs_path_single suffix_def append_eq_append_conv2 Cons_eq_append_conv)
qed

lemma rename_guard:
  assumes "list_all clean_comp oc" "list_all clean_comp nc" "oc \<noteq> nc"
  shows "prefix (trim_suffix ''/'' (abs_path oc) @ ''/'') (abs_path nc) \<longleftrightarrow> prefix oc nc"
proof (cases "oc = []")
  case True
  then show ?thesis by (simp add: trim_suffix_def)
next
  case False
  then show ?thesis
    using assms suffix_slash_abs_path [of oc]
    by (simp add: trim_suffix_def prefix_abs_path strict_prefix_def)
qed

lemma tree_root_has_below: "mem_wf m \<Longrightarrow> has_below ''/'' m"
  using mem_wf_root [of m] by (fastforce simp: has_below_def list_ex_iff dest: map_of_SomeD)

text \<open>What a successful \<^verbatim>\<open>Rename\<close> between different paths has checked.\<close>

lemma mem_rename_okE:
  assumes wf: "mem_wf m" and ok: "mem_rename old new m = (None, m')"
    and oc: "oc = clean_comps old" and nc: "nc = clean_comps new" and ne: "oc \<noteq> nc"
  obtains a b where "map_of (nodes m) (abs_path oc) = Some a"
    and "\<not> prefix oc nc" and "\<not> prefix nc oc"
    and "map_of (nodes m) (path_dir (abs_path nc)) = Some b" and "n_isDir (heap m ! b)"
    and "\<And>k. below (abs_path nc) k \<Longrightarrow> map_of (nodes m) k = None"
    and "m' = upd_node a (\<lambda>n. n\<lparr>n_name := path_base (abs_path nc), n_modTime := clock m\<rparr>)
       (m\<lparr>nodes := AList.update (abs_path nc) a (AList.delete (abs_path oc)
          (if n_isDir (heap m ! a) then move_children (abs_path oc) (abs_path nc) (nodes m) else nodes m))\<rparr>)"
proof -
  have cl: "list_all clean_comp oc" "list_all clean_comp nc" by (simp_all add: oc nc)
  have paths: "mem_clean old = abs_path oc" "mem_clean new = abs_path nc" "abs_path oc \<noteq> abs_path nc"
    using ne cl by (simp_all add: mem_clean_eq oc nc)
  note mwf = mem_wfD(2) [OF wf]
  obtain a where a: "map_of (nodes m) (abs_path oc) = Some a"
    and g: "\<not> (n_isDir (heap m ! a) \<and> prefix oc nc)"
    and rc: "rename_conflict (heap m ! a) (abs_path nc) m = None"
    and ep: "ensureParent (path_dir (abs_path nc)) m = None"
    and m': "m' = upd_node a (\<lambda>n. n\<lparr>n_name := path_base (abs_path nc), n_modTime := clock m\<rparr>)
       (m\<lparr>nodes := AList.update (abs_path nc) a (AList.delete (abs_path oc)
          (if n_isDir (heap m ! a) then move_children (abs_path oc) (abs_path nc) (nodes m) else nodes m))\<rparr>)"
    using ok paths rename_guard [OF cl ne]
    by (auto simp: mem_rename_def Let_def split: option.splits if_splits)
  obtain b where b: "map_of (nodes m) (path_dir (abs_path nc)) = Some b" "n_isDir (heap m ! b)"
    using ep cl by (auto simp: ensureParent_None)
  have free: "map_of (nodes m) k = None" if k: "below (abs_path nc) k" for k
  proof (cases "\<exists>d. map_of (nodes m) (abs_path nc) = Some d \<and> n_isDir (heap m ! d)")
    case True
    then have "\<not> has_below (if abs_path nc \<noteq> ''/'' then abs_path nc @ ''/'' else abs_path nc) m"
      using rc by (auto simp: rename_conflict_def Let_def split: if_splits)
    moreover have "abs_path nc \<noteq> ''/''"
      using calculation tree_root_has_below [OF wf] by auto
    ultimately show ?thesis
      using has_below_iff [OF wf, of "abs_path nc"] k cl by (metis abs_clean_abs_path not_Some_eq)
  next
    case False
    then show ?thesis using no_below [OF mwf _ _ k] abs_clean_abs_path [OF cl(2)] by blast
  qed
  have n2: "\<not> prefix nc oc"
  proof
    assume "prefix nc oc"
    then have "below (abs_path nc) (abs_path oc)" using cl ne by (simp add: below_abs strict_prefix_def)
    then show False using free a by simp
  qed
  have n1: "\<not> prefix oc nc"
  proof
    assume p: "prefix oc nc"
    then have leaf: "\<not> n_isDir (heap m ! a)" using g by simp
    have "below (abs_path oc) (abs_path nc)" using p cl ne by (simp add: below_abs strict_prefix_def)
    then have "path_dir (abs_path nc) = abs_path oc \<or> below (abs_path oc) (path_dir (abs_path nc))"
      using cl n2 below_path_dir [of "abs_path oc" "abs_path nc"] abs_path_inject [of nc "[]"] by auto
    then show False
      using b a leaf no_below [OF mwf, of "abs_path oc" "path_dir (abs_path nc)"] cl by auto
  qed
  show thesis by (rule that [OF a n1 n2 b free m'])
qed

text \<open>
  The path map after a successful rename: the subtree at the old path reappears, address by
  address, at the new one, the old subtree is gone, everything else is where it was.
\<close>

definition renamed :: "string list \<Rightarrow> string list \<Rightarrow> (string \<rightharpoonup> nat) \<Rightarrow> string list \<Rightarrow> nat option" where
  "renamed oc nc mp ks =
     (if prefix nc ks then mp (abs_path (oc @ drop (length nc) ks))
      else if prefix oc ks then None else mp (abs_path ks))"

lemma map_of_keys_clean:
  "distinct (map fst ns) \<Longrightarrow> map_wf (map_of ns) hp \<Longrightarrow> (k, a) \<in> set ns \<Longrightarrow> abs_clean k"
  by (rule map_wfD(1) [of "map_of ns" hp k a]) (auto intro: map_of_is_SomeI)

lemma rename_nodes_lookup:
  assumes dist: "distinct (map fst ns)" and wf: "map_wf (map_of ns) hp"
    and a: "map_of ns (abs_path oc) = Some a"
    and cl: "list_all clean_comp oc" "list_all clean_comp nc" "list_all clean_comp ks"
    and np: "\<not> prefix oc nc" "\<not> prefix nc oc"
    and free: "\<And>k. below (abs_path nc) k \<Longrightarrow> map_of ns k = None"
  shows "map_of (AList.update (abs_path nc) a (AList.delete (abs_path oc)
          (if n_isDir (hp ! a) then move_children (abs_path oc) (abs_path nc) ns else ns))) (abs_path ks)
       = renamed oc nc (map_of ns) ks"
proof -
  have ne: "oc \<noteq> []" using np(1) by auto
  have inner: "map_of (if n_isDir (hp ! a) then move_children (abs_path oc) (abs_path nc) ns else ns) (abs_path ks)
      = (if strict_prefix nc ks then map_of ns (abs_path (oc @ drop (length nc) ks))
         else if strict_prefix oc ks then None else map_of ns (abs_path ks))"
  proof (cases "n_isDir (hp ! a)")
    case True
    then show ?thesis
      using move_children_lookup [OF cl(1) ne cl(2) _ dist cl(3)] free cl map_of_keys_clean [OF dist wf]
      by (simp add: below_abs)
  next
    case False
    have nobelow: "map_of ns (abs_path ds) = None" if "strict_prefix oc ds" "list_all clean_comp ds" for ds
      using no_below [OF wf, of "abs_path oc" "abs_path ds"] a False that cl by (simp add: below_abs)
    show ?thesis
    proof (cases "strict_prefix nc ks")
      case True
      then have "strict_prefix oc (oc @ drop (length nc) ks)" "list_all clean_comp (oc @ drop (length nc) ks)"
        using cl by (auto simp: strict_prefix_def elim!: prefixE)
      with True False show ?thesis
        using free [of "abs_path ks"] nobelow cl by (simp add: below_abs)
    next
      case no: False
      then show ?thesis using nobelow cl False by simp
    qed
  qed
  show ?thesis
    using inner cl np a by (auto simp: renamed_def strict_prefix_def)
qed

lemma renamed_moved [simp]: "renamed oc nc mp (nc @ es) = mp (abs_path (oc @ es))"
  by (simp add: renamed_def)

lemma renamed_kept: "\<not> prefix nc ks \<Longrightarrow> \<not> prefix oc ks \<Longrightarrow> renamed oc nc mp ks = mp (abs_path ks)"
  by (simp add: renamed_def)

lemma renamed_SomeE:
  assumes "renamed oc nc mp ks = Some c" "list_all clean_comp ks"
  obtains (moved) es where "ks = nc @ es" "list_all clean_comp es" "mp (abs_path (oc @ es)) = Some c"
  | (kept) "\<not> prefix nc ks" "\<not> prefix oc ks" "mp (abs_path ks) = Some c"
proof (cases "prefix nc ks")
  case True
  then obtain es where "ks = nc @ es" by (rule prefixE)
  then show thesis using assms moved by simp
next
  case False
  then show thesis using assms kept by (simp add: renamed_def split: if_splits)
qed

lemma renamed_base:
  assumes wf: "map_wf mp hp" and a: "mp (abs_path oc) = Some a"
    and cl: "list_all clean_comp oc" "list_all clean_comp nc" "list_all clean_comp ks"
    and np: "\<not> prefix oc nc" "\<not> prefix nc oc" and nm: "n_name n = path_base (abs_path nc)"
    and r: "renamed oc nc mp ks = Some c"
  shows "c < length hp \<and> n_name (hp[a := n] ! c) = path_base (abs_path ks)"
  using r cl(3)
proof (cases rule: renamed_SomeE)
  case (moved es)
  note D = map_wfD [OF wf moved(3)]
  show ?thesis
  proof (cases es rule: rev_cases)
    case Nil
    then show ?thesis using moved a nm D(2) by simp
  next
    case (snoc us u)
    have "abs_path (oc @ es) \<noteq> abs_path oc" using cl moved(2) snoc by simp
    then have "c \<noteq> a" using map_wf_inj [OF wf moved(3)] a by blast
    moreover have "clean_comp u" "list_all clean_comp us" using moved(2) snoc by simp_all
    ultimately show ?thesis
      using D cl moved snoc path_base_snoc [of "nc @ us" u] path_base_snoc [of "oc @ us" u] by simp
  qed
next
  case kept
  have "abs_path ks \<noteq> abs_path oc" using cl kept(2) by auto
  then have "c \<noteq> a" using map_wf_inj [OF wf kept(3)] a by blast
  then show ?thesis using map_wfD [OF wf kept(3)] by simp
qed

lemma renamed_parent:
  assumes wf: "map_wf mp hp" and np: "\<not> prefix oc nc" "\<not> prefix nc oc"
    and cl: "list_all clean_comp oc" "list_all clean_comp nc" "list_all clean_comp (us @ [u])"
    and par: "mp (path_dir (abs_path nc)) = Some b" "n_isDir (hp ! b)"
    and r: "renamed oc nc mp (us @ [u]) = Some c"
  shows "\<exists>d. renamed oc nc mp us = Some d \<and> n_isDir (hp ! d)"
  using r cl(3)
proof (cases rule: renamed_SomeE)
  case (moved es)
  show ?thesis
  proof (cases es rule: rev_cases)
    case Nil
    then have nc: "nc = us @ [u]" using moved by simp
    then have "\<not> prefix nc us" "\<not> prefix oc us" using np by (auto dest: prefix_length_le)
    moreover have "path_dir (abs_path nc) = abs_path us" using nc cl by simp
    ultimately show ?thesis using par by (simp add: renamed_kept)
  next
    case (snoc ws w)
    then have us: "us = nc @ ws" using moved by simp
    have "list_all clean_comp ws" "clean_comp w" using moved(2) snoc by simp_all
    then have "path_dir (abs_path (oc @ es)) = abs_path (oc @ ws)" "abs_path (oc @ es) \<noteq> ''/''"
      using snoc cl path_dir_snoc [of "oc @ ws" w] abs_path_inject [of "oc @ es" "[]"] by simp_all
    then show ?thesis using map_wfD(4) [OF wf moved(3)] us by simp
  qed
next
  case kept
  have "abs_path (us @ [u]) \<noteq> ''/''" using cl abs_path_inject [of "us @ [u]" "[]"] by simp
  moreover have "\<not> prefix nc us" "\<not> prefix oc us" using kept by (auto simp: prefix_snoc)
  ultimately show ?thesis using map_wfD(4) [OF wf kept(3)] cl by (simp add: renamed_kept)
qed

lemma renamed_inj:
  assumes wf: "map_wf mp hp" and cl: "list_all clean_comp oc" "list_all clean_comp nc"
    and ks: "list_all clean_comp ks" "renamed oc nc mp ks = Some c"
    and ls: "list_all clean_comp ls" "renamed oc nc mp ls = Some c"
  shows "ks = ls"
  using ks(2,1)
proof (cases rule: renamed_SomeE)
  case k: (moved es)
  from ls(2,1) show ?thesis
  proof (cases rule: renamed_SomeE)
    case (moved fs)
    then show ?thesis using map_wf_inj [OF wf k(3) moved(3)] k cl by simp
  next
    case kept
    have "oc @ es = ls" using map_wf_inj [OF wf k(3) kept(3)] k cl ls by simp
    then show ?thesis using kept by auto
  qed
next
  case k: kept
  from ls(2,1) show ?thesis
  proof (cases rule: renamed_SomeE)
    case (moved fs)
    have "ks = oc @ fs" using map_wf_inj [OF wf k(3) moved(3)] moved cl ks by simp
    then show ?thesis using k by auto
  next
    case kept
    then show ?thesis using map_wf_inj [OF wf k(3) kept(3)] ks ls by simp
  qed
qed

lemma renamed_wf:
  assumes wf: "map_wf mp hp" and a: "mp (abs_path oc) = Some a"
    and cl: "list_all clean_comp oc" "list_all clean_comp nc"
    and np: "\<not> prefix oc nc" "\<not> prefix nc oc"
    and par: "mp (path_dir (abs_path nc)) = Some b" "n_isDir (hp ! b)"
    and nm: "n_name n = path_base (abs_path nc)" "n_isDir n = n_isDir (hp ! a)"
    and F: "\<And>ks. list_all clean_comp ks \<Longrightarrow> F (abs_path ks) = renamed oc nc mp ks"
    and keys: "\<And>k c. F k = Some c \<Longrightarrow> abs_clean k"
  shows "map_wf F (hp[a := n])"
proof -
  have dir: "n_isDir (hp[a := n] ! c) = n_isDir (hp ! c)" for c
    using nm(2) map_wfD(2) [OF wf a] by (cases "c = a") simp_all
  have Fks: "\<exists>ks. k = abs_path ks \<and> list_all clean_comp ks \<and> renamed oc nc mp ks = Some c"
    if "F k = Some c" for k c
    using abs_cleanE [OF keys [OF that]] that F by metis
  show ?thesis
  proof (rule map_wfI)
    fix k c assume "F k = Some c"
    with Fks obtain ks where ks: "k = abs_path ks" "list_all clean_comp ks" "renamed oc nc mp ks = Some c"
      by blast
    show "abs_clean k \<and> c < length (hp[a := n]) \<and> n_name (hp[a := n] ! c) = path_base k"
      using renamed_base [OF wf a cl ks(2) np nm(1) ks(3)] ks by simp
    show "\<exists>b. F (path_dir k) = Some b \<and> n_isDir (hp[a := n] ! b)" if "k \<noteq> ''/''"
    proof (cases ks rule: rev_cases)
      case Nil
      then show ?thesis using that ks by simp
    next
      case (snoc us u)
      then show ?thesis
        using renamed_parent [OF wf np cl _ par, of us u c] ks F [of us] by (simp add: dir)
    qed
    show "k = k'" if "F k' = Some c" for k'
      using Fks [OF that] ks renamed_inj [OF wf cl] by blast
  next
    have "renamed oc nc mp [] = mp ''/''" using np by (auto simp: renamed_def)
    then show "\<exists>c. F ''/'' = Some c \<and> n_isDir (hp[a := n] ! c)"
      using F [of "[]"] map_wf_root [OF wf] by (simp add: dir)
  qed
qed

lemma abs_clean_renamed_keys:
  assumes keys: "\<And>k c. (k, c) \<in> set ns \<Longrightarrow> abs_clean k"
    and cl: "list_all clean_comp oc" "oc \<noteq> []" "list_all clean_comp nc"
    and k: "(k, c) \<in> set (move_children (abs_path oc) (abs_path nc) ns)"
  shows "abs_clean k"
proof -
  have upd: "(k, c) \<in> set (AList.update p d acc) \<Longrightarrow> (k, c) = (p, d) \<or> (k, c) \<in> set acc"
    for k p :: string and c d :: nat and acc
    by (induction acc) (auto split: if_splits)
  have sub: "(k, c) \<in> set (foldl (\<lambda>acc (p, c). AList.update p c acc) acc ms) \<Longrightarrow> (k, c) \<in> set acc \<union> set ms"
    for k c acc and ms :: "(string \<times> nat) list"
  proof (induction ms arbitrary: acc)
    case (Cons x ms)
    obtain p d where x: "x = (p, d)" by (cases x)
    have "(k, c) \<in> set (AList.update p d acc) \<union> set ms" using Cons x by simp
    then show ?case using upd [of k c p d acc] x by auto
  qed simp
  have "(k, c) \<in> set ns \<or> (k, c) \<in> set (moved_entries (abs_path oc) (abs_path nc) ns)"
    using sub [OF k [unfolded move_children_def Let_def]] by (auto simp: moved_entries_def)
  then show ?thesis using keys cl by (auto simp: moved_entries_iff)
qed

lemma mem_rename_wf:
  assumes wf: "mem_wf m"
  shows "mem_wf (snd (mem_rename old new m))"
proof -
  define oc nc where "oc = clean_comps old" and "nc = clean_comps new"
  have cl: "list_all clean_comp oc" "list_all clean_comp nc" by (simp_all add: oc_def nc_def)
  show ?thesis
  proof (cases "fst (mem_rename old new m) = None \<and> oc \<noteq> nc")
    case False
    then have "snd (mem_rename old new m) = m"
      by (auto simp: mem_rename_def mem_clean_eq oc_def nc_def Let_def split: option.splits)
    then show ?thesis using wf by simp
  next
    case True
    then have ok: "mem_rename old new m = (None, snd (mem_rename old new m))" by (simp add: prod_eq_iff)
    note D = mem_wfD [OF wf]
    obtain a b where R: "map_of (nodes m) (abs_path oc) = Some a"
      "\<not> prefix oc nc" "\<not> prefix nc oc"
      "map_of (nodes m) (path_dir (abs_path nc)) = Some b" "n_isDir (heap m ! b)"
      "\<And>k. below (abs_path nc) k \<Longrightarrow> map_of (nodes m) k = None"
      "snd (mem_rename old new m) = upd_node a (\<lambda>n. n\<lparr>n_name := path_base (abs_path nc), n_modTime := clock m\<rparr>)
         (m\<lparr>nodes := AList.update (abs_path nc) a (AList.delete (abs_path oc)
            (if n_isDir (heap m ! a) then move_children (abs_path oc) (abs_path nc) (nodes m) else nodes m))\<rparr>)"
      using True mem_rename_okE [OF wf ok oc_def nc_def] by (elim conjE) blast
    define ns where "ns = (if n_isDir (heap m ! a) then move_children (abs_path oc) (abs_path nc) (nodes m) else nodes m)"
    define F where "F = map_of (AList.update (abs_path nc) a (AList.delete (abs_path oc) ns))"
    define n where "n = (heap m ! a)\<lparr>n_name := path_base (abs_path nc), n_modTime := clock m\<rparr>"
    have oc0: "oc \<noteq> []" using R(2) by auto
    have nskeys: "abs_clean k" if "(k, c) \<in> set ns" for k c
      using abs_clean_renamed_keys [OF mem_wf_keys [OF wf] cl(1) oc0 cl(2)] mem_wf_keys [OF wf] that
      by (auto simp: ns_def split: if_splits)
    have dist: "distinct (map fst ns)"
      using D(1) by (auto simp: ns_def move_children_def Let_def distinct_map_filter intro!: distinct_foldl_update)
    have "map_wf F ((heap m)[a := n])"
    proof (rule renamed_wf [OF D(2) R(1) cl R(2-5)])
      show "n_name n = path_base (abs_path nc)" "n_isDir n = n_isDir (heap m ! a)" by (simp_all add: n_def)
      show "F (abs_path ks) = renamed oc nc (map_of (nodes m)) ks" if "list_all clean_comp ks" for ks
        using rename_nodes_lookup [OF D(1,2) R(1) cl that R(2,3,6)] by (simp add: F_def ns_def)
      show "abs_clean k" if "F k = Some c" for k c
        using that cl nskeys by (auto simp: F_def split: if_splits dest: map_of_SomeD)
    qed
    moreover have "heap_wf ((heap m)[a := n])"
      using D(2,3) R(1) heap_wf_nth map_wfD(2) by (intro heap_wf_upd) (fastforce simp: n_def)+
    moreover have "files_wf ((heap m)[a := n]) (files m)"
      using D(4) by (intro files_wf_heap_upd) (simp_all add: n_def)
    ultimately show ?thesis
      using dist R(7) by (simp add: mem_wf_def upd_node_def F_def ns_def n_def)
  qed
qed

section \<open>Open files keep the invariant\<close>

lemma files_wf_nth: "mem_wf m \<Longrightarrow> i < length (files m) \<Longrightarrow>
   mf_node (files m ! i) < length (heap m) \<and> \<not> n_isDir (heap m ! mf_node (files m ! i)) \<and> 0 \<le> mf_offset (files m ! i)"
  by (simp add: mem_wf_def files_wf_def)

lemma memfile_read_wf: "mem_wf m \<Longrightarrow> i < length (files m) \<Longrightarrow> mem_wf (snd (memfile_read i k m))"
  using files_wf_nth [of m i] by (auto simp: memfile_read_def Let_def intro!: mem_wf_upd_file)

lemma memfile_readAt_wf: "snd (memfile_readAt i k off m) = m"
  by (simp add: memfile_readAt_def Let_def)

lemma memfile_write_wf: "mem_wf m \<Longrightarrow> i < length (files m) \<Longrightarrow> mem_wf (snd (memfile_write i p m))"
  using files_wf_nth [of m i]
  by (auto simp: memfile_write_def Let_def split: prod.splits option.splits intro!: mem_wf_upd_file)

lemma memfile_seek_wf: "mem_wf m \<Longrightarrow> i < length (files m) \<Longrightarrow> mem_wf (snd (memfile_seek i off wh m))"
  using files_wf_nth [of m i] by (auto simp: memfile_seek_def Let_def intro!: mem_wf_upd_file)

lemma files_length_seek [simp]: "length (files (snd (memfile_seek i off wh m))) = length (files m)"
  by (simp add: memfile_seek_def Let_def upd_file_def)

lemma memfile_writeAt_wf:
  assumes "mem_wf m" "i < length (files m)"
  shows "mem_wf (snd (memfile_writeAt i p off m))"
proof -
  have "mem_wf (snd (memfile_seek i off SeekStart m))" using assms by (rule memfile_seek_wf)
  then show ?thesis
    using assms files_length_seek [of i off SeekStart m] memfile_write_wf [of "snd (memfile_seek i off SeekStart m)" i p]
    by (cases "memfile_seek i off SeekStart m") (auto simp: memfile_writeAt_def split: sum.splits)
qed

lemma memfile_close_wf:
  assumes "mem_wf m" "i < length (files m)"
  shows "mem_wf (snd (memfile_close i m))"
proof -
  have "mem_wf (upd_file i (\<lambda>f. f\<lparr>mf_closed := True\<rparr>) m)"
    using assms files_wf_nth [OF assms] by (intro mem_wf_upd_file) auto
  then show ?thesis
    using assms files_wf_nth [OF assms]
    by (auto simp: memfile_close_def Let_def intro!: mem_wf_upd_node) (simp_all add: upd_file_def)
qed

lemma memfile_truncate_wf: "mem_wf m \<Longrightarrow> i < length (files m) \<Longrightarrow> mem_wf (snd (memfile_truncate i sz m))"
  using files_wf_nth [of m i] by (auto simp: memfile_truncate_def Let_def intro!: mem_wf_upd_file)

lemmas memfile_wf = memfile_read_wf memfile_readAt_wf memfile_write_wf memfile_seek_wf
  memfile_writeAt_wf memfile_close_wf memfile_truncate_wf

lemmas mem_ops_wf = mem_open_wf mem_rename_wf mem_remove_wf mem_removeAll_wf mem_mkdir_wf
  mem_mkdirAll_wf mem_chmod_wf mem_chtimes_wf

lemma guarded_wf:
  "guarded i d k m = (r, m') \<Longrightarrow> mem_wf m \<Longrightarrow> (i < length (files m) \<Longrightarrow> mem_wf (snd (k m))) \<Longrightarrow> mem_wf m'"
  by (auto simp: guarded_def split: if_splits)

lemma memfile_write_len: "memfile_write i p m = ((n, e), m') \<Longrightarrow> n \<le> length p"
  by (auto simp: memfile_write_def Let_def split: if_splits prod.splits option.splits)

interpretation memf: file_contract mem_wf "mem_file i p" for i p
proof
  fix m n bs e m' off q
  show "f_read (mem_file i p) n m = ((bs, e), m') \<Longrightarrow> length bs \<le> n"
    by (auto simp: mem_file_def guarded_def memfile_read_def Let_def split: if_splits)
  show "f_readAt (mem_file i p) n off m = ((bs, e), m') \<Longrightarrow> length bs \<le> n"
    by (auto simp: mem_file_def guarded_def memfile_readAt_def Let_def split: if_splits)
next
  fix m q n e m' off
  show "f_write (mem_file i p) q m = ((n, e), m') \<Longrightarrow> n \<le> length q"
    by (auto simp: mem_file_def guarded_def memfile_write_len split: if_splits)
  show "f_writeAt (mem_file i p) q off m = ((n, e), m') \<Longrightarrow> n \<le> length q"
    by (auto simp: mem_file_def guarded_def memfile_writeAt_def memfile_write_len
        split: if_splits prod.splits sum.splits)
qed (auto simp: mem_file_def memfile_wf elim!: guarded_wf)

lemma mem_open_file: "mem_open p fl pm m = (Inr f, m') \<Longrightarrow> \<exists>i q. f = mem_file i q"
  by (auto simp: mem_open_def open_node_def Let_def newMemFile_def split: option.splits if_splits)

lemma mem_op_inv: "op m = (c, m') \<Longrightarrow> mem_wf (snd (op m)) \<Longrightarrow> mem_wf m'"
  by simp

interpretation memfs: fs_contract mem_wf mem_fs
proof (rule fs_contract.intro)
  fix w p fl pm f w'
  assume "fs_open mem_fs p fl pm w = (Inr f, w')"
  then obtain i q where "f = mem_file i q" using mem_open_file [of p fl pm w f w'] by (auto simp: mem_fs_def)
  then show "file_contract mem_wf f" using memf.file_contract_axioms by simp
qed (auto simp: mem_fs_def intro: mem_ops_wf elim!: mem_op_inv)

end
