(* ===== verification/Memory_Props.thy ===== *)
theory Memory_Props
  imports Memory_Tree
begin

text \<open>
  What the operations of the in-memory backend do: \<^verbatim>\<open>ReadDir\<close>, \<^verbatim>\<open>Rename\<close> and \<^verbatim>\<open>RemoveAll\<close> on the tree,
  \<^verbatim>\<open>Write\<close> on a handle, the upload/download round trip, the invariant over every sequence of calls,
  and two behaviours of the code that its comments do not intend (the panicking overwrite, and the
  write-back of handles opened for reading).
\<close>


section \<open>Reading directories\<close>

lemma children_of_iff:
  assumes wf: "mem_wf m" and p: "abs_clean p"
  shows "(x, a) \<in> set (children_of p (nodes m)) \<longleftrightarrow>
     (\<exists>k. map_of (nodes m) k = Some a \<and> k \<noteq> ''/'' \<and> path_dir k = p \<and> path_base k = x)"
proof -
  obtain cs where cs: "p = abs_path cs" "list_all clean_comp cs" using p by (rule abs_cleanE)
  define pre where "pre = (if p \<noteq> ''/'' then p @ ''/'' else p)"
  have child: "(prefix pre k \<and> k \<noteq> p \<and> CHR ''/'' \<notin> set (trim_prefix pre k) \<and> trim_prefix pre k = x) \<longleftrightarrow>
      (k \<noteq> ''/'' \<and> path_dir k = p \<and> path_base k = x)" if k: "abs_clean k" for k
    using k
  proof (cases rule: abs_clean_cases)
    case 1
    then show ?thesis by (auto simp: pre_def cs) (auto simp: abs_path_def)
  next
    case (2 ds d)
    have pk: "prefix pre k \<and> k \<noteq> p \<longleftrightarrow> (\<exists>es. es \<noteq> [] \<and> ds @ [d] = cs @ es)"
    proof (cases "cs = []")
      case True
      then show ?thesis using 2 by (auto simp: pre_def cs)
    next
      case False
      then have "p \<noteq> ''/''" using cs abs_path_inject [of cs "[]"] by auto
      then have "prefix pre k \<longleftrightarrow> strict_prefix cs (ds @ [d])"
        using 2 cs False prefix_abs_path [of cs "ds @ [d]"] by (simp add: pre_def)
      moreover have "k \<noteq> p \<longleftrightarrow> ds @ [d] \<noteq> cs" using 2 cs by simp
      ultimately show ?thesis unfolding strict_prefix_def prefix_def by fastforce
    qed
    have tp: "trim_prefix pre k = join_with ''/'' es" if "ds @ [d] = cs @ es" "es \<noteq> []" for es
    proof (cases "cs = []")
      case True
      then show ?thesis using 2 that by (simp add: pre_def cs trim_prefix_def) (simp add: abs_path_def)
    next
      case False
      then have "p \<noteq> ''/''" using cs abs_path_inject [of cs "[]"] by auto
      then show ?thesis using 2 cs False that trim_prefix_abs_path [of cs es]
        by (simp add: pre_def)
    qed
    have sl: "CHR ''/'' \<notin> set (join_with ''/'' es) \<longleftrightarrow> length es = 1"
      if "list_all clean_comp es" "es \<noteq> []" for es
      using that by (cases es; cases "tl es") (auto simp: clean_comp_def)
    show ?thesis
    proof
      assume L: "prefix pre k \<and> k \<noteq> p \<and> CHR ''/'' \<notin> set (trim_prefix pre k) \<and> trim_prefix pre k = x"
      then obtain es where es: "es \<noteq> []" "ds @ [d] = cs @ es" using pk by blast
      have "list_all clean_comp es" using es(2) 2 list_all_append [of clean_comp cs es]
        by (simp flip: es(2))
      then have "length es = 1" using L tp es sl by simp
      then obtain e where "es = [e]" by (auto simp: length_Suc_conv)
      then show "k \<noteq> ''/'' \<and> path_dir k = p \<and> path_base k = x" using es 2 cs L tp [OF es(2,1)] by simp
    next
      assume R: "k \<noteq> ''/'' \<and> path_dir k = p \<and> path_base k = x"
      then have "ds @ [d] = cs @ [d]" using 2 cs by simp
      then show "prefix pre k \<and> k \<noteq> p \<and> CHR ''/'' \<notin> set (trim_prefix pre k) \<and> trim_prefix pre k = x"
        using pk tp [of "[d]"] R 2 by (auto simp: clean_comp_def)
    qed
  qed
  have "(x, a) \<in> set (children_of p (nodes m)) \<longleftrightarrow>
      (\<exists>k. (k, a) \<in> set (nodes m) \<and> prefix pre k \<and> k \<noteq> p \<and> CHR ''/'' \<notin> set (trim_prefix pre k) \<and> trim_prefix pre k = x)"
    unfolding children_of_def Let_def pre_def [symmetric] by force
  also have "\<dots> \<longleftrightarrow> (\<exists>k. (k, a) \<in> set (nodes m) \<and> k \<noteq> ''/'' \<and> path_dir k = p \<and> path_base k = x)"
    using child mem_wf_keys [OF wf] by blast
  also have "\<dots> \<longleftrightarrow> (\<exists>k. map_of (nodes m) k = Some a \<and> k \<noteq> ''/'' \<and> path_dir k = p \<and> path_base k = x)"
    using mem_wfD(1) [OF wf] by (simp add: map_of_eq_Some_iff)
  finally show ?thesis .
qed

lemma distinct_children:
  assumes wf: "mem_wf m" and p: "abs_clean p"
  shows "distinct (map fst (children_of p (nodes m)))"
proof -
  define ch where "ch = filter (\<lambda>(k, a). prefix (if p \<noteq> ''/'' then p @ ''/'' else p) k \<and> k \<noteq> p
     \<and> CHR ''/'' \<notin> set (trim_prefix (if p \<noteq> ''/'' then p @ ''/'' else p) k)) (nodes m)"
  have "distinct (map fst ch)" using mem_wfD(1) [OF wf] by (simp add: ch_def distinct_map_filter)
  moreover have "inj_on (trim_prefix (if p \<noteq> ''/'' then p @ ''/'' else p)) (set (map fst ch))"
    by (rule inj_onI) (auto simp: ch_def trim_prefix_def elim!: prefixE)
  ultimately have "distinct (map (trim_prefix (if p \<noteq> ''/'' then p @ ''/'' else p)) (map fst ch))"
    by (simp only: distinct_map)
  then show ?thesis
    by (simp add: children_of_def Let_def ch_def case_prod_unfold comp_def)
qed

text \<open>\<^verbatim>\<open>ReadDir\<close> on a directory returns exactly its immediate children, each once, in byte order.\<close>

theorem mem_readDir_children:
  assumes "mem_wf m" and "map_of (nodes m) (mem_clean p) = Some a" and "n_isDir (heap m ! a)"
  shows "\<exists>es. mem_readDir p m = Inr es
    \<and> sorted (map (\<lambda>e. de_name e m) es) \<and> distinct (map (\<lambda>e. de_name e m) es)
    \<and> set (map (\<lambda>e. de_name e m) es) =
        {path_base k |k. map_of (nodes m) k \<noteq> None \<and> k \<noteq> ''/'' \<and> path_dir k = mem_clean p}"
proof -
  define ch where "ch = children_of (mem_clean p) (nodes m)"
  define es where "es = map (\<lambda>nm. mem_entry (the (map_of ch nm))) (sort (map fst ch))"
  note iff = children_of_iff [OF assms(1) abs_clean_mem_clean, of _ _ p, folded ch_def]
  have d: "distinct (map fst ch)" using distinct_children [OF assms(1)] by (simp add: ch_def)
  have nm: "n_name (heap m ! the (map_of ch x)) = x" if "x \<in> fst ` set ch" for x
  proof -
    obtain b where b: "(x, b) \<in> set ch" using \<open>x \<in> fst ` set ch\<close> by auto
    then obtain k where "map_of (nodes m) k = Some b" "path_base k = x" using iff by blast
    then have "n_name (heap m ! b) = x" using map_wfD(3) [OF mem_wfD(2) [OF assms(1)]] by blast
    then show ?thesis using map_of_is_SomeI [OF d b] by simp
  qed
  have names: "map (\<lambda>e. de_name e m) es = sort (map fst ch)"
    by (simp add: es_def comp_def mem_entry_def) (rule map_idI, simp add: nm)
  have "set (map fst ch) = {path_base k |k. map_of (nodes m) k \<noteq> None \<and> k \<noteq> ''/'' \<and> path_dir k = mem_clean p}"
  proof (rule set_eqI)
    fix x
    have "x \<in> set (map fst ch) \<longleftrightarrow> (\<exists>b. (x, b) \<in> set ch)" by force
    then show "x \<in> set (map fst ch) \<longleftrightarrow>
      x \<in> {path_base k |k. map_of (nodes m) k \<noteq> None \<and> k \<noteq> ''/'' \<and> path_dir k = mem_clean p}"
      unfolding iff by blast
  qed
  then show ?thesis
    using assms d by (intro exI [of _ es]) (simp add: names, simp add: mem_readDir_def es_def ch_def Let_def)
qed

section \<open>Rename and RemoveAll\<close>


text \<open>C31. A successful \<^verbatim>\<open>Rename\<close> between different paths moves the whole subtree: a path at or below the
  new name leads to the node that was at the corresponding path of the old subtree, nothing is left
  at or below the old name, all other paths keep their nodes, and contents, kinds and open handles
  are untouched.\<close>

theorem mem_rename_moves_subtree:
  assumes "mem_wf m" and "mem_rename old new m = (None, m')" and "clean_comps old \<noteq> clean_comps new"
    and "list_all clean_comp ks"
  shows "map_of (nodes m') (abs_path ks) = renamed (clean_comps old) (clean_comps new) (map_of (nodes m)) ks
    \<and> map n_data (heap m') = map n_data (heap m) \<and> map n_isDir (heap m') = map n_isDir (heap m)
    \<and> files m' = files m"
proof -
  obtain a b where R: "map_of (nodes m) (abs_path (clean_comps old)) = Some a"
      "\<not> prefix (clean_comps old) (clean_comps new)" "\<not> prefix (clean_comps new) (clean_comps old)"
      "\<And>k. below (abs_path (clean_comps new)) k \<Longrightarrow> map_of (nodes m) k = None"
      and m': "m' = upd_node a (\<lambda>n. n\<lparr>n_name := path_base (abs_path (clean_comps new)), n_modTime := clock m\<rparr>)
         (m\<lparr>nodes := AList.update (abs_path (clean_comps new)) a (AList.delete (abs_path (clean_comps old))
            (if n_isDir (heap m ! a) then move_children (abs_path (clean_comps old)) (abs_path (clean_comps new)) (nodes m) else nodes m))\<rparr>)"
      using mem_rename_okE [OF assms(1,2) refl refl assms(3)] by blast
  note D = mem_wfD [OF assms(1)]
  have "map_of (nodes m') (abs_path ks) = renamed (clean_comps old) (clean_comps new) (map_of (nodes m)) ks"
    using rename_nodes_lookup [OF D(1,2) R(1) clean_comps_clean clean_comps_clean assms(4) R(2,3,4)]
    by (simp add: m' upd_node_def)
  then show ?thesis by (simp add: m' upd_node_def map_update map_list_update_same)
qed

section \<open>Writing\<close>

text \<open>
  The reference behaviour of a write: \<open>p\<close> at offset \<open>off\<close>, the bytes outside it unchanged, a gap
  between the old end and \<open>off\<close> filled with zeros.
\<close>

definition written :: "bytes \<Rightarrow> nat \<Rightarrow> bytes \<Rightarrow> bytes" where
  "written data off p = take off (data @ replicate (off - length data) NUL) @ p @ drop (off + length p) data"

lemma slice_write_panic:
  "fst (slice_write s off p) \<noteq> None \<longleftrightarrow>
     off < length (sl_vis s) \<and> length (sl_vis s) < off + length p \<and> off + length p \<le> sl_cap s"
  by (simp add: slice_write_def Let_def)

lemma slice_write_written:
  "slice_write s off p = (None, s') \<Longrightarrow> sl_vis s' = written (sl_vis s) off p"
  by (auto simp: slice_write_def Let_def written_def splice_def split: if_splits)

lemma memfile_write_cases:
  assumes "i < length (files m)"
  shows "memfile_write i p m = ((n, e), m') \<Longrightarrow>
    (case e of
       None \<Rightarrow> n = length p
         \<and> sl_vis (mf_data (files m' ! i)) = written (sl_vis (mf_data (files m ! i))) (nat (mf_offset (files m ! i))) p
         \<and> mf_offset (files m' ! i) = mf_offset (files m ! i) + int n
     | Some e \<Rightarrow> n = 0 \<and> (e \<noteq> GoPanic \<longrightarrow> m' = m))
    \<and> nodes m' = nodes m \<and> heap m' = heap m \<and> length (files m') = length (files m)
    \<and> (\<forall>j. j \<noteq> i \<longrightarrow> files m' ! j = files m ! j)"
  using assms
  by (auto simp: memfile_write_def Let_def upd_file_def slice_write_written
      split: if_splits prod.splits option.splits)
     (auto simp: slice_write_def Let_def split: if_splits)


section \<open>Every reachable state is a tree\<close>

text \<open>One call on the backend or on a handle it has returned, or the passing of time.\<close>

datatype mem_cmd =
    MOpen string flags filemode | MRename string string | MRemove string | MRemoveAll string
  | MMkdir string filemode | MMkdirAll string filemode | MChmod string filemode
  | MChtimes string int int
  | MRead nat nat | MWrite nat bytes | MWriteAt nat bytes int | MSeek nat int int
  | MClose nat | MTruncate nat int | MTick int

fun mem_exec :: "mem_cmd \<Rightarrow> mem \<Rightarrow> mem" where
  "mem_exec (MOpen p fl pm) m = snd (fs_open mem_fs p fl pm m)"
| "mem_exec (MRename p q) m = snd (fs_rename mem_fs p q m)"
| "mem_exec (MRemove p) m = snd (fs_remove mem_fs p m)"
| "mem_exec (MRemoveAll p) m = snd (fs_removeAll mem_fs p m)"
| "mem_exec (MMkdir p pm) m = snd (fs_mkdir mem_fs p pm m)"
| "mem_exec (MMkdirAll p pm) m = snd (fs_mkdirAll mem_fs p pm m)"
| "mem_exec (MChmod p pm) m = snd (fs_chmod mem_fs p pm m)"
| "mem_exec (MChtimes p t u) m = snd (fs_chtimes mem_fs p t u m)"
| "mem_exec (MRead i k) m = snd (f_read (mem_file i []) k m)"
| "mem_exec (MWrite i bs) m = snd (f_write (mem_file i []) bs m)"
| "mem_exec (MWriteAt i bs off) m = snd (f_writeAt (mem_file i []) bs off m)"
| "mem_exec (MSeek i off wh) m = snd (f_seek (mem_file i []) off wh m)"
| "mem_exec (MClose i) m = snd (f_close (mem_file i []) m)"
| "mem_exec (MTruncate i sz) m = snd (f_truncate (mem_file i []) sz m)"
| "mem_exec (MTick d) m = m\<lparr>clock := clock m + d\<rparr>"

definition mem_run :: "mem_cmd list \<Rightarrow> int \<Rightarrow> (nat \<Rightarrow> nat \<Rightarrow> nat) \<Rightarrow> mem" where
  "mem_run cmds now sp = fold mem_exec cmds (mem_New now sp)"

lemmas mem_contract_invs = memfs.open_inv memfs.rename_inv memfs.remove_inv memfs.removeAll_inv
  memfs.mkdir_inv memfs.mkdirAll_inv memfs.chmod_inv memfs.chtimes_inv memf.read_inv memf.write_inv
  memf.writeAt_inv memf.seek_inv memf.close_inv memf.truncate_inv

lemma mem_exec_wf: "mem_wf m \<Longrightarrow> mem_wf (mem_exec c m)"
  by (cases c) (auto intro: mem_contract_invs [OF _ surjective_pairing], simp add: mem_wf_def)

lemma fold_mem_exec_wf: "mem_wf m \<Longrightarrow> mem_wf (fold mem_exec cmds m)"
  by (induction cmds arbitrary: m) (simp_all add: mem_exec_wf)

lemma mem_run_tree: "mem_wf (mem_run cmds now sp)"
  by (simp add: mem_run_def fold_mem_exec_wf mem_wf_New)

text \<open>C5. Whatever calls are made on a fresh backend, its path map stays a tree: every entry other than
  the root has a parent entry that is a directory, the entry's node carries its base name, and no
  two paths share a node.\<close>

theorem mem_reachable_tree:
  "mem_wf (mem_run cmds now sp)
   \<and> (map_of (nodes (mem_run cmds now sp)) k = Some a \<longrightarrow> k \<noteq> ''/'' \<longrightarrow>
       (\<exists>b. map_of (nodes (mem_run cmds now sp)) (path_dir k) = Some b
          \<and> n_isDir (heap (mem_run cmds now sp) ! b)))"
  using mem_run_tree map_wfD(4) [OF mem_wfD(2) [OF mem_run_tree]] by blast

definition wit_cmds :: "mem_cmd list" where
  "wit_cmds = [MMkdirAll ''/a/b'' 0, MOpen ''/a/b/f'' (O_RDWR OR O_CREATE) 0, MWrite 0 ''xy'', MClose 0]"

definition wit_mem :: mem where
  "wit_mem = mem_run wit_cmds 0 (\<lambda>_ _. 0)"

lemma wit_mem_wf: "mem_wf wit_mem"
  by (simp add: wit_mem_def mem_run_tree)

lemma wit_mem_nodes: "nodes wit_mem = [(''/'', 0), (''/a'', 1), (''/a/b'', 2), (''/a/b/f'', 3)]"
  by code_simp

lemma wit_mem_dirs: "map n_isDir (heap wit_mem) = [True, True, True, False]"
  by code_simp


theorem mem_reachable_tree_witness:
  "map_of (nodes (mem_run wit_cmds 0 (\<lambda>_ _. 0))) ''/a/b/f'' = Some 3 \<and>
   (\<exists>b. map_of (nodes (mem_run wit_cmds 0 (\<lambda>_ _. 0))) (path_dir ''/a/b/f'') = Some b)"
proof -
  have "map_of (nodes (mem_run wit_cmds 0 (\<lambda>_ _. 0))) ''/a/b/f'' = Some 3" by code_simp
  then show ?thesis using mem_reachable_tree [of wit_cmds 0 "\<lambda>_ _. 0" "''/a/b/f''" 3] by auto
qed

theorem mem_readDir_children_witness:
  "\<exists>es. mem_readDir ''/a'' wit_mem = Inr es
    \<and> set (map (\<lambda>e. de_name e wit_mem) es) =
        {path_base k |k. map_of (nodes wit_mem) k \<noteq> None \<and> k \<noteq> ''/'' \<and> path_dir k = mem_clean ''/a''}"
proof -
  have "map_of (nodes wit_mem) (mem_clean ''/a'') = Some 1" "n_isDir (heap wit_mem ! 1)" by code_simp+
  then show ?thesis using mem_readDir_children [OF wit_mem_wf, of "''/a''" 1] by blast
qed

theorem mem_rename_moves_subtree_witness:
  "map_of (nodes (snd (mem_rename ''/a'' ''/z'' wit_mem))) (abs_path [''z'', ''b'', ''f'']) =
     renamed (clean_comps ''/a'') (clean_comps ''/z'') (map_of (nodes wit_mem)) [''z'', ''b'', ''f'']"
proof -
  have "mem_rename ''/a'' ''/z'' wit_mem = (None, snd (mem_rename ''/a'' ''/z'' wit_mem))"
    by (simp add: prod_eq_iff) code_simp
  moreover have "clean_comps ''/a'' \<noteq> clean_comps ''/z''" "list_all clean_comp [''z'', ''b'', ''f'']"
    by code_simp+
  ultimately show ?thesis using mem_rename_moves_subtree [OF wit_mem_wf] by blast
qed

text \<open>\<^verbatim>\<open>RemoveAll\<close> of a path other than the root succeeds, and removes the path and everything below it and nothing else.\<close>

theorem mem_removeAll_subtree:
  assumes "mem_wf m" and "clean_comps p \<noteq> []" and "list_all clean_comp ks"
  shows "fst (mem_removeAll p m) = None
    \<and> map_of (nodes (snd (mem_removeAll p m))) (abs_path ks)
        = (if prefix (clean_comps p) ks then None else map_of (nodes m) (abs_path ks))
    \<and> heap (snd (mem_removeAll p m)) = heap m"
proof -
  have ne: "abs_path (clean_comps p) \<noteq> ''/''" using assms(2) abs_path_inject [of "clean_comps p" "[]"] by simp
  have "abs_path ks = abs_path (clean_comps p) \<or> prefix (abs_path (clean_comps p) @ ''/'') (abs_path ks)
      \<longleftrightarrow> prefix (clean_comps p) ks"
    using match_iff [of "clean_comps p" ks] assms by simp
  then show ?thesis
    using ne by (simp add: mem_removeAll_def mem_clean_eq Let_def map_of_filter_key) blast
qed

theorem mem_removeAll_subtree_witness:
  "map_of (nodes (snd (mem_removeAll ''/a/b'' wit_mem))) (abs_path [''a'', ''b'', ''f'']) = None"
proof -
  have "clean_comps ''/a/b'' \<noteq> []" "list_all clean_comp [''a'', ''b'', ''f'']"
    "prefix (clean_comps ''/a/b'') [''a'', ''b'', ''f'']" by code_simp+
  then show ?thesis using mem_removeAll_subtree [OF wit_mem_wf] by simp
qed

section \<open>Handles\<close>

lemma slice_write_err: "slice_write s off p = (Some e, s') \<Longrightarrow> e = GoPanic"
  by (auto simp: slice_write_def Let_def split: if_splits)

text \<open>A \<^verbatim>\<open>Write\<close> that succeeds reports the whole buffer, puts it at the handle's offset with any
  gap after the old end read as zeros (also when the bytes come from capacity that held older
  data), moves the offset behind it, and touches no other handle and no node.\<close>

theorem memfile_write_spec:
  assumes "i < length (files m)" and "memfile_write i p m = ((n, None), m')"
  shows "n = length p
    \<and> sl_vis (mf_data (files m' ! i)) = written (sl_vis (mf_data (files m ! i))) (nat (mf_offset (files m ! i))) p
    \<and> mf_offset (files m' ! i) = mf_offset (files m ! i) + int n
    \<and> nodes m' = nodes m \<and> heap m' = heap m \<and> (\<forall>j. j \<noteq> i \<longrightarrow> files m' ! j = files m ! j)"
  using memfile_write_cases [OF assms] by simp

text \<open>A \<^verbatim>\<open>Write\<close> within the size limits panics exactly when it starts before the end of the data,
  ends after it, and its end fits in the slice's capacity: there \<open>clear(m.data[oldLen:m.offset])\<close> slices
  backwards.\<close>

theorem memfile_write_panics:
  assumes "i < length (files m)" and "\<not> mf_closed (files m ! i)" and "0 \<le> mf_offset (files m ! i)"
    and "mf_offset (files m ! i) + int (length p) \<le> maxMemFileSize"
    and "mf_offset (files m ! i) \<le> int (length (sl_vis (mf_data (files m ! i)))) + maxMemHole"
  shows "snd (fst (memfile_write i p m)) = Some GoPanic \<longleftrightarrow>
    mf_offset (files m ! i) < int (length (sl_vis (mf_data (files m ! i))))
    \<and> int (length (sl_vis (mf_data (files m ! i)))) < mf_offset (files m ! i) + int (length p)
    \<and> mf_offset (files m ! i) + int (length p) \<le> int (sl_cap (mf_data (files m ! i)))"
  using assms slice_write_panic [of "mf_data (files m ! i)" "nat (mf_offset (files m ! i))" p]
  by (auto simp: memfile_write_def Let_def split: prod.splits option.splits dest: slice_write_err)

definition panic_mem :: mem where
  "panic_mem = mem_run [MOpen ''/f'' (O_RDWR OR O_CREATE) 0, MWrite 0 ''a'', MWrite 0 ''b'', MWrite 0 ''c'', MSeek 0 2 0]
     0 (\<lambda>_ _. 0)"

theorem memfile_write_spec_witness:
  "sl_vis (mf_data (files (snd (memfile_write 0 ''C'' panic_mem)) ! 0)) =
     written (sl_vis (mf_data (files panic_mem ! 0))) (nat (mf_offset (files panic_mem ! 0))) ''C''"
proof -
  have "memfile_write 0 ''C'' panic_mem = ((1, None), snd (memfile_write 0 ''C'' panic_mem))"
    by (simp add: prod_eq_iff) code_simp
  moreover have "0 < length (files panic_mem)" by code_simp
  ultimately show ?thesis using memfile_write_spec by blast
qed

theorem memfile_write_panics_witness:
  "snd (fst (memfile_write 0 ''CD'' panic_mem)) = Some GoPanic"
proof -
  have "0 < length (files panic_mem)" "\<not> mf_closed (files panic_mem ! 0)" "mf_offset (files panic_mem ! 0) = 2"
    "length (sl_vis (mf_data (files panic_mem ! 0))) = 3" "sl_cap (mf_data (files panic_mem ! 0)) = 4" by code_simp+
  then show ?thesis using memfile_write_panics [of 0 panic_mem "''CD''"] by (simp add: maxMemFileSize_def maxMemHole_def)
qed

definition upload_flags :: flags where
  "upload_flags = O_WRONLY OR O_CREATE OR O_TRUNC"

lemma upload_flags_simps [simp]:
  "upload_flags AND O_TRUNC \<noteq> 0" "upload_flags AND O_CREATE \<noteq> 0" "upload_flags AND O_APPEND = 0"
  "upload_flags AND (O_CREATE OR O_EXCL) \<noteq> O_CREATE OR O_EXCL"
  by (simp_all add: upload_flags_def open_flag_defs)

lemma O_RDONLY_simps [simp]: "O_RDONLY AND x = 0" by (simp add: O_RDONLY_def)

text \<open>What a successful truncating open leaves: an empty node at the path, an empty handle on it.\<close>

lemma mem_open_upload:
  assumes wf: "mem_wf m" and ok: "mem_open p upload_flags pm m = (Inr f, m1)"
  obtains a where "f = mem_file (length (files m)) (mem_clean p)"
    and "map_of (nodes m1) (mem_clean p) = Some a" and "a < length (heap m1)"
    and "\<not> n_isDir (heap m1 ! a)" and "length (files m1) = Suc (length (files m))"
    and "mf_node (files m1 ! length (files m)) = a" and "mf_offset (files m1 ! length (files m)) = 0"
    and "\<not> mf_closed (files m1 ! length (files m))"
    and "sl_vis (mf_data (files m1 ! length (files m))) = []"
proof (cases "map_of (nodes m) (mem_clean p)")
  case (Some a)
  then have al: "a < length (heap m)" using wf map_wfD(2) by (fastforce simp: mem_wf_def)
  from Some ok have "f = mem_file (length (files m)) (mem_clean p)" "\<not> n_isDir (heap m ! a)"
    "m1 = snd (newMemFile (mem_clean p) a 0 (open_base a upload_flags m))"
    by (auto simp: mem_open_def open_node_eq Let_def split: if_splits)
  then show thesis
    using that [of a] Some al by (simp add: newMemFile_def open_base_def upd_node_def fresh_slice_def Let_def)
next
  case None
  let ?a = "length (heap m)"
  from None ok have "f = mem_file (length (files m)) (mem_clean p)"
    "m1 = snd (newMemFile (mem_clean p) ?a 0 (open_base ?a upload_flags
       (add_node (mem_clean p) \<lparr>n_name = path_base (mem_clean p), n_data = [],
          n_mode = (if pm = 0 then 0x1A4 else pm), n_modTime = clock m, n_isDir = False\<rparr> m)))"
    by (auto simp: mem_open_def open_node_eq Let_def add_node_def split: if_splits option.splits)
  then show thesis
    using that [of ?a] by (simp add: newMemFile_def open_base_def upd_node_def fresh_slice_def add_node_def Let_def)
qed

lemma written_empty [simp]: "written [] 0 p = p"
  by (simp add: written_def)

text \<open>C6. Upload and download: opening for writing with truncation, one write and a close make a later
  open for reading return exactly the written bytes.\<close>

theorem mem_upload_download:
  assumes wf: "mem_wf m" and op: "fs_open mem_fs p upload_flags pm m = (Inr f, m1)"
    and sz: "int (length bs) \<le> maxMemFileSize"
    and wr: "f_write f bs m1 = (r, m2)" and cl: "f_close f m2 = (c, m3)"
  shows "r = (length bs, None) \<and> c = None
    \<and> (\<exists>g m4. fs_open mem_fs p O_RDONLY 0 m3 = (Inr g, m4)
         \<and> fst (f_readAt g (length bs) 0 m4) = (bs, if bs = [] then Some EOF else None))"
proof -
  let ?i = "length (files m)"
  obtain a where A: "f = mem_file ?i (mem_clean p)" "map_of (nodes m1) (mem_clean p) = Some a"
    "a < length (heap m1)" "\<not> n_isDir (heap m1 ! a)" "length (files m1) = Suc ?i" "mf_node (files m1 ! ?i) = a"
    "mf_offset (files m1 ! ?i) = 0" "\<not> mf_closed (files m1 ! ?i)" "sl_vis (mf_data (files m1 ! ?i)) = []"
    by (rule mem_open_upload [OF wf, of p pm f m1]) (use op in \<open>simp_all add: mem_fs_def\<close>)
  have il: "?i < length (files m1)" using A(5) by simp
  have "slice_write (mf_data (files m1 ! ?i)) 0 bs = (None, snd (slice_write (mf_data (files m1 ! ?i)) 0 bs))"
    using A(9) slice_write_panic [of "mf_data (files m1 ! ?i)" 0 bs] by (simp add: prod_eq_iff)
  then have w: "memfile_write ?i bs m1 = ((length bs, None), snd (memfile_write ?i bs m1))"
    using A sz by (auto simp: memfile_write_def Let_def maxMemFileSize_def maxMemHole_def split: prod.splits option.splits)
  then have rm2: "r = (length bs, None)" "m2 = snd (memfile_write ?i bs m1)"
    using wr A(1,5) by (auto simp: mem_file_def guarded_def)
  have M2: "sl_vis (mf_data (files m2 ! ?i)) = bs" "nodes m2 = nodes m1" "heap m2 = heap m1"
    "length (files m2) = length (files m1)"
    using memfile_write_cases [OF il w] A by (simp_all add: rm2(2))
  have M2f: "\<not> mf_closed (files m2 ! ?i)" "mf_node (files m2 ! ?i) = a"
    using A il unfolding rm2(2) memfile_write_def Let_def upd_file_def
    by (auto split: prod.splits option.splits)
  have m3: "c = None" "nodes m3 = nodes m1" "n_data (heap m3 ! a) = bs" "\<not> n_isDir (heap m3 ! a)"
    using cl A M2 M2f il by (auto simp: mem_file_def guarded_def memfile_close_def Let_def upd_node_def upd_file_def)
  have "\<exists>g m4. mem_open p O_RDONLY 0 m3 = (Inr g, m4)
         \<and> fst (f_readAt g (length bs) 0 m4) = (bs, if bs = [] then Some EOF else None)"
    using m3 A(2) by (simp add: mem_open_def open_node_eq open_base_def newMemFile_def mem_file_def guarded_def
        memfile_readAt_def fresh_slice_def Let_def O_CREATE_def O_EXCL_def)
  then show ?thesis using rm2 m3 by (simp add: mem_fs_def)
qed


lemma not_islE: "\<not> isl (fst x) \<Longrightarrow> (\<And>v w. x = (Inr v, w) \<Longrightarrow> thesis) \<Longrightarrow> thesis"
  by (cases x; cases "fst x") auto

theorem mem_upload_download_witness:
  "\<exists>g m4. fs_open mem_fs ''/a/g'' O_RDONLY 0
      (snd (memfile_close 1 (snd (memfile_write 1 ''data'' (snd (mem_open ''/a/g'' upload_flags 0 wit_mem)))))) = (Inr g, m4)
    \<and> fst (f_readAt g 4 0 m4) = (''data'', None)"
proof -
  define m1 where "m1 = snd (mem_open ''/a/g'' upload_flags 0 wit_mem)"
  have ok: "\<not> isl (fst (mem_open ''/a/g'' upload_flags 0 wit_mem))" "length (files wit_mem) = 1"
    "mem_clean ''/a/g'' = ''/a/g''" by code_simp+
  then obtain f where f: "mem_open ''/a/g'' upload_flags 0 wit_mem = (Inr f, m1)"
    using m1_def by (elim not_islE) simp
  obtain a where A: "f = mem_file 1 ''/a/g''" "length (files m1) = 2"
    by (rule mem_open_upload [OF wit_mem_wf f]) (use ok in simp)
  define m2 where "m2 = snd (memfile_write 1 ''data'' m1)"
  have "f_write f ''data'' m1 = memfile_write 1 ''data'' m1" using A by (simp add: mem_file_def guarded_def)
  then have w: "f_write f ''data'' m1 = (fst (memfile_write 1 ''data'' m1), m2)" by (simp add: m2_def)
  have "length (files m2) = 2"
    using A memfile_write_cases [of 1 m1 "''data''" _ _ m2] by (metis m2_def lessI numeral_2_eq_2 One_nat_def surjective_pairing)
  then have "f_close f m2 = memfile_close 1 m2" using A by (simp add: mem_file_def guarded_def)
  then have c: "f_close f m2 = (fst (memfile_close 1 m2), snd (memfile_close 1 m2))" by simp
  show ?thesis
    using mem_upload_download [OF wit_mem_wf _ _ w c, of "''/a/g''" 0] f
    unfolding m1_def [symmetric] m2_def [symmetric] by (simp add: mem_fs_def maxMemFileSize_def numeral_eq_Suc)
qed

section \<open>Handles are snapshots\<close>

fun cmd_handle :: "mem_cmd \<Rightarrow> nat option" where
  "cmd_handle (MRead i _) = Some i"
| "cmd_handle (MWrite i _) = Some i"
| "cmd_handle (MWriteAt i _ _) = Some i"
| "cmd_handle (MSeek i _ _) = Some i"
| "cmd_handle (MClose i) = Some i"
| "cmd_handle (MTruncate i _) = Some i"
| "cmd_handle _ = None"

definition keeps :: "nat \<Rightarrow> mem \<Rightarrow> mem \<Rightarrow> bool" where
  "keeps i m m' \<longleftrightarrow> i < length (files m') \<and> files m' ! i = files m ! i"

lemma keeps_upd_file: "i < length (files m) \<Longrightarrow> j \<noteq> i \<Longrightarrow> keeps i m (upd_file j g m)"
  by (simp add: keeps_def upd_file_def)

lemma files_upd_node [simp]: "files (upd_node a g m) = files m"
  by (simp add: upd_node_def)

lemma files_add_node [simp]: "files (add_node p n m) = files m"
  by (simp add: add_node_def)

lemma keeps_open_node:
  "i < length (files m) \<Longrightarrow> files m' = files m \<Longrightarrow> keeps i m (snd (open_node p a fl m'))"
  by (simp add: open_node_eq keeps_def newMemFile_def open_base_def Let_def nth_append)

lemma files_mkdirAll_loop [simp]: "files (snd (mkdirAll_loop parts cur pm m)) = files m"
  by (induction parts arbitrary: cur m) (auto simp: Let_def split: option.splits)

lemma keeps_refl: "i < length (files m) \<Longrightarrow> files m' = files m \<Longrightarrow> keeps i m m'"
  by (simp add: keeps_def)

lemma memfile_writeAt_cases:
  "snd (memfile_writeAt j bs off m) = m \<or>
   snd (memfile_writeAt j bs off m) = snd (memfile_write j bs (upd_file j (\<lambda>f. f\<lparr>mf_offset := off\<rparr>) m))"
  by (auto simp: memfile_writeAt_def memfile_seek_def SeekStart_def Let_def)

lemma keeps_upd_node [simp]: "keeps i m (upd_node a g m') = keeps i m m'"
  by (simp add: keeps_def)

lemma keeps_trans: "keeps i m m' \<Longrightarrow> keeps i m' m'' \<Longrightarrow> keeps i m m''"
  by (simp add: keeps_def)

lemma keeps_write: "i < length (files m) \<Longrightarrow> j \<noteq> i \<Longrightarrow> keeps i m (snd (memfile_write j bs m))"
  by (auto simp: memfile_write_def Let_def keeps_refl keeps_upd_file split: prod.splits option.splits)

lemma keeps_writeAt: "i < length (files m) \<Longrightarrow> j \<noteq> i \<Longrightarrow> keeps i m (snd (memfile_writeAt j bs off m))"
  using memfile_writeAt_cases [of j bs off m] keeps_upd_file keeps_write keeps_trans keeps_refl
  by (metis keeps_def)

lemma keeps_exec:
  assumes "i < length (files m)" "cmd_handle c \<noteq> Some i"
  shows "keeps i m (mem_exec c m)"
proof (cases c)
  case (MOpen p fl pm)
  then show ?thesis
    using assms by (auto simp: mem_fs_def mem_open_def Let_def keeps_refl keeps_open_node split: option.splits)
qed (use assms in \<open>auto simp: mem_fs_def mem_file_def guarded_def keeps_refl keeps_write keeps_writeAt keeps_upd_file
      mem_rename_def mem_remove_def mem_removeAll_def mem_mkdir_def mem_mkdirAll_def mem_chmod_def mem_chtimes_def
      memfile_read_def memfile_seek_def memfile_truncate_def memfile_close_def Let_def split: option.splits\<close>)

lemma keeps_fold:
  "i < length (files m) \<Longrightarrow> \<forall>c\<in>set cmds. cmd_handle c \<noteq> Some i \<Longrightarrow> keeps i m (fold mem_exec cmds m)"
proof (induction cmds arbitrary: m)
  case (Cons c cmds)
  then have "keeps i m (mem_exec c m)" by (simp add: keeps_exec)
  then show ?case using Cons keeps_trans [of i m "mem_exec c m"] by (simp add: keeps_def)
qed (simp add: keeps_refl)

text \<open>A handle opened for reading only that is closed after others have changed the file puts the
  contents of open time back: whatever commands ran in between on other handles and on the tree,
  the node's data is again what the reader had opened.\<close>

theorem mem_stale_close_reverts:
  assumes wf: "mem_wf m" and p: "map_of (nodes m) (mem_clean p) = Some a"
    and op: "fs_open mem_fs p O_RDONLY 0 m = (Inr r, m1)"
    and others: "\<forall>c\<in>set cmds. cmd_handle c \<noteq> Some (length (files m))"
  shows "n_data (heap (snd (f_close r (fold mem_exec cmds m1))) ! a) = n_data (heap m ! a)"
proof -
  let ?i = "length (files m)"
  have m1: "r = mem_file ?i (mem_clean p)" "length (files m1) = Suc ?i" "mf_node (files m1 ! ?i) = a"
    "\<not> mf_closed (files m1 ! ?i)" "sl_vis (mf_data (files m1 ! ?i)) = n_data (heap m ! a)"
    using op p by (auto simp: mem_fs_def mem_open_def open_node_eq open_base_def newMemFile_def fresh_slice_def
        O_CREATE_def O_EXCL_def Let_def split: if_splits)
  have "keeps ?i m1 (fold mem_exec cmds m1)" using keeps_fold others m1(2) by simp
  moreover have wf2: "mem_wf (fold mem_exec cmds m1)"
    using memfs.open_inv [OF wf op] by (rule fold_mem_exec_wf)
  ultimately show ?thesis
    using m1 files_wf_nth [OF wf2, of ?i]
    by (simp add: keeps_def mem_file_def guarded_def memfile_close_def upd_node_def upd_file_def Let_def)
qed

theorem mem_stale_close_reverts_witness:
  "\<exists>r m1. fs_open mem_fs ''/a/b/f'' O_RDONLY 0 wit_mem = (Inr r, m1)
     \<and> n_data (heap (snd (f_close r (fold mem_exec
         [MOpen ''/a/b/f'' upload_flags 0, MWrite 2 ''new'', MClose 2] m1))) ! 3) = ''xy''"
proof -
  have ok: "\<not> isl (fst (mem_open ''/a/b/f'' O_RDONLY 0 wit_mem))" "length (files wit_mem) = 1"
    "map_of (nodes wit_mem) (mem_clean ''/a/b/f'') = Some 3" "n_data (heap wit_mem ! 3) = ''xy''" by code_simp+
  then obtain r m1 where r: "fs_open mem_fs ''/a/b/f'' O_RDONLY 0 wit_mem = (Inr r, m1)"
    by (elim not_islE) (simp add: mem_fs_def)
  show ?thesis
    using r mem_stale_close_reverts [OF wit_mem_wf ok(3) r, of "[MOpen ''/a/b/f'' upload_flags 0, MWrite 2 ''new'', MClose 2]"] ok
    by auto
qed

end
