(* ===== verification/Quota.thy ===== *)
theory Quota
  imports Memory_Props
begin

text \<open>
  \<^verbatim>\<open>internal/quota/quota.go\<close>: the per-user tracker, the registry that shares it between sessions, and
  the storage walk.  A \<^verbatim>\<open>*Tracker\<close> receiver may be nil, so a tracker is an option.  Methods run under
  the tracker's mutex and are one function each; \<^verbatim>\<open>refresh\<close> gives the mutex up while it walks the
  storage and is modelled by its two critical sections, so that other calls can come between them.
  \<^verbatim>\<open>int64\<close> arithmetic wraps (\<open>wrap64\<close>), the generation counter is a 64-bit word, times are
  nanoseconds and \<^verbatim>\<open>Time.Sub\<close> saturates.
\<close>

section \<open>Tracker\<close>

record tracker =
  t_usedBytes :: int
  t_maxStorage :: int
  t_usedFiles :: int
  t_maxFiles :: int
  t_inflight :: int
  t_busySince :: int
  t_gen :: "64 word"
  t_measured :: bool
  t_measuredAt :: int

text \<open>The zero tracker.\<close>

definition zero_tracker :: tracker where
  "zero_tracker =
     \<lparr>t_usedBytes = 0, t_maxStorage = 0, t_usedFiles = 0, t_maxFiles = 0, t_inflight = 0,
      t_busySince = zero_time, t_gen = 0, t_measured = False, t_measuredAt = zero_time\<rparr>"

fun SetLimits :: "tracker option \<Rightarrow> int \<Rightarrow> int \<Rightarrow> tracker option" where
  "SetLimits None maxStorage maxFiles = None"
| "SetLimits (Some t) maxStorage maxFiles =
     Some (t\<lparr>t_maxStorage := maxStorage, t_maxFiles := maxFiles\<rparr>)"

fun BeginChange :: "int \<Rightarrow> tracker option \<Rightarrow> tracker option" where
  "BeginChange now None = None"
| "BeginChange now (Some t) =
     Some (t\<lparr>t_busySince := (if t_inflight t = 0 then now else t_busySince t),
             t_inflight := wrap64 (t_inflight t + 1), t_gen := t_gen t + 1\<rparr>)"

fun EndChange :: "tracker option \<Rightarrow> tracker option" where
  "EndChange None = None"
| "EndChange (Some t) =
     (let n = max (wrap64 (t_inflight t - 1)) 0 in
      Some (t\<lparr>t_inflight := n, t_busySince := (if n = 0 then zero_time else t_busySince t),
              t_gen := t_gen t + 1\<rparr>))"

definition StuckChangeFactor :: int where
  "StuckChangeFactor = 10"

definition MinStuckAge :: int where
  "MinStuckAge = 600000000000"

definition stuckLocked :: "tracker \<Rightarrow> int \<Rightarrow> int \<Rightarrow> bool" where
  "stuckLocked t maxAge now =
     (if t_inflight t = 0 \<or> maxAge \<le> 0 then False
      else if maxAge \<le> max_int64 div StuckChangeFactor
        then time_sub now (t_busySince t) \<ge> max MinStuckAge (maxAge * StuckChangeFactor)
        else False)"

fun OnGrow :: "tracker option \<Rightarrow> int \<Rightarrow> goerr option \<times> tracker option" where
  "OnGrow None n = (None, None)"
| "OnGrow (Some t) n =
     (if n \<le> 0 then (None, Some t)
      else if t_maxStorage t > 0 \<and> wrap64 (t_usedBytes t + n) > t_maxStorage t
        then (Some ErrStorageExceeded, Some t)
      else (None, Some (t\<lparr>t_usedBytes := wrap64 (t_usedBytes t + n), t_gen := t_gen t + 1\<rparr>)))"

fun OnShrink :: "tracker option \<Rightarrow> int \<Rightarrow> tracker option" where
  "OnShrink None n = None"
| "OnShrink (Some t) n =
     (if n \<le> 0 then Some t
      else Some (t\<lparr>t_usedBytes := max (wrap64 (t_usedBytes t - n)) 0, t_gen := t_gen t + 1\<rparr>))"

fun OnFileCreated :: "tracker option \<Rightarrow> goerr option \<times> tracker option" where
  "OnFileCreated None = (None, None)"
| "OnFileCreated (Some t) =
     (if t_maxFiles t > 0 \<and> wrap64 (t_usedFiles t + 1) > t_maxFiles t
        then (Some ErrFileCountExceeded, Some t)
      else (None, Some (t\<lparr>t_usedFiles := wrap64 (t_usedFiles t + 1), t_gen := t_gen t + 1\<rparr>)))"

fun OnFilesRemoved :: "tracker option \<Rightarrow> int \<Rightarrow> tracker option" where
  "OnFilesRemoved None n = None"
| "OnFilesRemoved (Some t) n =
     (if n \<le> 0 then Some t
      else Some (t\<lparr>t_usedFiles := max (wrap64 (t_usedFiles t - n)) 0, t_gen := t_gen t + 1\<rparr>))"

fun Usage :: "tracker option \<Rightarrow> int \<times> int \<times> int \<times> int" where
  "Usage None = (0, 0, 0, 0)"
| "Usage (Some t) = (t_usedBytes t, t_maxStorage t, t_usedFiles t, t_maxFiles t)"

fun UsedBytes :: "tracker option \<Rightarrow> int" where
  "UsedBytes None = 0"
| "UsedBytes (Some t) = t_usedBytes t"

fun UsedFiles :: "tracker option \<Rightarrow> int" where
  "UsedFiles None = 0"
| "UsedFiles (Some t) = t_usedFiles t"

fun MaxStorage :: "tracker option \<Rightarrow> int" where
  "MaxStorage None = 0"
| "MaxStorage (Some t) = t_maxStorage t"

section \<open>The storage walk\<close>

definition joinPath :: "string \<Rightarrow> string \<Rightarrow> string" where
  "joinPath parent name =
     (if parent = [] \<or> parent = ''/'' then ''/'' @ name else parent @ ''/'' @ name)"

text \<open>
  The loop over the entries of one directory; \<open>sub\<close> is the recursive call.  A result is the byte and
  file count and the error; the whole is \<open>None\<close> when the recursion ran out of fuel.
\<close>

type_synonym usage = "(int \<times> int) \<times> goerr option"

fun measure_entries ::
  "(string \<Rightarrow> usage option) \<Rightarrow> string \<Rightarrow> 'w \<Rightarrow> 'w direntry list \<Rightarrow> int \<Rightarrow> int \<Rightarrow> usage option" where
  "measure_entries sub dir w [] b f = Some ((b, f), None)"
| "measure_entries sub dir w (entry # es) b f =
     (if de_isDir entry w then
        (case sub (joinPath dir (de_name entry w)) of
           None \<Rightarrow> None
         | Some ((b', f'), e) \<Rightarrow>
             if e \<noteq> None \<and> e \<noteq> Some ErrNotExist then Some ((b, f), e)
             else measure_entries sub dir w es (wrap64 (b + b')) (wrap64 (f + f')))
      else
        (case de_info entry w of
           Inl e \<Rightarrow> if e = ErrNotExist then measure_entries sub dir w es b f
                   else Some ((b, f), Some e)
         | Inr info \<Rightarrow> measure_entries sub dir w es (wrap64 (b + fi_size info)) (wrap64 (f + 1))))"

fun measureDirUsage :: "nat \<Rightarrow> 'w filesystem \<Rightarrow> string \<Rightarrow> 'w \<Rightarrow> usage option" where
  "measureDirUsage 0 fsys dir w = None"
| "measureDirUsage (Suc k) fsys dir w =
     (case fs_readDir fsys dir w of
        Inl e \<Rightarrow> Some ((0, 0), Some e)
      | Inr entries \<Rightarrow> measure_entries (\<lambda>p. measureDirUsage k fsys p w) dir w entries 0 0)"

definition MeasureUsage :: "nat \<Rightarrow> 'w filesystem \<Rightarrow> string \<Rightarrow> 'w \<Rightarrow> usage option" where
  "MeasureUsage k fsys root w =
     (case fs_stat fsys root w of
        Inl e \<Rightarrow> Some ((0, 0), Some e)
      | Inr info \<Rightarrow> if \<not> fi_isDir info then Some ((fi_size info, 1), None)
                   else measureDirUsage k fsys root w)"

section \<open>Refresh\<close>

text \<open>
  The first critical section: \<open>None\<close> when no measurement is due, otherwise the generation, whether a
  measurement exists and whether the changes in progress count as stuck.  The second: what becomes
  of the walk's result.
\<close>

definition refresh_begin :: "tracker \<Rightarrow> int \<Rightarrow> int \<Rightarrow> (64 word \<times> bool \<times> bool) option" where
  "refresh_begin t maxAge now =
     (let stuck = stuckLocked t maxAge now;
          busy = t_inflight t > 0 \<and> \<not> stuck in
      if t_measured t \<and> (busy \<or> (maxAge > 0 \<and> time_sub now (t_measuredAt t) < maxAge)) then None
      else Some (t_gen t, t_measured t, stuck))"

fun refresh_end :: "64 word \<times> bool \<times> bool \<Rightarrow> usage \<Rightarrow> int \<Rightarrow> tracker \<Rightarrow> goerr option \<times> tracker" where
  "refresh_end (gen, measured, stuck) ((b, f), err) now t =
     (if err \<noteq> None \<and> err \<noteq> Some ErrNotExist then (if measured then (None, t) else (err, t))
      else if t_measured t \<and> (t_gen t \<noteq> gen \<or> (t_inflight t > 0 \<and> \<not> stuck)) then (None, t)
      else (None, t\<lparr>t_usedBytes := b, t_usedFiles := f, t_measured := True, t_measuredAt := now\<rparr>))"

text \<open>Without interference the sections run one after the other; \<open>None\<close>: the walk ran out of fuel.\<close>

definition refresh :: "nat \<Rightarrow> 'w filesystem \<Rightarrow> 'w \<Rightarrow> int \<Rightarrow> int \<Rightarrow> tracker \<Rightarrow> (goerr option \<times> tracker) option" where
  "refresh k fsys w maxAge now t =
     (case refresh_begin t maxAge now of
        None \<Rightarrow> Some (None, t)
      | Some snap \<Rightarrow>
          (case MeasureUsage k fsys ''/'' w of
             None \<Rightarrow> None
           | Some u \<Rightarrow> Some (refresh_end snap u now t)))"

definition NewTracker :: "nat \<Rightarrow> 'w filesystem \<Rightarrow> 'w \<Rightarrow> int \<Rightarrow> int \<Rightarrow> int \<Rightarrow> tracker res option" where
  "NewTracker k fsys w maxStorage maxFiles now =
     (case refresh k fsys w 0 now (zero_tracker\<lparr>t_maxStorage := maxStorage, t_maxFiles := maxFiles\<rparr>) of
        None \<Rightarrow> None
      | Some (Some e, t) \<Rightarrow> Some (Inl e)
      | Some (None, t) \<Rightarrow> Some (Inr t))"

section \<open>Registry\<close>

text \<open>
  Trackers are shared by pointer: \<open>rg_trackers\<close> is their heap and \<open>rg_users\<close> the Go map from account
  key to scope and tracker address.  Every registry entry has a tracker of its own, so the address
  also identifies the \<^verbatim>\<open>*registryEntry\<close>.
\<close>

record registry =
  rg_users :: "(string \<times> string \<times> nat) list"
  rg_trackers :: "tracker list"

definition NewRegistry :: registry where
  "NewRegistry = \<lparr>rg_users = [], rg_trackers = []\<rparr>"

text \<open>The section of \<^verbatim>\<open>ForUser\<close> under the registry's mutex.\<close>

definition registry_entry :: "string \<Rightarrow> string \<Rightarrow> registry \<Rightarrow> nat \<times> registry" where
  "registry_entry key scope r =
     (case map_of (rg_users r) key of
        Some (sc, a) \<Rightarrow>
          if sc \<noteq> scope
          then (length (rg_trackers r),
                r\<lparr>rg_users := AList.update key (scope, length (rg_trackers r)) (rg_users r),
                  rg_trackers := rg_trackers r @ [zero_tracker]\<rparr>)
          else (a, r)
      | None \<Rightarrow>
          (length (rg_trackers r),
           r\<lparr>rg_users := AList.update key (scope, length (rg_trackers r)) (rg_users r),
             rg_trackers := rg_trackers r @ [zero_tracker]\<rparr>))"

definition set_tracker :: "nat \<Rightarrow> tracker \<Rightarrow> registry \<Rightarrow> registry" where
  "set_tracker a t r = r\<lparr>rg_trackers := (rg_trackers r)[a := t]\<rparr>"

definition ForUser ::
  "nat \<Rightarrow> string \<Rightarrow> string \<Rightarrow> 'w filesystem \<Rightarrow> 'w \<Rightarrow> int \<Rightarrow> int \<Rightarrow> int \<Rightarrow> int \<Rightarrow> registry \<Rightarrow> (nat res \<times> registry) option" where
  "ForUser k key scope fsys w maxStorage maxFiles maxAge now r =
     (case registry_entry key scope r of (a, r1) \<Rightarrow>
        let t = (rg_trackers r1 ! a)\<lparr>t_maxStorage := maxStorage, t_maxFiles := maxFiles\<rparr> in
        (case refresh k fsys w maxAge now t of
           None \<Rightarrow> None
         | Some (Some e, t') \<Rightarrow> Some (Inl e, set_tracker a t' r1)
         | Some (None, t') \<Rightarrow> Some (Inr a, set_tracker a t' r1)))"

text \<open>One deletion of \<^verbatim>\<open>Prune\<close>, for an entry of the snapshot whose key \<^verbatim>\<open>keep\<close> rejected.\<close>

definition prune_drop :: "string \<Rightarrow> string \<times> nat \<Rightarrow> registry \<Rightarrow> nat \<times> registry" where
  "prune_drop key entry r =
     (if map_of (rg_users r) key = Some entry
      then (1, r\<lparr>rg_users := AList.delete key (rg_users r)\<rparr>) else (0, r))"

fun prune_loop :: "(string \<Rightarrow> bool) \<Rightarrow> (string \<times> string \<times> nat) list \<Rightarrow> nat \<Rightarrow> registry \<Rightarrow> nat \<times> registry" where
  "prune_loop keep [] dropped r = (dropped, r)"
| "prune_loop keep ((key, entry) # es) dropped r =
     (if keep key then prune_loop keep es dropped r
      else (case prune_drop key entry r of (d, r') \<Rightarrow> prune_loop keep es (dropped + d) r'))"

definition Prune :: "(string \<Rightarrow> bool) \<Rightarrow> registry \<Rightarrow> nat \<times> registry" where
  "Prune keep r = prune_loop keep (rg_users r) 0 r"

definition registry_Len :: "registry \<Rightarrow> nat" where
  "registry_Len r = length (rg_users r)"


section \<open>The walk measures exactly the regular files\<close>

lemma wrap64_add: "wrap64 (wrap64 x + wrap64 y) = wrap64 (x + y)"
  by (metis add.commute wrap64_add_left)

lemma wrap64_0 [simp]: "wrap64 0 = 0" and wrap64_1 [simp]: "wrap64 1 = 1"
  by (simp_all add: wrap64_def)

lemma measure_entries_sum:
  assumes "\<forall>x\<in>set xs.
      if de_isDir (g x) w then sub (joinPath dir (de_name (g x) w)) = Some ((wrap64 (B x), wrap64 (F x)), None)
      else \<exists>info. de_info (g x) w = Inr info \<and> fi_size info = B x \<and> F x = 1"
  shows "measure_entries sub dir w (map g xs) (wrap64 b) (wrap64 f) =
    Some ((wrap64 (b + sum_list (map B xs)), wrap64 (f + sum_list (map F xs))), None)"
  using assms
proof (induction xs arbitrary: b f)
  case (Cons x xs)
  show ?case
  proof (cases "de_isDir (g x) w")
    case True
    then show ?thesis using Cons by (simp add: wrap64_add add.assoc)
  next
    case False
    then show ?thesis using Cons by (auto simp: wrap64_add_left add.assoc)
  qed
qed simp

definition node_at :: "mem \<Rightarrow> string list \<Rightarrow> node option" where
  "node_at m ks = map_option (\<lambda>a. heap m ! a) (map_of (nodes m) (abs_path ks))"

definition is_file :: "mem \<Rightarrow> string list \<Rightarrow> bool" where
  "is_file m ks \<longleftrightarrow> (\<exists>n. node_at m ks = Some n \<and> \<not> n_isDir n)"

definition files_under :: "mem \<Rightarrow> string list \<Rightarrow> string list set" where
  "files_under m cs = {ks. list_all clean_comp ks \<and> strict_prefix cs ks \<and> is_file m ks}"

definition bytes_at :: "mem \<Rightarrow> string list \<Rightarrow> int" where
  "bytes_at m ks = (case node_at m ks of None \<Rightarrow> 0 | Some n \<Rightarrow> int (length (n_data n)))"

lemma joinPath_abs:
  "list_all clean_comp cs \<Longrightarrow> joinPath (abs_path cs) x = abs_path (cs @ [x])"
  using abs_path_inject [of cs "[]"]
  by (cases "cs = []") (auto simp: joinPath_def abs_path_snoc abs_path_single)

lemma mem_readDir_names:
  assumes wf: "mem_wf m" and cs: "list_all clean_comp cs"
    and d: "map_of (nodes m) (abs_path cs) = Some a" "n_isDir (heap m ! a)"
  obtains names where "distinct names"
    and "set names = {x. clean_comp x \<and> node_at m (cs @ [x]) \<noteq> None}"
    and "fs_readDir mem_fs (abs_path cs) m =
      Inr (map (\<lambda>x. mem_entry (the (map_of (nodes m) (abs_path (cs @ [x]))))) names)"
proof -
  define ch where "ch = children_of (abs_path cs) (nodes m)"
  have ac: "abs_clean (abs_path cs)" using cs by simp
  note iff = children_of_iff [OF wf ac, folded ch_def]
  have iff': "(x, b) \<in> set ch \<longleftrightarrow> clean_comp x \<and> map_of (nodes m) (abs_path (cs @ [x])) = Some b" for x b
  proof
    assume "(x, b) \<in> set ch"
    then obtain k where k: "map_of (nodes m) k = Some b" "k \<noteq> ''/''" "path_dir k = abs_path cs" "path_base k = x"
      using iff by blast
    have "abs_clean k" using map_wfD(1) [OF mem_wfD(2) [OF wf] k(1)] .
    then show "clean_comp x \<and> map_of (nodes m) (abs_path (cs @ [x])) = Some b"
      using k cs by (elim abs_clean_cases) auto
  next
    assume x: "clean_comp x \<and> map_of (nodes m) (abs_path (cs @ [x])) = Some b"
    then show "(x, b) \<in> set ch"
      unfolding iff using cs abs_path_inject [of "cs @ [x]" "[]"] by (intro exI [of _ "abs_path (cs @ [x])"]) simp
  qed
  have dist: "distinct (map fst ch)" unfolding ch_def by (rule distinct_children [OF wf ac])
  have look: "map_of ch x = map_of (nodes m) (abs_path (cs @ [x]))" if "x \<in> set (map fst ch)" for x
    using that iff' dist by (auto simp: map_of_eq_Some_iff)
  show thesis
  proof (rule that)
    show "distinct (sort (map fst ch))" using dist by simp
    have "x \<in> set (map fst ch) \<longleftrightarrow> (\<exists>b. (x, b) \<in> set ch)" for x by force
    then show "set (sort (map fst ch)) = {x. clean_comp x \<and> node_at m (cs @ [x]) \<noteq> None}"
      by (auto simp: iff' node_at_def)
    show "fs_readDir mem_fs (abs_path cs) m =
      Inr (map (\<lambda>x. mem_entry (the (map_of (nodes m) (abs_path (cs @ [x]))))) (sort (map fst ch)))"
      using d cs look by (simp add: mem_fs_def mem_readDir_def Let_def flip: ch_def)
  qed
qed


lemma node_at_prefix:
  assumes wf: "mem_wf m"
  shows "list_all clean_comp (cs @ ds) \<Longrightarrow> node_at m (cs @ ds) = Some n \<Longrightarrow> ds \<noteq> [] \<Longrightarrow>
     \<exists>d. node_at m cs = Some d \<and> n_isDir d"
proof (induction ds arbitrary: n rule: rev_induct)
  case (snoc d ds)
  obtain a where a: "map_of (nodes m) (abs_path (cs @ ds @ [d])) = Some a"
    using snoc.prems by (auto simp: node_at_def)
  have "abs_path (cs @ ds @ [d]) \<noteq> ''/''" "path_dir (abs_path (cs @ ds @ [d])) = abs_path (cs @ ds)"
    using snoc.prems abs_path_inject [of "cs @ ds @ [d]" "[]"] path_dir_snoc [of "cs @ ds" d] by simp_all
  then obtain n' where n': "node_at m (cs @ ds) = Some n'" "n_isDir n'"
    using map_wfD(4) [OF mem_wfD(2) [OF wf] a] by (auto simp: node_at_def)
  then show ?case using snoc.IH snoc.prems by (cases "ds = []") auto
qed simp

lemma finite_node_at: "finite {ks. list_all clean_comp ks \<and> node_at m ks \<noteq> None}"
proof -
  have "abs_path ` {ks. list_all clean_comp ks \<and> node_at m ks \<noteq> None} \<subseteq> dom (map_of (nodes m))"
    by (auto simp: node_at_def)
  moreover have "inj_on abs_path {ks. list_all clean_comp ks \<and> node_at m ks \<noteq> None}"
    by (auto intro!: inj_onI)
  ultimately show ?thesis by (metis finite_dom_map_of finite_imageD finite_subset)
qed

lemma finite_files_under [simp]: "finite (files_under m cs)"
  by (rule finite_subset [OF _ finite_node_at [of m]]) (auto simp: files_under_def is_file_def)

text \<open>The files below a directory are those of its children, without overlap.\<close>

definition child_files :: "mem \<Rightarrow> string list \<Rightarrow> string \<Rightarrow> string list set" where
  "child_files m cs x = (if is_file m (cs @ [x]) then {cs @ [x]} else files_under m (cs @ [x]))"

lemma files_under_children:
  assumes wf: "mem_wf m" and cs: "list_all clean_comp cs"
  shows "files_under m cs = (\<Union>x \<in> {x. clean_comp x \<and> node_at m (cs @ [x]) \<noteq> None}. child_files m cs x)"
proof (intro equalityI subsetI)
  fix ks assume ks: "ks \<in> files_under m cs"
  then obtain x zs where k: "ks = cs @ x # zs"
    unfolding files_under_def strict_prefix_def by (auto elim!: prefixE) (metis list.exhaust)
  obtain n where n: "node_at m ks = Some n" "\<not> n_isDir n" "list_all clean_comp ks"
    using ks by (auto simp: files_under_def is_file_def)
  show "ks \<in> (\<Union>x \<in> {x. clean_comp x \<and> node_at m (cs @ [x]) \<noteq> None}. child_files m cs x)"
  proof (cases "zs = []")
    case True
    then have "is_file m (cs @ [x])" using n k by (auto simp: is_file_def)
    then show ?thesis using True n k by (intro UN_I [of x]) (auto simp: child_files_def)
  next
    case False
    then obtain d where d: "node_at m (cs @ [x]) = Some d" "n_isDir d"
      using node_at_prefix [OF wf, of "cs @ [x]" zs n] n k by auto
    then have "\<not> is_file m (cs @ [x])" by (simp add: is_file_def)
    moreover have "ks \<in> files_under m (cs @ [x])"
      using n k False by (auto simp: files_under_def is_file_def strict_prefix_def)
    ultimately show ?thesis using d n k by (intro UN_I [of x]) (auto simp: child_files_def)
  qed
next
  fix ks assume "ks \<in> (\<Union>x \<in> {x. clean_comp x \<and> node_at m (cs @ [x]) \<noteq> None}. child_files m cs x)"
  then show "ks \<in> files_under m cs"
    using cs by (auto simp: child_files_def files_under_def strict_prefix_def split: if_splits elim!: prefixE)
qed

lemma child_files_disjoint:
  "x \<noteq> y \<Longrightarrow> child_files m cs x \<inter> child_files m cs y = {}"
  by (auto simp: child_files_def files_under_def strict_prefix_def split: if_splits elim!: prefixE)

lemma sum_files_under:
  assumes wf: "mem_wf m" and cs: "list_all clean_comp cs" and dist: "distinct names"
    and names: "set names = {x. clean_comp x \<and> node_at m (cs @ [x]) \<noteq> None}"
  shows "(\<Sum>ks\<in>files_under m cs. (g ks :: int)) = sum_list (map (\<lambda>x. \<Sum>ks\<in>child_files m cs x. g ks) names)"
proof -
  have "(\<Sum>ks\<in>files_under m cs. g ks) = (\<Sum>x\<in>set names. \<Sum>ks\<in>child_files m cs x. g ks)"
    unfolding files_under_children [OF wf cs] names [symmetric]
    by (rule sum.UNION_disjoint) (auto simp: child_files_def dest: child_files_disjoint [THEN equals0D])
  then show ?thesis using dist by (simp add: sum_list_distinct_conv_sum_set)
qed

lemma measureDirUsage_mem:
  assumes wf: "mem_wf m"
  shows "list_all clean_comp cs \<Longrightarrow> node_at m cs = Some d \<Longrightarrow> n_isDir d \<Longrightarrow>
     (\<And>ks. list_all clean_comp ks \<Longrightarrow> node_at m ks \<noteq> None \<Longrightarrow> length ks < length cs + k) \<Longrightarrow>
     measureDirUsage k mem_fs (abs_path cs) m =
       Some ((wrap64 (\<Sum>ks\<in>files_under m cs. bytes_at m ks), wrap64 (int (card (files_under m cs)))), None)"
proof (induction k arbitrary: cs d)
  case 0
  then show ?case by fastforce
next
  case (Suc k)
  obtain a where a: "map_of (nodes m) (abs_path cs) = Some a" "n_isDir (heap m ! a)"
    using Suc.prems by (auto simp: node_at_def)
  obtain names where N: "distinct names" "set names = {x. clean_comp x \<and> node_at m (cs @ [x]) \<noteq> None}"
    "fs_readDir mem_fs (abs_path cs) m =
      Inr (map (\<lambda>x. mem_entry (the (map_of (nodes m) (abs_path (cs @ [x]))))) names)"
    using mem_readDir_names [OF wf Suc.prems(1) a] .
  let ?B = "\<lambda>x. \<Sum>ks\<in>child_files m cs x. bytes_at m ks"
  let ?F = "\<lambda>x. \<Sum>ks\<in>child_files m cs x. (1 :: int)"
  let ?sub = "\<lambda>p. measureDirUsage k mem_fs p m"
  let ?g = "\<lambda>x. mem_entry (the (map_of (nodes m) (abs_path (cs @ [x]))))"
  have entry: "if de_isDir (?g x) m
      then ?sub (joinPath (abs_path cs) (de_name (?g x) m)) = Some ((wrap64 (?B x), wrap64 (?F x)), None)
      else \<exists>info. de_info (?g x) m = Inr info \<and> fi_size info = ?B x \<and> ?F x = 1" if x: "x \<in> set names" for x
  proof -
    obtain b where b: "map_of (nodes m) (abs_path (cs @ [x])) = Some b" and cx: "clean_comp x"
      using x N(2) by (auto simp: node_at_def)
    have nb: "node_at m (cs @ [x]) = Some (heap m ! b)" using b by (simp add: node_at_def)
    have name: "n_name (heap m ! b) = x"
      using map_wfD(3) [OF mem_wfD(2) [OF wf] b] Suc.prems(1) cx by simp
    show ?thesis
    proof (cases "n_isDir (heap m ! b)")
      case True
      then have "child_files m cs x = files_under m (cs @ [x])"
        using nb by (simp add: child_files_def is_file_def)
      moreover have "measureDirUsage k mem_fs (abs_path (cs @ [x])) m =
         Some ((wrap64 (\<Sum>ks\<in>files_under m (cs @ [x]). bytes_at m ks), wrap64 (int (card (files_under m (cs @ [x]))))), None)"
        using Suc.prems cx nb True by (intro Suc.IH [of _ "heap m ! b"]) auto
      ultimately show ?thesis
        using True b name Suc.prems(1) by (simp add: mem_entry_def joinPath_abs)
    next
      case False
      then have "child_files m cs x = {cs @ [x]}" using nb by (simp add: child_files_def is_file_def)
      then show ?thesis using False b nb by (simp add: mem_entry_def node_info_def bytes_at_def)
    qed
  qed
  have "measure_entries ?sub (abs_path cs) m (map ?g names) (wrap64 0) (wrap64 0) =
    Some ((wrap64 (0 + sum_list (map ?B names)), wrap64 (0 + sum_list (map ?F names))), None)"
    using entry by (intro measure_entries_sum) blast
  then show ?case
    using N(3) sum_files_under [OF wf Suc.prems(1) N(1,2), of "bytes_at m"]
      sum_files_under [OF wf Suc.prems(1) N(1,2), of "\<lambda>_. 1"]
    by simp
qed

lemma node_at_depth:
  assumes wf: "mem_wf m" and ks: "list_all clean_comp ks" "node_at m ks \<noteq> None"
  shows "length ks < length (nodes m)"
proof -
  let ?P = "(\<lambda>i. abs_path (take i ks)) ` {0..length ks}"
  have cl: "list_all clean_comp (take i ks)" for i using ks(1) by (metis append_take_drop_id list_all_append)
  have "abs_path (take i ks) \<in> dom (map_of (nodes m))" if "i \<le> length ks" for i
  proof (cases "i = length ks")
    case True
    then show ?thesis using ks by (auto simp: node_at_def)
  next
    case False
    then show ?thesis
      using node_at_prefix [OF wf, of "take i ks" "drop i ks"] ks that by (auto simp: node_at_def)
  qed
  then have "?P \<subseteq> dom (map_of (nodes m))" by (intro image_subsetI) simp
  then have "card ?P \<le> card (dom (map_of (nodes m)))" by (simp add: card_mono finite_dom_map_of)
  moreover have "inj_on (\<lambda>i. abs_path (take i ks)) {0..length ks}"
    using cl by (intro inj_onI) (auto dest!: arg_cong [of _ _ length])
  then have "card ?P = Suc (length ks)" by (simp add: card_image)
  moreover have "card (dom (map_of (nodes m))) = length (nodes m)"
    using mem_wfD(1) [OF wf] by (metis dom_map_of_conv_image_fst distinct_card length_map set_map)
  ultimately show ?thesis by simp
qed

lemma files_under_root:
  assumes wf: "mem_wf m"
  shows "(\<Sum>ks\<in>files_under m []. g (bytes_at m ks)) =
     (\<Sum>(k, a)\<leftarrow>nodes m. if n_isDir (heap m ! a) then 0 else (g (int (length (n_data (heap m ! a)))) :: int))"
proof -
  let ?h = "\<lambda>k. case map_of (nodes m) k of None \<Rightarrow> 0 | Some a \<Rightarrow>
     if n_isDir (heap m ! a) then 0 else g (int (length (n_data (heap m ! a))))"
  have "(\<Sum>(k, a)\<leftarrow>nodes m. if n_isDir (heap m ! a) then 0 else (g (int (length (n_data (heap m ! a)))))) =
      sum_list (map ?h (map fst (nodes m)))"
    using mem_wfD(1) [OF wf] by (auto simp: case_prod_unfold intro!: arg_cong [of _ _ sum_list] split: option.splits)
  also have "\<dots> = (\<Sum>k\<in>dom (map_of (nodes m)). ?h k)"
    using mem_wfD(1) [OF wf] by (simp only: sum_list_distinct_conv_sum_set set_map dom_map_of_conv_image_fst)
  also have "\<dots> = (\<Sum>k\<in>abs_path ` files_under m []. ?h k)"
  proof (rule sum.mono_neutral_right)
    show "abs_path ` files_under m [] \<subseteq> dom (map_of (nodes m))"
      by (auto simp: files_under_def is_file_def node_at_def)
    show "\<forall>k\<in>dom (map_of (nodes m)) - abs_path ` files_under m []. ?h k = 0"
    proof
      fix k assume k: "k \<in> dom (map_of (nodes m)) - abs_path ` files_under m []"
      then obtain a where a: "map_of (nodes m) k = Some a" by auto
      obtain ks where ks: "k = abs_path ks" "list_all clean_comp ks"
        using map_wfD(1) [OF mem_wfD(2) [OF wf] a] by (rule abs_cleanE)
      have "n_isDir (heap m ! a)"
      proof (rule ccontr)
        assume f: "\<not> n_isDir (heap m ! a)"
        then have "ks \<noteq> []" using map_wf_root [OF mem_wfD(2) [OF wf]] a ks by auto
        then have "ks \<in> files_under m []" using ks a f by (simp add: files_under_def is_file_def node_at_def strict_prefix_def)
        then show False using k ks by auto
      qed
      then show "?h k = 0" using a by simp
    qed
  qed (simp add: finite_dom_map_of)
  also have "\<dots> = (\<Sum>ks\<in>files_under m []. ?h (abs_path ks))"
    by (subst sum.reindex) (auto intro!: inj_onI simp: files_under_def)
  also have "\<dots> = (\<Sum>ks\<in>files_under m []. g (bytes_at m ks))"
    by (rule sum.cong) (auto simp: files_under_def is_file_def node_at_def bytes_at_def)
  finally show ?thesis ..
qed

text \<open>C36. The storage walk on the in-memory backend always returns: fuel for as many levels as there are
  entries is enough, and then its result is, without an error, the total size and the number of
  the regular files (as \<^verbatim>\<open>int64\<close> values).\<close>

theorem MeasureUsage_exact:
  assumes wf: "mem_wf m" and k: "length (nodes m) \<le> k"
  shows "MeasureUsage k mem_fs ''/'' m =
    Some ((wrap64 (\<Sum>(p, a)\<leftarrow>nodes m. if n_isDir (heap m ! a) then 0 else int (length (n_data (heap m ! a)))),
           wrap64 (\<Sum>(p, a)\<leftarrow>nodes m. if n_isDir (heap m ! a) then 0 else 1)), None)"
proof -
  obtain a where a: "map_of (nodes m) ''/'' = Some a" "n_isDir (heap m ! a)"
    using map_wf_root [OF mem_wfD(2) [OF wf]] by blast
  have st: "fs_stat mem_fs ''/'' m = Inr (node_info (heap m ! a))"
    using a mem_clean_id [of "''/''"] abs_clean_abs_path [of "[]"] by (simp add: mem_fs_def mem_stat_def)
  have "measureDirUsage k mem_fs (abs_path []) m =
     Some ((wrap64 (\<Sum>ks\<in>files_under m []. bytes_at m ks), wrap64 (int (card (files_under m [])))), None)"
    using a k by (intro measureDirUsage_mem [OF wf])
      (auto simp: node_at_def intro: less_le_trans [OF node_at_depth [OF wf]])
  then show ?thesis
    using st a files_under_root [OF wf, of "\<lambda>x. x"] files_under_root [OF wf, of "\<lambda>_. 1"]
    by (simp add: MeasureUsage_def node_info_def)
qed

theorem MeasureUsage_exact_witness:
  "MeasureUsage 4 mem_fs ''/'' wit_mem = Some ((2, 1), None)"
proof -
  have "length (nodes wit_mem) \<le> 4" by (simp add: wit_mem_nodes)
  moreover have "(\<Sum>(p, a)\<leftarrow>nodes wit_mem. if n_isDir (heap wit_mem ! a) then 0 else int (length (n_data (heap wit_mem ! a)))) = 2"
    "(\<Sum>(p, a)\<leftarrow>nodes wit_mem. if n_isDir (heap wit_mem ! a) then 0 else 1) = (1 :: int)" by code_simp+
  ultimately show ?thesis using MeasureUsage_exact [OF wit_mem_wf] by (simp add: wrap64_def)
qed


section \<open>Sequences of tracker calls\<close>

text \<open>The calls that sessions make on a shared tracker between two measurements, in any interleaving.\<close>

datatype quota_call =
  QGrow int | QShrink int | QCreate | QRemove int | QBegin int | QEnd

fun quota_exec :: "quota_call \<Rightarrow> tracker \<Rightarrow> tracker" where
  "quota_exec (QGrow n) t = the (snd (OnGrow (Some t) n))"
| "quota_exec (QShrink n) t = the (OnShrink (Some t) n)"
| "quota_exec QCreate t = the (snd (OnFileCreated (Some t)))"
| "quota_exec (QRemove n) t = the (OnFilesRemoved (Some t) n)"
| "quota_exec (QBegin now) t = the (BeginChange now (Some t))"
| "quota_exec QEnd t = the (EndChange (Some t))"

text \<open>A tracker within its limits, with room in \<^verbatim>\<open>int64\<close> for the largest growth \<open>g\<close> that is asked for.\<close>

definition within :: "int \<Rightarrow> tracker \<Rightarrow> bool" where
  "within g t \<longleftrightarrow>
     0 \<le> t_usedBytes t \<and> 0 < t_maxStorage t \<and> t_usedBytes t \<le> t_maxStorage t \<and> g \<le> max_int64 - t_maxStorage t
     \<and> 0 \<le> t_usedFiles t \<and> 0 < t_maxFiles t \<and> t_usedFiles t \<le> t_maxFiles t \<and> t_maxFiles t < max_int64"

fun grows :: "quota_call \<Rightarrow> int" where
  "grows (QGrow n) = n"
| "grows (QShrink n) = n"
| "grows (QRemove n) = n"
| "grows _ = 0"

lemma wrap64_nonneg_sum: "0 \<le> x \<Longrightarrow> 0 \<le> n \<Longrightarrow> x + n \<le> max_int64 \<Longrightarrow> wrap64 (x + n) = x + n"
  by (intro wrap64_id) (simp add: in_int64_def max_int64_def)

lemma wrap64_diff: "0 \<le> x \<Longrightarrow> x \<le> max_int64 \<Longrightarrow> 0 \<le> n \<Longrightarrow> n \<le> max_int64 \<Longrightarrow> wrap64 (x - n) = x - n"
  by (intro wrap64_id) (simp add: in_int64_def max_int64_def)

lemma within_exec:
  assumes t: "within g t" and c: "grows c \<le> g" and g: "g \<le> max_int64"
  shows "within g (quota_exec c t)"
proof (cases c)
  case (QGrow n)
  have "wrap64 (t_usedBytes t + n) = t_usedBytes t + n" if "0 < n"
    using t c QGrow that by (intro wrap64_nonneg_sum) (auto simp: within_def)
  then show ?thesis using t QGrow by (auto simp: within_def)
next
  case (QShrink n)
  have "wrap64 (t_usedBytes t - n) = t_usedBytes t - n" if "0 < n"
    using t c g QShrink that by (intro wrap64_diff) (auto simp: within_def max_int64_def)
  then show ?thesis using t QShrink by (auto simp: within_def)
next
  case QCreate
  have "wrap64 (t_usedFiles t + 1) = t_usedFiles t + 1"
    using t by (intro wrap64_nonneg_sum) (auto simp: within_def)
  then show ?thesis using t QCreate by (auto simp: within_def)
next
  case (QRemove n)
  have "wrap64 (t_usedFiles t - n) = t_usedFiles t - n" if "0 < n"
    using t c g QRemove that by (intro wrap64_diff) (auto simp: within_def)
  then show ?thesis using t QRemove by (auto simp: within_def)
qed (use t in \<open>auto simp: within_def Let_def\<close>)

text \<open>C27. Quota safety: whatever sequence of growth, shrink, create, remove, begin and end calls the
  sessions of a user make on a tracker that starts within its limits, usage stays between zero and
  the limits, as long as no single amount comes within the storage limit of the top of \<^verbatim>\<open>int64\<close>.\<close>

theorem tracker_never_over_limit:
  assumes "within g t" and "\<forall>c\<in>set cs. grows c \<le> g" and "g \<le> max_int64"
  shows "0 \<le> t_usedBytes (fold quota_exec cs t) \<and> t_usedBytes (fold quota_exec cs t) \<le> t_maxStorage t
    \<and> 0 \<le> t_usedFiles (fold quota_exec cs t) \<and> t_usedFiles (fold quota_exec cs t) \<le> t_maxFiles t"
proof -
  have lim: "t_maxStorage (quota_exec c t) = t_maxStorage t \<and> t_maxFiles (quota_exec c t) = t_maxFiles t" for c t
    by (cases c) (auto simp: Let_def)
  have "within g (fold quota_exec cs t) \<and> t_maxStorage (fold quota_exec cs t) = t_maxStorage t
     \<and> t_maxFiles (fold quota_exec cs t) = t_maxFiles t"
    using assms by (induction cs arbitrary: t) (auto simp: within_exec lim)
  then show ?thesis by (auto simp: within_def)
qed

theorem tracker_never_over_limit_witness:
  "t_usedBytes (fold quota_exec [QGrow 70, QGrow 70, QShrink 10, QGrow 40]
     (zero_tracker\<lparr>t_maxStorage := 100, t_maxFiles := 5\<rparr>)) \<le> 100"
  using tracker_never_over_limit [of 1000 "zero_tracker\<lparr>t_maxStorage := 100, t_maxFiles := 5\<rparr>"
      "[QGrow 70, QGrow 70, QShrink 10, QGrow 40]"]
  by (simp add: within_def zero_tracker_def max_int64_def)

text \<open>Without that bound the check wraps around: on a tracker with any usage, growth by the largest
  \<^verbatim>\<open>int64\<close> is admitted under every limit and leaves a negative usage; giving the same amount back
  restores the figure exactly.\<close>

theorem OnGrow_overflow_admits:
  assumes "0 < t_usedBytes t" and "t_usedBytes t \<le> t_maxStorage t" and "t_maxStorage t \<le> max_int64"
  shows "fst (OnGrow (Some t) max_int64) = None
    \<and> UsedBytes (snd (OnGrow (Some t) max_int64)) < 0
    \<and> UsedBytes (OnShrink (snd (OnGrow (Some t) max_int64)) max_int64) = t_usedBytes t"
proof -
  have "((t_usedBytes t - 1) + 18446744073709551616) mod 18446744073709551616 = t_usedBytes t - 1"
    using assms unfolding mod_add_self2 by (intro mod_pos_pos_trivial) (simp_all add: max_int64_def)
  then have w: "wrap64 (t_usedBytes t + max_int64) = t_usedBytes t - 9223372036854775809"
    by (simp add: wrap64_def max_int64_def algebra_simps)
  have "wrap64 (wrap64 (t_usedBytes t + max_int64) - max_int64) = t_usedBytes t"
    using assms by (intro wrap64_cancel) (simp add: in_int64_def max_int64_def)
  then show ?thesis using assms w by (simp add: max_int64_def)
qed

theorem OnGrow_overflow_admits_witness:
  "fst (OnGrow (Some (zero_tracker\<lparr>t_usedBytes := 1, t_maxStorage := 100\<rparr>)) max_int64) = None"
  using OnGrow_overflow_admits [of "zero_tracker\<lparr>t_usedBytes := 1, t_maxStorage := 100\<rparr>"]
  by (simp add: max_int64_def)

section \<open>Measurements and changes in progress\<close>

text \<open>Which calls count as a change: those that advance the generation.\<close>

fun advances :: "quota_call \<Rightarrow> tracker \<Rightarrow> bool" where
  "advances (QGrow n) t \<longleftrightarrow> 0 < n \<and> fst (OnGrow (Some t) n) = None"
| "advances (QShrink n) t \<longleftrightarrow> 0 < n"
| "advances QCreate t \<longleftrightarrow> fst (OnFileCreated (Some t)) = None"
| "advances (QRemove n) t \<longleftrightarrow> 0 < n"
| "advances (QBegin now) t \<longleftrightarrow> True"
| "advances QEnd t \<longleftrightarrow> True"

fun changes :: "quota_call list \<Rightarrow> tracker \<Rightarrow> nat" where
  "changes [] t = 0"
| "changes (c # cs) t = (if advances c t then 1 else 0) + changes cs (quota_exec c t)"

lemma gen_exec: "t_gen (quota_exec c t) = t_gen t + (if advances c t then 1 else 0)
   \<and> t_measured (quota_exec c t) = t_measured t \<and> (\<not> advances c t \<longrightarrow> quota_exec c t = t)"
  by (cases c) (auto simp: Let_def)

lemma gen_fold: "t_gen (fold quota_exec cs t) = t_gen t + of_nat (changes cs t)
   \<and> t_measured (fold quota_exec cs t) = t_measured t
   \<and> (changes cs t = 0 \<longrightarrow> fold quota_exec cs t = t)"
  by (induction cs arbitrary: t) (simp_all add: gen_exec)

lemma of_nat_word64_neq_0: "0 < n \<Longrightarrow> n < 2 ^ 64 \<Longrightarrow> (of_nat n :: 64 word) \<noteq> 0"
  by (simp add: word_of_nat_eq_0_iff nat_dvd_not_less)

text \<open>C34. A re-measurement never erases a change: when \<^verbatim>\<open>refresh\<close> gave the mutex up for the walk and other
  calls changed the tracker meanwhile (fewer than the generation counter can count), the walk's
  figures are discarded and the tracker keeps its own; when nothing changed, the figures are taken.\<close>

theorem refresh_never_erases_changes:
  assumes "t_measured t" and "refresh_begin t maxAge now = Some snap"
    and "changes cs t < 2 ^ 64"
  shows "(changes cs t > 0 \<longrightarrow> snd (refresh_end snap u now (fold quota_exec cs t)) = fold quota_exec cs t)
    \<and> fst (refresh_end snap u now (fold quota_exec cs t)) = None
    \<and> (changes cs t = 0 \<longrightarrow> snd u = None \<longrightarrow>
        snd (refresh_end snap u now (fold quota_exec cs t)) =
          t\<lparr>t_usedBytes := fst (fst u), t_usedFiles := snd (fst u), t_measured := True, t_measuredAt := now\<rparr>)"
proof -
  obtain stuck where snap: "snap = (t_gen t, True, stuck)" and st: "t_inflight t > 0 \<longrightarrow> stuck"
    using assms(1,2) by (auto simp: refresh_begin_def Let_def split: if_splits)
  obtain b f e where u: "u = ((b, f), e)" by (cases u) auto
  have "t_gen (fold quota_exec cs t) \<noteq> t_gen t" if "0 < changes cs t"
    using gen_fold [of cs t] of_nat_word64_neq_0 [OF that assms(3)] by simp
  then show ?thesis
    using gen_fold [of cs t] assms(1) snap st u by (cases "changes cs t = 0") auto
qed

theorem refresh_never_erases_changes_witness:
  "snd (refresh_end (0, True, False) ((5, 1), None) 10
      (fold quota_exec [QBegin 3, QGrow 7] (zero_tracker\<lparr>t_measured := True\<rparr>))) =
    fold quota_exec [QBegin 3, QGrow 7] (zero_tracker\<lparr>t_measured := True\<rparr>)"
  using refresh_never_erases_changes [of "zero_tracker\<lparr>t_measured := True\<rparr>" 0 10 "(0, True, False)"
      "[QBegin 3, QGrow 7]" "((5, 1), None)"]
  by (simp add: refresh_begin_def stuckLocked_def zero_tracker_def)


section \<open>The registry shares trackers\<close>

definition reg_wf :: "registry \<Rightarrow> bool" where
  "reg_wf r \<longleftrightarrow> distinct (map fst (rg_users r))
     \<and> (\<forall>k sc a. map_of (rg_users r) k = Some (sc, a) \<longrightarrow> a < length (rg_trackers r))
     \<and> (\<forall>k k' sc sc' a. map_of (rg_users r) k = Some (sc, a) \<longrightarrow> map_of (rg_users r) k' = Some (sc', a) \<longrightarrow> k = k')"

lemma reg_wf_New: "reg_wf NewRegistry"
  by (simp add: reg_wf_def NewRegistry_def)

lemma registry_entry_wf:
  assumes "reg_wf r" "registry_entry key scope r = (a, r')"
  shows "reg_wf r' \<and> map_of (rg_users r') key = Some (scope, a)
    \<and> (\<forall>k. k \<noteq> key \<longrightarrow> map_of (rg_users r') k = map_of (rg_users r) k)"
proof (cases "\<exists>b. map_of (rg_users r) key = Some (scope, b)")
  case True
  then show ?thesis using assms by (auto simp: registry_entry_def)
next
  case False
  then have "a = length (rg_trackers r)"
    "r' = r\<lparr>rg_users := AList.update key (scope, length (rg_trackers r)) (rg_users r),
            rg_trackers := rg_trackers r @ [zero_tracker]\<rparr>"
    using assms by (auto simp: registry_entry_def split: option.splits if_splits)
  then show ?thesis using assms by (fastforce simp: reg_wf_def split: if_splits)
qed

lemma ForUser_users:
  assumes "ForUser k key scope fsys w ms mf age now r = Some (x, r')"
  shows "\<exists>r1. registry_entry key scope r = (fst (registry_entry key scope r), r1)
    \<and> rg_users r' = rg_users r1 \<and> length (rg_trackers r') = length (rg_trackers r1)
    \<and> (\<forall>a. x = Inr a \<longrightarrow> a = fst (registry_entry key scope r))"
  using assms
  by (auto simp: ForUser_def set_tracker_def Let_def split: prod.splits option.splits)

lemma ForUser_wf:
  assumes "reg_wf r" "ForUser k key scope fsys w ms mf age now r = Some (x, r')"
  shows "reg_wf r' \<and> (\<forall>a. x = Inr a \<longrightarrow> map_of (rg_users r') key = Some (scope, a))
    \<and> (\<forall>k. k \<noteq> key \<longrightarrow> map_of (rg_users r') k = map_of (rg_users r) k)"
proof -
  obtain r1 where r1: "registry_entry key scope r = (fst (registry_entry key scope r), r1)"
    "rg_users r' = rg_users r1" "length (rg_trackers r') = length (rg_trackers r1)"
    "\<forall>a. x = Inr a \<longrightarrow> a = fst (registry_entry key scope r)"
    using ForUser_users [OF assms(2)] by blast
  then show ?thesis using registry_entry_wf [OF assms(1) r1(1)] by (simp add: reg_wf_def)
qed

lemma ForUser_ok:
  assumes "MeasureUsage k fsys ''/'' w = Some (u, None)"
  shows "\<exists>a r'. ForUser k key scope fsys w ms mf age now r = Some (Inr a, r')"
proof -
  have "\<exists>t'. refresh k fsys w age now t = Some (None, t')" for t
    using assms by (cases u) (auto simp: refresh_def split: option.splits)
  then show ?thesis by (auto simp: ForUser_def Let_def split: prod.splits) (metis (no_types, lifting) option.simps(4,5) case_prod_conv)
qed

text \<open>One tracker per account and storage scope: two calls of \<^verbatim>\<open>ForUser\<close> return the same tracker
  exactly when key and scope agree, and the registry stays well-formed.\<close>

theorem ForUser_shares_tracker:
  assumes "reg_wf r" and "ForUser k key scope fsys w ms mf age now r = Some (Inr a, r1)"
    and "ForUser k' key' scope' fsys' w' ms' mf' age' now' r1 = Some (Inr b, r2)"
  shows "reg_wf r2 \<and> (a = b \<longleftrightarrow> key = key' \<and> scope = scope')"
proof -
  note 1 = ForUser_wf [OF assms(1,2)]
  then have w1: "reg_wf r1" and k1: "map_of (rg_users r1) key = Some (scope, a)" by simp_all
  note 2 = ForUser_wf [OF w1 assms(3)]
  then have w2: "reg_wf r2" and k2: "map_of (rg_users r2) key' = Some (scope', b)" by simp_all
  have al: "a < length (rg_trackers r1)" using w1 k1 by (auto simp: reg_wf_def)
  obtain r3 where E: "registry_entry key' scope' r1 = (b, r3)"
    using ForUser_users [OF assms(3)] by auto
  show ?thesis
  proof (cases "key = key'")
    case True
    then show ?thesis using E k1 al w2 by (auto simp: registry_entry_def split: if_splits)
  next
    case False
    then have "map_of (rg_users r2) key = Some (scope, a)" using 2 k1 by simp
    then show ?thesis using False k2 w2 unfolding reg_wf_def by blast
  qed
qed

lemma prune_loop_filter:
  assumes "distinct (map fst es)" "distinct (map fst (rg_users r))"
    "\<forall>(key, entry)\<in>set es. map_of (rg_users r) key = Some entry"
  shows "prune_loop keep es d r =
    (d + length (filter (\<lambda>(k, _). \<not> keep k) es),
     r\<lparr>rg_users := filter (\<lambda>(k, _). keep k \<or> k \<notin> fst ` set es) (rg_users r)\<rparr>)"
  using assms
proof (induction es arbitrary: d r)
  case Nil
  then show ?case by (simp add: filter_True)
next
  case (Cons e es)
  obtain key entry where e: "e = (key, entry)" by (cases e)
  show ?case
  proof (cases "keep key")
    case True
    have "(\<lambda>(k, _). keep k \<or> k \<notin> fst ` set (e # es)) = (\<lambda>(k, _ :: string \<times> nat). keep k \<or> k \<notin> fst ` set es)"
      using True e by auto
    then show ?thesis using Cons True e by simp
  next
    case False
    let ?r = "r\<lparr>rg_users := AList.delete key (rg_users r)\<rparr>"
    have step: "prune_loop keep (e # es) d r = prune_loop keep es (d + 1) ?r"
      using False e Cons.prems by (simp add: prune_drop_def)
    have "prune_loop keep es (d + 1) ?r =
      (d + 1 + length (filter (\<lambda>(k, _). \<not> keep k) es),
       ?r\<lparr>rg_users := filter (\<lambda>(k, _). keep k \<or> k \<notin> fst ` set es) (rg_users ?r)\<rparr>)"
      using Cons.prems e by (intro Cons.IH) (auto simp: rev_image_eqI split: prod.splits)
    moreover have "filter (\<lambda>(k, _). keep k \<or> k \<notin> fst ` set es) (filter (\<lambda>(k, _). k \<noteq> key) (rg_users r)) =
        filter (\<lambda>(k, _). keep k \<or> k \<notin> fst ` set (e # es)) (rg_users r)"
      unfolding filter_filter using False e by (intro filter_cong) auto
    ultimately show ?thesis using step False e by (simp add: delete_filter)
  qed
qed

text \<open>\<^verbatim>\<open>Prune\<close> drops exactly the accounts that \<^verbatim>\<open>keep\<close> rejects, in one pass, and reports their number.\<close>

theorem Prune_exact:
  assumes "reg_wf r"
  shows "Prune keep r = (length (filter (\<lambda>(k, _). \<not> keep k) (rg_users r)),
                         r\<lparr>rg_users := filter (\<lambda>(k, _). keep k) (rg_users r)\<rparr>)
    \<and> reg_wf (snd (Prune keep r))"
proof -
  have d: "distinct (map fst (rg_users r))" using assms by (simp add: reg_wf_def)
  have "filter (\<lambda>(k, _). keep k \<or> k \<notin> fst ` set (rg_users r)) (rg_users r) = filter (\<lambda>(k, _). keep k) (rg_users r)"
    by (rule filter_cong) (auto simp: rev_image_eqI)
  moreover have "\<forall>(key, entry)\<in>set (rg_users r). map_of (rg_users r) key = Some entry"
    using d by auto
  ultimately have P: "Prune keep r = (length (filter (\<lambda>(k, _). \<not> keep k) (rg_users r)),
                         r\<lparr>rg_users := filter (\<lambda>(k, _). keep k) (rg_users r)\<rparr>)"
    using prune_loop_filter [OF d d] by (simp add: Prune_def)
  have "reg_wf (r\<lparr>rg_users := filter (\<lambda>(k, _). keep k) (rg_users r)\<rparr>)"
    using assms unfolding reg_wf_def by (simp add: map_of_filter_key distinct_map_filter)
  then show ?thesis using P by simp
qed

definition wit_reg :: registry where
  "wit_reg = \<lparr>rg_users = [(''u1'', ''s'', 0), (''u2'', ''s'', 1)], rg_trackers = [zero_tracker, zero_tracker]\<rparr>"

lemma wit_reg_wf: "reg_wf wit_reg"
  by (auto simp: reg_wf_def wit_reg_def split: if_splits)

theorem Prune_exact_witness:
  "Prune (\<lambda>k. k = ''u1'') wit_reg = (1, wit_reg\<lparr>rg_users := [(''u1'', ''s'', 0)]\<rparr>)"
  using Prune_exact [OF wit_reg_wf, of "\<lambda>k. k = ''u1''"] by (simp add: wit_reg_def)

theorem ForUser_shares_tracker_witness:
  "\<exists>a r1 b r2. ForUser 4 ''u'' ''s'' mem_fs wit_mem 10 0 60 100 NewRegistry = Some (Inr a, r1)
     \<and> ForUser 4 ''u'' ''s'' mem_fs wit_mem 20 0 60 200 r1 = Some (Inr b, r2) \<and> a = b"
proof -
  have M: "MeasureUsage 4 mem_fs ''/'' wit_mem = Some ((2, 1), None)" by code_simp
  obtain a r1 where 1: "ForUser 4 ''u'' ''s'' mem_fs wit_mem 10 0 60 100 NewRegistry = Some (Inr a, r1)"
    using ForUser_ok [OF M] by blast
  obtain b r2 where 2: "ForUser 4 ''u'' ''s'' mem_fs wit_mem 20 0 60 200 r1 = Some (Inr b, r2)"
    using ForUser_ok [OF M] by blast
  show ?thesis using 1 2 ForUser_shares_tracker [OF reg_wf_New 1 2] by blast
qed

end
