(* ===== verification/User_Vfs.thy ===== *)
theory User_Vfs
  imports Quota
begin

text \<open>
  \<^verbatim>\<open>internal/vfs/user_vfs.go\<close> and \<^verbatim>\<open>internal/vfs/throttled_file.go\<close>: one session's view of a user's
  storage.  Its world \<open>uworld\<close> holds the backends' world, the shared tracker (\<open>None\<close> when
  \<^verbatim>\<open>u.quota\<close> is nil), the open quota changes with the once-flags of their end functions, and the
  state of the \<^verbatim>\<open>quotaFile\<close>s that were handed out.  The operations form again a \<^typ>\<open>'w filesystem\<close>, which
  is what the protocol handlers are given.
\<close>

section \<open>State\<close>

record qfile =
  q_size :: int
  q_offset :: int
  q_maxFileSize :: int
  q_end :: nat

text \<open>
  \<open>uw_once\<close>: for every end function that \<^verbatim>\<open>beginQuotaChange\<close> returned, its change id and whether its
  \<^verbatim>\<open>sync.Once\<close> has fired; \<open>uw_changes\<close> is \<^verbatim>\<open>u.changes\<close>, from id to end function.
\<close>

record 'w uworld =
  uw_base :: 'w
  uw_quota :: "tracker option"
  uw_changes :: "(64 word \<times> nat) list"
  uw_nextChange :: "64 word"
  uw_once :: "(64 word \<times> bool) list"
  uw_qfiles :: "qfile list"
  uw_now :: int

text \<open>
  \<open>uv_limiters\<close> lists what \<^verbatim>\<open>ChunkSize()\<close> of each rate limiter returns (0: unlimited); \<open>uv_fuel\<close> bounds
  the storage walk of a removal and the chunk loops.
\<close>

record 'w uvfs =
  uv_mounts :: "'w mountTable"
  uv_perms :: userPermissions
  uv_limiters :: "nat list"
  uv_fuel :: nat

definition default_permissions :: userPermissions where
  "default_permissions =
     \<lparr>pm_Upload = True, pm_Download = True, pm_Delete = True, pm_Rename = True, pm_CreateDir = True,
      pm_ListDir = True, pm_Chmod = False, pm_MaxFileSize = 0, pm_AllowedExts = [], pm_DeniedExts = []\<rparr>"

definition NewUserVFS :: "'w mountTable \<Rightarrow> userPermissions option \<Rightarrow> nat \<Rightarrow> 'w uvfs" where
  "NewUserVFS mounts perms fuel =
     \<lparr>uv_mounts = mounts, uv_perms = (case perms of None \<Rightarrow> default_permissions | Some p \<Rightarrow> p),
      uv_limiters = [], uv_fuel = fuel\<rparr>"

definition uv_lookup :: "'w uvfs \<Rightarrow> string \<Rightarrow> ('w filesystem \<times> string \<times> bool) res" where
  "uv_lookup v p = (case Resolve p of Inl e \<Rightarrow> Inl e | Inr resolved \<Rightarrow> Lookup (uv_mounts v) resolved)"

definition on_base :: "('w \<Rightarrow> 'r \<times> 'w) \<Rightarrow> 'w uworld \<Rightarrow> 'r \<times> 'w uworld" where
  "on_base f u = (case f (uw_base u) of (r, w) \<Rightarrow> (r, u\<lparr>uw_base := w\<rparr>))"

section \<open>Quota changes\<close>

definition beginQuotaChange :: "'w uworld \<Rightarrow> nat \<times> 'w uworld" where
  "beginQuotaChange u =
     (let i = length (uw_once u); k = uw_nextChange u in
      (i, u\<lparr>uw_quota := BeginChange (uw_now u) (uw_quota u),
            uw_nextChange := k + 1,
            uw_once := uw_once u @ [(k, False)],
            uw_changes := AList.update k i (uw_changes u)\<rparr>))"

definition endChange :: "nat \<Rightarrow> 'w uworld \<Rightarrow> 'w uworld" where
  "endChange i u =
     (case uw_once u ! i of (k, fired) \<Rightarrow>
        if fired then u
        else u\<lparr>uw_once := (uw_once u)[i := (k, True)],
               uw_changes := AList.delete k (uw_changes u),
               uw_quota := EndChange (uw_quota u)\<rparr>)"

definition Release :: "'w uworld \<Rightarrow> 'w uworld" where
  "Release u = fold endChange (map snd (uw_changes u)) u"

section \<open>Rate-limited files\<close>

fun chunk :: "nat list \<Rightarrow> nat \<Rightarrow> nat" where
  "chunk [] n = n"
| "chunk (c # cs) n = chunk cs (if c > 0 \<and> c < n then c else n)"

definition throttled_read :: "nat list \<Rightarrow> 'w vfile \<Rightarrow> nat \<Rightarrow> 'w \<Rightarrow> (bytes \<times> goerr option) \<times> 'w" where
  "throttled_read ls f len w = (if len = 0 then f_read f 0 w else f_read f (chunk ls len) w)"

text \<open>\<open>acc\<close> is what the loop has read so far, \<open>rest\<close> the number of bytes still wanted.\<close>

fun throttled_readAt_loop ::
  "nat \<Rightarrow> nat list \<Rightarrow> 'w vfile \<Rightarrow> bytes \<Rightarrow> nat \<Rightarrow> int \<Rightarrow> 'w \<Rightarrow> (bytes \<times> goerr option) \<times> 'w" where
  "throttled_readAt_loop k ls f acc 0 off w = ((acc, None), w)"
| "throttled_readAt_loop 0 ls f acc (Suc r) off w = ((acc, Some NoFuel), w)"
| "throttled_readAt_loop (Suc k) ls f acc (Suc r) off w =
     (case f_readAt f (chunk ls (Suc r)) (wrap64 (off + int (length acc))) w of
        ((bs, e), w') \<Rightarrow>
          if e \<noteq> None then ((acc @ bs, e), w')
          else throttled_readAt_loop k ls f (acc @ bs) (Suc r - length bs) off w')"

definition throttled_readAt ::
  "nat \<Rightarrow> nat list \<Rightarrow> 'w vfile \<Rightarrow> nat \<Rightarrow> int \<Rightarrow> 'w \<Rightarrow> (bytes \<times> goerr option) \<times> 'w" where
  "throttled_readAt k ls f len off w = throttled_readAt_loop k ls f [] len off w"

fun throttled_write_loop ::
  "nat \<Rightarrow> nat list \<Rightarrow> (nat \<Rightarrow> bytes \<Rightarrow> 'w \<Rightarrow> (nat \<times> goerr option) \<times> 'w) \<Rightarrow> nat \<Rightarrow> bytes \<Rightarrow> 'w
     \<Rightarrow> (nat \<times> goerr option) \<times> 'w" where
  "throttled_write_loop k ls wr tot [] w = ((tot, None), w)"
| "throttled_write_loop 0 ls wr tot (b # p) w = ((tot, Some NoFuel), w)"
| "throttled_write_loop (Suc k) ls wr tot (b # p) w =
     (case wr tot (take (chunk ls (Suc (length p))) (b # p)) w of
        ((n, e), w') \<Rightarrow>
          if e \<noteq> None then ((tot + n, e), w')
          else throttled_write_loop k ls wr (tot + n) (drop n (b # p)) w')"

definition throttled_write ::
  "nat \<Rightarrow> nat list \<Rightarrow> 'w vfile \<Rightarrow> bytes \<Rightarrow> 'w \<Rightarrow> (nat \<times> goerr option) \<times> 'w" where
  "throttled_write k ls f p w = throttled_write_loop k ls (\<lambda>_. f_write f) 0 p w"

definition throttled_writeAt ::
  "nat \<Rightarrow> nat list \<Rightarrow> 'w vfile \<Rightarrow> bytes \<Rightarrow> int \<Rightarrow> 'w \<Rightarrow> (nat \<times> goerr option) \<times> 'w" where
  "throttled_writeAt k ls f p off w =
     throttled_write_loop k ls (\<lambda>tot q. f_writeAt f q (wrap64 (off + int tot))) 0 p w"

text \<open>The embedded \<^verbatim>\<open>File\<close> answers all other methods.\<close>

definition throttledFile :: "nat \<Rightarrow> nat list \<Rightarrow> 'w vfile \<Rightarrow> 'w vfile" where
  "throttledFile k ls f =
     f\<lparr>f_read := throttled_read ls f, f_readAt := throttled_readAt k ls f,
       f_write := throttled_write k ls f, f_writeAt := throttled_writeAt k ls f\<rparr>"

section \<open>Quota files\<close>

definition projectedGrowth :: "int \<Rightarrow> int \<Rightarrow> int \<Rightarrow> int" where
  "projectedGrowth currentSize offset writeLen =
     (let fin = wrap64 (offset + writeLen) in
      if fin \<le> currentSize then 0 else wrap64 (fin - currentSize))"

definition upd_qfile :: "nat \<Rightarrow> (qfile \<Rightarrow> qfile) \<Rightarrow> 'w uworld \<Rightarrow> 'w uworld" where
  "upd_qfile j g u = u\<lparr>uw_qfiles := (uw_qfiles u)[j := g (uw_qfiles u ! j)]\<rparr>"

definition q_onGrow :: "int \<Rightarrow> 'w uworld \<Rightarrow> goerr option \<times> 'w uworld" where
  "q_onGrow n u = (case OnGrow (uw_quota u) n of (e, t) \<Rightarrow> (e, u\<lparr>uw_quota := t\<rparr>))"

definition q_onShrink :: "int \<Rightarrow> 'w uworld \<Rightarrow> 'w uworld" where
  "q_onShrink n u = u\<lparr>uw_quota := OnShrink (uw_quota u) n\<rparr>"

definition q_onFilesRemoved :: "int \<Rightarrow> 'w uworld \<Rightarrow> 'w uworld" where
  "q_onFilesRemoved n u = u\<lparr>uw_quota := OnFilesRemoved (uw_quota u) n\<rparr>"

text \<open>The part of \<^verbatim>\<open>Write\<close> after the reservation; a panic of the backend leaves it at once.\<close>

definition quotaFile_account :: "nat \<Rightarrow> int \<Rightarrow> nat \<Rightarrow> 'w uworld \<Rightarrow> 'w uworld" where
  "quotaFile_account j growth n u =
     (let q = uw_qfiles u ! j;
          actualEnd = wrap64 (q_offset q + int n);
          size' = (if actualEnd > q_size q then actualEnd else q_size q);
          actualGrowth = wrap64 (size' - q_size q);
          u' = upd_qfile j (\<lambda>q. q\<lparr>q_size := size', q_offset := actualEnd\<rparr>) u
      in if growth > actualGrowth then q_onShrink (wrap64 (growth - actualGrowth)) u' else u')"

definition quotaFile_write :: "nat \<Rightarrow> 'w vfile \<Rightarrow> bytes \<Rightarrow> 'w uworld \<Rightarrow> (nat \<times> goerr option) \<times> 'w uworld" where
  "quotaFile_write j f p u =
     (let q = uw_qfiles u ! j; len = int (length p) in
      if q_maxFileSize q > 0 \<and> wrap64 (q_offset q + len) > q_maxFileSize q
        then ((0, Some ErrFileTooLarge), u)
      else
        let growth = projectedGrowth (q_size q) (q_offset q) len in
        (case (if growth > 0 then q_onGrow growth u else (None, u)) of
           (Some e, u1) \<Rightarrow> ((0, Some e), u1)
         | (None, u1) \<Rightarrow>
             (case on_base (f_write f p) u1 of
                ((n, e), u2) \<Rightarrow>
                  if e = Some GoPanic then ((n, e), u2)
                  else ((n, e), quotaFile_account j growth n u2))))"

definition quotaFile_read :: "nat \<Rightarrow> 'w vfile \<Rightarrow> nat \<Rightarrow> 'w uworld \<Rightarrow> (bytes \<times> goerr option) \<times> 'w uworld" where
  "quotaFile_read j f len u =
     (case on_base (f_read f len) u of
        ((bs, e), u') \<Rightarrow>
          ((bs, e), upd_qfile j (\<lambda>q. q\<lparr>q_offset := wrap64 (q_offset q + int (length bs))\<rparr>) u'))"

text \<open>\<^verbatim>\<open>WriteAt\<close> goes through \<^verbatim>\<open>q.Write\<close>, which calls \<^verbatim>\<open>Write\<close> of the embedded file.\<close>

definition quotaFile_writeAt :: "nat \<Rightarrow> 'w vfile \<Rightarrow> bytes \<Rightarrow> int \<Rightarrow> 'w uworld \<Rightarrow> (nat \<times> goerr option) \<times> 'w uworld" where
  "quotaFile_writeAt j f p off u =
     (let current = q_offset (uw_qfiles u ! j) in
      case quotaFile_write j f p (upd_qfile j (\<lambda>q. q\<lparr>q_offset := off\<rparr>) u) of
        (r, u') \<Rightarrow>
          if snd r = Some GoPanic then (r, u')
          else (r, upd_qfile j (\<lambda>q. q\<lparr>q_offset := current\<rparr>) u'))"

definition quotaFile_seek :: "nat \<Rightarrow> 'w vfile \<Rightarrow> int \<Rightarrow> int \<Rightarrow> 'w uworld \<Rightarrow> int res \<times> 'w uworld" where
  "quotaFile_seek j f offset whence u =
     (case on_base (f_seek f offset whence) u of
        (Inl e, u') \<Rightarrow> (Inl e, u')
      | (Inr nxt, u') \<Rightarrow> (Inr nxt, upd_qfile j (\<lambda>q. q\<lparr>q_offset := nxt\<rparr>) u'))"

definition quotaFile_truncate :: "nat \<Rightarrow> 'w vfile \<Rightarrow> int \<Rightarrow> 'w uworld \<Rightarrow> goerr option \<times> 'w uworld" where
  "quotaFile_truncate j f sz u =
     (let q = uw_qfiles u ! j in
      if q_maxFileSize q > 0 \<and> sz > q_maxFileSize q then (Some ErrFileTooLarge, u)
      else
        let growth = (if sz > q_size q then wrap64 (sz - q_size q) else 0) in
        (case (if sz > q_size q then q_onGrow growth u else (None, u)) of
           (Some e, u1) \<Rightarrow> (Some e, u1)
         | (None, u1) \<Rightarrow>
             (case on_base (f_truncate f sz) u1 of
                (Some e, u2) \<Rightarrow> (Some e, if growth > 0 then q_onShrink growth u2 else u2)
              | (None, u2) \<Rightarrow>
                  let u3 = (if sz < q_size q then q_onShrink (wrap64 (q_size q - sz)) u2 else u2) in
                  (None, upd_qfile j (\<lambda>q. q\<lparr>q_size := sz,
                           q_offset := (if q_offset q > sz then sz else q_offset q)\<rparr>) u3))))"

definition quotaFile_close :: "nat \<Rightarrow> 'w vfile \<Rightarrow> 'w uworld \<Rightarrow> goerr option \<times> 'w uworld" where
  "quotaFile_close j f u =
     (case on_base (f_close f) u of (e, u') \<Rightarrow> (e, endChange (q_end (uw_qfiles u' ! j)) u'))"

definition lift_entry :: "'w direntry \<Rightarrow> 'w uworld direntry" where
  "lift_entry d =
     \<lparr>de_name = (\<lambda>u. de_name d (uw_base u)), de_isDir = (\<lambda>u. de_isDir d (uw_base u)), de_type = (\<lambda>u. de_type d (uw_base u)),
      de_info = (\<lambda>u. de_info d (uw_base u))\<rparr>"

definition lift_readDir :: "'w direntry list res \<Rightarrow> 'w uworld direntry list res" where
  "lift_readDir r = (case r of Inl e \<Rightarrow> Inl e | Inr ds \<Rightarrow> Inr (map lift_entry ds))"

text \<open>
  A backend file seen from the session, and the same wrapped as a \<^verbatim>\<open>quotaFile\<close>.  A \<^verbatim>\<open>quotaFile\<close> number that
  was never handed out (which the code cannot form) answers as a panic and changes nothing.
\<close>

definition guard_q :: "nat \<Rightarrow> 'r \<Rightarrow> ('w uworld \<Rightarrow> 'r \<times> 'w uworld) \<Rightarrow> 'w uworld \<Rightarrow> 'r \<times> 'w uworld" where
  "guard_q j d k u = (if j < length (uw_qfiles u) then k u else (d, u))"

definition lift_file :: "'w vfile \<Rightarrow> 'w uworld vfile" where
  "lift_file f =
     \<lparr>f_read = (\<lambda>n. on_base (f_read f n)), f_readAt = (\<lambda>n off. on_base (f_readAt f n off)),
      f_write = (\<lambda>p. on_base (f_write f p)), f_writeAt = (\<lambda>p off. on_base (f_writeAt f p off)),
      f_seek = (\<lambda>off wh. on_base (f_seek f off wh)), f_close = on_base (f_close f),
      f_stat = (\<lambda>u. f_stat f (uw_base u)), f_sync = on_base (f_sync f),
      f_truncate = (\<lambda>sz. on_base (f_truncate f sz)),
      f_readDir = (\<lambda>n u. lift_readDir (f_readDir f n (uw_base u))), f_name = f_name f\<rparr>"

definition quotaFile :: "nat \<Rightarrow> 'w vfile \<Rightarrow> 'w uworld vfile" where
  "quotaFile j f =
     (lift_file f)
       \<lparr>f_read := (\<lambda>n. guard_q j ([], Some GoPanic) (quotaFile_read j f n)),
        f_write := (\<lambda>p. guard_q j (0, Some GoPanic) (quotaFile_write j f p)),
        f_writeAt := (\<lambda>p off. guard_q j (0, Some GoPanic) (quotaFile_writeAt j f p off)),
        f_seek := (\<lambda>off wh. guard_q j (Inl GoPanic) (quotaFile_seek j f off wh)),
        f_close := guard_q j (Some GoPanic) (quotaFile_close j f),
        f_truncate := (\<lambda>sz. guard_q j (Some GoPanic) (quotaFile_truncate j f sz))\<rparr>"

section \<open>Extensions\<close>

definition checkExtension :: "string \<Rightarrow> userPermissions \<Rightarrow> goerr option" where
  "checkExtension name perms =
     (let ext = ToLower (path_ext name) in
      if ext = [] then None
      else if pm_AllowedExts perms \<noteq> [] \<and> \<not> list_ex (\<lambda>a. EqualFold a ext) (pm_AllowedExts perms)
        then Some ErrForbiddenExtension
      else if list_ex (\<lambda>d. EqualFold d ext) (pm_DeniedExts perms) then Some ErrForbiddenExtension
      else None)"

section \<open>Open\<close>

definition is_write :: "flags \<Rightarrow> bool" where
  "is_write fl \<longleftrightarrow> fl AND (O_WRONLY OR O_RDWR OR O_CREATE OR O_TRUNC OR O_APPEND) \<noteq> 0"

definition is_read :: "flags \<Rightarrow> bool" where
  "is_read fl \<longleftrightarrow> \<not> is_write fl \<or> fl AND O_RDWR \<noteq> 0"

text \<open>The \<^verbatim>\<open>Stat\<close> before the open: whether a new file was reserved, and the bytes a truncation frees.\<close>

definition open_reserve ::
  "'w filesystem \<Rightarrow> string \<Rightarrow> flags \<Rightarrow> 'w uworld \<Rightarrow> (bool \<times> int) res \<times> 'w uworld" where
  "open_reserve backend rel fl u =
     (if fl AND O_CREATE \<noteq> 0 \<or> fl AND O_TRUNC \<noteq> 0 then
        (case fs_stat backend rel (uw_base u) of
           Inl e \<Rightarrow>
             if e = ErrNotExist \<and> fl AND O_CREATE \<noteq> 0 then
               (case OnFileCreated (uw_quota u) of
                  (Some e', t) \<Rightarrow> (Inl e', u\<lparr>uw_quota := t\<rparr>)
                | (None, t) \<Rightarrow> (Inr (True, 0), u\<lparr>uw_quota := t\<rparr>))
             else (Inr (False, 0), u)
         | Inr info \<Rightarrow>
             if \<not> fi_isDir info \<and> fl AND O_TRUNC \<noteq> 0 then (Inr (False, fi_size info), u)
             else (Inr (False, 0), u))
      else (Inr (False, 0), u))"

definition new_qfile :: "'w uvfs \<Rightarrow> flags \<Rightarrow> 'w vfile \<Rightarrow> nat \<Rightarrow> 'w uworld \<Rightarrow> 'w uworld vfile \<times> 'w uworld" where
  "new_qfile v fl f c u =
     (let initialSize = (if fl AND O_TRUNC = 0
                         then (case f_stat f (uw_base u) of Inl _ \<Rightarrow> 0 | Inr info \<Rightarrow> fi_size info) else 0);
          initialOffset = (if fl AND O_APPEND \<noteq> 0 then initialSize else 0)
      in (quotaFile (length (uw_qfiles u)) f,
          u\<lparr>uw_qfiles := uw_qfiles u @ [\<lparr>q_size = initialSize, q_offset = initialOffset,
              q_maxFileSize = pm_MaxFileSize (uv_perms v), q_end = c\<rparr>]\<rparr>))"

text \<open>A write open under a quota, from \<^verbatim>\<open>beginQuotaChange\<close> on.\<close>

definition open_quota ::
  "'w uvfs \<Rightarrow> 'w filesystem \<Rightarrow> string \<Rightarrow> flags \<Rightarrow> filemode \<Rightarrow> 'w uworld \<Rightarrow> 'w uworld vfile res \<times> 'w uworld" where
  "open_quota v backend rel fl perm u =
     (case beginQuotaChange u of (c, u1) \<Rightarrow>
        (case open_reserve backend rel fl u1 of
           (Inl e, u2) \<Rightarrow> (Inl e, endChange c u2)
         | (Inr (reservedFile, truncatedBytes), u2) \<Rightarrow>
             (case on_base (fs_open backend rel fl perm) u2 of
                (Inl e, u3) \<Rightarrow>
                  (Inl e, endChange c (if reservedFile then q_onFilesRemoved 1 u3 else u3))
              | (Inr f, u3) \<Rightarrow>
                  let f' = (if uv_limiters v \<noteq> [] then throttledFile (uv_fuel v) (uv_limiters v) f else f);
                      u4 = (if truncatedBytes > 0 then q_onShrink truncatedBytes u3 else u3)
                  in (case new_qfile v fl f' c u4 of (qf, u5) \<Rightarrow> (Inr qf, u5)))))"

definition uv_open ::
  "'w uvfs \<Rightarrow> string \<Rightarrow> flags \<Rightarrow> filemode \<Rightarrow> 'w uworld \<Rightarrow> 'w uworld vfile res \<times> 'w uworld" where
  "uv_open v name fl perm u =
     (case uv_lookup v name of
        Inl e \<Rightarrow> (Inl e, u)
      | Inr (backend, rel, readOnly) \<Rightarrow>
          if is_write fl \<and> (readOnly \<or> \<not> pm_Upload (uv_perms v)) then (Inl ErrPermission, u)
          else if is_write fl \<and> checkExtension name (uv_perms v) \<noteq> None
            then (Inl (the (checkExtension name (uv_perms v))), u)
          else if is_read fl \<and> \<not> pm_Download (uv_perms v) then (Inl ErrPermission, u)
          else if is_write fl \<and> uw_quota u \<noteq> None then open_quota v backend rel fl perm u
          else
            (case on_base (fs_open backend rel fl perm) u of
               (Inl e, u') \<Rightarrow> (Inl e, u')
             | (Inr f, u') \<Rightarrow>
                 (Inr (lift_file (if uv_limiters v \<noteq> [] then throttledFile (uv_fuel v) (uv_limiters v) f else f)), u')))"

section \<open>The other operations\<close>

fun measure_names ::
  "(string \<Rightarrow> usage option) \<Rightarrow> string \<Rightarrow> 'w \<Rightarrow> 'w direntry list \<Rightarrow> int \<Rightarrow> int \<Rightarrow> usage option" where
  "measure_names sub name w [] b f = Some ((b, f), None)"
| "measure_names sub name w (entry # es) b f =
     (case sub (path_join [name, de_name entry w]) of
        None \<Rightarrow> None
      | Some ((b', f'), e) \<Rightarrow>
          if e \<noteq> None \<and> e \<noteq> Some ErrNotExist then Some ((b, f), e)
          else measure_names sub name w es (wrap64 (b + b')) (wrap64 (f + f')))"

fun measureUsageForQuota :: "nat \<Rightarrow> 'w filesystem \<Rightarrow> string \<Rightarrow> 'w \<Rightarrow> usage option" where
  "measureUsageForQuota 0 fsys name w = None"
| "measureUsageForQuota (Suc k) fsys name w =
     (case fs_stat fsys name w of
        Inl e \<Rightarrow> Some ((0, 0), Some e)
      | Inr info \<Rightarrow>
          if \<not> fi_isDir info then Some ((fi_size info, 1), None)
          else (case fs_readDir fsys name w of
              Inl e \<Rightarrow> Some ((0, 0), Some e)
            | Inr entries \<Rightarrow> measure_names (\<lambda>p. measureUsageForQuota k fsys p w) name w entries 0 0))"

definition reclaim :: "int \<times> int \<Rightarrow> 'w uworld \<Rightarrow> 'w uworld" where
  "reclaim bf u = q_onFilesRemoved (snd bf) (q_onShrink (fst bf) u)"

definition uv_stat :: "'w uvfs \<Rightarrow> string \<Rightarrow> 'w uworld \<Rightarrow> fileinfo res" where
  "uv_stat v name u =
     (case uv_lookup v name of Inl e \<Rightarrow> Inl e | Inr (backend, rel, _) \<Rightarrow> fs_stat backend rel (uw_base u))"

definition uv_lstat :: "'w uvfs \<Rightarrow> string \<Rightarrow> 'w uworld \<Rightarrow> fileinfo res" where
  "uv_lstat v name u =
     (case uv_lookup v name of Inl e \<Rightarrow> Inl e | Inr (backend, rel, _) \<Rightarrow> fs_lstat backend rel (uw_base u))"

text \<open>What a rename onto an existing file will replace.\<close>

definition replaced_usage :: "'w filesystem \<Rightarrow> string \<Rightarrow> string \<Rightarrow> 'w \<Rightarrow> int \<times> int" where
  "replaced_usage backend oldRel newRel w =
     (if oldRel \<noteq> newRel then
        (case fs_stat backend newRel w of
           Inl _ \<Rightarrow> (0, 0)
         | Inr info \<Rightarrow> if fi_isDir info then (0, 0) else (fi_size info, 1))
      else (0, 0))"

definition uv_rename :: "'w uvfs \<Rightarrow> string \<Rightarrow> string \<Rightarrow> 'w uworld \<Rightarrow> goerr option \<times> 'w uworld" where
  "uv_rename v oldname newname u =
     (if \<not> pm_Rename (uv_perms v) then (Some ErrPermission, u)
      else (case uv_lookup v oldname of
          Inl e \<Rightarrow> (Some e, u)
        | Inr (oldBackend, oldRel, oldRO) \<Rightarrow>
            (case uv_lookup v newname of
               Inl e \<Rightarrow> (Some e, u)
             | Inr (newBackend, newRel, newRO) \<Rightarrow>
                 if oldRO \<or> newRO then (Some ErrPermission, u)
                 else if fs_id oldBackend \<noteq> fs_id newBackend then (Some ErrPermission, u)
                 else if uw_quota u = None then on_base (fs_rename oldBackend oldRel newRel) u
                 else (case beginQuotaChange u of (c, u1) \<Rightarrow>
                   let rep = replaced_usage newBackend oldRel newRel (uw_base u1) in
                   (case on_base (fs_rename oldBackend oldRel newRel) u1 of
                      (Some e, u2) \<Rightarrow> (Some e, endChange c u2)
                    | (None, u2) \<Rightarrow> (None, endChange c (reclaim rep u2)))))))"

text \<open>\<^verbatim>\<open>Remove\<close> and \<^verbatim>\<open>RemoveAll\<close> share everything but the backend call \<open>rm\<close>.\<close>

definition uv_remove_with ::
  "('w filesystem \<Rightarrow> string \<Rightarrow> 'w \<Rightarrow> goerr option \<times> 'w) \<Rightarrow> 'w uvfs \<Rightarrow> string \<Rightarrow> 'w uworld \<Rightarrow> goerr option \<times> 'w uworld" where
  "uv_remove_with rm v name u =
     (if \<not> pm_Delete (uv_perms v) then (Some ErrPermission, u)
      else (case uv_lookup v name of
          Inl e \<Rightarrow> (Some e, u)
        | Inr (backend, rel, ro) \<Rightarrow>
            if ro then (Some ErrPermission, u)
            else if uw_quota u = None then on_base (rm backend rel) u
            else (case beginQuotaChange u of (c, u1) \<Rightarrow>
              (case measureUsageForQuota (uv_fuel v) backend rel (uw_base u1) of
                 None \<Rightarrow> (Some NoFuel, u1)
               | Some (bf, _) \<Rightarrow>
                   (case on_base (rm backend rel) u1 of
                      (Some e, u2) \<Rightarrow> (Some e, endChange c u2)
                    | (None, u2) \<Rightarrow> (None, endChange c (reclaim bf u2)))))))"

definition uv_remove :: "'w uvfs \<Rightarrow> string \<Rightarrow> 'w uworld \<Rightarrow> goerr option \<times> 'w uworld" where
  "uv_remove v = uv_remove_with fs_remove v"

definition uv_removeAll :: "'w uvfs \<Rightarrow> string \<Rightarrow> 'w uworld \<Rightarrow> goerr option \<times> 'w uworld" where
  "uv_removeAll v = uv_remove_with fs_removeAll v"

text \<open>The shape of the remaining mutating calls: look up, refuse a read-only mount, call the backend.\<close>

definition uv_modify ::
  "('w filesystem \<Rightarrow> string \<Rightarrow> 'w \<Rightarrow> goerr option \<times> 'w) \<Rightarrow> 'w uvfs \<Rightarrow> string \<Rightarrow> 'w uworld \<Rightarrow> goerr option \<times> 'w uworld" where
  "uv_modify call v name u =
     (case uv_lookup v name of
        Inl e \<Rightarrow> (Some e, u)
      | Inr (backend, rel, ro) \<Rightarrow> if ro then (Some ErrPermission, u) else on_base (call backend rel) u)"

definition uv_mkdir :: "'w uvfs \<Rightarrow> string \<Rightarrow> filemode \<Rightarrow> 'w uworld \<Rightarrow> goerr option \<times> 'w uworld" where
  "uv_mkdir v name perm u =
     (if \<not> pm_CreateDir (uv_perms v) then (Some ErrPermission, u)
      else uv_modify (\<lambda>b rel. fs_mkdir b rel perm) v name u)"

definition uv_mkdirAll :: "'w uvfs \<Rightarrow> string \<Rightarrow> filemode \<Rightarrow> 'w uworld \<Rightarrow> goerr option \<times> 'w uworld" where
  "uv_mkdirAll v name perm u =
     (if \<not> pm_CreateDir (uv_perms v) then (Some ErrPermission, u)
      else uv_modify (\<lambda>b rel. fs_mkdirAll b rel perm) v name u)"

definition mount_entry :: "string \<Rightarrow> 'w uworld direntry" where
  "mount_entry nm =
     \<lparr>de_name = (\<lambda>_. nm), de_isDir = (\<lambda>_. True), de_type = (\<lambda>_. ModeDir OR 0x1ED),
      de_info = (\<lambda>u. Inr \<lparr>fi_name = nm, fi_size = 0, fi_mode = ModeDir OR 0x1ED, fi_modTime = uw_now u,
                         fi_isDir = True\<rparr>)\<rparr>"

definition uv_readDir :: "'w uvfs \<Rightarrow> string \<Rightarrow> 'w uworld \<Rightarrow> 'w uworld direntry list res" where
  "uv_readDir v name u =
     (if \<not> pm_ListDir (uv_perms v) then Inl ErrPermission
      else (case Resolve name of
          Inl e \<Rightarrow> Inl e
        | Inr resolved \<Rightarrow>
            (case Lookup (uv_mounts v) resolved of
               Inl e \<Rightarrow> Inl e
             | Inr (backend, rel, _) \<Rightarrow>
                 (case fs_readDir backend rel (uw_base u) of
                    Inl e \<Rightarrow> Inl e
                  | Inr entries \<Rightarrow>
                      Inr (map lift_entry entries @ map mount_entry (ListMountPoints (uv_mounts v) resolved))))))"

definition uv_symlink :: "'w uvfs \<Rightarrow> string \<Rightarrow> string \<Rightarrow> 'w uworld \<Rightarrow> goerr option \<times> 'w uworld" where
  "uv_symlink v oldname newname u = uv_modify (\<lambda>b rel. fs_symlink b oldname rel) v newname u"

definition uv_readlink :: "'w uvfs \<Rightarrow> string \<Rightarrow> 'w uworld \<Rightarrow> string res" where
  "uv_readlink v name u =
     (case uv_lookup v name of Inl e \<Rightarrow> Inl e | Inr (backend, rel, _) \<Rightarrow> fs_readlink backend rel (uw_base u))"

definition uv_chmod :: "'w uvfs \<Rightarrow> string \<Rightarrow> filemode \<Rightarrow> 'w uworld \<Rightarrow> goerr option \<times> 'w uworld" where
  "uv_chmod v name mode u =
     (if \<not> pm_Chmod (uv_perms v) then (Some ErrPermission, u)
      else uv_modify (\<lambda>b rel. fs_chmod b rel mode) v name u)"

definition uv_chown :: "'w uvfs \<Rightarrow> string \<Rightarrow> int \<Rightarrow> int \<Rightarrow> 'w uworld \<Rightarrow> goerr option \<times> 'w uworld" where
  "uv_chown v name uid gid u = uv_modify (\<lambda>b rel. fs_chown b rel uid gid) v name u"

definition uv_chtimes :: "'w uvfs \<Rightarrow> string \<Rightarrow> int \<Rightarrow> int \<Rightarrow> 'w uworld \<Rightarrow> goerr option \<times> 'w uworld" where
  "uv_chtimes v name atime mtime u =
     (if \<not> pm_Chmod (uv_perms v) then (Some ErrPermission, u)
      else uv_modify (\<lambda>b rel. fs_chtimes b rel atime mtime) v name u)"

definition capCount :: "64 word \<Rightarrow> 64 word \<Rightarrow> bool \<Rightarrow> 64 word" where
  "capCount backend quota known = (if \<not> known then quota else min backend quota)"

definition capStatVFS :: "statvfs \<Rightarrow> int \<times> int \<times> int \<times> int \<Rightarrow> statvfs" where
  "capStatVFS st us =
     (case us of (usedBytes, maxBytes, usedFiles, maxFiles) \<Rightarrow>
        let st1 = (if maxBytes > 0 then
              let bs = (if BlockSize st = 0 then 4096 else BlockSize st);
                  known = (TotalBlocks st > 0);
                  tot = (word_of_int maxBytes :: 64 word) div bs;
                  free = (word_of_int (max (wrap64 (maxBytes - usedBytes)) 0) :: 64 word) div bs
              in st\<lparr>BlockSize := bs, TotalBlocks := capCount (TotalBlocks st) tot known,
                    FreeBlocks := capCount (FreeBlocks st) free known,
                    AvailBlocks := capCount (AvailBlocks st) free known\<rparr>
            else st)
        in if maxFiles > 0 then
             let known = (TotalFiles st1 > 0) in
             st1\<lparr>TotalFiles := capCount (TotalFiles st1) (word_of_int maxFiles) known,
                 FreeFiles := capCount (FreeFiles st1) (word_of_int (max (wrap64 (maxFiles - usedFiles)) 0)) known\<rparr>
           else st1)"

definition uv_statvfs :: "'w uvfs \<Rightarrow> string \<Rightarrow> 'w uworld \<Rightarrow> statvfs res" where
  "uv_statvfs v p u =
     (case uv_lookup v p of
        Inl e \<Rightarrow> Inl e
      | Inr (backend, rel, _) \<Rightarrow>
          (case fs_statvfs backend rel (uw_base u) of
             Inl e \<Rightarrow> Inl e
           | Inr st \<Rightarrow> Inr (if uw_quota u = None then st else capStatVFS st (Usage (uw_quota u)))))"

definition uv_fs :: "'w uvfs \<Rightarrow> 'w uworld filesystem" where
  "uv_fs v =
     \<lparr>fs_id = 0, fs_open = uv_open v, fs_stat = uv_stat v, fs_lstat = uv_lstat v, fs_rename = uv_rename v,
      fs_remove = uv_remove v, fs_removeAll = uv_removeAll v, fs_mkdir = uv_mkdir v,
      fs_mkdirAll = uv_mkdirAll v, fs_readDir = uv_readDir v, fs_symlink = uv_symlink v,
      fs_readlink = uv_readlink v, fs_chmod = uv_chmod v, fs_chown = uv_chown v,
      fs_chtimes = uv_chtimes v, fs_statvfs = uv_statvfs v\<rparr>"

end
