(* ===== verification/User_Vfs_Contract.thy ===== *)
theory User_Vfs_Contract
  imports User_Vfs
begin

text \<open>
  A session keeps the contract of its backends: rate-limited files, quota files and the session's
  operations again satisfy the interface contracts, with an invariant that also accounts for every
  quota change the session has open.  \<open>session\<close> is the step relation of everything a session can do;
  its reachable states, and what \<^verbatim>\<open>Release\<close> leaves of them, follow from the contracts.
\<close>


section \<open>Rate limiting keeps the file contract\<close>

lemma chunk_le: "chunk ls n \<le> n"
proof (induction ls arbitrary: n)
  case (Cons c ls)
  then show ?case using order_trans [OF Cons [of c], of n] by simp
qed simp

lemma chunk_pos: "0 < n \<Longrightarrow> 0 < chunk ls n"
  by (induction ls arbitrary: n) auto

context file_contract
begin

lemma throttled_readAt_loop_contract:
  "inv w \<Longrightarrow> throttled_readAt_loop k ls f acc r off w = ((bs, e), w') \<Longrightarrow>
     length bs \<le> length acc + r \<and> inv w'"
proof (induction k arbitrary: acc r w)
  case 0
  then show ?case by (cases r) auto
next
  case (Suc k)
  show ?case
  proof (cases r)
    case 0
    then show ?thesis using Suc.prems by simp
  next
    case (Suc r')
    obtain bs1 e1 w1 where rd: "f_readAt f (chunk ls r) (wrap64 (off + int (length acc))) w = ((bs1, e1), w1)"
      by (metis prod.exhaust)
    have "length bs1 \<le> r" using readAt_len [OF Suc.prems(1) rd] chunk_le [of ls r] by simp
    moreover have "inv w1" using readAt_inv [OF Suc.prems(1) rd] .
    ultimately show ?thesis
      using Suc.prems(2) Suc.IH [of w1 "acc @ bs1" "r - length bs1"] rd Suc by (auto split: if_splits)
  qed
qed

lemma throttled_write_loop_contract:
  assumes wr: "\<And>tot q w n e w'. inv w \<Longrightarrow> wr tot q w = ((n, e), w') \<Longrightarrow> n \<le> length q \<and> inv w'"
  shows "inv w \<Longrightarrow> throttled_write_loop k ls wr tot p w = ((n, e), w') \<Longrightarrow> n \<le> tot + length p \<and> inv w'"
proof (induction k arbitrary: tot p w)
  case 0
  then show ?case by (cases p) auto
next
  case (Suc k)
  show ?case
  proof (cases p)
    case Nil
    then show ?thesis using Suc.prems by simp
  next
    case (Cons b p')
    obtain n1 e1 w1 where rd: "wr tot (take (chunk ls (length p)) p) w = ((n1, e1), w1)"
      by (metis prod.exhaust)
    have "n1 \<le> length p \<and> inv w1" using wr [OF Suc.prems(1) rd] by simp
    then show ?thesis
      using Suc.prems(2) Suc.IH [of w1 "tot + n1" "drop n1 p"] rd Cons by (auto split: if_splits)
  qed
qed

lemma throttled_readAt_contract:
  assumes "inv w" "throttled_readAt k ls f n off w = ((bs, e), w')"
  shows "length bs \<le> n \<and> inv w'"
  using throttled_readAt_loop_contract [OF assms(1), of k ls "[]"] assms(2) by (simp add: throttled_readAt_def)

lemma throttled_write_contract:
  assumes "inv w" "throttled_write k ls f p w = ((n, e), w')"
  shows "n \<le> length p \<and> inv w'"
proof -
  have "n \<le> 0 + length p \<and> inv w'"
    by (rule throttled_write_loop_contract [OF _ assms(1) assms(2) [unfolded throttled_write_def]])
       (blast intro: write_len write_inv)
  then show ?thesis by simp
qed

lemma throttled_writeAt_contract:
  assumes "inv w" "throttled_writeAt k ls f p off w = ((n, e), w')"
  shows "n \<le> length p \<and> inv w'"
proof -
  have "n \<le> 0 + length p \<and> inv w'"
    by (rule throttled_write_loop_contract [OF _ assms(1) assms(2) [unfolded throttled_writeAt_def]])
       (blast intro: writeAt_len writeAt_inv)
  then show ?thesis by simp
qed

lemma throttled_read_contract:
  assumes "inv w" "throttled_read ls f n w = ((bs, e), w')"
  shows "length bs \<le> n \<and> inv w'"
proof (cases "n = 0")
  case True
  then show ?thesis using assms read_len [of w 0] read_inv [of w 0] by (auto simp: throttled_read_def)
next
  case False
  then have "f_read f (chunk ls n) w = ((bs, e), w')" using assms by (simp add: throttled_read_def)
  then show ?thesis using read_len read_inv assms(1) chunk_le order_trans by blast
qed

lemmas throttled_contracts = throttled_readAt_contract throttled_write_contract
  throttled_writeAt_contract throttled_read_contract

lemma throttledFile_contract: "file_contract inv (throttledFile k ls f)"
proof
  fix w n off p bs m e w' and r :: "bytes \<times> goerr option" and r' :: "nat \<times> goerr option"
  assume w: "inv w"
  show "f_read (throttledFile k ls f) n w = ((bs, e), w') \<Longrightarrow> length bs \<le> n"
    "f_readAt (throttledFile k ls f) n off w = ((bs, e), w') \<Longrightarrow> length bs \<le> n"
    "f_write (throttledFile k ls f) p w = ((m, e), w') \<Longrightarrow> m \<le> length p"
    "f_writeAt (throttledFile k ls f) p off w = ((m, e), w') \<Longrightarrow> m \<le> length p"
    using throttled_contracts [OF w] by (simp_all add: throttledFile_def)
  show "f_read (throttledFile k ls f) n w = (r, w') \<Longrightarrow> inv w'"
    "f_readAt (throttledFile k ls f) n off w = (r, w') \<Longrightarrow> inv w'"
    using throttled_contracts [OF w] by (cases r; simp add: throttledFile_def)+
  show "f_write (throttledFile k ls f) p w = (r', w') \<Longrightarrow> inv w'"
    "f_writeAt (throttledFile k ls f) p off w = (r', w') \<Longrightarrow> inv w'"
    using throttled_contracts [OF w] by (cases r'; simp add: throttledFile_def)+
qed (auto simp: throttledFile_def intro: seek_inv close_inv sync_inv truncate_inv)

end


section \<open>Quota changes are balanced\<close>

text \<open>
  The bookkeeping invariant of a session whose tracker has \<open>b\<close> changes of other sessions in progress:
  as long as the counters have room, the open changes are exactly the end functions that have not
  fired, and the tracker counts each of them once.
\<close>

definition chg_inv :: "int \<Rightarrow> 'w uworld \<Rightarrow> bool" where
  "chg_inv b u \<longleftrightarrow> (0 \<le> b \<and> b + int (length (uw_once u)) \<le> max_int64 \<longrightarrow>
     (\<forall>i<length (uw_once u). fst (uw_once u ! i) = of_nat i)
     \<and> uw_nextChange u = of_nat (length (uw_once u))
     \<and> distinct (map fst (uw_changes u))
     \<and> length (uw_changes u) \<le> length (uw_once u)
     \<and> (\<forall>k i. map_of (uw_changes u) k = Some i \<longleftrightarrow> i < length (uw_once u) \<and> uw_once u ! i = (k, False))
     \<and> (\<forall>t. uw_quota u = Some t \<longrightarrow> t_inflight t = b + int (length (uw_changes u))))"

lemma chg_inv_cong:
  assumes "uw_once u' = uw_once u" "uw_changes u' = uw_changes u" "uw_nextChange u' = uw_nextChange u"
    "map_option t_inflight (uw_quota u') = map_option t_inflight (uw_quota u)"
  shows "chg_inv b u' = chg_inv b u"
proof -
  have "(\<forall>t. uw_quota u' = Some t \<longrightarrow> t_inflight t = x) = (\<forall>t. uw_quota u = Some t \<longrightarrow> t_inflight t = x)" for x
    using assms(4) by (cases "uw_quota u'"; cases "uw_quota u") auto
  then show ?thesis using assms(1-3) by (simp add: chg_inv_def)
qed

lemma inflight_simps [simp]:
  "map_option t_inflight (snd (OnGrow t n)) = map_option t_inflight t"
  "map_option t_inflight (OnShrink t n) = map_option t_inflight t"
  "map_option t_inflight (snd (OnFileCreated t)) = map_option t_inflight t"
  "map_option t_inflight (OnFilesRemoved t n) = map_option t_inflight t"
  by (cases t; simp)+

lemma of_nat_word64_inject: "int i \<le> max_int64 \<Longrightarrow> int j \<le> max_int64 \<Longrightarrow> (of_nat i :: 64 word) = of_nat j \<longleftrightarrow> i = j"
  by (auto simp: max_int64_def word_of_nat_eq_iff take_bit_nat_eq_self_iff take_bit_nat_eq_self)

lemma length_delete_present:
  "distinct (map fst xs) \<Longrightarrow> map_of xs k = Some v \<Longrightarrow> length xs = Suc (length (AList.delete k xs))"
  by (induction xs) (auto simp: AList.delete_idem split: if_splits)

lemma length_update_absent: "k \<notin> fst ` set xs \<Longrightarrow> length (AList.update k v xs) = Suc (length xs)"
  by (induction xs) auto

lemma beginQuotaChange_inv:
  assumes c: "chg_inv b u" and r: "beginQuotaChange u = (i, u')"
  shows "chg_inv b u' \<and> i = length (uw_once u) \<and> length (uw_once u') = Suc i
    \<and> uw_base u' = uw_base u \<and> uw_qfiles u' = uw_qfiles u"
proof -
  have u': "i = length (uw_once u)"
    "u' = u\<lparr>uw_quota := BeginChange (uw_now u) (uw_quota u), uw_nextChange := uw_nextChange u + 1,
       uw_once := uw_once u @ [(uw_nextChange u, False)], uw_changes := AList.update (uw_nextChange u) i (uw_changes u)\<rparr>"
    using r by (auto simp: beginQuotaChange_def Let_def)
  have "chg_inv b u'"
    unfolding chg_inv_def
  proof (rule impI)
    assume P: "0 \<le> b \<and> b + int (length (uw_once u')) \<le> max_int64"
    then have room: "0 \<le> b" "b + int (length (uw_once u)) < max_int64" by (auto simp: u')
    note C = c [unfolded chg_inv_def, THEN mp, OF conjI [OF room(1) less_imp_le [OF room(2)]]]
    have ids: "fst (uw_once u ! j) = of_nat j" if "j < length (uw_once u)" for j using C that by blast
    have nx: "uw_nextChange u = of_nat i" using C u'(1) by simp
    have fresh: "map_of (uw_changes u) (of_nat i) = None"
    proof (rule ccontr)
      assume "map_of (uw_changes u) (of_nat i) \<noteq> None"
      then obtain j where "j < length (uw_once u)" "uw_once u ! j = (of_nat i, False)" using C by auto
      then show False using ids [of j] of_nat_word64_inject [of j i] room u'(1) by simp
    qed
    then have fr: "of_nat i \<notin> fst ` set (uw_changes u)" by (simp add: map_of_eq_None_iff)
    have quota: "t_inflight t = b + int (length (uw_changes u'))" if q: "uw_quota u' = Some t" for t
    proof -
      obtain s where s: "uw_quota u = Some s" "t_inflight t = wrap64 (t_inflight s + 1)"
        using q u'(2) by (cases "uw_quota u") auto
      then have "t_inflight s = b + int (length (uw_changes u))" using C by blast
      moreover have "length (uw_changes u) \<le> length (uw_once u)" using C by blast
      ultimately have "wrap64 (t_inflight s + 1) = b + int (length (uw_changes u)) + 1"
        using room wrap64_nonneg_sum [of "b + int (length (uw_changes u))" 1] by simp
      then show ?thesis using s u' fr nx by (simp add: length_update_absent)
    qed
    have maps: "map_of (uw_changes u') k = Some j \<longleftrightarrow> j < length (uw_once u') \<and> uw_once u' ! j = (k, False)" for k j
    proof (cases "j = i")
      case True
      moreover have "map_of (uw_changes u) k \<noteq> Some i" for k using C u'(1) by auto
      ultimately show ?thesis using u' nx fresh by (auto simp: nth_append)
    next
      case False
      then have "map_of (uw_changes u') k = Some j \<longleftrightarrow> map_of (uw_changes u) k = Some j"
        using u' nx fresh by (auto split: if_splits)
      also have "\<dots> \<longleftrightarrow> j < length (uw_once u) \<and> uw_once u ! j = (k, False)" using C by blast
      finally show ?thesis using u' False by (auto simp: nth_append)
    qed
    show "(\<forall>i<length (uw_once u'). fst (uw_once u' ! i) = of_nat i)
     \<and> uw_nextChange u' = of_nat (length (uw_once u')) \<and> distinct (map fst (uw_changes u'))
     \<and> length (uw_changes u') \<le> length (uw_once u')
     \<and> (\<forall>k i. map_of (uw_changes u') k = Some i \<longleftrightarrow> i < length (uw_once u') \<and> uw_once u' ! i = (k, False))
     \<and> (\<forall>t. uw_quota u' = Some t \<longrightarrow> t_inflight t = b + int (length (uw_changes u')))"
    proof (intro conjI allI impI)
      show "fst (uw_once u' ! j) = of_nat j" if "j < length (uw_once u')" for j
        using that ids nx u' by (auto simp: nth_append less_Suc_eq)
      show "distinct (map fst (uw_changes u'))" "length (uw_changes u') \<le> length (uw_once u')"
        using C u' fr nx by (simp_all add: length_update_absent)
    qed (use maps quota u' nx in auto)
  qed
  then show ?thesis using u' by simp
qed

lemma endChange_same [simp]: "uw_base (endChange i u) = uw_base u" "uw_qfiles (endChange i u) = uw_qfiles u"
  "length (uw_once (endChange i u)) = length (uw_once u)"
  by (simp_all add: endChange_def split: prod.split)

lemma endChange_inv:
  assumes c: "chg_inv b u" and i: "i < length (uw_once u)"
  shows "chg_inv b (endChange i u)"
proof (cases "snd (uw_once u ! i)")
  case True
  then show ?thesis using c by (cases "uw_once u ! i") (simp add: endChange_def)
next
  case False
  obtain k where k: "uw_once u ! i = (k, False)" using False by (cases "uw_once u ! i") auto
  let ?u = "endChange i u"
  have u': "?u = u\<lparr>uw_once := (uw_once u)[i := (k, True)], uw_changes := AList.delete k (uw_changes u),
               uw_quota := EndChange (uw_quota u)\<rparr>" using k by (simp add: endChange_def)
  show ?thesis
    unfolding chg_inv_def
  proof (rule impI)
    assume "0 \<le> b \<and> b + int (length (uw_once ?u)) \<le> max_int64"
    then have room: "0 \<le> b" "b + int (length (uw_once u)) \<le> max_int64" by simp_all
    note C = c [unfolded chg_inv_def, THEN mp, OF conjI [OF room]]
    have ids: "fst (uw_once u ! j) = of_nat j" if "j < length (uw_once u)" for j using C that by blast
    have ki: "k = of_nat i" using ids [OF i] k by simp
    have mk: "map_of (uw_changes u) k = Some i" using C k i by blast
    have len: "length (uw_changes u) = Suc (length (uw_changes ?u))"
      using length_delete_present [OF _ mk] C by (simp add: u')
    have quota: "t_inflight t = b + int (length (uw_changes ?u))" if q: "uw_quota ?u = Some t" for t
    proof -
      obtain s where s: "uw_quota u = Some s" "t_inflight t = max (wrap64 (t_inflight s - 1)) 0"
        using q u' by (cases "uw_quota u") (auto simp: Let_def)
      then have "t_inflight s = b + int (length (uw_changes u))" using C by blast
      moreover have "length (uw_changes u) \<le> length (uw_once u)" using C by blast
      ultimately have "wrap64 (t_inflight s - 1) = b + int (length (uw_changes u)) - 1"
        using room len wrap64_diff [of "b + int (length (uw_changes u))" 1] by (simp add: max_int64_def)
      then show ?thesis using s len room by simp
    qed
    have maps: "map_of (uw_changes ?u) k' = Some j \<longleftrightarrow> j < length (uw_once ?u) \<and> uw_once ?u ! j = (k', False)" for k' j
    proof -
      have "map_of (uw_changes ?u) k' = Some j \<longleftrightarrow> k' \<noteq> k \<and> map_of (uw_changes u) k' = Some j" by (simp add: u')
      also have "\<dots> \<longleftrightarrow> k' \<noteq> k \<and> j < length (uw_once u) \<and> uw_once u ! j = (k', False)" using C by blast
      also have "\<dots> \<longleftrightarrow> j < length (uw_once ?u) \<and> uw_once ?u ! j = (k', False)"
        using k ids [of j] ki i room of_nat_word64_inject [of j i] by (auto simp: u' nth_list_update)
      finally show ?thesis .
    qed
    show "(\<forall>i<length (uw_once ?u). fst (uw_once ?u ! i) = of_nat i)
     \<and> uw_nextChange ?u = of_nat (length (uw_once ?u)) \<and> distinct (map fst (uw_changes ?u))
     \<and> length (uw_changes ?u) \<le> length (uw_once ?u)
     \<and> (\<forall>k i. map_of (uw_changes ?u) k = Some i \<longleftrightarrow> i < length (uw_once ?u) \<and> uw_once ?u ! i = (k, False))
     \<and> (\<forall>t. uw_quota ?u = Some t \<longrightarrow> t_inflight t = b + int (length (uw_changes ?u)))"
    proof (intro conjI allI impI)
      show "fst (uw_once ?u ! j) = of_nat j" if "j < length (uw_once ?u)" for j
        using that ids [of j] k by (cases "j = i") (auto simp: u')
      show "distinct (map fst (uw_changes ?u))" using C by (simp add: u')
      show "length (uw_changes ?u) \<le> length (uw_once ?u)"
        using C len by (metis Suc_leD endChange_same(3))
      show "uw_nextChange ?u = of_nat (length (uw_once ?u))" using C by (simp add: u')
    qed (use maps quota in blast)+
  qed
qed


section \<open>The session keeps the contract of its backends\<close>

definition uv_inv :: "('w \<Rightarrow> bool) \<Rightarrow> int \<Rightarrow> 'w uworld \<Rightarrow> bool" where
  "uv_inv I b u \<longleftrightarrow> I (uw_base u) \<and> chg_inv b u \<and> (\<forall>q\<in>set (uw_qfiles u). q_end q < length (uw_once u))"

named_theorems uv_inv_intros \<open>session steps that keep the invariant\<close>

lemma uv_inv_cong:
  assumes "uw_base u' = uw_base u" "uw_once u' = uw_once u" "uw_changes u' = uw_changes u"
    "uw_nextChange u' = uw_nextChange u" "map_option t_inflight (uw_quota u') = map_option t_inflight (uw_quota u)"
    "q_end ` set (uw_qfiles u') \<subseteq> q_end ` set (uw_qfiles u)"
  shows "uv_inv I b u \<Longrightarrow> uv_inv I b u'"
  using chg_inv_cong [of u' u b] assms by (auto simp: uv_inv_def)

lemma uv_inv_onGrow [uv_inv_intros]: "uv_inv I b u \<Longrightarrow> uv_inv I b (snd (q_onGrow n u))"
  using inflight_simps(1) [of "uw_quota u" n]
  by (cases "OnGrow (uw_quota u) n", intro uv_inv_cong [of "snd (q_onGrow n u)" u]) (auto simp: q_onGrow_def split: prod.splits)

lemma uv_inv_onShrink [uv_inv_intros]: "uv_inv I b u \<Longrightarrow> uv_inv I b (q_onShrink n u)"
  by (rule uv_inv_cong [of _ u]) (auto simp: q_onShrink_def)

lemma uv_inv_onFilesRemoved [uv_inv_intros]: "uv_inv I b u \<Longrightarrow> uv_inv I b (q_onFilesRemoved n u)"
  by (rule uv_inv_cong [of _ u]) (auto simp: q_onFilesRemoved_def)

lemma uv_inv_reclaim [uv_inv_intros]: "uv_inv I b u \<Longrightarrow> uv_inv I b (reclaim bf u)"
  by (simp add: reclaim_def uv_inv_intros)

lemma uv_inv_upd_qfile [uv_inv_intros]:
  assumes "\<And>q. q_end (g q) = q_end q" "uv_inv I b u"
  shows "uv_inv I b (upd_qfile j g u)"
proof (rule uv_inv_cong [OF _ _ _ _ _ _ assms(2)])
  have "map q_end (uw_qfiles (upd_qfile j g u)) = map q_end (uw_qfiles u)"
    by (simp add: upd_qfile_def map_update assms(1) map_list_update_same)
  then have "set (map q_end (uw_qfiles (upd_qfile j g u))) = set (map q_end (uw_qfiles u))" by simp
  then show "q_end ` set (uw_qfiles (upd_qfile j g u)) \<subseteq> q_end ` set (uw_qfiles u)" by simp
qed (simp_all add: upd_qfile_def)

lemma uv_inv_base:
  "uv_inv I b u \<Longrightarrow> I w \<Longrightarrow> uv_inv I b (u\<lparr>uw_base := w\<rparr>)"
  using chg_inv_cong [of "u\<lparr>uw_base := w\<rparr>" u b] by (simp add: uv_inv_def)

lemma uv_inv_on_base:
  "uv_inv I b u \<Longrightarrow> (\<And>r w'. f (uw_base u) = (r, w') \<Longrightarrow> I w') \<Longrightarrow> on_base f u = (r, u') \<Longrightarrow> uv_inv I b u'"
  by (auto simp: on_base_def intro: uv_inv_base split: prod.splits)

lemma on_base_keeps:
  "on_base g u = (r, u') \<Longrightarrow> uv_inv I b u \<Longrightarrow> (\<And>w r w'. I w \<Longrightarrow> g w = (r, w') \<Longrightarrow> I w') \<Longrightarrow> uv_inv I b u'"
  by (rule uv_inv_on_base) (auto simp: uv_inv_def)

lemma uv_inv_begin:
  "uv_inv I b u \<Longrightarrow> beginQuotaChange u = (c, u') \<Longrightarrow> uv_inv I b u' \<and> c < length (uw_once u')"
  using beginQuotaChange_inv [of b u c u'] by (auto simp: uv_inv_def intro: less_SucI)

lemma uv_inv_end [uv_inv_intros]:
  "uv_inv I b u \<Longrightarrow> c < length (uw_once u) \<Longrightarrow> uv_inv I b (endChange c u)"
  using endChange_inv [of b u c] by (simp add: uv_inv_def)

lemma once_same [simp]:
  "uw_once (q_onShrink n u) = uw_once u" "uw_once (q_onFilesRemoved n u) = uw_once u"
  "uw_once (reclaim bf u) = uw_once u" "uw_once (upd_qfile j g u) = uw_once u"
  "uw_once (snd (q_onGrow n u)) = uw_once u" "uw_qfiles (snd (q_onGrow n u)) = uw_qfiles u"
  "uw_base (snd (q_onGrow n u)) = uw_base u"
  by (simp_all add: q_onShrink_def q_onFilesRemoved_def reclaim_def upd_qfile_def q_onGrow_def split: prod.split)

lemma on_base_once: "on_base f u = (r, u') \<Longrightarrow> uw_once u' = uw_once u \<and> uw_qfiles u' = uw_qfiles u \<and> uw_quota u' = uw_quota u"
  by (auto simp: on_base_def split: prod.splits)

section \<open>Files of a session\<close>

context file_contract
begin

lemma lift_file_contract: "file_contract (uv_inv inv b) (lift_file f)"
proof
  fix u n off p bs m e u'
  assume u: "uv_inv inv b u"
  then have w: "inv (uw_base u)" by (simp add: uv_inv_def)
  show "f_read (lift_file f) n u = ((bs, e), u') \<Longrightarrow> length bs \<le> n"
    "f_readAt (lift_file f) n off u = ((bs, e), u') \<Longrightarrow> length bs \<le> n"
    "f_write (lift_file f) p u = ((m, e), u') \<Longrightarrow> m \<le> length p"
    "f_writeAt (lift_file f) p off u = ((m, e), u') \<Longrightarrow> m \<le> length p"
    using read_len [OF w] readAt_len [OF w] write_len [OF w] writeAt_len [OF w]
    by (auto simp: lift_file_def on_base_def split: prod.splits)
qed (simp add: lift_file_def, erule (1) on_base_keeps,
     blast intro: read_inv readAt_inv write_inv writeAt_inv seek_inv close_inv sync_inv truncate_inv)+

end


lemma guard_qE:
  "guard_q j d k u = (r, u') \<Longrightarrow> (\<not> j < length (uw_qfiles u) \<Longrightarrow> r = d \<Longrightarrow> u' = u \<Longrightarrow> P)
     \<Longrightarrow> (j < length (uw_qfiles u) \<Longrightarrow> k u = (r, u') \<Longrightarrow> P) \<Longrightarrow> P"
  by (auto simp: guard_q_def split: if_splits)

lemma uv_inv_account [uv_inv_intros]: "uv_inv I b u \<Longrightarrow> uv_inv I b (quotaFile_account j g n u)"
  by (simp add: quotaFile_account_def Let_def uv_inv_intros)

context file_contract
begin

lemma quotaFile_write_contract:
  assumes u: "uv_inv inv b u" and r: "quotaFile_write j f p u = ((n, e), u')"
  shows "n \<le> length p \<and> uv_inv inv b u'"
proof -
  let ?q = "uw_qfiles u ! j"
  let ?g = "projectedGrowth (q_size ?q) (q_offset ?q) (int (length p))"
  define x where "x = (if ?g > 0 then q_onGrow ?g u else (None, u))"
  have u1: "uv_inv inv b (snd x)" using u by (simp add: x_def uv_inv_intros)
  obtain n2 e2 u2 where w: "on_base (f_write f p) (snd x) = ((n2, e2), u2)" by (metis prod.exhaust)
  have u2: "uv_inv inv b u2" using w u1 write_inv by (rule on_base_keeps)
  have "f_write f p (uw_base (snd x)) = ((n2, e2), uw_base u2)"
    using w by (auto simp: on_base_def split: prod.splits)
  then have "n2 \<le> length p" using u1 write_len [of "uw_base (snd x)"] by (simp add: uv_inv_def)
  then show ?thesis
    using r u u1 u2 w uv_inv_account [OF u2]
    by (cases x) (auto simp: quotaFile_write_def Let_def x_def [symmetric] split: if_splits option.splits)
qed

lemma quotaFile_writeAt_contract:
  assumes u: "uv_inv inv b u" and r: "quotaFile_writeAt j f p off u = ((n, e), u')"
  shows "n \<le> length p \<and> uv_inv inv b u'"
proof -
  have u0: "uv_inv inv b (upd_qfile j (\<lambda>q. q\<lparr>q_offset := off\<rparr>) u)" using u by (simp add: uv_inv_intros)
  obtain n1 e1 u1 where w: "quotaFile_write j f p (upd_qfile j (\<lambda>q. q\<lparr>q_offset := off\<rparr>) u) = ((n1, e1), u1)"
    by (metis prod.exhaust)
  show ?thesis
    using r w quotaFile_write_contract [OF u0 w]
    by (auto simp: quotaFile_writeAt_def Let_def uv_inv_intros split: if_splits)
qed

lemma quotaFile_read_contract:
  assumes u: "uv_inv inv b u" and r: "quotaFile_read j f k u = ((bs, e), u')"
  shows "length bs \<le> k \<and> uv_inv inv b u'"
proof -
  obtain bs1 e1 u1 where w: "on_base (f_read f k) u = ((bs1, e1), u1)" by (metis prod.exhaust)
  have "uv_inv inv b u1" using w u read_inv by (rule on_base_keeps)
  moreover have "length bs1 \<le> k"
    using w u read_len by (auto simp: on_base_def uv_inv_def split: prod.splits)
  ultimately show ?thesis using r w by (auto simp: quotaFile_read_def uv_inv_intros)
qed

lemma quotaFile_seek_inv:
  assumes u: "uv_inv inv b u" and r: "quotaFile_seek j f off wh u = (x, u')"
  shows "uv_inv inv b u'"
proof -
  obtain y u1 where w: "on_base (f_seek f off wh) u = (y, u1)" by (metis prod.exhaust)
  have "uv_inv inv b u1" using w u seek_inv by (rule on_base_keeps)
  then show ?thesis using r w by (auto simp: quotaFile_seek_def uv_inv_intros split: sum.splits)
qed

lemma quotaFile_truncate_inv:
  assumes u: "uv_inv inv b u" and r: "quotaFile_truncate j f sz u = (x, u')"
  shows "uv_inv inv b u'"
proof -
  let ?q = "uw_qfiles u ! j"
  let ?g = "if sz > q_size ?q then wrap64 (sz - q_size ?q) else 0"
  define y where "y = (if sz > q_size ?q then q_onGrow ?g u else (None, u))"
  have u1: "uv_inv inv b (snd y)" using u by (simp add: y_def uv_inv_intros)
  obtain z u2 where w: "on_base (f_truncate f sz) (snd y) = (z, u2)" by (metis prod.exhaust)
  have u2: "uv_inv inv b u2" using w u1 truncate_inv by (rule on_base_keeps)
  show ?thesis
    using r u u1 u2 w
    by (cases y) (auto simp: quotaFile_truncate_def Let_def y_def [symmetric] uv_inv_intros
        split: if_splits option.splits)
qed

lemma quotaFile_close_inv:
  assumes u: "uv_inv inv b u" and j: "j < length (uw_qfiles u)" and r: "quotaFile_close j f u = (x, u')"
  shows "uv_inv inv b u'"
proof -
  obtain y u1 where w: "on_base (f_close f) u = (y, u1)" by (metis prod.exhaust)
  have u1: "uv_inv inv b u1" using w u close_inv by (rule on_base_keeps)
  moreover have "q_end (uw_qfiles u1 ! j) < length (uw_once u1)"
    using on_base_once [OF w] u j by (simp add: uv_inv_def)
  ultimately show ?thesis using r w by (auto simp: quotaFile_close_def uv_inv_intros)
qed

lemma quotaFile_simps:
  "f_readAt (quotaFile j f) = f_readAt (lift_file f)" "f_sync (quotaFile j f) = f_sync (lift_file f)"
  by (simp_all add: quotaFile_def)

lemma quotaFile_contract: "file_contract (uv_inv inv b) (quotaFile j f)"
proof
  fix u n off p bs m e u' and r :: "bytes \<times> goerr option" and r' :: "nat \<times> goerr option" and wh s c sz
  assume u: "uv_inv inv b u"
  note L = lift_file_contract [of b]
  note guard = quotaFile_def guard_q_def
  show "f_read (quotaFile j f) n u = ((bs, e), u') \<Longrightarrow> length bs \<le> n"
    "f_read (quotaFile j f) n u = (r, u') \<Longrightarrow> uv_inv inv b u'"
    using quotaFile_read_contract [OF u] u by (cases r; auto simp: guard split: if_splits)+
  show "f_readAt (quotaFile j f) n off u = ((bs, e), u') \<Longrightarrow> length bs \<le> n"
    "f_readAt (quotaFile j f) n off u = (r, u') \<Longrightarrow> uv_inv inv b u'"
    unfolding quotaFile_simps using file_contract.readAt_len [OF L u] file_contract.readAt_inv [OF L u] by blast+
  show "f_write (quotaFile j f) p u = ((m, e), u') \<Longrightarrow> m \<le> length p"
    "f_write (quotaFile j f) p u = (r', u') \<Longrightarrow> uv_inv inv b u'"
    using quotaFile_write_contract [OF u] u by (cases r'; auto simp: guard split: if_splits)+
  show "f_writeAt (quotaFile j f) p off u = ((m, e), u') \<Longrightarrow> m \<le> length p"
    "f_writeAt (quotaFile j f) p off u = (r', u') \<Longrightarrow> uv_inv inv b u'"
    using quotaFile_writeAt_contract [OF u] u by (cases r'; auto simp: guard split: if_splits)+
  show "f_seek (quotaFile j f) off wh u = (s, u') \<Longrightarrow> uv_inv inv b u'"
    using quotaFile_seek_inv [OF u] u by (auto simp: guard split: if_splits)
  show "f_close (quotaFile j f) u = (c, u') \<Longrightarrow> uv_inv inv b u'"
    using quotaFile_close_inv [OF u] u by (auto simp: guard split: if_splits)
  show "f_sync (quotaFile j f) u = (c, u') \<Longrightarrow> uv_inv inv b u'"
    unfolding quotaFile_simps using file_contract.sync_inv [OF L u] by blast
  show "f_truncate (quotaFile j f) sz u = (c, u') \<Longrightarrow> uv_inv inv b u'"
    using quotaFile_truncate_inv [OF u] u by (auto simp: guard split: if_splits)
qed

end


section \<open>The session file system keeps the contract\<close>

lemma lookup_loop_backend:
  "lookup_loop ms p = Inr (bk, rel, ro) \<Longrightarrow> \<exists>m\<in>set ms. bk = me_backend m \<and> ro = me_readOnly m"
  by (induction ms) (auto simp: Let_def split: if_splits)

lemma uv_lookup_backend: "uv_lookup v p = Inr (bk, rel, ro) \<Longrightarrow> \<exists>m\<in>set (uv_mounts v). bk = me_backend m \<and> ro = me_readOnly m"
  by (auto simp: uv_lookup_def Lookup_def dest: lookup_loop_backend split: sum.splits)

lemma open_reserve_inv:
  assumes u: "uv_inv I b u" and r: "open_reserve bk rel fl u = (x, u')"
  shows "uv_inv I b u' \<and> uw_once u' = uw_once u \<and> uw_base u' = uw_base u"
proof -
  have "uv_inv I b (u\<lparr>uw_quota := snd (OnFileCreated (uw_quota u))\<rparr>)"
    using u by (rule uv_inv_cong [rotated 6]) simp_all
  then show ?thesis
    using r u by (cases "OnFileCreated (uw_quota u)") (auto simp: open_reserve_def split: if_splits sum.splits option.splits)
qed

lemma new_qfile_inv:
  assumes u: "uv_inv I b u" and c: "c < length (uw_once u)" and r: "new_qfile v fl f c u = (qf, u')"
  shows "uv_inv I b u' \<and> (\<exists>j. qf = quotaFile j f)"
proof -
  have "chg_inv b u' = chg_inv b u" using r by (intro chg_inv_cong) (auto simp: new_qfile_def Let_def)
  then show ?thesis using u c r by (auto simp: new_qfile_def Let_def uv_inv_def)
qed

text \<open>A session over backends that keep an invariant.\<close>

locale uv_backends =
  fixes inv :: "'w \<Rightarrow> bool" and v :: "'w uvfs" and b :: int
  assumes backends: "m \<in> set (uv_mounts v) \<Longrightarrow> fs_contract inv (me_backend m)"
begin

lemma lookup_contract: "uv_lookup v p = Inr (bk, rel, ro) \<Longrightarrow> fs_contract inv bk"
  using uv_lookup_backend backends by blast

lemma maybe_throttled:
  "file_contract inv f \<Longrightarrow> file_contract inv (if uv_limiters v \<noteq> [] then throttledFile (uv_fuel v) (uv_limiters v) f else f)"
  by (simp add: file_contract.throttledFile_contract)

lemma open_quota_contract:
  assumes bk: "fs_contract inv bk" and u: "uv_inv inv b u" and r: "open_quota v bk rel fl pm u = (x, u')"
  shows "uv_inv inv b u' \<and> (\<forall>f. x = Inr f \<longrightarrow> file_contract (uv_inv inv b) f)"
proof -
  obtain c u1 where 1: "beginQuotaChange u = (c, u1)" by (metis prod.exhaust)
  obtain y u2 where 2: "open_reserve bk rel fl u1 = (y, u2)" by (metis prod.exhaust)
  obtain z u3 where 3: "on_base (fs_open bk rel fl pm) u2 = (z, u3)" by (metis prod.exhaust)
  have I1: "uv_inv inv b u1" "c < length (uw_once u1)" using uv_inv_begin [OF u 1] by simp_all
  have I2: "uv_inv inv b u2" "c < length (uw_once u2)" using open_reserve_inv [OF I1(1) 2] I1(2) by simp_all
  have I3: "uv_inv inv b u3" "c < length (uw_once u3)"
    using on_base_keeps [OF 3 I2(1) fs_contract.open_inv [OF bk]] on_base_once [OF 3] I2(2) by auto
  show ?thesis
  proof (cases y)
    case (Inl e)
    then show ?thesis using r 1 2 I2 by (auto simp: open_quota_def uv_inv_intros)
  next
    case (Inr p)
    obtain res tb where p: "p = (res, tb)" by (cases p)
    show ?thesis
    proof (cases z)
      case (Inl e)
      then show ?thesis using r 1 2 3 Inr p I3 \<open>y = Inr p\<close> by (auto simp: open_quota_def uv_inv_intros)
    next
      case z: (Inr f)
      let ?f = "if uv_limiters v \<noteq> [] then throttledFile (uv_fuel v) (uv_limiters v) f else f"
      let ?u4 = "if tb > 0 then q_onShrink tb u3 else u3"
      obtain qf u5 where 5: "new_qfile v fl ?f c ?u4 = (qf, u5)" by (metis prod.exhaust)
      have "uv_inv inv b ?u4" "c < length (uw_once ?u4)" using I3 by (auto simp: uv_inv_intros)
      from new_qfile_inv [OF this 5] obtain j where j: "uv_inv inv b u5" "qf = quotaFile j ?f" by blast
      have "fs_open bk rel fl pm (uw_base u2) = (Inr f, uw_base u3)"
        using 3 z by (auto simp: on_base_def split: prod.splits)
      then have "file_contract inv f" using fs_contract.open_file [OF bk, of "uw_base u2"] I2(1) by (simp add: uv_inv_def)
      then have "file_contract (uv_inv inv b) qf"
        unfolding j(2) by (intro file_contract.quotaFile_contract maybe_throttled)
      then show ?thesis using r 1 2 3 Inr p z 5 j(1) by (auto simp: open_quota_def Let_def)
    qed
  qed
qed

lemma uv_open_contract:
  assumes u: "uv_inv inv b u" and r: "uv_open v p fl pm u = (x, u')"
  shows "uv_inv inv b u' \<and> (\<forall>f. x = Inr f \<longrightarrow> file_contract (uv_inv inv b) f)"
proof (cases "uv_lookup v p")
  case (Inl e)
  then show ?thesis using r u by (auto simp: uv_open_def)
next
  case (Inr y)
  obtain bk rel ro where y: "y = (bk, rel, ro)" by (metis prod.exhaust)
  have bk: "fs_contract inv bk" using Inr y lookup_contract by blast
  obtain z u1 where 1: "on_base (fs_open bk rel fl pm) u = (z, u1)" by (metis prod.exhaust)
  have I1: "uv_inv inv b u1" using 1 u by (rule on_base_keeps) (rule fs_contract.open_inv [OF bk])
  have "file_contract (uv_inv inv b) (lift_file (if uv_limiters v \<noteq> [] then throttledFile (uv_fuel v) (uv_limiters v) f else f))"
    if "z = Inr f" for f
  proof -
    have "fs_open bk rel fl pm (uw_base u) = (Inr f, uw_base u1)"
      using 1 that by (auto simp: on_base_def split: prod.splits)
    then have "file_contract inv f" using fs_contract.open_file [OF bk, of "uw_base u"] u by (simp add: uv_inv_def)
    then show ?thesis by (intro file_contract.lift_file_contract maybe_throttled)
  qed
  then show ?thesis
    using r u Inr y 1 I1 open_quota_contract [OF bk u]
    by (auto simp: uv_open_def split: if_splits sum.splits)
qed

lemma uv_modify_inv:
  assumes u: "uv_inv inv b u" and r: "uv_modify call v p u = (x, u')"
    and call: "\<And>bk rel w y w'. fs_contract inv bk \<Longrightarrow> inv w \<Longrightarrow> call bk rel w = (y, w') \<Longrightarrow> inv w'"
  shows "uv_inv inv b u'"
  using r u by (auto simp: uv_modify_def split: sum.splits if_splits
      elim!: on_base_keeps dest: call [OF lookup_contract])

lemma uv_remove_with_inv:
  assumes u: "uv_inv inv b u" and r: "uv_remove_with rm v p u = (x, u')"
    and call: "\<And>bk rel w y w'. fs_contract inv bk \<Longrightarrow> inv w \<Longrightarrow> rm bk rel w = (y, w') \<Longrightarrow> inv w'"
  shows "uv_inv inv b u'"
proof (cases "pm_Delete (uv_perms v) \<and> (\<exists>bk rel. uv_lookup v p = Inr (bk, rel, False)) \<and> uw_quota u \<noteq> None")
  case False
  then show ?thesis
    using r u by (auto simp: uv_remove_with_def split: sum.splits if_splits
        elim!: on_base_keeps dest: call [OF lookup_contract])
next
  case True
  then obtain bk rel where bk: "uv_lookup v p = Inr (bk, rel, False)" by blast
  obtain c u1 where 1: "beginQuotaChange u = (c, u1)" by (metis prod.exhaust)
  obtain z u2 where 2: "on_base (rm bk rel) u1 = (z, u2)" by (metis prod.exhaust)
  have I1: "uv_inv inv b u1" "c < length (uw_once u1)" using uv_inv_begin [OF u 1] by simp_all
  have I2: "uv_inv inv b u2" "c < length (uw_once u2)"
    using on_base_keeps [OF 2 I1(1) call [OF lookup_contract [OF bk]]] on_base_once [OF 2] I1(2) by auto
  show ?thesis
    using r True bk 1 2 I1 I2
    by (auto simp: uv_remove_with_def uv_inv_intros split: if_splits option.splits prod.splits)
qed

lemma uv_rename_inv:
  assumes u: "uv_inv inv b u" and r: "uv_rename v p q u = (x, u')"
  shows "uv_inv inv b u'"
proof (cases "\<exists>bk rel bk' rel'. uv_lookup v p = Inr (bk, rel, False) \<and> uv_lookup v q = Inr (bk', rel', False)")
  case False
  then show ?thesis using r u by (auto simp: uv_rename_def split: sum.splits if_splits)
next
  case True
  then obtain bk rel bk' rel' where bk: "uv_lookup v p = Inr (bk, rel, False)" "uv_lookup v q = Inr (bk', rel', False)"
    by blast
  note ri = fs_contract.rename_inv [OF lookup_contract [OF bk(1)]]
  obtain c u1 where 1: "beginQuotaChange u = (c, u1)" by (metis prod.exhaust)
  obtain z u2 where 2: "on_base (fs_rename bk rel rel') u1 = (z, u2)" by (metis prod.exhaust)
  have I1: "uv_inv inv b u1" "c < length (uw_once u1)" using uv_inv_begin [OF u 1] by simp_all
  have I2: "uv_inv inv b u2" "c < length (uw_once u2)"
    using on_base_keeps [OF 2 I1(1) ri] on_base_once [OF 2] I1(2) by auto
  show ?thesis
    using r u bk 1 2 I1 I2
    by (auto simp: uv_rename_def uv_inv_intros Let_def split: if_splits option.splits
        elim!: on_base_keeps intro: ri)
qed

end

sublocale uv_backends \<subseteq> fs_contract "uv_inv inv b" "uv_fs v"
proof (rule fs_contract.intro)
  fix u p q fl pm f u' x c uid gid t1 t2
  assume u: "uv_inv inv b u"
  show "fs_open (uv_fs v) p fl pm u = (x, u') \<Longrightarrow> uv_inv inv b u'"
    "fs_open (uv_fs v) p fl pm u = (Inr f, u') \<Longrightarrow> file_contract (uv_inv inv b) f"
    using uv_open_contract [OF u] by (auto simp: uv_fs_def)
  show "fs_rename (uv_fs v) p q u = (c, u') \<Longrightarrow> uv_inv inv b u'"
    using uv_rename_inv [OF u] by (simp add: uv_fs_def)
  show "fs_remove (uv_fs v) p u = (c, u') \<Longrightarrow> uv_inv inv b u'"
    using u by (auto simp: uv_fs_def uv_remove_def split: if_splits elim!: uv_remove_with_inv [OF u] dest: fs_contract.remove_inv)
  show "fs_removeAll (uv_fs v) p u = (c, u') \<Longrightarrow> uv_inv inv b u'"
    using u by (auto simp: uv_fs_def uv_removeAll_def split: if_splits elim!: uv_remove_with_inv [OF u] dest: fs_contract.removeAll_inv)
  show "fs_mkdir (uv_fs v) p pm u = (c, u') \<Longrightarrow> uv_inv inv b u'"
    using u by (auto simp: uv_fs_def uv_mkdir_def split: if_splits elim!: uv_modify_inv [OF u] dest: fs_contract.mkdir_inv)
  show "fs_mkdirAll (uv_fs v) p pm u = (c, u') \<Longrightarrow> uv_inv inv b u'"
    using u by (auto simp: uv_fs_def uv_mkdirAll_def split: if_splits elim!: uv_modify_inv [OF u] dest: fs_contract.mkdirAll_inv)
  show "fs_symlink (uv_fs v) p q u = (c, u') \<Longrightarrow> uv_inv inv b u'"
    using u by (auto simp: uv_fs_def uv_symlink_def split: if_splits elim!: uv_modify_inv [OF u] dest: fs_contract.symlink_inv)
  show "fs_chmod (uv_fs v) p pm u = (c, u') \<Longrightarrow> uv_inv inv b u'"
    using u by (auto simp: uv_fs_def uv_chmod_def split: if_splits elim!: uv_modify_inv [OF u] dest: fs_contract.chmod_inv)
  show "fs_chown (uv_fs v) p uid gid u = (c, u') \<Longrightarrow> uv_inv inv b u'"
    using u by (auto simp: uv_fs_def uv_chown_def split: if_splits elim!: uv_modify_inv [OF u] dest: fs_contract.chown_inv)
  show "fs_chtimes (uv_fs v) p t1 t2 u = (c, u') \<Longrightarrow> uv_inv inv b u'"
    using u by (auto simp: uv_fs_def uv_chtimes_def split: if_splits elim!: uv_modify_inv [OF u] dest: fs_contract.chtimes_inv)
qed


section \<open>Release gives every change back\<close>

definition has_room :: "int \<Rightarrow> 'w uworld \<Rightarrow> bool" where
  "has_room b u \<longleftrightarrow> 0 \<le> b \<and> b + int (length (uw_once u)) \<le> max_int64"

lemma chg_invD:
  assumes "chg_inv b u" "has_room b u"
  shows "map_of (uw_changes u) k = Some i \<longleftrightarrow> i < length (uw_once u) \<and> uw_once u ! i = (k, False)"
    "uw_quota u = Some t \<Longrightarrow> t_inflight t = b + int (length (uw_changes u))"
  using assms by (auto simp: chg_inv_def has_room_def)

lemma fold_endChange_inv:
  "chg_inv b u \<Longrightarrow> \<forall>i\<in>set is. i < length (uw_once u) \<Longrightarrow>
     chg_inv b (fold endChange is u) \<and> length (uw_once (fold endChange is u)) = length (uw_once u)"
  by (induction "is" arbitrary: u) (auto simp: endChange_inv)

lemma endChange_fired:
  "snd (uw_once u ! i) \<Longrightarrow> snd (uw_once (endChange j u) ! i)"
  by (cases "j < length (uw_once u)"; cases "i = j") (auto simp: endChange_def list_update_beyond split: prod.splits)

lemma endChange_fires: "i < length (uw_once u) \<Longrightarrow> snd (uw_once (endChange i u) ! i)"
  by (auto simp: endChange_def split: prod.splits)

lemma fold_endChange_fires:
  "\<forall>i\<in>set is. i < length (uw_once u) \<Longrightarrow>
     (i \<in> set is \<or> snd (uw_once u ! i) \<longrightarrow> snd (uw_once (fold endChange is u) ! i))"
  by (induction "is" arbitrary: u) (auto simp: endChange_fired endChange_fires)

lemma changes_shrink: "set (uw_changes (fold endChange is u)) \<subseteq> set (uw_changes u)"
proof (induction "is" arbitrary: u)
  case (Cons i "is")
  have "set (uw_changes (endChange i u)) \<subseteq> set (uw_changes u)"
    by (auto simp: endChange_def delete_filter split: prod.splits)
  then show ?case using Cons [of "endChange i u"] by simp
qed simp

lemma Release_correct:
  assumes c: "chg_inv b u" and room: "has_room b u"
  shows "uw_changes (Release u) = [] \<and> chg_inv b (Release u)
    \<and> (\<forall>t. uw_quota (Release u) = Some t \<longrightarrow> t_inflight t = b) \<and> Release (Release u) = Release u"
proof -
  let ?is = "map snd (uw_changes u)"
  have dist: "distinct (map fst (uw_changes u))" using c room by (simp add: chg_inv_def has_room_def)
  have ix: "\<forall>i\<in>set ?is. i < length (uw_once u)"
  proof
    fix i assume "i \<in> set ?is"
    then obtain k where "(k, i) \<in> set (uw_changes u)" by auto
    then show "i < length (uw_once u)" using chg_invD(1) [OF c room] map_of_is_SomeI [OF dist] by blast
  qed
  have R: "chg_inv b (Release u)" "length (uw_once (Release u)) = length (uw_once u)"
    using fold_endChange_inv [OF c ix] by (simp_all add: Release_def)
  then have room': "has_room b (Release u)" using room by (simp add: has_room_def)
  have empty: "uw_changes (Release u) = []"
  proof (rule ccontr)
    assume "uw_changes (Release u) \<noteq> []"
    then obtain k i where ki: "(k, i) \<in> set (uw_changes (Release u))"
      by (metis list.set_intros(1) neq_Nil_conv surj_pair)
    moreover have "distinct (map fst (uw_changes (Release u)))" using R(1) room' by (simp add: chg_inv_def has_room_def)
    ultimately have "\<not> snd (uw_once (Release u) ! i)"
      using chg_invD(1) [OF R(1) room'] map_of_is_SomeI by fastforce
    moreover have "i \<in> set ?is" using ki changes_shrink [of ?is u] by (force simp: Release_def)
    ultimately show False using fold_endChange_fires [OF ix, of i] by (simp add: Release_def)
  qed
  have "Release (Release u) = Release u" by (simp add: Release_def [of "Release u"] empty)
  then show ?thesis using R empty chg_invD(2) [OF R(1) room'] by simp
qed

section \<open>Everything a session can do\<close>

text \<open>
  The states a session reaches from \<open>u0\<close> by calls on its file system and on the files it was given,
  in any order; \<open>F\<close> lists those files.
\<close>

inductive session :: "'w uvfs \<Rightarrow> 'w uworld \<Rightarrow> 'w uworld \<Rightarrow> 'w uworld vfile list \<Rightarrow> bool"
  for v :: "'w uvfs" and u0 :: "'w uworld" where
  s_start: "session v u0 u0 []"
| s_open: "session v u0 u F \<Longrightarrow> fs_open (uv_fs v) p fl pm u = (Inr f, u') \<Longrightarrow> session v u0 u' (f # F)"
| s_open_err: "session v u0 u F \<Longrightarrow> fs_open (uv_fs v) p fl pm u = (Inl e, u') \<Longrightarrow> session v u0 u' F"
| s_rename: "session v u0 u F \<Longrightarrow> fs_rename (uv_fs v) p q u = (c, u') \<Longrightarrow> session v u0 u' F"
| s_remove: "session v u0 u F \<Longrightarrow> fs_remove (uv_fs v) p u = (c, u') \<Longrightarrow> session v u0 u' F"
| s_removeAll: "session v u0 u F \<Longrightarrow> fs_removeAll (uv_fs v) p u = (c, u') \<Longrightarrow> session v u0 u' F"
| s_mkdir: "session v u0 u F \<Longrightarrow> fs_mkdir (uv_fs v) p pm u = (c, u') \<Longrightarrow> session v u0 u' F"
| s_mkdirAll: "session v u0 u F \<Longrightarrow> fs_mkdirAll (uv_fs v) p pm u = (c, u') \<Longrightarrow> session v u0 u' F"
| s_symlink: "session v u0 u F \<Longrightarrow> fs_symlink (uv_fs v) p q u = (c, u') \<Longrightarrow> session v u0 u' F"
| s_chmod: "session v u0 u F \<Longrightarrow> fs_chmod (uv_fs v) p pm u = (c, u') \<Longrightarrow> session v u0 u' F"
| s_chown: "session v u0 u F \<Longrightarrow> fs_chown (uv_fs v) p x y u = (c, u') \<Longrightarrow> session v u0 u' F"
| s_chtimes: "session v u0 u F \<Longrightarrow> fs_chtimes (uv_fs v) p x y u = (c, u') \<Longrightarrow> session v u0 u' F"
| s_read: "session v u0 u F \<Longrightarrow> f \<in> set F \<Longrightarrow> f_read f n u = (r, u') \<Longrightarrow> session v u0 u' F"
| s_readAt: "session v u0 u F \<Longrightarrow> f \<in> set F \<Longrightarrow> f_readAt f n off u = (r, u') \<Longrightarrow> session v u0 u' F"
| s_write: "session v u0 u F \<Longrightarrow> f \<in> set F \<Longrightarrow> f_write f bs u = (w, u') \<Longrightarrow> session v u0 u' F"
| s_writeAt: "session v u0 u F \<Longrightarrow> f \<in> set F \<Longrightarrow> f_writeAt f bs off u = (w, u') \<Longrightarrow> session v u0 u' F"
| s_seek: "session v u0 u F \<Longrightarrow> f \<in> set F \<Longrightarrow> f_seek f off wh u = (s, u') \<Longrightarrow> session v u0 u' F"
| s_truncate: "session v u0 u F \<Longrightarrow> f \<in> set F \<Longrightarrow> f_truncate f sz u = (c, u') \<Longrightarrow> session v u0 u' F"
| s_close: "session v u0 u F \<Longrightarrow> f \<in> set F \<Longrightarrow> f_close f u = (c, u') \<Longrightarrow> session v u0 u' F"
| s_sync: "session v u0 u F \<Longrightarrow> f \<in> set F \<Longrightarrow> f_sync f u = (c, u') \<Longrightarrow> session v u0 u' F"

context uv_backends
begin

lemma session_inv:
  "session v u0 u F \<Longrightarrow> uv_inv inv b u0 \<Longrightarrow> uv_inv inv b u \<and> (\<forall>f\<in>set F. file_contract (uv_inv inv b) f)"
proof (induction rule: session.induct)
  case (s_open u F p fl pm f u')
  then show ?case using open_inv open_file by auto
qed (auto dest: open_inv rename_inv remove_inv removeAll_inv mkdir_inv mkdirAll_inv symlink_inv
    chmod_inv chown_inv chtimes_inv
    dest: file_contract.read_inv file_contract.readAt_inv file_contract.write_inv file_contract.writeAt_inv
      file_contract.seek_inv file_contract.truncate_inv file_contract.close_inv file_contract.sync_inv)

lemma session_released:
  assumes "session v u0 u F" "uv_inv inv b u0" "has_room b u"
  shows "uw_changes (Release u) = [] \<and> (\<forall>t. uw_quota (Release u) = Some t \<longrightarrow> t_inflight t = b)"
  using session_inv [OF assms(1,2)] Release_correct [OF _ assms(3)] by (simp add: uv_inv_def)

end

definition fresh_session :: "'w \<Rightarrow> tracker option \<Rightarrow> int \<Rightarrow> 'w uworld" where
  "fresh_session w t now =
     \<lparr>uw_base = w, uw_quota = t, uw_changes = [], uw_nextChange = 0, uw_once = [], uw_qfiles = [], uw_now = now\<rparr>"

lemma uv_inv_fresh: "I w \<Longrightarrow> uv_inv I b (fresh_session w (Some t) now) \<longleftrightarrow> (0 \<le> b \<and> b \<le> max_int64 \<longrightarrow> t_inflight t = b)"
  by (auto simp: uv_inv_def chg_inv_def fresh_session_def)

text \<open>A session whose mounts are all in-memory backends.\<close>

definition mem_uvfs :: "(string \<times> bool) list \<Rightarrow> userPermissions \<Rightarrow> nat list \<Rightarrow> nat \<Rightarrow> mem uvfs" where
  "mem_uvfs ps perms lims k =
     \<lparr>uv_mounts = mounted (map (\<lambda>(p, ro). (p, mem_fs, ro)) ps), uv_perms = perms, uv_limiters = lims, uv_fuel = k\<rparr>"

lemma mounted_backends:
  "m \<in> set (mounted (map (\<lambda>(p, ro). (p, fs, ro)) ps)) \<Longrightarrow> me_backend m = fs"
proof -
  have "\<forall>m\<in>set mt. me_backend m = fs \<Longrightarrow>
     \<forall>m\<in>set (foldl (\<lambda>mt (p, b, ro). Mount mt p b ro) mt (map (\<lambda>(p, ro). (p, fs, ro)) ps)). me_backend m = fs" for mt
  proof (induction ps arbitrary: mt)
    case (Cons x ps)
    have "\<forall>m\<in>set (Mount mt (fst x) fs (snd x)). me_backend m = fs"
      using Cons.prems by (auto simp: Mount_def)
    then show ?case using Cons.IH by (simp add: case_prod_unfold)
  qed simp
  from this [of NewMountTable]
  have "\<forall>m\<in>set (mounted (map (\<lambda>(p, ro). (p, fs, ro)) ps)). me_backend m = fs"
    unfolding mounted_def by (simp add: NewMountTable_def)
  then show "m \<in> set (mounted (map (\<lambda>(p, ro). (p, fs, ro)) ps)) \<Longrightarrow> me_backend m = fs" by blast
qed

interpretation uvmem: uv_backends mem_wf "mem_uvfs ps perms lims k" b for ps perms lims k b
proof (rule uv_backends.intro)
  fix m assume "m \<in> set (uv_mounts (mem_uvfs ps perms lims k))"
  then have "me_backend m = mem_fs" using mounted_backends by (auto simp: mem_uvfs_def)
  then show "fs_contract mem_wf (me_backend m)" using memfs.fs_contract_axioms by simp
qed

text \<open>C4. No session leaks a quota change: after any sequence of calls on the session and its files, with
  whatever handles left open, \<^verbatim>\<open>Release\<close> ends every change exactly once, so the tracker's number of
  changes in progress is again what it was before the session, and the storage is well-formed.\<close>

theorem session_release_balanced:
  assumes "session (mem_uvfs ps perms lims k) (fresh_session m (Some t) now) u F" and "mem_wf m"
    and "0 \<le> t_inflight t" and "t_inflight t + int (length (uw_once u)) \<le> max_int64"
  shows "uw_changes (Release u) = [] \<and> mem_wf (uw_base (Release u))
    \<and> (\<forall>t'. uw_quota (Release u) = Some t' \<longrightarrow> t_inflight t' = t_inflight t)"
proof -
  have "uv_inv mem_wf (t_inflight t) (fresh_session m (Some t) now)" using assms by (simp add: uv_inv_fresh)
  moreover have "has_room (t_inflight t) u" using assms by (simp add: has_room_def)
  moreover have "uw_base (Release u) = uw_base u"
  proof -
    have "uw_base (fold endChange is u) = uw_base u" for "is" and u :: "mem uworld" by (induction "is" arbitrary: u) simp_all
    then show ?thesis by (simp add: Release_def)
  qed
  ultimately show ?thesis
    using uvmem.session_released [OF assms(1)] uvmem.session_inv [OF assms(1)] by (auto simp: uv_inv_def)
qed

end
