(* ===== verification/User_Vfs_Props.thy ===== *)
theory User_Vfs_Props
  imports User_Vfs_Contract
begin

text \<open>
  What a session guarantees: confined backend paths, permissions and read-only mounts, quota
  accounting of writes and removals, capped free space, transparent rate limiting; and two
  behaviours the code does not intend, the extension check and \<^verbatim>\<open>WriteAt\<close>.
\<close>


definition all_perms :: userPermissions where
  "all_perms = default_permissions\<lparr>pm_Chmod := True\<rparr>"

definition wit_tracker :: tracker where
  "wit_tracker = zero_tracker\<lparr>t_maxStorage := 100, t_maxFiles := 10, t_usedBytes := 2, t_usedFiles := 1, t_measured := True\<rparr>"

definition wit_uvfs :: "mem uvfs" where
  "wit_uvfs = mem_uvfs [(''/'', False), (''/ro'', True)] all_perms [] 10"

definition wit_session :: "mem uworld" where
  "wit_session = fresh_session wit_mem (Some wit_tracker) 0"

theorem session_release_balanced_witness:
  "\<exists>u F. session wit_uvfs wit_session u F \<and> length (uw_changes u) = 1 \<and> uw_changes (Release u) = []"
proof -
  let ?o = "fs_open (uv_fs wit_uvfs) ''/new'' upload_flags 0 wit_session"
  have o: "\<not> isl (fst ?o)" "length (uw_changes (snd ?o)) = 1" "length (uw_once (snd ?o)) = 1" by code_simp+
  obtain f u where f: "?o = (Inr f, u)" using o(1) by (rule not_islE)
  have s: "session (mem_uvfs [(''/'', False), (''/ro'', True)] all_perms [] 10) (fresh_session wit_mem (Some wit_tracker) 0) u [f]"
    using s_open [OF s_start f] by (simp add: wit_uvfs_def wit_session_def)
  have "uw_changes (Release u) = []"
    using session_release_balanced [OF s wit_mem_wf] o f by (simp add: wit_tracker_def zero_tracker_def max_int64_def)
  then show ?thesis using s o f unfolding wit_uvfs_def wit_session_def by auto
qed

theorem Lookup_longest_prefix_witness:
  "\<exists>m\<in>set (uv_mounts wit_uvfs). me_readOnly m \<and> covers m ''/ro/x''
     \<and> (\<forall>m'\<in>set (uv_mounts wit_uvfs). covers m' ''/ro/x'' \<longrightarrow> depth m' \<le> depth m)"
proof -
  have "(case Lookup (uv_mounts wit_uvfs) ''/ro/x'' of Inr (b, rel, ro) \<Rightarrow> ro | Inl _ \<Rightarrow> False)" by code_simp
  moreover have "uv_mounts wit_uvfs = mounted (map (\<lambda>(p, ro). (p, mem_fs, ro)) [(''/'', False), (''/ro'', True)])"
    by (simp add: wit_uvfs_def mem_uvfs_def)
  ultimately show ?thesis
    using Lookup_longest_prefix [of "map (\<lambda>(p, ro). (p, mem_fs, ro)) [(''/'', False), (''/ro'', True)]" "''/ro/x''"]
    by (auto split: sum.splits)
qed

section \<open>Confinement and access control\<close>






definition no_perms :: userPermissions where
  "no_perms = default_permissions\<lparr>pm_Upload := False, pm_Download := False, pm_Delete := False\<rparr>"


lemma path_ext_slash: "path_ext (p @ ''/'') = []"
  by (simp add: path_ext_def)

lemma clean_comps_trailing: "clean_comps (p @ ''/'') = clean_comps p"
  by (simp add: clean_comps_def split_on_append clean_step_def)

text \<open>The extension lists can be evaded: with a slash appended to the name the check passes for every
  configuration, and the name still resolves to the same backend path.\<close>

theorem trailing_slash_evades_extension_check:
  "checkExtension (p @ ''/'') perms = None \<and> uv_lookup v (p @ ''/'') = uv_lookup v p"
  by (simp add: checkExtension_def path_ext_slash ToLower_def uv_lookup_def Resolve_eq clean_comps_trailing)

section \<open>Quota files\<close>

lemma projectedGrowth_eq:
  assumes "0 \<le> off" "0 \<le> sz" "0 \<le> len" "off + len \<le> max_int64"
  shows "projectedGrowth sz off len = max 0 (off + len - sz)"
proof -
  have "wrap64 (off + len) = off + len" using assms by (intro wrap64_nonneg_sum) auto
  moreover have "wrap64 (off + len - sz) = off + len - sz" if "off + len > sz"
    using assms that by (intro wrap64_diff) auto
  ultimately show ?thesis by (auto simp: projectedGrowth_def Let_def)
qed

text \<open>Accounting after a backend write of \<open>n\<close> bytes, when \<open>g\<close> bytes had been reserved.\<close>

lemma quotaFile_account_eq:
  fixes u :: "'w uworld"
  assumes j: "j < length (uw_qfiles u)" and t: "uw_quota u = Some t"
    and q: "q = uw_qfiles u ! j" and nn: "0 \<le> q_size q" "0 \<le> q_offset q" "q_offset q + int n \<le> max_int64" "q_size q \<le> max_int64"
    and g: "g \<ge> max 0 (q_offset q + int n - q_size q)" "g \<le> t_usedBytes t" "t_usedBytes t \<le> max_int64"
  shows "UsedBytes (uw_quota (quotaFile_account j g n u)) = t_usedBytes t - g + max 0 (q_offset q + int n - q_size q)
    \<and> q_size (uw_qfiles (quotaFile_account j g n u) ! j) = max (q_size q) (q_offset q + int n)
    \<and> q_offset (uw_qfiles (quotaFile_account j g n u) ! j) = q_offset q + int n"
proof -
  have fin: "wrap64 (q_offset q + int n) = q_offset q + int n" using nn by (intro wrap64_nonneg_sum) auto
  define s where "s = max (q_size q) (q_offset q + int n)"
  define a where "a = s - q_size q"
  have a: "0 \<le> a" "a \<le> g" "a = max 0 (q_offset q + int n - q_size q)" "a \<le> max_int64"
    using g nn by (auto simp: a_def s_def)
  have ag: "wrap64 (s - q_size q) = a" unfolding a_def using nn by (intro wrap64_diff) (auto simp: s_def)
  have sz: "(if q_offset q + int n > q_size q then q_offset q + int n else q_size q) = s" by (simp add: s_def max_def)
  have d: "wrap64 (g - a) = g - a" using g a nn by (intro wrap64_diff) auto
  have d2: "max (wrap64 (t_usedBytes t - (g - a))) 0 = t_usedBytes t - (g - a)"
    using g a wrap64_diff [of "t_usedBytes t" "g - a"] by simp
  have "quotaFile_account j g n u =
      (let u' = upd_qfile j (\<lambda>q. q\<lparr>q_size := s, q_offset := q_offset (uw_qfiles u ! j) + int n\<rparr>) u in
       if g > a then q_onShrink (g - a) u' else u')"
    unfolding quotaFile_account_def Let_def q [symmetric] fin sz ag d by simp
  then have "UsedBytes (uw_quota (quotaFile_account j g n u)) = t_usedBytes t - g + a
    \<and> q_size (uw_qfiles (quotaFile_account j g n u) ! j) = s
    \<and> q_offset (uw_qfiles (quotaFile_account j g n u) ! j) = q_offset q + int n"
    using t j d2 a(2) by (cases "g > a") (simp_all add: Let_def q_onShrink_def upd_qfile_def q)
  then show ?thesis using a(3) by (simp add: s_def)
qed



definition wit_q :: "mem uworld" where
  "wit_q = wit_session\<lparr>uw_qfiles := [\<lparr>q_size = 2, q_offset = 2, q_maxFileSize = 0, q_end = 0\<rparr>]\<rparr>"

text \<open>A handle on \<^verbatim>\<open>/a/b/f\<close> opened for appending, whose backend offset is at the end.\<close>

definition wit_append :: mem where
  "wit_append = snd (mem_open ''/a/b/f'' (O_RDWR OR O_APPEND) 0 wit_mem)"


text \<open>\<^verbatim>\<open>WriteAt\<close> on a quota file does not write at the given offset: a successful call leaves the backend
  as a plain \<^verbatim>\<open>Write\<close> at the handle's own position does, whatever the offset was.\<close>

theorem quotaFile_writeAt_ignores_offset:
  assumes "quotaFile_writeAt j f p off u = ((n, None), u')"
  shows "f_write f p (uw_base u) = ((n, None), uw_base u')"
proof -
  have sh: "uw_base (quotaFile_account j g n x) = uw_base x" for g n and x :: "'a uworld"
    by (simp add: quotaFile_account_def Let_def q_onShrink_def upd_qfile_def)
  have up: "uw_base (upd_qfile j g x) = uw_base x" for g and x :: "'a uworld" by (simp add: upd_qfile_def)
  have "quotaFile_write j f p x = ((n, None), y) \<Longrightarrow> f_write f p (uw_base x) = ((n, None), uw_base y)" for x y
    by (auto simp: quotaFile_write_def Let_def on_base_def q_onGrow_def sh split: if_splits prod.splits option.splits)
  then show ?thesis
    using assms by (fastforce simp: quotaFile_writeAt_def Let_def up split: prod.splits if_splits)
qed

theorem quotaFile_writeAt_ignores_offset_witness:
  "f_write (mem_file 1 ''/a/b/f'') ''Z'' wit_append =
     ((1, None), uw_base (snd (quotaFile_writeAt 0 (mem_file 1 ''/a/b/f'') ''Z'' 0 (wit_q\<lparr>uw_base := wit_append\<rparr>))))
   \<and> sl_vis (mf_data (files (uw_base (snd (quotaFile_writeAt 0 (mem_file 1 ''/a/b/f'') ''Z'' 0 (wit_q\<lparr>uw_base := wit_append\<rparr>)))) ! 1)) = ''xyZ''"
proof -
  let ?x = "quotaFile_writeAt 0 (mem_file 1 ''/a/b/f'') ''Z'' 0 (wit_q\<lparr>uw_base := wit_append\<rparr>)"
  have x: "fst ?x = (1, None)" "sl_vis (mf_data (files (uw_base (snd ?x)) ! 1)) = ''xyZ''" by code_simp+
  then have "?x = ((1, None), snd ?x)" by (metis prod.collapse)
  from quotaFile_writeAt_ignores_offset [OF this] x(2) show ?thesis by simp
qed

section \<open>Free space\<close>

lemma capCount_le: "known \<Longrightarrow> capCount x y known \<le> x" "capCount x y known \<le> y"
  by (simp_all add: capCount_def)

text \<open>Free-space figures respect the quota: the reported free, available and total space never exceed
  what the quota leaves, the block size is never zero, and a backend that reports totals is only
  ever capped downwards.\<close>

theorem capStatVFS_within_quota:
  assumes "0 < maxBytes" "maxBytes \<le> max_int64" "0 \<le> usedBytes" "usedBytes \<le> max_int64"
  shows "let st' = capStatVFS st (usedBytes, maxBytes, usedFiles, maxFiles) in
    BlockSize st' \<noteq> 0
    \<and> unat (FreeBlocks st') * unat (BlockSize st') \<le> nat (maxBytes - usedBytes)
    \<and> unat (AvailBlocks st') * unat (BlockSize st') \<le> nat (maxBytes - usedBytes)
    \<and> unat (TotalBlocks st') * unat (BlockSize st') \<le> nat maxBytes
    \<and> (TotalBlocks st > 0 \<longrightarrow> FreeBlocks st' \<le> FreeBlocks st \<and> TotalBlocks st' \<le> TotalBlocks st)"
proof -
  define bs where "bs = (if BlockSize st = 0 then 4096 else BlockSize st)"
  define tt where "tt = (word_of_int maxBytes :: 64 word) div bs"
  define fr where "fr = (word_of_int (max (wrap64 (maxBytes - usedBytes)) 0) :: 64 word) div bs"
  have bs: "bs \<noteq> 0" by (simp add: bs_def)
  have st': "BlockSize (capStatVFS st (usedBytes, maxBytes, usedFiles, maxFiles)) = bs"
    "FreeBlocks (capStatVFS st (usedBytes, maxBytes, usedFiles, maxFiles)) = capCount (FreeBlocks st) fr (TotalBlocks st > 0)"
    "AvailBlocks (capStatVFS st (usedBytes, maxBytes, usedFiles, maxFiles)) = capCount (AvailBlocks st) fr (TotalBlocks st > 0)"
    "TotalBlocks (capStatVFS st (usedBytes, maxBytes, usedFiles, maxFiles)) = capCount (TotalBlocks st) tt (TotalBlocks st > 0)"
    using assms by (simp_all add: capStatVFS_def Let_def bs_def fr_def tt_def)
  have un: "unat (word_of_int x :: 64 word) = nat x" if "0 \<le> x" "x \<le> max_int64" for x
    using that by (simp add: unat_eq_nat_uint uint_word_of_int max_int64_def take_bit_eq_mod)
  have "wrap64 (maxBytes - usedBytes) = maxBytes - usedBytes" using assms by (intro wrap64_diff) auto
  then have "unat (word_of_int (max (wrap64 (maxBytes - usedBytes)) 0) :: 64 word) = nat (maxBytes - usedBytes)"
    using assms by (subst un) auto
  then have fr: "unat fr * unat bs \<le> nat (maxBytes - usedBytes)"
    unfolding fr_def unat_div_distrib by (metis div_times_less_eq_dividend)
  have tt: "unat tt * unat bs \<le> nat maxBytes"
    unfolding tt_def unat_div_distrib using un [of maxBytes] assms by (metis div_times_less_eq_dividend less_imp_le)
  have mono: "unat (capCount x y k) * unat bs \<le> unat y * unat bs" for x y k
    using capCount_le(2) [of x y k] by (simp add: word_le_nat_alt)
  show ?thesis
    unfolding Let_def st' using bs order_trans [OF mono fr] order_trans [OF mono tt] capCount_le(1) by blast
qed

theorem capStatVFS_within_quota_witness:
  "unat (FreeBlocks (capStatVFS zero_statvfs (5000, 100000, 1, 10))) * unat (BlockSize (capStatVFS zero_statvfs (5000, 100000, 1, 10))) \<le> 95000"
  using capStatVFS_within_quota [of 100000 5000 zero_statvfs 1 10] by (simp add: max_int64_def Let_def)

section \<open>Rate limiting does not change what is read\<close>

lemma throttled_readAt_loop_mem:
  assumes i: "i < length (files m)" and nc: "\<not> mf_closed (files m ! i)" and off: "0 \<le> off"
  shows "off + int (length acc) + int r \<le> max_int64 \<Longrightarrow> r \<le> k \<Longrightarrow>
    throttled_readAt_loop k ls (mem_file i p) acc r off m =
      (let bs = take r (drop (nat off + length acc) (sl_vis (mf_data (files m ! i)))) in
       ((acc @ bs, if length bs < r then Some EOF else None), m))"
proof (induction k arbitrary: acc r)
  case 0
  then show ?case by simp
next
  case (Suc k)
  let ?d = "sl_vis (mf_data (files m ! i))"
  show ?case
  proof (cases r)
    case 0
    then show ?thesis by simp
  next
    case (Suc r')
    define c where "c = chunk ls r"
    have c: "0 < c" "c \<le> r" using chunk_pos [of r ls] chunk_le [of ls r] Suc by (simp_all add: c_def)
    have cc: "chunk ls (Suc r') = c" using Suc by (simp add: c_def)
    define bs where "bs = take c (drop (nat off + length acc) ?d)"
    have w: "wrap64 (off + int (length acc)) = off + int (length acc)"
      using off Suc.prems by (intro wrap64_nonneg_sum) auto
    have nt: "nat (off + int (length acc)) = nat off + length acc" using off by (simp add: nat_add_distrib)
    have rd: "f_readAt (mem_file i p) c (wrap64 (off + int (length acc))) m =
        ((bs, if length bs < c then Some EOF else None), m)"
      using i nc off c by (auto simp: mem_file_def guarded_def memfile_readAt_def Let_def bs_def w nt)
    show ?thesis
    proof (cases "length bs < c")
      case True
      then have "take r (drop (nat off + length acc) ?d) = bs" "length bs < r"
        using c by (auto simp: bs_def min_def split: if_splits)
      then show ?thesis using rd Suc True by (simp add: cc Let_def)
    next
      case False
      then have lb: "length bs = c" by (simp add: bs_def)
      have split: "take r (drop (nat off + length acc) ?d) = bs @ take (r - c) (drop (nat off + length (acc @ bs)) ?d)"
        using c lb take_add [of c "r - c" "drop (nat off + length acc) ?d"] by (simp add: bs_def ac_simps)
      have "throttled_readAt_loop k ls (mem_file i p) (acc @ bs) (r - c) off m =
        (let bs' = take (r - c) (drop (nat off + length (acc @ bs)) ?d) in
         (((acc @ bs) @ bs', if length bs' < r - c then Some EOF else None), m))"
        using Suc.prems lb c by (intro Suc.IH) auto
      then show ?thesis using rd Suc False lb split c by (auto simp: cc Let_def)
    qed
  qed
qed

text \<open>Rate limiting does not change what is read: reading at an offset in chunks, under any limiters,
  returns the same bytes and the same error as one read of an in-memory file.\<close>

theorem throttled_readAt_transparent:
  assumes "i < length (files m)" and "0 \<le> off" and "off + int n \<le> max_int64" and "0 < n" and "n \<le> k"
  shows "f_readAt (throttledFile k ls (mem_file i p)) n off m = f_readAt (mem_file i p) n off m"
proof (cases "mf_closed (files m ! i)")
  case True
  obtain k' n' where "k = Suc k'" "n = Suc n'" using assms by (cases k; cases n) auto
  then show ?thesis
    using True assms by (simp add: throttledFile_def throttled_readAt_def mem_file_def guarded_def memfile_readAt_def Let_def)
next
  case False
  then show ?thesis
    using throttled_readAt_loop_mem [OF assms(1) False assms(2), of "[]" n k ls p] assms
    by (auto simp: throttledFile_def throttled_readAt_def mem_file_def guarded_def memfile_readAt_def Let_def)
qed

theorem throttled_readAt_transparent_witness:
  "f_readAt (throttledFile 5 [1, 0] (mem_file 1 ''/a/b/f'')) 5 0 wit_append = f_readAt (mem_file 1 ''/a/b/f'') 5 0 wit_append"
proof -
  have "1 < length (files wit_append)" by code_simp
  then show ?thesis by (intro throttled_readAt_transparent) (simp_all add: max_int64_def)
qed


section \<open>Removing keeps the tracker in step with the storage\<close>

lemma measure_names_sum:
  assumes "\<forall>x\<in>set xs. sub (path_join [nm, de_name (g x) w]) = Some ((wrap64 (B x), wrap64 (F x)), None)"
  shows "measure_names sub nm w (map g xs) (wrap64 b) (wrap64 f) =
    Some ((wrap64 (b + sum_list (map B xs)), wrap64 (f + sum_list (map F xs))), None)"
  using assms by (induction xs arbitrary: b f) (simp_all add: wrap64_add add.assoc)

text \<open>The regular files at or below a path.\<close>

definition files_at :: "mem \<Rightarrow> string list \<Rightarrow> string list set" where
  "files_at m cs = (if is_file m cs then {cs} else files_under m cs)"

lemma files_at_child: "files_at m (cs @ [x]) = child_files m cs x"
  by (simp add: files_at_def child_files_def)

lemma measureUsageForQuota_mem:
  assumes wf: "mem_wf m" and small: "\<And>ks. list_all clean_comp ks \<Longrightarrow> ks \<noteq> [] \<Longrightarrow> bytes_at m ks \<le> max_int64"
  shows "list_all clean_comp cs \<Longrightarrow> cs \<noteq> [] \<Longrightarrow> node_at m cs = Some d \<Longrightarrow>
     (\<And>ks. list_all clean_comp ks \<Longrightarrow> node_at m ks \<noteq> None \<Longrightarrow> length ks < length cs + k) \<Longrightarrow>
     measureUsageForQuota k mem_fs (abs_path cs) m =
       Some ((wrap64 (\<Sum>ks\<in>files_at m cs. bytes_at m ks), wrap64 (int (card (files_at m cs)))), None)"
proof (induction k arbitrary: cs d)
  case 0
  then show ?case by fastforce
next
  case (Suc k)
  obtain a where a: "map_of (nodes m) (abs_path cs) = Some a" "d = heap m ! a"
    using Suc.prems(3) by (auto simp: node_at_def)
  have st: "fs_stat mem_fs (abs_path cs) m = Inr (node_info d)"
    using a Suc.prems(1) by (simp add: mem_fs_def mem_stat_def)
  show ?case
  proof (cases "n_isDir d")
    case False
    then have "files_at m cs = {cs}" using Suc.prems(3) by (simp add: files_at_def is_file_def)
    moreover have "bytes_at m cs = int (length (n_data d))" using Suc.prems(3) by (simp add: bytes_at_def)
    moreover have "wrap64 (int (length (n_data d))) = int (length (n_data d))"
      using small [of cs] calculation(2) Suc.prems(1,2) by (intro wrap64_id in_int64_nonneg) auto
    ultimately show ?thesis using st False by (simp add: node_info_def)
  next
    case True
    then have dir: "n_isDir (heap m ! a)" using a(2) by simp
    obtain names where N: "distinct names" "set names = {x. clean_comp x \<and> node_at m (cs @ [x]) \<noteq> None}"
      "fs_readDir mem_fs (abs_path cs) m =
        Inr (map (\<lambda>x. mem_entry (the (map_of (nodes m) (abs_path (cs @ [x]))))) names)"
      using mem_readDir_names [OF wf Suc.prems(1) a(1) dir] .
    let ?B = "\<lambda>x. \<Sum>ks\<in>child_files m cs x. bytes_at m ks"
    let ?F = "\<lambda>x. \<Sum>ks\<in>child_files m cs x. (1 :: int)"
    let ?g = "\<lambda>x. mem_entry (the (map_of (nodes m) (abs_path (cs @ [x]))))"
    have entry: "measureUsageForQuota k mem_fs (path_join [abs_path cs, de_name (?g x) m]) m =
        Some ((wrap64 (?B x), wrap64 (?F x)), None)" if x: "x \<in> set names" for x
    proof -
      obtain e where e: "map_of (nodes m) (abs_path (cs @ [x])) = Some e" and cx: "clean_comp x"
        using x N(2) by (auto simp: node_at_def)
      have "n_name (heap m ! e) = x"
        using map_wfD(3) [OF mem_wfD(2) [OF wf] e] Suc.prems(1) cx by simp
      then have "path_join [abs_path cs, de_name (?g x) m] = abs_path (cs @ [x])"
        using e cx Suc.prems(1) path_join_abs_path [of cs "[x]"] by (simp add: mem_entry_def)
      moreover have "measureUsageForQuota k mem_fs (abs_path (cs @ [x])) m =
         Some ((wrap64 (\<Sum>ks\<in>files_at m (cs @ [x]). bytes_at m ks), wrap64 (int (card (files_at m (cs @ [x]))))), None)"
        using Suc.prems cx e by (intro Suc.IH [of _ "heap m ! e"]) (auto simp: node_at_def)
      ultimately show ?thesis by (simp add: files_at_child)
    qed
    have "measure_names (\<lambda>p. measureUsageForQuota k mem_fs p m) (abs_path cs) m (map ?g names) (wrap64 0) (wrap64 0) =
      Some ((wrap64 (0 + sum_list (map ?B names)), wrap64 (0 + sum_list (map ?F names))), None)"
      using entry by (intro measure_names_sum) blast
    moreover have "files_at m cs = files_under m cs" using Suc.prems(3) True by (simp add: files_at_def is_file_def)
    ultimately show ?thesis
      using st True N(3) sum_files_under [OF wf Suc.prems(1) N(1,2), of "bytes_at m"]
        sum_files_under [OF wf Suc.prems(1) N(1,2), of "\<lambda>_. 1"]
      by (simp add: node_info_def)
  qed
qed

definition total_bytes :: "mem \<Rightarrow> int" where
  "total_bytes m = (\<Sum>ks\<in>files_under m []. bytes_at m ks)"

definition total_files :: "mem \<Rightarrow> int" where
  "total_files m = int (card (files_under m []))"

text \<open>The tracker says exactly what is stored, and the figures fit in \<^verbatim>\<open>int64\<close>.\<close>

definition accurate :: "mem uworld \<Rightarrow> bool" where
  "accurate u \<longleftrightarrow> (\<exists>t. uw_quota u = Some t \<and> t_usedBytes t = total_bytes (uw_base u) \<and> t_usedFiles t = total_files (uw_base u))
     \<and> total_bytes (uw_base u) \<le> max_int64 \<and> total_files (uw_base u) \<le> max_int64"

lemma is_file_no_prefix:
  assumes "mem_wf m" "is_file m cs" "is_file m ks" "prefix cs ks" "list_all clean_comp ks"
  shows "ks = cs"
  using assms node_at_prefix [OF assms(1), of cs] by (fastforce simp: is_file_def elim!: prefixE)

lemma files_split:
  assumes wf: "mem_wf m" and cs: "list_all clean_comp cs" "cs \<noteq> []"
  shows "files_under m [] = {ks \<in> files_under m []. \<not> prefix cs ks} \<union> files_at m cs"
    "{ks \<in> files_under m []. \<not> prefix cs ks} \<inter> files_at m cs = {}"
  using is_file_no_prefix [OF wf] cs
  by (auto simp: files_at_def files_under_def strict_prefix_def is_file_def split: if_splits)

lemma files_at_finite [simp]: "finite (files_at m cs)"
  by (simp add: files_at_def)

lemma bytes_at_nonneg [simp]: "0 \<le> bytes_at m ks"
  by (simp add: bytes_at_def split: option.splits)

lemma total_split:
  assumes wf: "mem_wf m" and cs: "list_all clean_comp cs" "cs \<noteq> []"
  shows "(\<Sum>ks\<in>files_under m []. (g ks :: int)) =
    (\<Sum>ks\<in>{ks \<in> files_under m []. \<not> prefix cs ks}. g ks) + (\<Sum>ks\<in>files_at m cs. g ks)"
  using files_split [OF wf cs]
  by (metis (no_types, lifting) files_at_finite finite_Un finite_files_under sum.union_disjoint)

lemma total_after_removeAll:
  assumes wf: "mem_wf m" and p: "clean_comps p \<noteq> []" and m': "m' = snd (mem_removeAll p m)"
  shows "files_under m' [] = {ks \<in> files_under m []. \<not> prefix (clean_comps p) ks}"
    "ks \<in> files_under m' [] \<Longrightarrow> bytes_at m' ks = bytes_at m ks"
proof -
  have n: "node_at m' ks = (if prefix (clean_comps p) ks then None else node_at m ks)" if "list_all clean_comp ks" for ks
  proof -
    have ne: "abs_path (clean_comps p) \<noteq> ''/''" using p abs_path_inject [of "clean_comps p" "[]"] by simp
    have "abs_path ks = abs_path (clean_comps p) \<or> prefix (abs_path (clean_comps p) @ ''/'') (abs_path ks)
      \<longleftrightarrow> prefix (clean_comps p) ks"
      using match_iff [of "clean_comps p" ks] p that by simp
    then show ?thesis
      using ne by (auto simp: m' node_at_def mem_removeAll_def mem_clean_eq Let_def map_of_filter_key)
  qed
  show "files_under m' [] = {ks \<in> files_under m []. \<not> prefix (clean_comps p) ks}"
    using n by (auto simp: files_under_def is_file_def split: if_splits)
  show "ks \<in> files_under m' [] \<Longrightarrow> bytes_at m' ks = bytes_at m ks"
    using n [of ks] by (auto simp: files_under_def is_file_def bytes_at_def split: if_splits)
qed

text \<open>A session on one writable in-memory backend mounted at the root.\<close>

definition root_uvfs :: "userPermissions \<Rightarrow> nat list \<Rightarrow> nat \<Rightarrow> mem uvfs" where
  "root_uvfs perms lims k = mem_uvfs [(''/'', False)] perms lims k"

lemma root_lookup: "uv_lookup (root_uvfs perms lims k) p = (case Resolve p of Inl e \<Rightarrow> Inl e | Inr r \<Rightarrow> Inr (mem_fs, r, False))"
proof -
  have mt: "uv_mounts (root_uvfs perms lims k) = [\<lparr>me_path = ''/'', me_backend = mem_fs, me_readOnly = False\<rparr>]"
    using path_clean_rooted [of "''/''"] clean_comps_abs_path [of "[]"]
    by (simp add: root_uvfs_def mem_uvfs_def mounted_def Mount_def NewMountTable_def)
  show ?thesis
    using Resolve_Inr [of p] by (auto simp: uv_lookup_def mt Lookup_def path_clean_rooted split: sum.splits) (simp add: abs_path_def)
qed

lemma reclaim_accurate:
  assumes t: "t_usedBytes t = tb + db" "t_usedFiles t = tf + df" "0 \<le> tb" "0 \<le> db" "0 \<le> tf" "0 \<le> df"
    "tb + db \<le> max_int64" "tf + df \<le> max_int64"
  shows "\<exists>t'. OnFilesRemoved (OnShrink (Some t) db) df = Some t' \<and> t_usedBytes t' = tb \<and> t_usedFiles t' = tf"
proof -
  have "wrap64 (tb + db - db) = tb" "wrap64 (tf + df - df) = tf"
    using t by (auto intro!: wrap64_id in_int64_nonneg)
  then show ?thesis using t by auto
qed

lemma measure_for_removal:
  assumes wf: "mem_wf m" and small: "total_bytes m \<le> max_int64" "total_files m \<le> max_int64"
    and cs: "list_all clean_comp cs" "cs \<noteq> []" and k: "length (nodes m) \<le> k"
  shows "\<exists>e. measureUsageForQuota k mem_fs (abs_path cs) m =
    Some ((\<Sum>ks\<in>files_at m cs. bytes_at m ks, int (card (files_at m cs))), e)"
proof (cases "node_at m cs")
  case None
  have "files_at m cs = {}"
    using node_at_prefix [OF wf, of cs] None
    by (fastforce simp: files_at_def files_under_def is_file_def strict_prefix_def elim!: prefixE)
  moreover obtain k' where "k = Suc k'" using k mem_wf_root [OF wf] by (cases k) auto
  moreover have "fs_stat mem_fs (abs_path cs) m = Inl ErrNotExist"
    using None cs by (simp add: node_at_def mem_fs_def mem_stat_def)
  ultimately show ?thesis by simp
next
  case (Some d)
  have sub: "files_at m cs \<subseteq> files_under m []" using files_split(1) [OF wf cs] by blast
  have "(\<Sum>ks\<in>files_at m cs. bytes_at m ks) \<le> total_bytes m"
    unfolding total_bytes_def using sub by (intro sum_mono2) auto
  moreover have "card (files_at m cs) \<le> card (files_under m [])" using sub by (simp add: card_mono)
  ultimately have fits: "wrap64 (\<Sum>ks\<in>files_at m cs. bytes_at m ks) = (\<Sum>ks\<in>files_at m cs. bytes_at m ks)"
    "wrap64 (int (card (files_at m cs))) = int (card (files_at m cs))"
    using small by (auto simp: total_files_def intro!: wrap64_id in_int64_nonneg sum_nonneg)
  have one: "bytes_at m ks \<le> max_int64" if "list_all clean_comp ks" "ks \<noteq> []" for ks
  proof (cases "is_file m ks")
    case True
    then have "ks \<in> files_under m []" using that by (simp add: files_under_def strict_prefix_def)
    then have "bytes_at m ks \<le> total_bytes m" unfolding total_bytes_def by (intro member_le_sum) auto
    then show ?thesis using small by simp
  next
    case False
    then show ?thesis
      using heap_wf_nth [OF mem_wfD(3) [OF wf]] map_wfD(2) [OF mem_wfD(2) [OF wf]]
      by (auto simp: bytes_at_def is_file_def node_at_def max_int64_def split: option.splits)
  qed
  have "measureUsageForQuota k mem_fs (abs_path cs) m =
    Some ((wrap64 (\<Sum>ks\<in>files_at m cs. bytes_at m ks), wrap64 (int (card (files_at m cs)))), None)"
    using Some cs k one by (intro measureUsageForQuota_mem [OF wf]) (auto intro: less_le_trans [OF node_at_depth [OF wf]])
  then show ?thesis using fits by simp
qed

text \<open>C35. A successful \<^verbatim>\<open>RemoveAll\<close> keeps the tracker in step with the storage: if the tracker's figures were
  the total size and number of the stored files before, they are afterwards.\<close>

theorem removeAll_keeps_tracker_accurate:
  assumes wf: "mem_wf (uw_base u)" and acc: "accurate u" and k: "length (nodes (uw_base u)) \<le> k"
    and r: "uv_removeAll (root_uvfs perms lims k) p u = (None, u')"
  shows "accurate u'"
proof -
  let ?v = "root_uvfs perms lims k" and ?m = "uw_base u" and ?cs = "clean_comps p"
  obtain t where t: "uw_quota u = Some t" "t_usedBytes t = total_bytes ?m" "t_usedFiles t = total_files ?m"
    and big: "total_bytes ?m \<le> max_int64" "total_files ?m \<le> max_int64" using acc by (auto simp: accurate_def)
  obtain c u1 where 1: "beginQuotaChange u = (c, u1)" by (metis prod.exhaust)
  have u1: "uw_base u1 = ?m" "uw_quota u1 = BeginChange (uw_now u) (Some t)"
    using 1 t by (auto simp: beginQuotaChange_def Let_def)
  obtain res where res: "Resolve p = Inr res"
    using r by (auto simp: uv_removeAll_def uv_remove_with_def root_lookup split: sum.splits if_splits)
  have rp: "res = abs_path ?cs" using Resolve_Inr [OF res] by blast
  have fuel: "uv_fuel ?v = k" by (simp add: root_uvfs_def mem_uvfs_def)
  have cs: "list_all clean_comp ?cs" "?cs \<noteq> []" and u2: "on_base (mem_removeAll res) u1 = (None, u1\<lparr>uw_base := snd (mem_removeAll res ?m)\<rparr>)"
  proof -
    show "list_all clean_comp ?cs" by simp
    have "fst (mem_removeAll res ?m) = None"
      using r 1 t res u1 fuel
      by (auto simp: uv_removeAll_def uv_remove_with_def root_lookup on_base_def mem_fs_def split: sum.splits if_splits option.splits prod.splits)
    then show "on_base (mem_removeAll res) u1 = (None, u1\<lparr>uw_base := snd (mem_removeAll res ?m)\<rparr>)" and "?cs \<noteq> []"
      using rp u1 by (auto simp: on_base_def mem_removeAll_def Let_def split: if_splits prod.splits)
  qed
  obtain e where ms: "measureUsageForQuota k mem_fs res ?m =
      Some ((\<Sum>ks\<in>files_at ?m ?cs. bytes_at ?m ks, int (card (files_at ?m ?cs))), e)"
    using measure_for_removal [OF wf big cs k] rp by blast
  let ?db = "\<Sum>ks\<in>files_at ?m ?cs. bytes_at ?m ks" and ?df = "int (card (files_at ?m ?cs))"
  let ?m' = "snd (mem_removeAll res ?m)"
  have rcs: "clean_comps res = ?cs" by (simp add: rp)
  note after = total_after_removeAll [OF wf _ refl, of res, unfolded rcs, OF cs(2)]
  have tb: "total_bytes ?m = total_bytes ?m' + ?db"
    using total_split [OF wf cs, of "bytes_at ?m"] after by (simp add: total_bytes_def)
  have tf: "total_files ?m = total_files ?m' + ?df"
    using total_split [OF wf cs, of "\<lambda>_. 1"] after by (simp add: total_files_def)
  have nn: "0 \<le> total_bytes ?m'" "0 \<le> total_files ?m'" "0 \<le> ?db" by (auto simp: total_bytes_def total_files_def intro!: sum_nonneg)
  obtain t1 where t1: "uw_quota u1 = Some t1" "t_usedBytes t1 = total_bytes ?m" "t_usedFiles t1 = total_files ?m"
    using u1(2) t by auto
  obtain t2 where t2: "OnFilesRemoved (OnShrink (Some t1) ?db) ?df = Some t2"
    "t_usedBytes t2 = total_bytes ?m'" "t_usedFiles t2 = total_files ?m'"
    using reclaim_accurate [of t1 "total_bytes ?m'" ?db "total_files ?m'" ?df] t1 tb tf nn big by auto
  have u': "u' = endChange c (reclaim (?db, ?df) (u1\<lparr>uw_base := ?m'\<rparr>))"
    using r 1 t res u1 fuel u2 ms
    by (auto simp: uv_removeAll_def uv_remove_with_def root_lookup mem_fs_def split: if_splits)
  have "\<exists>t3. uw_quota u' = Some t3 \<and> t_usedBytes t3 = t_usedBytes t2 \<and> t_usedFiles t3 = t_usedFiles t2"
    unfolding u' using t2(1) t1(1)
    by (auto simp: endChange_def reclaim_def q_onShrink_def q_onFilesRemoved_def Let_def split: prod.split)
  moreover have "uw_base u' = ?m'" unfolding u' by (simp add: reclaim_def q_onShrink_def q_onFilesRemoved_def)
  ultimately show ?thesis using t2 tb tf nn big unfolding accurate_def by auto
qed


lemma totals_by_list:
  assumes "mem_wf m"
  shows "total_bytes m = (\<Sum>(k, a)\<leftarrow>nodes m. if n_isDir (heap m ! a) then 0 else int (length (n_data (heap m ! a))))"
    "total_files m = (\<Sum>(k, a)\<leftarrow>nodes m. if n_isDir (heap m ! a) then 0 else 1)"
  using files_under_root [OF assms, of "\<lambda>x. x"] files_under_root [OF assms, of "\<lambda>_. 1"]
  by (simp_all add: total_bytes_def total_files_def)

theorem removeAll_keeps_tracker_accurate_witness:
  "accurate (snd (uv_removeAll (root_uvfs all_perms [] 10) ''/a'' wit_session))"
proof -
  have sums: "(\<Sum>(p, a)\<leftarrow>nodes wit_mem. if n_isDir (heap wit_mem ! a) then 0 else int (length (n_data (heap wit_mem ! a)))) = 2"
    "(\<Sum>(p, a)\<leftarrow>nodes wit_mem. if n_isDir (heap wit_mem ! a) then 0 else 1) = (1 :: int)" by code_simp+
  have base: "uw_base wit_session = wit_mem" "uw_quota wit_session = Some wit_tracker"
    by (simp_all add: wit_session_def fresh_session_def)
  have acc: "accurate wit_session"
    unfolding accurate_def base totals_by_list [OF wit_mem_wf] sums
    by (simp add: wit_tracker_def max_int64_def)
  have "fst (uv_removeAll (root_uvfs all_perms [] 10) ''/a'' wit_session) = None" by code_simp
  then have r: "uv_removeAll (root_uvfs all_perms [] 10) ''/a'' wit_session
      = (None, snd (uv_removeAll (root_uvfs all_perms [] 10) ''/a'' wit_session))" by (metis prod.collapse)
  have "length (nodes (uw_base wit_session)) \<le> 10" by (simp add: base wit_mem_nodes)
  from removeAll_keeps_tracker_accurate [OF _ acc this r] show ?thesis using wit_mem_wf base by simp
qed

end
