(* ===== verification/Sftp_Wire.thy ===== *)
theory Sftp_Wire
  imports Vfs_Interface
begin

text \<open>
  The wire format of \<^verbatim>\<open>internal/protocol/sftp/handler.go\<close>: the packet reader and writer, framing,
  attribute blocks and the mappings of flags and errors.  A \<^verbatim>\<open>packetReader\<close> is the rest of its buffer
  (\<open>buf[pos:]\<close>); a reading function returns its result and the new rest.
\<close>

section \<open>Constants\<close>

definition fxpVersion :: nat where "fxpVersion = 2"
definition fxpStatus :: nat where "fxpStatus = 101"
definition fxpHandle :: nat where "fxpHandle = 102"
definition fxpData :: nat where "fxpData = 103"
definition fxpName :: nat where "fxpName = 104"
definition fxpAttrs :: nat where "fxpAttrs = 105"
definition fxpExtendedReply :: nat where "fxpExtendedReply = 201"

definition fxOK :: "32 word" where "fxOK = 0"
definition fxEOF :: "32 word" where "fxEOF = 1"
definition fxNoSuchFile :: "32 word" where "fxNoSuchFile = 2"
definition fxPermissionDenied :: "32 word" where "fxPermissionDenied = 3"
definition fxFailure :: "32 word" where "fxFailure = 4"
definition fxBadMessage :: "32 word" where "fxBadMessage = 5"
definition fxOpUnsupported :: "32 word" where "fxOpUnsupported = 8"

definition sshFxRead :: "32 word" where "sshFxRead = 0x01"
definition sshFxWrite :: "32 word" where "sshFxWrite = 0x02"
definition sshFxAppend :: "32 word" where "sshFxAppend = 0x04"
definition sshFxCreat :: "32 word" where "sshFxCreat = 0x08"
definition sshFxTrunc :: "32 word" where "sshFxTrunc = 0x10"
definition sshFxExcl :: "32 word" where "sshFxExcl = 0x20"

lemmas sftp_flag_defs = sshFxRead_def sshFxWrite_def sshFxAppend_def sshFxCreat_def sshFxTrunc_def sshFxExcl_def

definition maxPacketSize :: nat where "maxPacketSize = 16777216"
definition packetPreallocLimit :: nat where "packetPreallocLimit = 524288"

section \<open>Big-endian integers\<close>

fun be_bytes :: "nat \<Rightarrow> nat \<Rightarrow> bytes" where
  "be_bytes 0 x = []"
| "be_bytes (Suc k) x = be_bytes k (x div 256) @ [char_of (x mod 256)]"

definition be_val :: "bytes \<Rightarrow> nat" where
  "be_val bs = foldl (\<lambda>a c. a * 256 + of_char c) 0 bs"

definition put_uint32 :: "32 word \<Rightarrow> bytes" where
  "put_uint32 v = be_bytes 4 (unat v)"

definition put_uint64 :: "64 word \<Rightarrow> bytes" where
  "put_uint64 v = be_bytes 8 (unat v)"

section \<open>Packet reader\<close>

definition r_uint32 :: "bytes \<Rightarrow> 32 word res \<times> bytes" where
  "r_uint32 r = (if length r < 4 then (Inl ErrUnexpectedEOF, r) else (Inr (of_nat (be_val (take 4 r))), drop 4 r))"

definition r_uint64 :: "bytes \<Rightarrow> 64 word res \<times> bytes" where
  "r_uint64 r = (if length r < 8 then (Inl ErrUnexpectedEOF, r) else (Inr (of_nat (be_val (take 8 r))), drop 8 r))"

definition r_string :: "bytes \<Rightarrow> bytes res \<times> bytes" where
  "r_string r =
     (case r_uint32 r of
        (Inl e, r1) \<Rightarrow> (Inl e, r1)
      | (Inr n, r1) \<Rightarrow>
          if length r1 < unat n then (Inl ErrUnexpectedEOF, r1) else (Inr (take (unat n) r1), drop (unat n) r1))"

text \<open>The attribute block of SETSTAT and FSETSTAT, and the optional reads it is made of.\<close>

record sftpAttrs =
  sa_size :: "64 word option"
  sa_perm :: "32 word option"
  sa_times :: "(32 word \<times> 32 word) option"

definition opt_read :: "bool \<Rightarrow> (bytes \<Rightarrow> 'a res \<times> bytes) \<Rightarrow> bytes \<Rightarrow> 'a option res \<times> bytes" where
  "opt_read c rd r =
     (if c then (case rd r of (Inl e, r1) \<Rightarrow> (Inl e, r1) | (Inr v, r1) \<Rightarrow> (Inr (Some v), r1)) else (Inr None, r))"

definition pair_read :: "(bytes \<Rightarrow> 'a res \<times> bytes) \<Rightarrow> bytes \<Rightarrow> ('a \<times> 'a) res \<times> bytes" where
  "pair_read rd r =
     (case rd r of
        (Inl e, r1) \<Rightarrow> (Inl e, r1)
      | (Inr x, r1) \<Rightarrow> (case rd r1 of (Inl e, r2) \<Rightarrow> (Inl e, r2) | (Inr y, r2) \<Rightarrow> (Inr (x, y), r2)))"

definition r_attrs :: "bytes \<Rightarrow> sftpAttrs res \<times> bytes" where
  "r_attrs r =
     (case r_uint32 r of
        (Inl e, r1) \<Rightarrow> (Inl e, r1)
      | (Inr flags, r1) \<Rightarrow>
     (case opt_read (flags AND 0x1 \<noteq> 0) r_uint64 r1 of
        (Inl e, r2) \<Rightarrow> (Inl e, r2)
      | (Inr sz, r2) \<Rightarrow>
     (case opt_read (flags AND 0x2 \<noteq> 0) (pair_read r_uint32) r2 of
        (Inl e, r3) \<Rightarrow> (Inl e, r3)
      | (Inr _, r3) \<Rightarrow>
     (case opt_read (flags AND 0x4 \<noteq> 0) r_uint32 r3 of
        (Inl e, r4) \<Rightarrow> (Inl e, r4)
      | (Inr pm, r4) \<Rightarrow>
     (case opt_read (flags AND 0x8 \<noteq> 0) (pair_read r_uint32) r4 of
        (Inl e, r5) \<Rightarrow> (Inl e, r5)
      | (Inr ts, r5) \<Rightarrow> (Inr \<lparr>sa_size = sz, sa_perm = pm, sa_times = ts\<rparr>, r5))))))"

fun skip_pairs :: "nat \<Rightarrow> bytes \<Rightarrow> unit res \<times> bytes" where
  "skip_pairs 0 r = (Inr (), r)"
| "skip_pairs (Suc k) r =
     (case pair_read r_string r of (Inl e, r1) \<Rightarrow> (Inl e, r1) | (Inr _, r1) \<Rightarrow> skip_pairs k r1)"

definition r_skipAttrs :: "bytes \<Rightarrow> unit res \<times> bytes" where
  "r_skipAttrs r =
     (case r_uint32 r of
        (Inl e, r1) \<Rightarrow> (Inl e, r1)
      | (Inr flags, r1) \<Rightarrow>
     (case opt_read (flags AND 0x1 \<noteq> 0) r_uint64 r1 of
        (Inl e, r2) \<Rightarrow> (Inl e, r2)
      | (Inr _, r2) \<Rightarrow>
     (case opt_read (flags AND 0x2 \<noteq> 0) (pair_read r_uint32) r2 of
        (Inl e, r3) \<Rightarrow> (Inl e, r3)
      | (Inr _, r3) \<Rightarrow>
     (case opt_read (flags AND 0x4 \<noteq> 0) r_uint32 r3 of
        (Inl e, r4) \<Rightarrow> (Inl e, r4)
      | (Inr _, r4) \<Rightarrow>
     (case opt_read (flags AND 0x8 \<noteq> 0) (pair_read r_uint32) r4 of
        (Inl e, r5) \<Rightarrow> (Inl e, r5)
      | (Inr _, r5) \<Rightarrow>
          if flags AND 0x80000000 \<noteq> 0 then
            (case r_uint32 r5 of (Inl e, r6) \<Rightarrow> (Inl e, r6) | (Inr count, r6) \<Rightarrow> skip_pairs (unat count) r6)
          else (Inr (), r5))))))"

section \<open>Packet writer\<close>

text \<open>\<^verbatim>\<open>packetWriter.bytes\<close>: a string too long for its length field is written as an empty one.\<close>

definition w_bytes :: "bytes \<Rightarrow> bytes" where
  "w_bytes b = (if length b > 4294967295 then put_uint32 0 else put_uint32 (of_nat (length b)) @ b)"

definition nonNegativeInt64ToUint64 :: "int \<Rightarrow> 64 word" where
  "nonNegativeInt64ToUint64 v = (if v \<le> 0 then 0 else word_of_int v)"

definition nonNegativeInt64ToUint32 :: "int \<Rightarrow> 32 word" where
  "nonNegativeInt64ToUint32 v =
     (if v \<le> 0 then 0 else if v > 4294967295 then 0xFFFFFFFF else word_of_int v)"

text \<open>\<^verbatim>\<open>ModTime().Unix()\<close> is the time in nanoseconds rounded down to seconds.\<close>

definition unix_secs :: "int \<Rightarrow> int" where
  "unix_secs t = t div 1000000000"

definition marshalAttrs :: "fileinfo \<Rightarrow> bytes" where
  "marshalAttrs info =
     (let secs = nonNegativeInt64ToUint32 (unix_secs (fi_modTime info)) in
      put_uint32 0xD @ put_uint64 (nonNegativeInt64ToUint64 (fi_size info))
      @ put_uint32 ((fi_mode info AND ModePerm) OR (if fi_isDir info then 0x4000 else 0x8000))
      @ put_uint32 secs @ put_uint32 secs)"

definition pad12 :: "string \<Rightarrow> string" where
  "pad12 s = replicate (12 - length s) CHR '' '' @ s"

text \<open>
  \<open>fmt\<close> renders a time as \<^verbatim>\<open>Jan _2 15:04\<close> in the location of the time value, which is a property of the
  host.
\<close>

definition formatLongname :: "(int \<Rightarrow> string) \<Rightarrow> fileinfo \<Rightarrow> string" where
  "formatLongname fmt info =
     (if fi_isDir info then ''drwxr-xr-x'' else ''-rw-r--r--'') @ '' 1 owner group ''
     @ pad12 (show_int (fi_size info)) @ '' '' @ fmt (fi_modTime info) @ '' '' @ fi_name info"

section \<open>Framing\<close>

text \<open>
  \<^verbatim>\<open>readPacket\<close> on the bytes the client sends before it closes the channel.  \<^verbatim>\<open>io.ReadFull\<close> reports
  \<^verbatim>\<open>EOF\<close> when there is nothing at all and \<^verbatim>\<open>ErrUnexpectedEOF\<close> when there is too little.
\<close>

definition readFull :: "nat \<Rightarrow> bytes \<Rightarrow> (bytes \<times> bytes) res" where
  "readFull n inp =
     (if length inp < n then Inl (if inp = [] then EOF else ErrUnexpectedEOF) else Inr (take n inp, drop n inp))"

definition readPacket :: "bytes \<Rightarrow> (char \<times> bytes \<times> bytes) res" where
  "readPacket inp =
     (case readFull 4 inp of
        Inl e \<Rightarrow> Inl e
      | Inr (lenBuf, rest) \<Rightarrow>
          let n = be_val lenBuf in
          if n = 0 \<or> n > maxPacketSize then Inl (ErrMsg ''invalid packet size'')
          else if n \<le> packetPreallocLimit then
            (case readFull n rest of Inl e \<Rightarrow> Inl e | Inr (p, rest') \<Rightarrow> Inr (hd p, tl p, rest'))
          else if length rest < n then Inl ErrUnexpectedEOF
          else Inr (hd (take n rest), tl (take n rest), drop n rest))"

text \<open>The bytes \<^verbatim>\<open>writePacket\<close> puts on the channel, or its error.\<close>

definition writePacket :: "nat \<Rightarrow> bytes \<Rightarrow> bytes res" where
  "writePacket packetType payload =
     (if length payload > 4294967294 then Inl (ErrMsg ''packet payload too large'')
      else Inr (put_uint32 (of_nat (length payload) + 1) @ [char_of packetType] @ payload))"

section \<open>Mappings\<close>

definition mapOpenFlags :: "32 word \<Rightarrow> flags" where
  "mapOpenFlags fl =
     (let out1 = (if fl AND sshFxWrite \<noteq> 0 then O_WRONLY else 0);
          out2 = (if fl AND sshFxRead \<noteq> 0 \<and> fl AND sshFxWrite \<noteq> 0 then O_RDWR else out1);
          out3 = (if fl AND sshFxAppend \<noteq> 0 then out2 OR O_APPEND else out2);
          out4 = (if fl AND sshFxCreat \<noteq> 0 then out3 OR O_CREATE else out3);
          out5 = (if fl AND sshFxTrunc \<noteq> 0 then out4 OR O_TRUNC else out4);
          out6 = (if fl AND sshFxExcl \<noteq> 0 then out5 OR O_EXCL else out5)
      in out6)"

definition mapStatus :: "goerr \<Rightarrow> 32 word" where
  "mapStatus e =
     (if e = ErrNotExist then fxNoSuchFile
      else if e = ErrPermission then fxPermissionDenied
      else if e = EOF then fxEOF
      else fxFailure)"

definition sftpFileOffset :: "64 word \<Rightarrow> int res" where
  "sftpFileOffset offset = (if uint offset > max_int64 then Inl (ErrMsg ''offset too large'') else Inr (uint offset))"

definition validateReadLength :: "32 word \<Rightarrow> goerr option" where
  "validateReadLength len = (if unat len > maxPacketSize then Some (ErrMsg ''read length too large'') else None)"

definition idFromPayload :: "bytes \<Rightarrow> 32 word" where
  "idFromPayload payload = (if length payload < 4 then 0 else of_nat (be_val (take 4 payload)))"

definition normalizePath :: "string \<Rightarrow> string" where
  "normalizePath inp =
     (if inp = [] then ''/''
      else let clean = path_clean (CHR ''/'' # trim_space inp) in if clean = ''.'' then ''/'' else clean)"

section \<open>Code equations\<close>

text \<open>The size limits compared as binary integers, for evaluation.\<close>

lemma w_bytes_code [code]:
  "w_bytes b = (if int (length b) > 4294967295 then put_uint32 0 else put_uint32 (of_nat (length b)) @ b)"
  by (simp add: w_bytes_def)

lemma writePacket_code [code]:
  "writePacket t payload =
     (if int (length payload) > 4294967294 then Inl (ErrMsg ''packet payload too large'')
      else Inr (put_uint32 (of_nat (length payload) + 1) @ [char_of t] @ payload))"
  by (simp add: writePacket_def)

lemma validateReadLength_code [code]:
  "validateReadLength len = (if uint len > 16777216 then Some (ErrMsg ''read length too large'') else None)"
proof -
  have "16777216 < uint len \<longleftrightarrow> 16777216 < unat len" unfolding uint_nat by linarith
  then show ?thesis by (simp add: validateReadLength_def maxPacketSize_def)
qed

lemma readPacket_code [code]:
  "readPacket inp =
     (case readFull 4 inp of
        Inl e \<Rightarrow> Inl e
      | Inr (lenBuf, rest) \<Rightarrow>
          let n = be_val lenBuf in
          if n = 0 \<or> int n > 16777216 then Inl (ErrMsg ''invalid packet size'')
          else if int n \<le> 524288 then
            (case readFull n rest of Inl e \<Rightarrow> Inl e | Inr (p, rest') \<Rightarrow> Inr (hd p, tl p, rest'))
          else if length rest < n then Inl ErrUnexpectedEOF
          else Inr (hd (take n rest), tl (take n rest), drop n rest))"
  unfolding readPacket_def maxPacketSize_def packetPreallocLimit_def
  by (simp add: Let_def split: sum.split prod.split)

section \<open>Round trips\<close>

named_theorems wire_simps \<open>reading back what the packet writer wrote\<close>

lemma length_be_bytes [simp]: "length (be_bytes k x) = k"
  by (induction k arbitrary: x) auto

lemma be_val_snoc: "be_val (bs @ [c]) = be_val bs * 256 + of_char c"
  by (simp add: be_val_def)

lemma be_val_be_bytes: "be_val (be_bytes k x) = x mod 256 ^ k"
proof (induction k arbitrary: x)
  case 0
  then show ?case by (simp add: be_val_def)
next
  case (Suc k)
  have "x mod (256 ^ k * 256) = 256 * (x div 256 mod 256 ^ k) + x mod 256"
    using mod_mult2_eq [of x 256 "256 ^ k"] by (simp add: mult.commute)
  then show ?case using Suc by (simp add: be_val_snoc mult.commute)
qed

lemma be_val_uint32 [simp]: "be_val (put_uint32 v) = unat v"
  using unsigned_less [of v, where ?'a = nat] by (simp add: put_uint32_def be_val_be_bytes)

lemma be_val_uint64 [simp]: "be_val (put_uint64 v) = unat v"
  using unsigned_less [of v, where ?'a = nat] by (simp add: put_uint64_def be_val_be_bytes)

lemma length_put [simp]: "length (put_uint32 v) = 4" "length (put_uint64 w) = 8"
  by (simp_all add: put_uint32_def put_uint64_def)

lemma r_uint32_put [wire_simps, simp]: "r_uint32 (put_uint32 v @ r) = (Inr v, r)"
  by (simp add: r_uint32_def)

lemma r_uint64_put [wire_simps, simp]: "r_uint64 (put_uint64 v @ r) = (Inr v, r)"
  by (simp add: r_uint64_def)

lemma r_string_put [wire_simps, simp]: "length s \<le> 4294967295 \<Longrightarrow> r_string (w_bytes s @ r) = (Inr s, r)"
  by (simp add: r_string_def w_bytes_def unat_of_nat)

lemma idFromPayload_put [wire_simps, simp]: "idFromPayload (put_uint32 v @ r) = v"
  by (simp add: idFromPayload_def)

text \<open>
  Attribute blocks round-trip: what \<^verbatim>\<open>marshalAttrs\<close> sends is read back by the attribute parser
  as the size, the permission bits with the file type, and the modification time clamped to 32 bits,
  for every file, with nothing left over.
\<close>

theorem attrs_roundtrip:
  "r_attrs (marshalAttrs info @ rest) =
     (Inr \<lparr>sa_size = Some (nonNegativeInt64ToUint64 (fi_size info)),
           sa_perm = Some ((fi_mode info AND ModePerm) OR (if fi_isDir info then 0x4000 else 0x8000)),
           sa_times = Some (nonNegativeInt64ToUint32 (unix_secs (fi_modTime info)),
                            nonNegativeInt64ToUint32 (unix_secs (fi_modTime info)))\<rparr>, rest)
   \<and> fst (r_skipAttrs (marshalAttrs info @ rest)) = Inr ()"
  by (simp add: r_attrs_def r_skipAttrs_def marshalAttrs_def opt_read_def pair_read_def Let_def)

text \<open>
  Packets round-trip: every packet \<^verbatim>\<open>writePacket\<close> puts on the channel, up to the size limit of the
  reader, is read back by \<^verbatim>\<open>readPacket\<close> as the same type and payload, whatever follows it.
\<close>

theorem packet_roundtrip:
  assumes "Suc (length payload) \<le> maxPacketSize" and "t < 256"
  shows "\<exists>bs. writePacket t payload = Inr bs \<and> readPacket (bs @ rest) = Inr (char_of t, payload, rest)"
proof -
  let ?bs = "put_uint32 (of_nat (length payload) + 1) @ [char_of t] @ payload"
  have "of_nat (length payload) + 1 = (of_nat (Suc (length payload)) :: 32 word)"
    unfolding of_nat_Suc by (rule add.commute)
  then have n: "unat (of_nat (length payload) + 1 :: 32 word) = Suc (length payload)"
    using assms(1) by (simp only: unat_of_nat) (simp add: maxPacketSize_def)
  have "writePacket t payload = Inr ?bs" using assms(1) by (simp add: writePacket_def maxPacketSize_def)
  moreover have "readPacket (?bs @ rest) = Inr (char_of t, payload, rest)"
    using assms(1) by (simp add: readPacket_def readFull_def n Let_def)
  ultimately show ?thesis by blast
qed

theorem packet_roundtrip_witness:
  "\<exists>bs. writePacket 101 ''abc'' = Inr bs \<and> readPacket (bs @ ''rest'') = Inr (char_of (101 :: nat), ''abc'', ''rest'')"
  using packet_roundtrip [of "''abc''" 101] by (simp add: maxPacketSize_def)

lemma readPacket_less: "readPacket inp = Inr (t, payload, rest) \<Longrightarrow> length rest + 5 \<le> length inp"
  by (auto simp: readPacket_def readFull_def Let_def split: if_splits sum.splits)

text \<open>
  Whatever bytes arrive, \<^verbatim>\<open>readPacket\<close> either fails or takes at least five bytes off the stream and
  returns a payload shorter than the packet limit that was contained in them.
\<close>

theorem readPacket_progress:
  "case readPacket inp of
     Inl e \<Rightarrow> e \<in> {EOF, ErrUnexpectedEOF, ErrMsg ''invalid packet size''}
   | Inr (t, payload, rest) \<Rightarrow>
       \<exists>hdr. length hdr = 4 \<and> inp = hdr @ t # payload @ rest \<and> be_val hdr = Suc (length payload)
         \<and> length payload < maxPacketSize"
proof (cases "length inp < 4")
  case True
  then show ?thesis by (simp add: readPacket_def readFull_def)
next
  case False
  define n where "n = be_val (take 4 inp)"
  define rest where "rest = drop 4 inp"
  have inp: "inp = take 4 inp @ rest" by (simp add: rest_def)
  show ?thesis
  proof (cases "n = 0 \<or> n > maxPacketSize \<or> length rest < n")
    case True
    then show ?thesis using False
      by (auto simp: readPacket_def readFull_def Let_def n_def rest_def)
  next
    case ok: False
    obtain t p where tp: "take n rest = t # p" using ok by (cases "take n rest") auto
    then have lp: "n = Suc (length p)" using ok by (metis length_Cons length_take min.absorb2 not_less)
    have R: "readPacket inp = Inr (t, p, drop n rest)"
      using False ok tp by (auto simp: readPacket_def readFull_def Let_def n_def [symmetric] rest_def [symmetric])
    have "inp = take 4 inp @ t # p @ drop n rest"
      using inp tp append_take_drop_id [of n rest] by simp
    then show ?thesis using R lp ok False n_def by (auto intro!: exI [of _ "take 4 inp"])
  qed
qed

text \<open>
  Every open request a client can send maps to flags on which the session's access check sees the
  same intent: the flags are a write exactly when the client asked to write, append, create or
  truncate, and reading is granted exactly when none of these was asked for or when read and write
  were asked for together.
\<close>

theorem mapOpenFlags_intent:
  "(mapOpenFlags fl AND (O_WRONLY OR O_RDWR OR O_CREATE OR O_TRUNC OR O_APPEND) \<noteq> 0
     \<longleftrightarrow> fl AND (sshFxWrite OR sshFxAppend OR sshFxCreat OR sshFxTrunc) \<noteq> 0)
   \<and> (mapOpenFlags fl AND O_RDWR \<noteq> 0 \<longleftrightarrow> fl AND sshFxRead \<noteq> 0 \<and> fl AND sshFxWrite \<noteq> 0)"
proof -
  have split: "fl AND (sshFxWrite OR sshFxAppend OR sshFxCreat OR sshFxTrunc) \<noteq> 0 \<longleftrightarrow>
      fl AND sshFxWrite \<noteq> 0 \<or> fl AND sshFxAppend \<noteq> 0 \<or> fl AND sshFxCreat \<noteq> 0 \<or> fl AND sshFxTrunc \<noteq> 0"
    by (simp only: bit.conj_disj_distrib or_eq_0_iff) blast
  show ?thesis
    unfolding split mapOpenFlags_def Let_def by (simp add: open_flag_defs)
qed

end
