(* ===== verification/Transfer_Manager.thy ===== *)
theory Transfer_Manager
  imports Prelude
begin

text \<open>
  \<^verbatim>\<open>internal/transfer/manager.go\<close>: the table of running transfers, the bounded history and the
  counters.  The map of active transfers is an association list, \<^verbatim>\<open>ulid.New()\<close> and \<^verbatim>\<open>time.Now()\<close> are
  arguments of the calls that use them, and the counters are \<^verbatim>\<open>int64\<close> values that wrap.
\<close>

section \<open>State and operations\<close>

datatype direction = DirectionUpload | DirectionDownload

datatype status = StatusActive | StatusCompleted | StatusFailed

record transfer =
  tr_ID :: string
  tr_Username :: string
  tr_Protocol :: string
  tr_Path :: string
  tr_Direction :: direction
  tr_Status :: status
  tr_BytesDone :: int
  tr_BytesTotal :: int
  tr_StartedAt :: int
  tr_CompletedAt :: "int option"
  tr_ErrorMessage :: string

record manager =
  mg_active :: "(string \<times> transfer) list"
  mg_history :: "transfer list"
  mg_limit :: nat
  mg_totalTransfers :: int
  mg_completed :: int
  mg_failed :: int
  mg_uploadBytes :: int
  mg_downloadBytes :: int

definition NewManager :: "int \<Rightarrow> manager" where
  "NewManager historyLimit =
     \<lparr>mg_active = [], mg_history = [], mg_limit = nat (if historyLimit \<le> 0 then 1000 else historyLimit),
      mg_totalTransfers = 0, mg_completed = 0, mg_failed = 0, mg_uploadBytes = 0, mg_downloadBytes = 0\<rparr>"

definition Start :: "string \<Rightarrow> int \<Rightarrow> string \<Rightarrow> string \<Rightarrow> string \<Rightarrow> direction \<Rightarrow> int \<Rightarrow> manager \<Rightarrow> string \<times> manager" where
  "Start ulid now username protocol path direction totalBytes m =
     (ulid,
      m\<lparr>mg_active := AList.update ulid
          \<lparr>tr_ID = ulid, tr_Username = username, tr_Protocol = protocol, tr_Path = path,
           tr_Direction = direction, tr_Status = StatusActive, tr_BytesDone = 0,
           tr_BytesTotal = totalBytes, tr_StartedAt = now, tr_CompletedAt = None, tr_ErrorMessage = []\<rparr>
          (mg_active m),
        mg_totalTransfers := wrap64 (mg_totalTransfers m + 1)\<rparr>)"

definition AddBytes :: "string \<Rightarrow> int \<Rightarrow> manager \<Rightarrow> manager" where
  "AddBytes tid n m =
     (if n \<le> 0 then m
      else (case map_of (mg_active m) tid of
          None \<Rightarrow> m
        | Some tr \<Rightarrow>
            let m1 = m\<lparr>mg_active := AList.update tid (tr\<lparr>tr_BytesDone := wrap64 (tr_BytesDone tr + n)\<rparr>) (mg_active m)\<rparr>
            in (case tr_Direction tr of
                  DirectionUpload \<Rightarrow> m1\<lparr>mg_uploadBytes := wrap64 (mg_uploadBytes m + n)\<rparr>
                | DirectionDownload \<Rightarrow> m1\<lparr>mg_downloadBytes := wrap64 (mg_downloadBytes m + n)\<rparr>)))"

definition End :: "int \<Rightarrow> string \<Rightarrow> status \<Rightarrow> string \<Rightarrow> manager \<Rightarrow> manager" where
  "End now tid st err m =
     (case map_of (mg_active m) tid of
        None \<Rightarrow> m
      | Some tr \<Rightarrow>
          let h = mg_history m @ [tr\<lparr>tr_Status := st, tr_ErrorMessage := err, tr_CompletedAt := Some now\<rparr>];
              h' = (if length h > mg_limit m then drop (length h - mg_limit m) h else h);
              m1 = m\<lparr>mg_active := AList.delete tid (mg_active m), mg_history := h'\<rparr>
          in (case st of
                StatusCompleted \<Rightarrow> m1\<lparr>mg_completed := wrap64 (mg_completed m + 1)\<rparr>
              | StatusFailed \<Rightarrow> m1\<lparr>mg_failed := wrap64 (mg_failed m + 1)\<rparr>
              | StatusActive \<Rightarrow> m1))"

definition Active :: "manager \<Rightarrow> transfer list" where
  "Active m = sort_key (\<lambda>tr. - tr_StartedAt tr) (map snd (mg_active m))"

definition Recent :: "int \<Rightarrow> manager \<Rightarrow> transfer list" where
  "Recent limit m =
     (let l = (if limit \<le> 0 then 50 else limit) in take (nat l) (rev (mg_history m)))"

definition Stats :: "manager \<Rightarrow> int \<times> int \<times> int \<times> int \<times> int \<times> int" where
  "Stats m = (int (length (mg_active m)), mg_totalTransfers m, mg_completed m, mg_failed m,
              mg_uploadBytes m, mg_downloadBytes m)"

section \<open>Counters add up\<close>

text \<open>Calls of the protocol handlers; the id of a \<open>TStart\<close> is what the generator returned.\<close>

datatype transfer_call =
    TStart string int string string string direction int
  | TAdd string int
  | TEnd int string status string

fun transfer_exec :: "transfer_call \<Rightarrow> manager \<Rightarrow> manager" where
  "transfer_exec (TStart i now u pr p d n) m = snd (Start i now u pr p d n m)"
| "transfer_exec (TAdd i n) m = AddBytes i n m"
| "transfer_exec (TEnd now i st e) m = End now i st e m"

text \<open>The handlers end transfers as completed or failed only, and generated ids do not repeat.\<close>

fun proper_call :: "transfer_call \<Rightarrow> bool" where
  "proper_call (TEnd now i st e) \<longleftrightarrow> st \<noteq> StatusActive"
| "proper_call _ \<longleftrightarrow> True"

fun started :: "transfer_call \<Rightarrow> string list" where
  "started (TStart i now u pr p d n) = [i]"
| "started _ = []"

definition mg_inv :: "manager \<Rightarrow> bool" where
  "mg_inv m \<longleftrightarrow> distinct (map fst (mg_active m)) \<and> length (mg_history m) \<le> mg_limit m
     \<and> wrap64 (mg_totalTransfers m) = wrap64 (int (length (mg_active m)) + mg_completed m + mg_failed m)
     \<and> (\<forall>i tr. map_of (mg_active m) i = Some tr \<longrightarrow> tr_ID tr = i \<and> tr_Status tr = StatusActive)
     \<and> (\<forall>tr\<in>set (mg_history m). tr_Status tr \<noteq> StatusActive \<and> tr_CompletedAt tr \<noteq> None)"

lemma length_update: "length (AList.update k v xs) = (if k \<in> fst ` set xs then length xs else Suc (length xs))"
  by (induction xs) auto

lemma length_delete:
  "distinct (map fst xs) \<Longrightarrow> length (AList.delete k xs) = (if k \<in> fst ` set xs then length xs - 1 else length xs)"
  by (induction xs) (auto simp: AList.delete_idem Suc_diff_Suc dest: length_pos_if_in_set)

lemma wrap64_add_right: "wrap64 (x + wrap64 y) = wrap64 (x + y)"
  by (metis add.commute wrap64_add_left)

lemma wrap64_shift: "wrap64 x = wrap64 y \<Longrightarrow> wrap64 (x + z) = wrap64 (y + z)"
  by (metis wrap64_add_left)

lemma wrap64_idem [simp]: "wrap64 (wrap64 x) = wrap64 x"
  by simp

lemma mg_inv_New: "mg_inv (NewManager l)"
  by (simp add: mg_inv_def NewManager_def)

lemma mg_inv_Start:
  assumes m: "mg_inv m" and fresh: "i \<notin> fst ` set (mg_active m)"
  shows "mg_inv (snd (Start i now u pr p d n m))"
proof -
  have "wrap64 (mg_totalTransfers m + 1) = wrap64 (int (length (mg_active m)) + mg_completed m + mg_failed m + 1)"
    using m by (intro wrap64_shift) (simp add: mg_inv_def)
  then show ?thesis using m fresh by (auto simp: mg_inv_def Start_def length_update algebra_simps)
qed

lemma mg_inv_Add: "mg_inv m \<Longrightarrow> mg_inv (AddBytes i n m)"
proof -
  assume m: "mg_inv m"
  have "i \<in> fst ` set (mg_active m)" if "map_of (mg_active m) i = Some tr" for tr
    using that by (metis map_of_eq_None_iff option.distinct(1))
  then show ?thesis
    using m by (auto simp: mg_inv_def AddBytes_def length_update Let_def split: option.splits direction.splits if_splits)
qed

lemma mg_inv_End:
  assumes m: "mg_inv m" and st: "st \<noteq> StatusActive"
  shows "mg_inv (End now i st e m)"
proof (cases "map_of (mg_active m) i")
  case None
  then show ?thesis using m by (simp add: End_def)
next
  case (Some tr)
  let ?h = "mg_history m @ [tr\<lparr>tr_Status := st, tr_ErrorMessage := e, tr_CompletedAt := Some now\<rparr>]"
  let ?h' = "if length ?h > mg_limit m then drop (length ?h - mg_limit m) ?h else ?h"
  have mem: "i \<in> fst ` set (mg_active m)" using Some by (metis map_of_eq_None_iff option.distinct(1))
  then have len: "length (mg_active m) = Suc (length (AList.delete i (mg_active m)))"
    using m length_delete [of "mg_active m" i] by (cases "mg_active m") (auto simp: mg_inv_def)
  have cnt: "wrap64 (mg_totalTransfers m) = wrap64 (int (length (AList.delete i (mg_active m))) + wrap64 (x + 1) + y)"
    if "wrap64 (mg_totalTransfers m) = wrap64 (int (length (mg_active m)) + x + y)" for x y
    using that len wrap64_add_right [of "int (length (AList.delete i (mg_active m))) + y" "x + 1"]
    by (simp add: algebra_simps)
  have "set ?h' \<subseteq> set ?h" by (auto dest: in_set_dropD)
  then have hist: "length ?h' \<le> mg_limit m" "\<forall>tr\<in>set ?h'. tr_Status tr \<noteq> StatusActive \<and> tr_CompletedAt tr \<noteq> None"
    using m st by (auto simp: mg_inv_def)
  have c1: "wrap64 (mg_totalTransfers m) =
      wrap64 (int (length (AList.delete i (mg_active m))) + wrap64 (mg_completed m + 1) + mg_failed m)"
    using m by (intro cnt) (simp add: mg_inv_def)
  have c2: "wrap64 (mg_totalTransfers m) =
      wrap64 (int (length (AList.delete i (mg_active m))) + wrap64 (mg_failed m + 1) + mg_completed m)"
    using m by (intro cnt) (simp add: mg_inv_def algebra_simps)
  have E: "End now i st e m =
     (let m1 = m\<lparr>mg_active := AList.delete i (mg_active m), mg_history := ?h'\<rparr> in
      case st of StatusCompleted \<Rightarrow> m1\<lparr>mg_completed := wrap64 (mg_completed m + 1)\<rparr>
        | StatusFailed \<Rightarrow> m1\<lparr>mg_failed := wrap64 (mg_failed m + 1)\<rparr> | StatusActive \<Rightarrow> m1)"
    using Some by (simp add: End_def Let_def)
  have act: "distinct (map fst (AList.delete i (mg_active m)))"
    "\<forall>j tr. map_of (AList.delete i (mg_active m)) j = Some tr \<longrightarrow> tr_ID tr = j \<and> tr_Status tr = StatusActive"
    using m by (auto simp: mg_inv_def)
  show ?thesis
    using st hist act c1 c2 unfolding E Let_def mg_inv_def
    by (cases st) (simp_all del: map_of_delete length_append length_drop if_split add: algebra_simps)
qed

text \<open>
  C37. The transfer counters add up: after any calls of the handlers with generated ids that do not
  repeat, every started transfer is active, completed or failed (as \<^verbatim>\<open>int64\<close> figures), the history
  is within its limit and holds finished transfers only, and the active ones are marked active.
\<close>

theorem transfers_add_up:
  assumes "\<forall>c\<in>set cs. proper_call c" and "distinct (concat (map started cs))"
  shows "mg_inv (fold transfer_exec cs (NewManager l))
    \<and> wrap64 (mg_totalTransfers (fold transfer_exec cs (NewManager l))) =
        wrap64 (int (length (Active (fold transfer_exec cs (NewManager l))))
          + mg_completed (fold transfer_exec cs (NewManager l)) + mg_failed (fold transfer_exec cs (NewManager l)))"
proof -
  have keys: "fst ` set (mg_active (transfer_exec c m)) \<subseteq> fst ` set (mg_active m) \<union> set (started c)" for c m
    by (cases c) (auto simp: Start_def AddBytes_def End_def Let_def split: option.splits direction.splits status.splits
        dest: map_of_SomeD intro: rev_image_eqI)
  have "mg_inv (fold transfer_exec cs m)"
    if "mg_inv m" "\<forall>c\<in>set cs. proper_call c" "distinct (concat (map started cs))"
      "fst ` set (mg_active m) \<inter> set (concat (map started cs)) = {}" for m
    using that
  proof (induction cs arbitrary: m)
    case (Cons c cs)
    have "mg_inv (transfer_exec c m)"
      using Cons.prems by (cases c) (auto simp: mg_inv_Start mg_inv_Add mg_inv_End)
    moreover have "fst ` set (mg_active (transfer_exec c m)) \<inter> set (concat (map started cs)) = {}"
      using keys [of c m] Cons.prems(3,4)
      unfolding list.map concat.simps set_append distinct_append by blast
    ultimately show ?case using Cons by simp
  qed simp
  then have inv: "mg_inv (fold transfer_exec cs (NewManager l))"
    using assms mg_inv_New by (simp add: NewManager_def)
  then show ?thesis by (simp add: mg_inv_def Active_def)
qed

theorem transfers_add_up_witness:
  "mg_inv (fold transfer_exec
     [TStart ''a'' 1 ''u'' ''sftp'' ''/f'' DirectionUpload (- 1), TAdd ''a'' 5, TEnd 2 ''a'' StatusCompleted []] (NewManager 10))"
  using transfers_add_up [of "[TStart ''a'' 1 ''u'' ''sftp'' ''/f'' DirectionUpload (- 1), TAdd ''a'' 5,
      TEnd 2 ''a'' StatusCompleted []]" 10] by simp

end
