(* ===== verification/Sftp_Handler.thy ===== *)
theory Sftp_Handler
  imports Sftp_Wire Transfer_Manager
begin

text \<open>
  The SFTP request loop of \<^verbatim>\<open>internal/protocol/sftp/handler.go\<close>: the handler's state, one function per
  request, and the loop over the bytes a client sends.  \<open>fsys\<close> is the session's file system, \<open>h_world\<close> what
  it works on.  \<open>h_out\<close> is what was written to the channel, which accepts everything; \<open>h_audit\<close> and
  \<open>h_xfer\<close> are the audit log and the transfer manager when configured.  A request returns the error its
  Go function returns, which the loop ignores except for INIT.  A panic or a loop that does not end
  in the layers below sets \<open>h_stopped\<close>: the request does not come back, the channel's recover runs the
  deferred \<^verbatim>\<open>closeAllHandles\<close> and the channel is gone.
\<close>

section \<open>State\<close>

record audit_event =
  ev_Type :: string
  ev_Username :: string
  ev_Protocol :: string
  ev_Path :: string
  ev_IP :: string
  ev_Status :: string
  ev_Message :: string
  ev_Meta :: "(string \<times> string) list"

record 'w openFile =
  of_path :: string
  of_file :: "'w vfile"
  of_transferID :: string
  of_forWrite :: bool
  of_bytesRead :: int
  of_written :: int

record 'w openDir =
  od_path :: string
  od_entries :: "'w direntry list"
  od_idx :: nat

datatype 'w hentry = OFile "'w openFile" | ODir "'w openDir"

text \<open>The user, the peer, the id generator (its n-th result) and the rendering of times.\<close>

record env =
  e_username :: string
  e_remoteIP :: string
  e_ulid :: "nat \<Rightarrow> string"
  e_fmtTime :: "int \<Rightarrow> string"

record 'w sftp =
  h_world :: 'w
  h_handles :: "(string \<times> 'w hentry) list"
  h_nextHandle :: "64 word"
  h_out :: bytes
  h_audit :: "audit_event list option"
  h_xfer :: "manager option"
  h_ulids :: nat
  h_now :: int
  h_stopped :: bool

type_synonym 'w request = "'w sftp \<Rightarrow> goerr option \<times> 'w sftp"

section \<open>Replies, audit and transfers\<close>

definition send :: "nat \<Rightarrow> bytes \<Rightarrow> 'w request" where
  "send t body s =
     (case writePacket t body of Inl e \<Rightarrow> (Some e, s) | Inr bs \<Rightarrow> (None, s\<lparr>h_out := h_out s @ bs\<rparr>))"

definition replyStatus :: "32 word \<Rightarrow> 32 word \<Rightarrow> string \<Rightarrow> 'w request" where
  "replyStatus i code msg s =
     send fxpStatus (put_uint32 i @ put_uint32 code @ w_bytes msg @ w_bytes []) s"

definition stops :: "goerr \<Rightarrow> bool" where
  "stops e \<longleftrightarrow> e = GoPanic \<or> e = NoFuel"

definition reply_code :: "32 word \<Rightarrow> 32 word \<Rightarrow> goerr \<Rightarrow> 'w request" where
  "reply_code i code e s =
     (if stops e then (Some e, s\<lparr>h_stopped := True\<rparr>) else replyStatus i code (err_text e) s)"

text \<open>\<^verbatim>\<open>h.replyStatus(id, mapStatus(err), err.Error())\<close>\<close>

definition reply_err :: "32 word \<Rightarrow> goerr \<Rightarrow> 'w request" where
  "reply_err i e s = reply_code i (mapStatus e) e s"

definition emit :: "env \<Rightarrow> string \<Rightarrow> string \<Rightarrow> string \<Rightarrow> string \<Rightarrow> (string \<times> string) list \<Rightarrow> 'w sftp \<Rightarrow> 'w sftp" where
  "emit env ty p status msg meta s =
     s\<lparr>h_audit := map_option (\<lambda>es. es @ [\<lparr>ev_Type = ty, ev_Username = e_username env, ev_Protocol = ''sftp'',
          ev_Path = p, ev_IP = e_remoteIP env, ev_Status = status, ev_Message = msg, ev_Meta = meta\<rparr>]) (h_audit s)\<rparr>"

definition auditFileClosed :: "env \<Rightarrow> 'w openFile \<Rightarrow> string \<Rightarrow> 'w sftp \<Rightarrow> 'w sftp" where
  "auditFileClosed env f status s =
     (if of_forWrite f then emit env ''file.write'' (of_path f) status ''upload'' [(''bytes'', show_int (of_written f))] s
      else if of_bytesRead f > 0 then emit env ''file.read'' (of_path f) status ''download'' [(''bytes'', show_int (of_bytesRead f))] s
      else s)"

definition xfer_end :: "string \<Rightarrow> status \<Rightarrow> string \<Rightarrow> 'w sftp \<Rightarrow> 'w sftp" where
  "xfer_end tid st err s =
     (if tid = [] then s else s\<lparr>h_xfer := map_option (End (h_now s) tid st err) (h_xfer s)\<rparr>)"

definition xfer_add :: "string \<Rightarrow> int \<Rightarrow> 'w sftp \<Rightarrow> 'w sftp" where
  "xfer_add tid n s = (if tid = [] then s else s\<lparr>h_xfer := map_option (AddBytes tid n) (h_xfer s)\<rparr>)"

text \<open>\<^verbatim>\<open>fmt.Sprintf("H%016x", n)\<close>\<close>

fun hex :: "nat \<Rightarrow> nat \<Rightarrow> string" where
  "hex 0 n = []"
| "hex (Suc k) n = hex k (n div 16) @ [hex_digit (n mod 16)]"

definition handle_name :: "64 word \<Rightarrow> string" where
  "handle_name n = CHR ''H'' # hex 16 (unat n)"

definition newHandle :: "'w sftp \<Rightarrow> string \<times> 'w sftp" where
  "newHandle s = (handle_name (h_nextHandle s + 1), s\<lparr>h_nextHandle := h_nextHandle s + 1\<rparr>)"

definition set_handle :: "string \<Rightarrow> 'w hentry \<Rightarrow> 'w sftp \<Rightarrow> 'w sftp" where
  "set_handle k e s = s\<lparr>h_handles := AList.update k e (h_handles s)\<rparr>"

definition maxOpenHandles :: nat where
  "maxOpenHandles = 1024"

text \<open>Reading one field of a request, with the reply to a field that is cut off.\<close>

definition with_id :: "bytes \<Rightarrow> (32 word \<Rightarrow> bytes \<Rightarrow> 'w request) \<Rightarrow> 'w request" where
  "with_id payload k s = (case r_uint32 payload of (Inl e, _) \<Rightarrow> (Some e, s) | (Inr i, r) \<Rightarrow> k i r s)"

definition with_field ::
  "(bytes \<Rightarrow> 'a res \<times> bytes) \<Rightarrow> string \<Rightarrow> 32 word \<Rightarrow> bytes \<Rightarrow> ('a \<Rightarrow> bytes \<Rightarrow> 'w request) \<Rightarrow> 'w request" where
  "with_field rd msg i r k s =
     (case rd r of (Inl _, _) \<Rightarrow> replyStatus i fxBadMessage msg s | (Inr x, r') \<Rightarrow> k x r' s)"

definition on_world :: "('w \<Rightarrow> 'r \<times> 'w) \<Rightarrow> 'w sftp \<Rightarrow> 'r \<times> 'w sftp" where
  "on_world f s = (case f (h_world s) of (r, w) \<Rightarrow> (r, s\<lparr>h_world := w\<rparr>))"

section \<open>Requests on files\<close>

definition supportedExtensions :: "(string \<times> string) list" where
  "supportedExtensions =
     [(''posix-rename@openssh.com'', ''1''), (''statvfs@openssh.com'', ''2''), (''fstatvfs@openssh.com'', ''2''),
      (''fsync@openssh.com'', ''1''), (''limits@openssh.com'', ''1'')]"

definition handleInit :: "bytes \<Rightarrow> 'w request" where
  "handleInit payload s =
     (case r_uint32 payload of
        (Inl e, _) \<Rightarrow> (Some e, s)
      | (Inr _, _) \<Rightarrow>
          send fxpVersion (put_uint32 3 @ concat (map (\<lambda>(n, v). w_bytes n @ w_bytes v) supportedExtensions)) s)"

definition writes :: "32 word \<Rightarrow> bool" where
  "writes pflags \<longleftrightarrow> pflags AND (sshFxWrite OR sshFxAppend OR sshFxCreat OR sshFxTrunc) \<noteq> 0"

definition start_transfer :: "env \<Rightarrow> string \<Rightarrow> 32 word \<Rightarrow> 'w sftp \<Rightarrow> string \<times> 'w sftp" where
  "start_transfer env p pflags s =
     (case h_xfer s of
        None \<Rightarrow> ([], s)
      | Some m \<Rightarrow>
          (case Start (e_ulid env (h_ulids s)) (h_now s) (e_username env) ''sftp'' p
                  (if writes pflags then DirectionUpload else DirectionDownload) (- 1) m of
             (tid, m') \<Rightarrow> (tid, s\<lparr>h_xfer := Some m', h_ulids := Suc (h_ulids s)\<rparr>)))"

definition open_reply :: "env \<Rightarrow> 32 word \<Rightarrow> string \<Rightarrow> 32 word \<Rightarrow> 'w vfile \<Rightarrow> 'w request" where
  "open_reply env i p pflags f s =
     (case start_transfer env p pflags s of (tid, s1) \<Rightarrow>
        (case newHandle s1 of (hdl, s2) \<Rightarrow>
           send fxpHandle (put_uint32 i @ w_bytes hdl)
             (set_handle hdl (OFile \<lparr>of_path = p, of_file = f, of_transferID = tid, of_forWrite = writes pflags,
                 of_bytesRead = 0, of_written = 0\<rparr>) s2)))"

definition handleOpen :: "env \<Rightarrow> 'w filesystem \<Rightarrow> bytes \<Rightarrow> 'w request" where
  "handleOpen env fsys payload =
     with_id payload (\<lambda>i r.
     with_field r_string ''bad open path'' i r (\<lambda>p0 r1.
     with_field r_uint32 ''bad open flags'' i r1 (\<lambda>pflags r2.
     with_field r_skipAttrs ''bad attrs'' i r2 (\<lambda>_ _ s.
       let p = normalizePath p0 in
       if length (h_handles s) \<ge> maxOpenHandles then replyStatus i fxFailure ''too many open handles'' s
       else (case on_world (fs_open fsys p (mapOpenFlags pflags) 0x1A4) s of
           (Inl e, s1) \<Rightarrow> reply_err i e s1
         | (Inr f, s1) \<Rightarrow> open_reply env i p pflags f s1)))))"

definition do_close :: "env \<Rightarrow> 32 word \<Rightarrow> string \<Rightarrow> 'w request" where
  "do_close env i hdl s =
     (case map_of (h_handles s) hdl of
        None \<Rightarrow> replyStatus i fxFailure ''invalid handle'' s
      | Some entry \<Rightarrow>
          let s1 = s\<lparr>h_handles := AList.delete hdl (h_handles s)\<rparr> in
          (case entry of
             OFile f \<Rightarrow>
               (case on_world (f_close (of_file f)) s1 of
                  (None, s2) \<Rightarrow>
                    replyStatus i fxOK ''ok''
                      (auditFileClosed env f ''ok'' (xfer_end (of_transferID f) StatusCompleted [] s2))
                | (Some e, s2) \<Rightarrow>
                    if stops e then (Some e, s2\<lparr>h_stopped := True\<rparr>)
                    else reply_err i e
                      (auditFileClosed env f ''failed'' (xfer_end (of_transferID f) StatusFailed (err_text e) s2)))
           | ODir d \<Rightarrow> replyStatus i fxOK ''ok'' s1))"

definition handleClose :: "env \<Rightarrow> bytes \<Rightarrow> 'w request" where
  "handleClose env payload =
     with_id payload (\<lambda>i r. with_field r_string ''bad handle'' i r (\<lambda>hdl _. do_close env i hdl))"

definition file_of :: "'w hentry option \<Rightarrow> 'w openFile res" where
  "file_of e = (case e of None \<Rightarrow> Inl (ErrMsg ''invalid handle'') | Some (ODir _) \<Rightarrow> Inl (ErrMsg ''handle is not file'')
                | Some (OFile f) \<Rightarrow> Inr f)"

definition do_read :: "32 word \<Rightarrow> string \<Rightarrow> 'w openFile \<Rightarrow> int \<Rightarrow> 32 word \<Rightarrow> 'w request" where
  "do_read i hdl f off len s =
     (case on_world (f_readAt (of_file f) (unat len) off) s of
        ((bs, e), s1) \<Rightarrow>
          if e \<noteq> None \<and> e \<noteq> Some EOF then reply_err i (the e) s1
          else if bs = [] \<and> e = Some EOF then replyStatus i fxEOF ''eof'' s1
          else send fxpData (put_uint32 i @ w_bytes bs)
                 (xfer_add (of_transferID f) (int (length bs))
                   (set_handle hdl (OFile (f\<lparr>of_bytesRead := wrap64 (of_bytesRead f + int (length bs))\<rparr>)) s1)))"

definition handleRead :: "bytes \<Rightarrow> 'w request" where
  "handleRead payload =
     with_id payload (\<lambda>i r.
     with_field r_string ''bad handle'' i r (\<lambda>hdl r1.
     with_field r_uint64 ''bad offset'' i r1 (\<lambda>offset r2.
     with_field r_uint32 ''bad length'' i r2 (\<lambda>len _ s.
       case file_of (map_of (h_handles s) hdl) of
         Inl e \<Rightarrow> replyStatus i fxFailure (err_text e) s
       | Inr f \<Rightarrow>
           (case sftpFileOffset offset of
              Inl e \<Rightarrow> replyStatus i fxBadMessage (err_text e) s
            | Inr off \<Rightarrow>
                (case validateReadLength len of
                   Some e \<Rightarrow> replyStatus i fxBadMessage (err_text e) s
                 | None \<Rightarrow> do_read i hdl f off len s))))))"

definition do_write :: "32 word \<Rightarrow> string \<Rightarrow> 'w openFile \<Rightarrow> int \<Rightarrow> bytes \<Rightarrow> 'w request" where
  "do_write i hdl f off data s =
     (case on_world (f_seek (of_file f) off SeekStart) s of
        (Inl e, s1) \<Rightarrow> reply_code i fxFailure e s1
      | (Inr _, s1) \<Rightarrow>
          (case on_world (f_write (of_file f) data) s1 of
             ((_, Some e), s2) \<Rightarrow>
               if stops e then (Some e, s2\<lparr>h_stopped := True\<rparr>)
               else if h_xfer s2 \<noteq> None \<and> of_transferID f \<noteq> [] then
                 reply_err i e (set_handle hdl (OFile (f\<lparr>of_transferID := []\<rparr>))
                   (xfer_end (of_transferID f) StatusFailed (err_text e) s2))
               else reply_err i e s2
           | ((_, None), s2) \<Rightarrow>
               replyStatus i fxOK ''ok''
                 (set_handle hdl (OFile (f\<lparr>of_written := wrap64 (of_written f + int (length data))\<rparr>))
                   (xfer_add (of_transferID f) (int (length data)) s2))))"

definition handleWrite :: "bytes \<Rightarrow> 'w request" where
  "handleWrite payload =
     with_id payload (\<lambda>i r.
     with_field r_string ''bad handle'' i r (\<lambda>hdl r1.
     with_field r_uint64 ''bad offset'' i r1 (\<lambda>offset r2.
     with_field r_string ''bad data'' i r2 (\<lambda>data _ s.
       case file_of (map_of (h_handles s) hdl) of
         Inl e \<Rightarrow> replyStatus i fxFailure (err_text e) s
       | Inr f \<Rightarrow>
           (case sftpFileOffset offset of
              Inl e \<Rightarrow> replyStatus i fxBadMessage (err_text e) s
            | Inr off \<Rightarrow> do_write i hdl f off data s)))))"

section \<open>Requests on directories\<close>

definition handleOpenDir :: "'w filesystem \<Rightarrow> bytes \<Rightarrow> 'w request" where
  "handleOpenDir fsys payload =
     with_id payload (\<lambda>i r.
     with_field r_string ''bad path'' i r (\<lambda>p0 _ s.
       let p = normalizePath p0 in
       if length (h_handles s) \<ge> maxOpenHandles then replyStatus i fxFailure ''too many open handles'' s
       else (case fs_readDir fsys p (h_world s) of
           Inl e \<Rightarrow> reply_err i e s
         | Inr entries \<Rightarrow>
             (case newHandle s of (hdl, s1) \<Rightarrow>
                send fxpHandle (put_uint32 i @ w_bytes hdl)
                  (set_handle hdl (ODir \<lparr>od_path = p, od_entries = entries, od_idx = 0\<rparr>) s1)))))"

definition encode_entry :: "env \<Rightarrow> 'w \<Rightarrow> 'w direntry \<Rightarrow> bytes option" where
  "encode_entry env w de =
     (case de_info de w of
        Inl _ \<Rightarrow> None
      | Inr info \<Rightarrow> Some (w_bytes (de_name de w) @ w_bytes (formatLongname (e_fmtTime env) info) @ marshalAttrs info))"

definition batch_size :: nat where
  "batch_size = 100"

definition read_batch :: "env \<Rightarrow> 'w \<Rightarrow> 'w openDir \<Rightarrow> bytes list \<times> 'w openDir" where
  "read_batch env w d =
     (let count = min batch_size (length (od_entries d) - od_idx d) in
      (List.map_filter (encode_entry env w) (take count (drop (od_idx d) (od_entries d))),
       d\<lparr>od_idx := od_idx d + count\<rparr>))"

definition handleReadDir :: "env \<Rightarrow> bytes \<Rightarrow> 'w request" where
  "handleReadDir env payload =
     with_id payload (\<lambda>i r.
     with_field r_string ''bad handle'' i r (\<lambda>hdl _ s.
       case map_of (h_handles s) hdl of
         None \<Rightarrow> replyStatus i fxFailure ''invalid handle'' s
       | Some (OFile _) \<Rightarrow> replyStatus i fxFailure ''handle is not directory'' s
       | Some (ODir d) \<Rightarrow>
           if od_idx d \<ge> length (od_entries d) then replyStatus i fxEOF ''eof'' s
           else (case read_batch env (h_world s) d of (encoded, d') \<Rightarrow>
             send fxpName (put_uint32 i @ put_uint32 (of_nat (length encoded)) @ concat encoded)
               (set_handle hdl (ODir d') s))))"

section \<open>Requests on paths\<close>

definition setstat_target ::
  "'w filesystem \<Rightarrow> bool \<Rightarrow> 32 word \<Rightarrow> string \<Rightarrow> 'w sftp \<Rightarrow> (goerr option \<times> 'w sftp) + (string \<times> 'w vfile option)" where
  "setstat_target fsys byHandle i target s =
     (if byHandle then
        (case map_of (h_handles s) target of
           None \<Rightarrow> Inl (replyStatus i fxFailure ''invalid handle'' s)
         | Some (OFile f) \<Rightarrow> Inr (of_path f, Some (of_file f))
         | Some (ODir d) \<Rightarrow> Inr (od_path d, None))
      else
        (case fs_stat fsys (normalizePath target) (h_world s) of
           Inl e \<Rightarrow> Inl (reply_err i e s)
         | Inr _ \<Rightarrow> Inr (normalizePath target, None)))"

text \<open>Truncating through a path: open, truncate, close; the first error counts.\<close>

definition truncate_path :: "'w filesystem \<Rightarrow> string \<Rightarrow> int \<Rightarrow> 'w \<Rightarrow> goerr option \<times> 'w" where
  "truncate_path fsys p sz w =
     (case fs_open fsys p O_WRONLY 0 w of
        (Inl e, w1) \<Rightarrow> (Some e, w1)
      | (Inr f, w1) \<Rightarrow>
          (case f_truncate f sz w1 of
             (Some e, w2) \<Rightarrow> if stops e then (Some e, w2) else (Some e, snd (f_close f w2))
           | (None, w2) \<Rightarrow> f_close f w2))"

definition setstat_size ::
  "'w filesystem \<Rightarrow> 32 word \<Rightarrow> string \<Rightarrow> 'w vfile option \<Rightarrow> 64 word option \<Rightarrow> 'w sftp \<Rightarrow> (goerr option \<times> 'w sftp) + 'w sftp" where
  "setstat_size fsys i p hf sz s =
     (case sz of
        None \<Rightarrow> Inr s
      | Some v \<Rightarrow>
          (case sftpFileOffset v of
             Inl e \<Rightarrow> Inl (replyStatus i fxFailure (err_text e) s)
           | Inr n \<Rightarrow>
               (case on_world (case hf of Some f \<Rightarrow> f_truncate f n | None \<Rightarrow> truncate_path fsys p n) s of
                  (None, s1) \<Rightarrow> Inr s1
                | (Some e, s1) \<Rightarrow> Inl (reply_err i e s1))))"

definition isHardSetstatError :: "goerr \<Rightarrow> bool" where
  "isHardSetstatError e \<longleftrightarrow> e = ErrNotExist"

text \<open>A metadata call whose errors count only when the target is missing.\<close>

definition setstat_meta :: "32 word \<Rightarrow> ('w \<Rightarrow> goerr option \<times> 'w) \<Rightarrow> 'w sftp \<Rightarrow> (goerr option \<times> 'w sftp) + 'w sftp" where
  "setstat_meta i call s =
     (case on_world call s of
        (None, s1) \<Rightarrow> Inr s1
      | (Some e, s1) \<Rightarrow> if isHardSetstatError e \<or> stops e then Inl (reply_err i e s1) else Inr s1)"

definition setstat_perm ::
  "'w filesystem \<Rightarrow> 32 word \<Rightarrow> string \<Rightarrow> 32 word option \<Rightarrow> 'w sftp \<Rightarrow> (goerr option \<times> 'w sftp) + 'w sftp" where
  "setstat_perm fsys i p pm s =
     (case pm of None \<Rightarrow> Inr s | Some v \<Rightarrow> setstat_meta i (fs_chmod fsys p (v AND 0xFFF)) s)"

definition setstat_times ::
  "'w filesystem \<Rightarrow> 32 word \<Rightarrow> string \<Rightarrow> (32 word \<times> 32 word) option \<Rightarrow> 'w sftp \<Rightarrow> (goerr option \<times> 'w sftp) + 'w sftp" where
  "setstat_times fsys i p ts s =
     (case ts of None \<Rightarrow> Inr s
      | Some (at, mt) \<Rightarrow> setstat_meta i (fs_chtimes fsys p (uint at * 1000000000) (uint mt * 1000000000)) s)"

definition do_setstat :: "'w filesystem \<Rightarrow> bool \<Rightarrow> 32 word \<Rightarrow> string \<Rightarrow> sftpAttrs \<Rightarrow> 'w request" where
  "do_setstat fsys byHandle i target attrs s =
     (case setstat_target fsys byHandle i target s of
         Inl res \<Rightarrow> res
       | Inr (p, hf) \<Rightarrow>
     (case setstat_size fsys i p hf (sa_size attrs) s of
         Inl res \<Rightarrow> res
       | Inr s1 \<Rightarrow>
     (case setstat_perm fsys i p (sa_perm attrs) s1 of
         Inl res \<Rightarrow> res
       | Inr s2 \<Rightarrow>
     (case setstat_times fsys i p (sa_times attrs) s2 of
         Inl res \<Rightarrow> res
       | Inr s3 \<Rightarrow> replyStatus i fxOK ''ok'' s3))))"

definition handleSetstat :: "'w filesystem \<Rightarrow> bool \<Rightarrow> bytes \<Rightarrow> 'w request" where
  "handleSetstat fsys byHandle payload =
     with_id payload (\<lambda>i r.
     with_field r_string ''bad setstat request'' i r (\<lambda>target r1.
     with_field r_attrs ''bad attrs'' i r1 (\<lambda>attrs _. do_setstat fsys byHandle i target attrs)))"

text \<open>A call on the file system whose success is audited and answered with OK.\<close>

definition fs_request :: "32 word \<Rightarrow> ('w \<Rightarrow> goerr option \<times> 'w) \<Rightarrow> ('w sftp \<Rightarrow> 'w sftp) \<Rightarrow> 'w request" where
  "fs_request i call ok s =
     (case on_world call s of (Some e, s1) \<Rightarrow> reply_err i e s1 | (None, s1) \<Rightarrow> replyStatus i fxOK ''ok'' (ok s1))"

definition handleRemove :: "env \<Rightarrow> 'w filesystem \<Rightarrow> bytes \<Rightarrow> 'w request" where
  "handleRemove env fsys payload =
     with_id payload (\<lambda>i r.
     with_field r_string ''bad path'' i r (\<lambda>p0 _.
       fs_request i (fs_remove fsys (normalizePath p0))
         (emit env ''file.delete'' (normalizePath p0) ''ok'' ''remove'' [])))"

definition handleMkdir :: "env \<Rightarrow> 'w filesystem \<Rightarrow> bytes \<Rightarrow> 'w request" where
  "handleMkdir env fsys payload =
     with_id payload (\<lambda>i r.
     with_field r_string ''bad path'' i r (\<lambda>p0 r1.
     with_field r_skipAttrs ''bad attrs'' i r1 (\<lambda>_ _.
       fs_request i (fs_mkdir fsys (normalizePath p0) 0x1ED)
         (emit env ''dir.create'' (normalizePath p0) ''ok'' ''mkdir'' []))))"

definition handleRmdir :: "env \<Rightarrow> 'w filesystem \<Rightarrow> bytes \<Rightarrow> 'w request" where
  "handleRmdir env fsys payload =
     with_id payload (\<lambda>i r.
     with_field r_string ''bad path'' i r (\<lambda>p0 _.
       fs_request i (fs_remove fsys (normalizePath p0))
         (emit env ''dir.delete'' (normalizePath p0) ''ok'' ''rmdir'' [])))"

definition reply_attrs :: "32 word \<Rightarrow> fileinfo res \<Rightarrow> 'w request" where
  "reply_attrs i info s =
     (case info of Inl e \<Rightarrow> reply_err i e s | Inr fi \<Rightarrow> send fxpAttrs (put_uint32 i @ marshalAttrs fi) s)"

definition handleStat :: "'w filesystem \<Rightarrow> bool \<Rightarrow> bytes \<Rightarrow> 'w request" where
  "handleStat fsys lstat payload =
     with_id payload (\<lambda>i r.
     with_field r_string ''bad path'' i r (\<lambda>p0 _ s.
       reply_attrs i ((if lstat then fs_lstat fsys else fs_stat fsys) (normalizePath p0) (h_world s)) s))"

definition handleFStat :: "bytes \<Rightarrow> 'w request" where
  "handleFStat payload =
     with_id payload (\<lambda>i r.
     with_field r_string ''bad handle'' i r (\<lambda>hdl _ s.
       case file_of (map_of (h_handles s) hdl) of
         Inl e \<Rightarrow> replyStatus i fxFailure (err_text e) s
       | Inr f \<Rightarrow> reply_attrs i (f_stat (of_file f) (h_world s)) s))"

definition sftp_rename :: "env \<Rightarrow> 'w filesystem \<Rightarrow> 32 word \<Rightarrow> string \<Rightarrow> string \<Rightarrow> 'w request" where
  "sftp_rename env fsys i old new =
     fs_request i (fs_rename fsys old new) (emit env ''file.rename'' old ''ok'' ''rename'' [(''to'', new)])"

definition handleRename :: "env \<Rightarrow> 'w filesystem \<Rightarrow> bytes \<Rightarrow> 'w request" where
  "handleRename env fsys payload =
     with_id payload (\<lambda>i r.
     with_field r_string ''bad old path'' i r (\<lambda>old r1.
     with_field r_string ''bad new path'' i r1 (\<lambda>new _.
       sftp_rename env fsys i (normalizePath old) (normalizePath new))))"

definition handleRealpath :: "'w filesystem \<Rightarrow> bytes \<Rightarrow> 'w request" where
  "handleRealpath fsys payload =
     with_id payload (\<lambda>i r.
     with_field r_string ''bad path'' i r (\<lambda>p0 _ s.
       let p = normalizePath p0 in
       send fxpName (put_uint32 i @ put_uint32 1 @ w_bytes p @ w_bytes p
         @ (case fs_stat fsys p (h_world s) of Inr info \<Rightarrow> marshalAttrs info | Inl _ \<Rightarrow> put_uint32 0)) s))"

definition replyStatVFS :: "'w filesystem \<Rightarrow> 32 word \<Rightarrow> string \<Rightarrow> 'w request" where
  "replyStatVFS fsys i p s =
     (case fs_statvfs fsys p (h_world s) of
        Inl e \<Rightarrow> reply_err i e s
      | Inr st \<Rightarrow>
          send fxpExtendedReply (put_uint32 i @ concat (map put_uint64
            [BlockSize st, BlockSize st, TotalBlocks st, FreeBlocks st, AvailBlocks st,
             TotalFiles st, FreeFiles st, FreeFiles st, 0, 2, NameMaxLen st])) s)"

definition do_sync :: "32 word \<Rightarrow> 'w hentry option \<Rightarrow> 'w request" where
  "do_sync i entry s =
     (case entry of
        Some (OFile f) \<Rightarrow> fs_request i (f_sync (of_file f)) (\<lambda>s. s) s
      | _ \<Rightarrow> replyStatus i fxFailure ''invalid handle'' s)"

definition handleExtended :: "env \<Rightarrow> 'w filesystem \<Rightarrow> bytes \<Rightarrow> 'w request" where
  "handleExtended env fsys payload =
     with_id payload (\<lambda>i r.
     with_field r_string ''bad extended request'' i r (\<lambda>name r1 s.
       if name = ''posix-rename@openssh.com'' then
         (case r_string r1 of (o1, r2) \<Rightarrow> (case r_string r2 of (o2, _) \<Rightarrow>
            (case (o1, o2) of
               (Inr old, Inr new) \<Rightarrow> sftp_rename env fsys i (normalizePath old) (normalizePath new) s
             | _ \<Rightarrow> replyStatus i fxBadMessage ''bad rename paths'' s)))
       else if name = ''statvfs@openssh.com'' then
         with_field r_string ''bad path'' i r1 (\<lambda>p _. replyStatVFS fsys i (normalizePath p)) s
       else if name = ''fstatvfs@openssh.com'' then
         with_field r_string ''bad handle'' i r1 (\<lambda>hdl _ s.
           case map_of (h_handles s) hdl of
             Some (OFile f) \<Rightarrow> replyStatVFS fsys i (of_path f) s
           | Some (ODir d) \<Rightarrow> replyStatVFS fsys i (od_path d) s
           | None \<Rightarrow> replyStatus i fxFailure ''invalid handle'' s) s
       else if name = ''fsync@openssh.com'' then
         with_field r_string ''bad handle'' i r1 (\<lambda>hdl _ s. do_sync i (map_of (h_handles s) hdl) s) s
       else if name = ''limits@openssh.com'' then
         send fxpExtendedReply (put_uint32 i @ put_uint64 263168 @ put_uint64 261120 @ put_uint64 261120
           @ put_uint64 (of_nat maxOpenHandles)) s
       else replyStatus i fxOpUnsupported (''unsupported extension '' @ name) s))"

section \<open>The loop\<close>

definition dispatch :: "env \<Rightarrow> 'w filesystem \<Rightarrow> nat \<Rightarrow> bytes \<Rightarrow> 'w request" where
  "dispatch env fsys t payload =
     (if t = 1 then handleInit payload
      else if t = 3 then handleOpen env fsys payload
      else if t = 4 then handleClose env payload
      else if t = 5 then handleRead payload
      else if t = 6 then handleWrite payload
      else if t = 11 then handleOpenDir fsys payload
      else if t = 12 then handleReadDir env payload
      else if t = 13 then handleRemove env fsys payload
      else if t = 14 then handleMkdir env fsys payload
      else if t = 15 then handleRmdir env fsys payload
      else if t = 17 then handleStat fsys False payload
      else if t = 7 then handleStat fsys True payload
      else if t = 8 then handleFStat payload
      else if t = 18 then handleRename env fsys payload
      else if t = 16 then handleRealpath fsys payload
      else if t = 9 then handleSetstat fsys False payload
      else if t = 10 then handleSetstat fsys True payload
      else if t = 200 then handleExtended env fsys payload
      else if t = 19 \<or> t = 20 then replyStatus (idFromPayload payload) fxOpUnsupported ''operation unsupported''
      else replyStatus (idFromPayload payload) fxBadMessage ''unknown packet'')"

definition close_entry :: "env \<Rightarrow> 'w hentry \<Rightarrow> 'w sftp \<Rightarrow> 'w sftp" where
  "close_entry env e s =
     (case e of
        ODir _ \<Rightarrow> s
      | OFile f \<Rightarrow>
          auditFileClosed env f ''incomplete''
            (xfer_end (of_transferID f) StatusFailed ''connection closed'' (snd (on_world (f_close (of_file f)) s))))"

definition closeAllHandles :: "env \<Rightarrow> 'w sftp \<Rightarrow> 'w sftp" where
  "closeAllHandles env s = (fold (\<lambda>(_, e). close_entry env e) (h_handles s) s)\<lparr>h_handles := []\<rparr>"

lemma readPacket_shorter: "readPacket inp = Inr (t, payload, rest) \<Longrightarrow> length rest < length inp"
  using readPacket_less [of inp t payload rest] by simp

function sftp_loop :: "env \<Rightarrow> 'w filesystem \<Rightarrow> bytes \<Rightarrow> 'w sftp \<Rightarrow> goerr option \<times> 'w sftp" where
  "sftp_loop env fsys inp s =
     (case readPacket inp of
        Inl e \<Rightarrow> (if e = EOF then None else Some e, closeAllHandles env s)
      | Inr (t, payload, rest) \<Rightarrow>
          (case dispatch env fsys (of_char t) payload s of
             (err, s') \<Rightarrow>
               if h_stopped s' \<or> (of_char t = (1 :: nat) \<and> err \<noteq> None) then (err, closeAllHandles env s')
               else sftp_loop env fsys rest s'))"
  by pat_completeness auto
termination
  by (relation "measure (\<lambda>(_, _, inp, _). length inp)") (auto dest: readPacket_shorter)

definition newHandler :: "'w \<Rightarrow> audit_event list option \<Rightarrow> manager option \<Rightarrow> nat \<Rightarrow> int \<Rightarrow> 'w sftp" where
  "newHandler w audit xfer ulids now =
     \<lparr>h_world = w, h_handles = [], h_nextHandle = 0, h_out = [], h_audit = audit, h_xfer = xfer,
      h_ulids = ulids, h_now = now, h_stopped = False\<rparr>"

text \<open>\<^verbatim>\<open>runSFTP\<close>: one channel from its first byte to its end.\<close>

definition runSFTP :: "env \<Rightarrow> 'w filesystem \<Rightarrow> bytes \<Rightarrow> 'w \<Rightarrow> audit_event list option \<Rightarrow> manager option \<Rightarrow> nat \<Rightarrow> int \<Rightarrow> 'w sftp" where
  "runSFTP env fsys inp w audit xfer ulids now = snd (sftp_loop env fsys inp (newHandler w audit xfer ulids now))"

end
