(* ===== verification/Sftp_Props.thy ===== *)
theory Sftp_Props
  imports Sftp_Handler Memory_Props
begin

text \<open>
  Correctness of the SFTP request loop over an arbitrary file system: every request is answered exactly
  once with its own id, the handle table stays bounded and handles are never confused, a closed handle
  is gone, listing a directory enumerates it, and a file system's invariant survives whatever a client
  sends (proved once in the context of the file-system contract, for use at every instance).
\<close>

section \<open>Every request is answered exactly once\<close>

text \<open>The bytes of one packet, or nothing when the body exceeds the length field.\<close>

definition packet :: "nat \<Rightarrow> bytes \<Rightarrow> bytes" where
  "packet t body = (case writePacket t body of Inl _ \<Rightarrow> [] | Inr bs \<Rightarrow> bs)"

definition reply_types :: "nat list" where
  "reply_types = [fxpStatus, fxpHandle, fxpData, fxpName, fxpAttrs, fxpExtendedReply]"

text \<open>
  \<open>s'\<close> has sent one reply with request id \<open>i\<close> more than \<open>s\<close> (or the request did not come back).
\<close>

definition answered :: "32 word \<Rightarrow> 'w sftp \<Rightarrow> goerr option \<times> 'w sftp \<Rightarrow> bool" where
  "answered i s r \<longleftrightarrow> (\<exists>e. fst r = Some e \<and> stops e)
     \<or> (\<exists>t body. t \<in> set reply_types \<and> h_out (snd r) = h_out s @ packet t (put_uint32 i @ body))"

lemma out_set_handle [simp]: "h_out (set_handle k e s) = h_out s"
  by (simp add: set_handle_def)

lemma out_xfer [simp]: "h_out (xfer_end t st e s) = h_out s" "h_out (xfer_add t n s) = h_out s"
  by (simp_all add: xfer_end_def xfer_add_def)

lemma out_emit [simp]: "h_out (emit env a b c d e s) = h_out s"
  by (simp add: emit_def)

lemma out_audit [simp]: "h_out (auditFileClosed env f st s) = h_out s"
  by (simp add: auditFileClosed_def)

lemma out_on_world: "on_world g s = (r, s') \<Longrightarrow> h_out s' = h_out s"
  by (auto simp: on_world_def split: prod.splits)

lemma out_start: "start_transfer env p fl s = (tid, s') \<Longrightarrow> h_out s' = h_out s"
  by (auto simp: start_transfer_def split: option.splits prod.splits)

lemma out_newHandle: "newHandle s = (k, s') \<Longrightarrow> h_out s' = h_out s"
  by (auto simp: newHandle_def)

lemma out_send: "h_out (snd (send t body s)) = h_out s @ packet t body"
  by (simp add: send_def packet_def split: sum.split)

lemma answered_send:
  "h_out s' = h_out s \<Longrightarrow> t \<in> set reply_types \<Longrightarrow> answered i s (send t (put_uint32 i @ body) s')"
  unfolding answered_def out_send by blast

lemma reply_types_simps [simp]:
  "fxpStatus \<in> set reply_types" "fxpHandle \<in> set reply_types" "fxpData \<in> set reply_types" "fxpName \<in> set reply_types"
  "fxpAttrs \<in> set reply_types" "fxpExtendedReply \<in> set reply_types"
  by (simp_all add: reply_types_def)

lemma answered_replyStatus: "h_out s' = h_out s \<Longrightarrow> answered i s (replyStatus i c m s')"
  by (simp add: replyStatus_def answered_send)

lemma answered_reply_code: "h_out s' = h_out s \<Longrightarrow> answered i s (reply_code i c e s')"
  by (simp add: reply_code_def answered_replyStatus) (simp add: answered_def)

lemma answered_reply_err: "h_out s' = h_out s \<Longrightarrow> answered i s (reply_err i e s')"
  by (simp add: reply_err_def answered_reply_code)

lemma answered_stopped: "stops e \<Longrightarrow> answered i s (Some e, s')"
  by (simp add: answered_def)

lemmas answered_intros = answered_send answered_replyStatus answered_reply_code answered_reply_err answered_stopped

lemma with_id_id: "4 \<le> length payload \<Longrightarrow> with_id payload k s = k (idFromPayload payload) (drop 4 payload) s"
  by (simp add: with_id_def r_uint32_def idFromPayload_def)

lemma answered_with_field:
  "(\<And>x r'. answered i s (k x r' s)) \<Longrightarrow> answered i s (with_field rd msg i r k s)"
  by (simp add: with_field_def answered_replyStatus split: prod.splits sum.splits)

lemma answered_fs_request:
  "(\<And>s1. h_out s1 = h_out s \<Longrightarrow> h_out (ok s1) = h_out s) \<Longrightarrow> answered i s (fs_request i call ok s)"
  by (auto simp: fs_request_def dest: out_on_world intro!: answered_intros split: prod.splits option.splits)

lemma answered_open_reply:
  "h_out s1 = h_out s \<Longrightarrow> answered i s (open_reply env i p fl f s1)"
  by (auto simp: open_reply_def dest!: out_start out_newHandle intro!: answered_intros split: prod.splits)

lemma answered_do_read: "answered i s (do_read i h f off len s)"
  by (auto simp: do_read_def dest!: out_on_world intro!: answered_intros split: prod.splits)

lemma answered_do_write: "answered i s (do_write i h f off d s)"
  by (auto simp: do_write_def dest!: out_on_world intro!: answered_intros split: prod.splits sum.splits option.splits)

lemma answered_reply_attrs: "answered i s (reply_attrs i info s)"
  by (auto simp: reply_attrs_def intro!: answered_intros split: sum.splits)

lemma answered_StatVFS: "answered i s (replyStatVFS fsys i p s)"
  by (auto simp: replyStatVFS_def intro!: answered_intros split: sum.splits)

lemma answered_close: "answered i s (do_close env i h s)"
  by (auto simp: do_close_def Let_def dest!: out_on_world intro!: answered_intros split: prod.splits option.splits hentry.splits)

text \<open>
  A rule for SETSTAT: whatever its four steps keep of the state (\<open>P\<close>), and every reply turns into \<open>Q\<close>,
  \<open>Q\<close> holds in the end.
\<close>

lemma setstat_meta_rule:
  assumes "P s" "\<And>r s2. on_world call s = (r, s2) \<Longrightarrow> P s2" "\<And>s1 e. P s1 \<Longrightarrow> Q (reply_err i e s1)"
  shows "case setstat_meta i call s of Inl r \<Rightarrow> Q r | Inr s2 \<Rightarrow> P s2"
proof -
  obtain r s2 where "on_world call s = (r, s2)" by (metis prod.exhaust)
  then show ?thesis using assms by (cases r) (auto simp: setstat_meta_def)
qed

lemma do_setstat_rule:
  fixes s :: "'w sftp"
  assumes P: "P s"
    and rs: "\<And>s1 c m. P s1 \<Longrightarrow> Q (replyStatus i c m s1)"
    and re: "\<And>s1 e. P s1 \<Longrightarrow> Q (reply_err i e s1)"
    and tr: "\<And>f k n s1 r s2. P s1 \<Longrightarrow> map_of (h_handles s) k = Some (OFile f) \<Longrightarrow> on_world (f_truncate (of_file f) n) s1 = (r, s2) \<Longrightarrow> P s2"
    and tp: "\<And>p n s1 r s2. P s1 \<Longrightarrow> on_world (truncate_path fsys p n) s1 = (r, s2) \<Longrightarrow> P s2"
    and cm: "\<And>p m s1 r s2. P s1 \<Longrightarrow> on_world (fs_chmod fsys p m) s1 = (r, s2) \<Longrightarrow> P s2"
    and ct: "\<And>p x y s1 r s2. P s1 \<Longrightarrow> on_world (fs_chtimes fsys p x y) s1 = (r, s2) \<Longrightarrow> P s2"
  shows "Q (do_setstat fsys b i target attrs s)"
proof (cases "setstat_target fsys b i target s")
  case (Inl r)
  then have "Q r"
    using rs [OF P] re [OF P] by (auto simp: setstat_target_def split: if_splits option.splits hentry.splits sum.splits)
  then show ?thesis using Inl by (simp add: do_setstat_def)
next
  case (Inr y)
  obtain p hf where y: "y = (p, hf)" by (cases y)
  have hf: "\<exists>k f'. map_of (h_handles s) k = Some (OFile f') \<and> f = of_file f'" if "hf = Some f" for f
    using Inr y that by (auto simp: setstat_target_def split: if_splits option.splits hentry.splits sum.splits)
  have 1: "case setstat_size fsys i p hf (sa_size attrs) s of Inl r \<Rightarrow> Q r | Inr s1 \<Rightarrow> P s1"
  proof (cases "sa_size attrs")
    case None
    then show ?thesis using P by (simp add: setstat_size_def)
  next
    case sz: (Some a)
    obtain r s1 where w: "on_world (case hf of Some f \<Rightarrow> f_truncate f (uint a) | None \<Rightarrow> truncate_path fsys p (uint a)) s = (r, s1)"
      by (metis prod.exhaust)
    have "P s1"
    proof (cases hf)
      case None
      then show ?thesis using tp [OF P] w by simp
    next
      case (Some f)
      then obtain k f' where "map_of (h_handles s) k = Some (OFile f')" "f = of_file f'" using hf by blast
      then show ?thesis using tr [OF P] w Some by simp
    qed
    then show ?thesis
      using w sz rs [OF P] re by (cases r) (auto simp: setstat_size_def sftpFileOffset_def)
  qed
  have 2: "case setstat_perm fsys i p x s1 of Inl r \<Rightarrow> Q r | Inr s2 \<Rightarrow> P s2" if P1: "P s1" for x s1
  proof (cases x)
    case (Some v)
    have "case setstat_meta i (fs_chmod fsys p (v AND 0xFFF)) s1 of Inl r \<Rightarrow> Q r | Inr s2 \<Rightarrow> P s2"
      by (rule setstat_meta_rule [where P = P and Q = Q, OF P1 cm [OF P1] re])
    then show ?thesis using Some by (simp add: setstat_perm_def)
  qed (simp add: setstat_perm_def P1)
  have 3: "case setstat_times fsys i p x s1 of Inl r \<Rightarrow> Q r | Inr s2 \<Rightarrow> P s2" if P1: "P s1" for x s1
  proof (cases x)
    case (Some v)
    have "case setstat_meta i (fs_chtimes fsys p (uint (fst v) * 1000000000) (uint (snd v) * 1000000000)) s1 of
        Inl r \<Rightarrow> Q r | Inr s2 \<Rightarrow> P s2"
      by (rule setstat_meta_rule [where P = P and Q = Q, OF P1 ct [OF P1] re])
    then show ?thesis using Some by (simp add: setstat_times_def case_prod_unfold)
  qed (simp add: setstat_times_def P1)
  show ?thesis
  proof (cases "setstat_size fsys i p hf (sa_size attrs) s")
    case l: (Inl r)
    then show ?thesis using 1 Inr y by (simp add: do_setstat_def)
  next
    case s1: (Inr s1)
    then have P1: "P s1" using 1 by simp
    show ?thesis
    proof (cases "setstat_perm fsys i p (sa_perm attrs) s1")
      case l: (Inl r)
      then show ?thesis using 2 [OF P1, of "sa_perm attrs"] s1 Inr y by (simp add: do_setstat_def)
    next
      case s2: (Inr s2)
      then have P2: "P s2" using 2 [OF P1, of "sa_perm attrs"] by simp
      then show ?thesis
        using 3 [OF P2, of "sa_times attrs"] s1 s2 Inr y rs
        by (cases "setstat_times fsys i p (sa_times attrs) s2") (simp_all add: do_setstat_def)
    qed
  qed
qed

lemma answered_setstat: "answered i s (do_setstat fsys b i target attrs s)"
  by (rule do_setstat_rule [where P = "\<lambda>s1. h_out s1 = h_out s"])
     (auto dest: out_on_world intro: answered_intros)

lemma answered_if:
  "answered i s x \<Longrightarrow> answered i s y \<Longrightarrow> answered i s (if c then x else y)"
  by simp

lemma answered_posix_rename:
  "answered i s (case r_string r1 of (o1, r2) \<Rightarrow> (case r_string r2 of (o2, _) \<Rightarrow>
      (case (o1, o2) of
         (Inr old, Inr new) \<Rightarrow> sftp_rename env fsys i (normalizePath old) (normalizePath new) s
       | _ \<Rightarrow> replyStatus i fxBadMessage ''bad rename paths'' s)))"
  by (auto simp: sftp_rename_def intro!: answered_intros answered_fs_request split: prod.splits sum.splits)

lemma answered_fstatvfs:
  "answered i s (case map_of (h_handles s) hdl of
             Some (OFile f) \<Rightarrow> replyStatVFS fsys i (of_path f) s
           | Some (ODir d) \<Rightarrow> replyStatVFS fsys i (od_path d) s
           | None \<Rightarrow> replyStatus i fxFailure ''invalid handle'' s)"
  by (auto intro!: answered_intros answered_StatVFS split: option.splits hentry.splits)

lemma answered_sync: "answered i s (do_sync i e s)"
  by (auto simp: do_sync_def intro!: answered_intros answered_fs_request split: option.splits hentry.splits)

lemma answered_extended:
  assumes "4 \<le> length payload"
  shows "answered (idFromPayload payload) s (handleExtended env fsys payload s)"
  unfolding handleExtended_def with_id_id [OF assms]
  by (intro answered_with_field answered_if answered_posix_rename answered_fstatvfs answered_sync
      answered_StatVFS answered_send answered_replyStatus refl reply_types_simps)

lemmas handler_defs = handleOpen_def handleClose_def handleRead_def handleWrite_def handleOpenDir_def handleReadDir_def
  handleRemove_def handleMkdir_def handleRmdir_def handleStat_def handleFStat_def handleRename_def handleRealpath_def
  handleSetstat_def

lemma answered_requests:
  assumes "4 \<le> length payload"
  shows "answered (idFromPayload payload) s (handleOpen env fsys payload s)"
    "answered (idFromPayload payload) s (handleClose env payload s)"
    "answered (idFromPayload payload) s (handleRead payload s)"
    "answered (idFromPayload payload) s (handleWrite payload s)"
    "answered (idFromPayload payload) s (handleOpenDir fsys payload s)"
    "answered (idFromPayload payload) s (handleReadDir env payload s)"
    "answered (idFromPayload payload) s (handleRemove env fsys payload s)"
    "answered (idFromPayload payload) s (handleMkdir env fsys payload s)"
    "answered (idFromPayload payload) s (handleRmdir env fsys payload s)"
    "answered (idFromPayload payload) s (handleStat fsys b payload s)"
    "answered (idFromPayload payload) s (handleFStat payload s)"
    "answered (idFromPayload payload) s (handleRename env fsys payload s)"
    "answered (idFromPayload payload) s (handleRealpath fsys payload s)"
    "answered (idFromPayload payload) s (handleSetstat fsys b payload s)"
  unfolding handler_defs with_id_id [OF assms]
  by (rule answered_with_field;
      auto simp: sftp_rename_def Let_def dest!: out_on_world out_newHandle
        intro!: answered_intros answered_with_field answered_fs_request
          answered_open_reply answered_do_read answered_do_write answered_reply_attrs answered_close answered_setstat
        split: prod.splits sum.splits option.splits hentry.splits)+


lemma dispatch_answered:
  assumes "t \<noteq> 1" "4 \<le> length payload"
  shows "answered (idFromPayload payload) s (dispatch env fsys t payload s)"
  unfolding dispatch_def using assms(1)
  by (auto simp: answered_requests [OF assms(2)] answered_extended [OF assms(2)] answered_replyStatus)


lemma handleOpenDir_wire:
  assumes "length p < 2 ^ 32" "length (h_handles s) < maxOpenHandles" "fs_readDir fsys (normalizePath p) (h_world s) = Inr es"
  shows "handleOpenDir fsys (put_uint32 i @ w_bytes p) s =
    send fxpHandle (put_uint32 i @ w_bytes (handle_name (h_nextHandle s + 1)))
      (set_handle (handle_name (h_nextHandle s + 1)) (ODir \<lparr>od_path = normalizePath p, od_entries = es, od_idx = 0\<rparr>)
        (s\<lparr>h_nextHandle := h_nextHandle s + 1\<rparr>))"
  using r_string_put [of p "[]"] assms by (simp add: handleOpenDir_def with_id_def with_field_def newHandle_def)

text \<open>For the examples: a channel on the example storage, and its state after an OPENDIR of \<^verbatim>\<open>/a\<close>.\<close>

definition wit_env :: env where
  "wit_env = \<lparr>e_username = ''ann'', e_remoteIP = ''10.0.0.1'', e_ulid = (\<lambda>n. ''ID'' @ show_int (int n)), e_fmtTime = (\<lambda>_. ''Jan 01 00:00'')\<rparr>"

definition wit_sftp :: "mem sftp" where
  "wit_sftp = newHandler wit_mem (Some []) (Some (NewManager 100)) 0 0"

definition wit_opendir :: bytes where
  "wit_opendir = put_uint32 8 @ w_bytes ''/a''"

lemma wit_opened:
  obtains es where "length es = 1"
    and "dispatch wit_env mem_fs 11 wit_opendir wit_sftp =
      send fxpHandle (put_uint32 8 @ w_bytes (handle_name 1))
        (wit_sftp\<lparr>h_nextHandle := 1, h_handles := [(handle_name 1, ODir \<lparr>od_path = ''/a'', od_entries = es, od_idx = 0\<rparr>)]\<rparr>)"
proof -
  have "(case fs_readDir mem_fs ''/a'' wit_mem of Inr es \<Rightarrow> length es = 1 | Inl _ \<Rightarrow> False)" by code_simp
  then obtain es where es: "fs_readDir mem_fs ''/a'' wit_mem = Inr es" "length es = 1" by (auto split: sum.splits)
  have p: "normalizePath ''/a'' = ''/a''" by code_simp
  have "dispatch wit_env mem_fs 11 wit_opendir wit_sftp = handleOpenDir mem_fs (put_uint32 8 @ w_bytes ''/a'') wit_sftp"
    by (simp add: dispatch_def wit_opendir_def)
  then show thesis
    using handleOpenDir_wire [of "''/a''" wit_sftp mem_fs es 8] es p that
    by (simp add: wit_sftp_def newHandler_def maxOpenHandles_def set_handle_def)
qed

lemma length_hex [simp]: "length (hex k n) = k"
  by (induction k arbitrary: n) auto

lemma length_handle_name [simp]: "length (handle_name n) = 17"
  by (simp add: handle_name_def)

lemma send_ok: "length body \<le> 4294967294 \<Longrightarrow> fst (send t body s) = None"
  by (simp add: send_def writePacket_def)


section \<open>The handle table\<close>

definition hinv :: "'w sftp \<Rightarrow> bool" where
  "hinv s \<longleftrightarrow> distinct (map fst (h_handles s)) \<and> length (h_handles s) \<le> maxOpenHandles
     \<and> (\<forall>k\<in>fst ` set (h_handles s). \<exists>n. k = handle_name n \<and> n \<le> h_nextHandle s)"

text \<open>What a request may do to the table: nothing, change an entry, close one, or open a new one.\<close>

definition hstep :: "'w sftp \<Rightarrow> 'w sftp \<Rightarrow> bool" where
  "hstep s s' \<longleftrightarrow>
     (h_handles s' = h_handles s \<and> h_nextHandle s' = h_nextHandle s)
     \<or> (\<exists>k e e'. map_of (h_handles s) k = Some e \<and> h_handles s' = AList.update k e' (h_handles s) \<and> h_nextHandle s' = h_nextHandle s)
     \<or> (\<exists>k. h_handles s' = AList.delete k (h_handles s) \<and> h_nextHandle s' = h_nextHandle s)
     \<or> (\<exists>e. length (h_handles s) < maxOpenHandles \<and> h_nextHandle s' = h_nextHandle s + 1
          \<and> h_handles s' = AList.update (handle_name (h_nextHandle s + 1)) e (h_handles s))"

lemma tbl_simps [simp]:
  "h_handles (snd (send t b s)) = h_handles s" "h_nextHandle (snd (send t b s)) = h_nextHandle s"
  "h_handles (snd (replyStatus i c m s)) = h_handles s" "h_nextHandle (snd (replyStatus i c m s)) = h_nextHandle s"
  "h_handles (snd (reply_code i c e s)) = h_handles s" "h_nextHandle (snd (reply_code i c e s)) = h_nextHandle s"
  "h_handles (snd (reply_err i e s)) = h_handles s" "h_nextHandle (snd (reply_err i e s)) = h_nextHandle s"
  "h_handles (xfer_end a st er s) = h_handles s" "h_nextHandle (xfer_end a st er s) = h_nextHandle s"
  "h_handles (xfer_add a n s) = h_handles s" "h_nextHandle (xfer_add a n s) = h_nextHandle s"
  "h_handles (emit env p q x y z s) = h_handles s" "h_nextHandle (emit env p q x y z s) = h_nextHandle s"
  "h_handles (auditFileClosed env f st' s) = h_handles s" "h_nextHandle (auditFileClosed env f st' s) = h_nextHandle s"
  "h_handles (set_handle k en s) = AList.update k en (h_handles s)" "h_nextHandle (set_handle k en s) = h_nextHandle s"
  by (simp_all add: send_def replyStatus_def reply_code_def reply_err_def xfer_end_def xfer_add_def emit_def
      auditFileClosed_def set_handle_def split: sum.split)

lemma tbl_on_world: "on_world g s = (r, s') \<Longrightarrow> h_handles s' = h_handles s \<and> h_nextHandle s' = h_nextHandle s"
  by (auto simp: on_world_def split: prod.splits)

lemma tbl_start: "start_transfer env p fl s = (tid, s') \<Longrightarrow> h_handles s' = h_handles s \<and> h_nextHandle s' = h_nextHandle s"
  by (auto simp: start_transfer_def split: option.splits prod.splits)

lemma hstep_same: "h_handles s' = h_handles s \<Longrightarrow> h_nextHandle s' = h_nextHandle s \<Longrightarrow> hstep s s'"
  by (simp add: hstep_def)

lemma hstep_update:
  "map_of (h_handles s) k = Some e \<Longrightarrow> h_handles s' = AList.update k e' (h_handles s) \<Longrightarrow> h_nextHandle s' = h_nextHandle s \<Longrightarrow> hstep s s'"
  unfolding hstep_def by blast

lemma hstep_delete: "h_handles s' = AList.delete k (h_handles s) \<Longrightarrow> h_nextHandle s' = h_nextHandle s \<Longrightarrow> hstep s s'"
  unfolding hstep_def by blast

lemma hstep_new:
  "length (h_handles s) < maxOpenHandles \<Longrightarrow> h_handles s' = AList.update (handle_name (h_nextHandle s + 1)) e (h_handles s)
     \<Longrightarrow> h_nextHandle s' = h_nextHandle s + 1 \<Longrightarrow> hstep s s'"
  unfolding hstep_def by blast

lemma hstep_replies:
  "h_handles s' = h_handles s \<Longrightarrow> h_nextHandle s' = h_nextHandle s \<Longrightarrow> hstep s (snd (send t b s'))"
  "h_handles s' = h_handles s \<Longrightarrow> h_nextHandle s' = h_nextHandle s \<Longrightarrow> hstep s (snd (replyStatus i c m s'))"
  "h_handles s' = h_handles s \<Longrightarrow> h_nextHandle s' = h_nextHandle s \<Longrightarrow> hstep s (snd (reply_code i c e s'))"
  "h_handles s' = h_handles s \<Longrightarrow> h_nextHandle s' = h_nextHandle s \<Longrightarrow> hstep s (snd (reply_err i e s'))"
  by (rule hstep_same; simp)+

lemma hstep_with_id: "(\<And>i r. hstep s (snd (k i r s))) \<Longrightarrow> hstep s (snd (with_id p k s))"
  by (auto simp: with_id_def hstep_same split: prod.splits sum.splits)

lemma hstep_with_field: "(\<And>x r'. hstep s (snd (k x r' s))) \<Longrightarrow> hstep s (snd (with_field rd msg i r k s))"
  by (simp add: with_field_def hstep_replies split: prod.splits sum.splits)

lemma hstep_if: "hstep s (snd x) \<Longrightarrow> hstep s (snd y) \<Longrightarrow> hstep s (snd (if c then x else y))"
  by simp

lemma hstep_fs_request:
  "(\<And>s1. h_handles (ok s1) = h_handles s1 \<and> h_nextHandle (ok s1) = h_nextHandle s1) \<Longrightarrow> hstep s (snd (fs_request i call ok s))"
  by (auto simp: fs_request_def dest!: tbl_on_world intro!: hstep_replies split: prod.splits option.splits)

lemma hstep_open_reply:
  assumes "length (h_handles s) < maxOpenHandles" "h_handles s1 = h_handles s" "h_nextHandle s1 = h_nextHandle s"
  shows "hstep s (snd (open_reply env i p fl f s1))"
  using assms
  by (auto simp: open_reply_def newHandle_def dest!: tbl_start intro!: hstep_new split: prod.splits)

lemma file_of_Inr: "file_of e = Inr f \<longleftrightarrow> e = Some (OFile f)"
  by (auto simp: file_of_def split: option.splits hentry.splits)

lemma hstep_do_read: "map_of (h_handles s) k = Some e \<Longrightarrow> hstep s (snd (do_read i k f off len s))"
  by (auto simp: do_read_def dest!: tbl_on_world intro: hstep_update hstep_same split: prod.splits)

lemma hstep_do_write: "map_of (h_handles s) k = Some e \<Longrightarrow> hstep s (snd (do_write i k f off d s))"
  by (auto simp: do_write_def dest!: tbl_on_world intro: hstep_update hstep_same
      split: prod.splits sum.splits option.splits)

lemma hstep_reply_attrs: "hstep s (snd (reply_attrs i info s))"
  by (auto simp: reply_attrs_def intro!: hstep_replies split: sum.splits)

lemma hstep_StatVFS: "hstep s (snd (replyStatVFS fsys i p s))"
  by (auto simp: replyStatVFS_def intro!: hstep_replies split: sum.splits)

lemma hstep_close: "hstep s (snd (do_close env i k s))"
  by (auto simp: do_close_def Let_def dest!: tbl_on_world intro: hstep_delete hstep_same
      split: prod.splits option.splits hentry.splits)

lemma hstep_setstat: "hstep s (snd (do_setstat fsys b i target attrs s))"
  by (rule do_setstat_rule [where Q = "\<lambda>r. hstep s (snd r)" and P = "\<lambda>s1. h_handles s1 = h_handles s \<and> h_nextHandle s1 = h_nextHandle s"])
     (auto dest: tbl_on_world intro: hstep_same)

lemma hstep_open:
  "hstep s (snd (if length (h_handles s) \<ge> maxOpenHandles then replyStatus i c m s
       else (case on_world g s of
           (Inl e, s1) \<Rightarrow> reply_err i e s1
         | (Inr f, s1) \<Rightarrow> open_reply env i p pflags f s1)))"
  by (auto dest!: tbl_on_world intro: hstep_same hstep_open_reply split: prod.splits sum.splits)

lemma hstep_opendir:
  "hstep s (snd (if length (h_handles s) \<ge> maxOpenHandles then replyStatus i c m s
       else (case x of
           Inl e \<Rightarrow> reply_err i e s
         | Inr entries \<Rightarrow>
             (case newHandle s of (hdl, s1) \<Rightarrow>
                send t (b hdl) (set_handle hdl (ODir \<lparr>od_path = p, od_entries = entries, od_idx = 0\<rparr>) s1)))))"
  by (auto simp: newHandle_def intro: hstep_same hstep_new split: sum.splits)

lemma hstep_extended: "hstep s (snd (handleExtended env fsys payload s))"
  unfolding handleExtended_def
  by (intro hstep_with_id hstep_with_field hstep_if hstep_StatVFS)
     (auto simp: sftp_rename_def do_sync_def intro!: hstep_replies hstep_fs_request hstep_StatVFS
       split: prod.splits sum.splits option.splits hentry.splits)

lemma hstep_requests:
  "hstep s (snd (handleOpen env fsys payload s))" "hstep s (snd (handleClose env payload s))"
  "hstep s (snd (handleRead payload s))" "hstep s (snd (handleWrite payload s))"
  "hstep s (snd (handleOpenDir fsys payload s))" "hstep s (snd (handleReadDir env payload s))"
  "hstep s (snd (handleRemove env fsys payload s))" "hstep s (snd (handleMkdir env fsys payload s))"
  "hstep s (snd (handleRmdir env fsys payload s))" "hstep s (snd (handleStat fsys b payload s))"
  "hstep s (snd (handleFStat payload s))" "hstep s (snd (handleRename env fsys payload s))"
  "hstep s (snd (handleRealpath fsys payload s))" "hstep s (snd (handleSetstat fsys b payload s))"
  unfolding handler_defs Let_def
  by (intro hstep_with_id hstep_with_field hstep_open hstep_opendir hstep_close hstep_setstat;
      auto simp: sftp_rename_def file_of_Inr intro!: hstep_fs_request hstep_do_read hstep_do_write hstep_reply_attrs
        intro: hstep_same hstep_update split: sum.splits option.splits hentry.splits prod.splits)+

lemma dispatch_hstep: "hstep s (snd (dispatch env fsys t payload s))"
  unfolding dispatch_def
  by (auto simp: hstep_requests hstep_extended hstep_replies)
     (auto simp: handleInit_def intro: hstep_same split: prod.splits sum.splits)


lemma hex_digit_inj:
  assumes "a < 16" "b < 16" "hex_digit a = hex_digit b"
  shows "a = b"
proof -
  have "\<forall>a\<in>set [0..<16]. \<forall>b\<in>set [0..<16]. hex_digit a = hex_digit b \<longrightarrow> a = b" by code_simp
  then show ?thesis using assms by (simp only: atLeast_upt [symmetric] set_upt) simp
qed

lemma word_less_succ: "n \<noteq> - 1 \<Longrightarrow> n < n + (1 :: 'a :: len word)"
proof -
  assume "n \<noteq> - 1"
  then have "1 + n \<noteq> 0" by (metis add.commute eq_neg_iff_add_eq_0)
  then show ?thesis using unatSuc [of n] by (simp add: word_less_nat_alt add.commute)
qed

lemma hex_inj: "hex k a = hex k b \<Longrightarrow> a < 16 ^ k \<Longrightarrow> b < 16 ^ k \<Longrightarrow> a = b"
proof (induction k arbitrary: a b)
  case (Suc k)
  then have "a mod 16 = b mod 16" by (auto intro: hex_digit_inj)
  moreover have "a div 16 = b div 16" using Suc by (auto simp: less_mult_imp_div_less)
  ultimately show ?case by (metis div_mult_mod_eq)
qed simp

lemma handle_name_inj: "handle_name a = handle_name b \<longleftrightarrow> a = b"
proof
  assume "handle_name a = handle_name b"
  moreover have "unat n < 16 ^ 16" for n :: "64 word" using unsigned_less [of n, where ?'a = nat] by simp
  ultimately have "unat a = unat b" unfolding handle_name_def by (blast intro: hex_inj dest: list.inject [THEN iffD1])
  then show "a = b" by (simp only: word_unat_eq_iff)
qed simp

lemma handle_fresh:
  assumes "hinv s" "h_nextHandle s \<noteq> - 1"
  shows "map_of (h_handles s) (handle_name (h_nextHandle s + 1)) = None"
proof (rule ccontr)
  assume "\<not> ?thesis"
  then obtain e where "map_of (h_handles s) (handle_name (h_nextHandle s + 1)) = Some e" by auto
  then have "handle_name (h_nextHandle s + 1) \<in> fst ` set (h_handles s)" by (force dest: map_of_SomeD)
  then obtain n where "handle_name (h_nextHandle s + 1) = handle_name n" "n \<le> h_nextHandle s"
    using assms(1) unfolding hinv_def by blast
  then have "h_nextHandle s + 1 \<le> h_nextHandle s" by (simp add: handle_name_inj)
  moreover have "h_nextHandle s < h_nextHandle s + 1" by (rule word_less_succ [OF assms(2)])
  ultimately show False by simp
qed

lemma hstep_hinv:
  assumes "hstep s s'" "hinv s" "h_nextHandle s \<noteq> - 1"
  shows "hinv s'"
proof -
  have upd: "length (AList.update k e xs) = (if map_of xs k = None then Suc (length xs) else length xs)"
    for k :: string and e :: "'a hentry" and xs
    by (induction xs) auto
  have del: "length (AList.delete k xs) \<le> length xs" "fst ` set (AList.delete k xs) \<subseteq> fst ` set xs"
    "distinct (map fst xs) \<Longrightarrow> distinct (map fst (AList.delete k xs))" for k :: string and xs :: "(string \<times> 'a hentry) list"
    by (auto simp: AList.delete_eq distinct_map_filter)
  have le: "h_nextHandle s \<le> h_nextHandle s + 1" using word_less_succ [OF assms(3)] by simp
  show ?thesis using assms(1) unfolding hstep_def
  proof (elim disjE exE conjE)
    fix k e e' assume "map_of (h_handles s) k = Some e" "h_handles s' = AList.update k e' (h_handles s)" "h_nextHandle s' = h_nextHandle s"
    then show ?thesis using assms(2)
      by (force simp: hinv_def upd distinct_update dom_update [unfolded dom_map_of_conv_image_fst] dest: map_of_SomeD)
  next
    fix k assume "h_handles s' = AList.delete k (h_handles s)" "h_nextHandle s' = h_nextHandle s"
    then show ?thesis using assms(2) del(1,2) [of k "h_handles s"] del(3) [of "h_handles s" k] unfolding hinv_def by (auto intro: order_trans)
  next
    fix e assume "length (h_handles s) < maxOpenHandles" "h_nextHandle s' = h_nextHandle s + 1"
      "h_handles s' = AList.update (handle_name (h_nextHandle s + 1)) e (h_handles s)"
    then show ?thesis using assms(2) le handle_fresh [OF assms(2,3)]
      by (auto simp: hinv_def upd distinct_update dom_update [unfolded dom_map_of_conv_image_fst]
          intro: order_trans)
  qed (use assms(2) in \<open>simp add: hinv_def\<close>)
qed

text \<open>The state after a sequence of requests (packet type and payload).\<close>

definition serve :: "env \<Rightarrow> 'w filesystem \<Rightarrow> (nat \<times> bytes) list \<Rightarrow> 'w sftp \<Rightarrow> 'w sftp" where
  "serve env fsys reqs s = fold (\<lambda>(t, payload) s. snd (dispatch env fsys t payload s)) reqs s"

lemma unat_minus_1: "unat (- 1 :: 64 word) = 2 ^ 64 - 1"
  by (simp add: unsigned_minus_1_eq_mask mask_eq_exp_minus_1)

lemma hstep_next: "hstep s s' \<Longrightarrow> h_nextHandle s' = h_nextHandle s \<or> h_nextHandle s' = h_nextHandle s + 1"
  unfolding hstep_def by blast

lemma serve_hinv:
  "length reqs < 2 ^ 64 \<Longrightarrow>
     hinv (serve env fsys reqs (newHandler w a x u t)) \<and> unat (h_nextHandle (serve env fsys reqs (newHandler w a x u t))) \<le> length reqs"
proof (induction reqs rule: rev_induct)
  case Nil
  then show ?case by (simp add: serve_def newHandler_def hinv_def)
next
  case (snoc r reqs)
  define s where "s = serve env fsys reqs (newHandler w a x u t)"
  define s' where "s' = snd (dispatch env fsys (fst r) (snd r) s)"
  have st: "hstep s s'" unfolding s'_def by (rule dispatch_hstep)
  have IH: "hinv s" "unat (h_nextHandle s) \<le> length reqs" using snoc unfolding s_def by simp_all
  have ne: "h_nextHandle s \<noteq> - 1" using IH(2) snoc.prems by (auto simp: unat_minus_1)
  have "unat (h_nextHandle s + 1) \<le> Suc (unat (h_nextHandle s))"
    by (simp add: unat_word_ariths)
  then have "unat (h_nextHandle s') \<le> Suc (length reqs)"
    using hstep_next [OF st] IH(2) by auto
  moreover have "serve env fsys (reqs @ [r]) (newHandler w a x u t) = s'"
    by (simp add: serve_def s'_def s_def case_prod_unfold)
  ultimately show ?case using hstep_hinv [OF st IH(1) ne] by simp
qed

lemma hstep_local: "hstep s s' \<Longrightarrow> \<exists>k. \<forall>j. j \<noteq> k \<longrightarrow> map_of (h_handles s') j = map_of (h_handles s) j"
  unfolding hstep_def by (auto simp: AList.update_conv' AList.delete_conv')



section \<open>Closing\<close>

lemma handleClose_wire:
  "length k < 2 ^ 32 \<Longrightarrow> handleClose env (put_uint32 i @ w_bytes k) s = do_close env i k s"
  using r_string_put [of k "[]"] by (simp add: handleClose_def with_id_def with_field_def)

lemma handleRead_wire:
  assumes "length k < 2 ^ 32"
  shows "handleRead (put_uint32 i @ w_bytes k @ put_uint64 off @ put_uint32 len) s =
    (case file_of (map_of (h_handles s) k) of
         Inl e \<Rightarrow> replyStatus i fxFailure (err_text e) s
       | Inr f \<Rightarrow>
           (case sftpFileOffset off of
              Inl e \<Rightarrow> replyStatus i fxBadMessage (err_text e) s
            | Inr off \<Rightarrow>
                (case validateReadLength len of
                   Some e \<Rightarrow> replyStatus i fxBadMessage (err_text e) s
                 | None \<Rightarrow> do_read i k f off len s)))"
  using r_uint32_put [of len "[]"] assms by (simp add: handleRead_def with_id_def with_field_def)

lemma handleWrite_wire:
  assumes "length k < 2 ^ 32" "length bs < 2 ^ 32"
  shows "handleWrite (put_uint32 i @ w_bytes k @ put_uint64 off @ w_bytes bs) s =
    (case file_of (map_of (h_handles s) k) of
         Inl e \<Rightarrow> replyStatus i fxFailure (err_text e) s
       | Inr f \<Rightarrow>
           (case sftpFileOffset off of
              Inl e \<Rightarrow> replyStatus i fxBadMessage (err_text e) s
            | Inr off \<Rightarrow> do_write i k f off bs s))"
  using r_string_put [of bs "[]"] assms by (simp add: handleWrite_def with_id_def with_field_def)

lemma handleReadDir_wire:
  assumes "length k < 2 ^ 32"
  shows "handleReadDir env (put_uint32 i @ w_bytes k) s =
    (case map_of (h_handles s) k of
         None \<Rightarrow> replyStatus i fxFailure ''invalid handle'' s
       | Some (OFile _) \<Rightarrow> replyStatus i fxFailure ''handle is not directory'' s
       | Some (ODir d) \<Rightarrow>
           if od_idx d \<ge> length (od_entries d) then replyStatus i fxEOF ''eof'' s
           else (case read_batch env (h_world s) d of (encoded, d') \<Rightarrow>
             send fxpName (put_uint32 i @ put_uint32 (of_nat (length encoded)) @ concat encoded)
               (set_handle k (ODir d') s)))"
  using r_string_put [of k "[]"] assms by (simp add: handleReadDir_def with_id_def with_field_def split: option.split hentry.split)

lemma replies_world [simp]:
  "h_world (snd (send t b s)) = h_world s" "h_world (snd (replyStatus i c m s)) = h_world s"
  "h_world (snd (reply_code i c e s)) = h_world s" "h_world (snd (reply_err i e s)) = h_world s"
  "h_world (xfer_end a st er s) = h_world s" "h_world (xfer_add a n s) = h_world s"
  "h_world (emit env p q x y z s) = h_world s" "h_world (auditFileClosed env f st' s) = h_world s"
  "h_world (set_handle k en s) = h_world s"
  by (simp_all add: send_def replyStatus_def reply_code_def reply_err_def xfer_end_def xfer_add_def emit_def
      auditFileClosed_def set_handle_def split: sum.split)

lemma do_close_effect:
  assumes "map_of (h_handles s) k = Some (OFile f)"
  shows "h_world (snd (do_close env i k s)) = snd (f_close (of_file f) (h_world s))"
    and "h_handles (snd (do_close env i k s)) = AList.delete k (h_handles s)"
  using assms by (auto simp: do_close_def on_world_def Let_def split: prod.split option.split)



section \<open>Listing a directory\<close>

definition batch :: "env \<Rightarrow> 'w \<Rightarrow> 'w direntry list \<Rightarrow> nat \<Rightarrow> bytes list" where
  "batch env w es j = List.map_filter (encode_entry env w) (take batch_size (drop (j * batch_size) es))"

lemma batches_complete:
  "length es \<le> n * batch_size \<Longrightarrow> concat (map (batch env w es) [0..<n]) = List.map_filter (encode_entry env w) es"
proof (induction n arbitrary: es)
  case (Suc n)
  have "map (batch env w es) [0..<Suc n] = batch env w es 0 # map (batch env w (drop batch_size es)) [0..<n]"
    by (simp add: batch_def add.commute upt_conv_Cons map_Suc_upt [symmetric] comp_def del: upt_Suc)
  moreover have "concat (map (batch env w (drop batch_size es)) [0..<n]) = List.map_filter (encode_entry env w) (drop batch_size es)"
    using Suc by simp
  moreover have "batch env w es 0 @ List.map_filter (encode_entry env w) (drop batch_size es) = List.map_filter (encode_entry env w) es"
    by (simp add: batch_def List.map_filter_def flip: map_append filter_append)
  ultimately show ?case by simp
qed (simp add: List.map_filter_def)

lemma readdir_step:
  assumes "map_of (h_handles s) k = Some (ODir \<lparr>od_path = p, od_entries = es, od_idx = j * batch_size\<rparr>)"
    and "length k < 2 ^ 32" and "j * batch_size < length es"
    and "s' = snd (handleReadDir env (put_uint32 i @ w_bytes k) s)"
  shows "h_out s' = h_out s @ packet fxpName (put_uint32 i @ put_uint32 (of_nat (length (batch env (h_world s) es j))) @ concat (batch env (h_world s) es j))"
    and "map_of (h_handles s') k = Some (ODir \<lparr>od_path = p, od_entries = es, od_idx = min (Suc j * batch_size) (length es)\<rparr>)"
    and "h_world s' = h_world s"
  using assms unfolding handleReadDir_wire [OF assms(2)]
  by (auto simp: read_batch_def Let_def out_send batch_def AList.update_conv' min_def not_le)

text \<open>C32. Listing is complete: from a fresh directory handle, ceil(n/100) READDIR requests send the NAME
  packets of consecutive batches whose entries are together all n entries, in order, each once (those whose information
  cannot be read left out), and the next READDIR answers end-of-file.\<close>

theorem readdir_enumerates:
  assumes "map_of (h_handles s) k = Some (ODir \<lparr>od_path = p, od_entries = es, od_idx = 0\<rparr>)" and "length k < 2 ^ 32"
    and "req = (\<lambda>s. snd (handleReadDir env (put_uint32 i @ w_bytes k) s))"
    and "n = (length es + 99) div 100"
    and "s' = (req ^^ n) s"
  shows "h_out s' = h_out s @ concat (map (\<lambda>j. packet fxpName (put_uint32 i
              @ put_uint32 (of_nat (length (batch env (h_world s) es j))) @ concat (batch env (h_world s) es j))) [0..<n])
    \<and> concat (map (batch env (h_world s) es) [0..<n]) = List.map_filter (encode_entry env (h_world s)) es
    \<and> handleReadDir env (put_uint32 i @ w_bytes k) s' = replyStatus i fxEOF ''eof'' s'"
proof -
  let ?pk = "\<lambda>j. packet fxpName (put_uint32 i @ put_uint32 (of_nat (length (batch env (h_world s) es j))) @ concat (batch env (h_world s) es j))"
  have steps: "h_out ((req ^^ m) s) = h_out s @ concat (map ?pk [0..<m])
      \<and> map_of (h_handles ((req ^^ m) s)) k = Some (ODir \<lparr>od_path = p, od_entries = es, od_idx = min (m * batch_size) (length es)\<rparr>)
      \<and> h_world ((req ^^ m) s) = h_world s" if "m \<le> n" for m
    using that
  proof (induction m)
    case 0
    then show ?case using assms(1) by simp
  next
    case (Suc m)
    have lt: "m * batch_size < length es" using Suc.prems assms(4) by (simp add: batch_size_def)
    let ?t = "(req ^^ m) s"
    have t: "map_of (h_handles ?t) k = Some (ODir \<lparr>od_path = p, od_entries = es, od_idx = m * batch_size\<rparr>)"
      using Suc lt by (simp add: min_def)
    have e: "(req ^^ Suc m) s = snd (handleReadDir env (put_uint32 i @ w_bytes k) ?t)" by (simp add: assms(3))
    show ?case using readdir_step [OF t assms(2) lt e] Suc by simp
  qed
  have len: "length es \<le> n * batch_size" using assms(4) by (simp add: batch_size_def)
  have "h_out s' = h_out s @ concat (map ?pk [0..<n])" using steps [of n] assms(5) by simp
  moreover have "concat (map (batch env (h_world s) es) [0..<n]) = List.map_filter (encode_entry env (h_world s)) es"
    by (rule batches_complete [OF len])
  moreover have "map_of (h_handles s') k = Some (ODir \<lparr>od_path = p, od_entries = es, od_idx = length es\<rparr>)"
    using steps [of n] len assms(5) by (simp add: min_def)
  ultimately show ?thesis by (simp add: handleReadDir_wire [OF assms(2)])
qed

theorem readdir_enumerates_witness:
  "\<exists>es s s'. map_of (h_handles s) (handle_name 1) = Some (ODir \<lparr>od_path = ''/a'', od_entries = es, od_idx = 0\<rparr>) \<and> length es = 1
     \<and> s' = snd (handleReadDir wit_env (put_uint32 9 @ w_bytes (handle_name 1)) s)
     \<and> handleReadDir wit_env (put_uint32 9 @ w_bytes (handle_name 1)) s' = replyStatus 9 fxEOF ''eof'' (s' :: mem sftp)"
proof -
  obtain es where es: "length es = 1" "dispatch wit_env mem_fs 11 wit_opendir wit_sftp =
      send fxpHandle (put_uint32 8 @ w_bytes (handle_name 1))
        (wit_sftp\<lparr>h_nextHandle := 1, h_handles := [(handle_name 1, ODir \<lparr>od_path = ''/a'', od_entries = es, od_idx = 0\<rparr>)]\<rparr>)"
    by (rule wit_opened)
  define s where "s = snd (dispatch wit_env mem_fs 11 wit_opendir wit_sftp)"
  have s: "map_of (h_handles s) (handle_name 1) = Some (ODir \<lparr>od_path = ''/a'', od_entries = es, od_idx = 0\<rparr>)"
    unfolding s_def es(2) by simp
  show ?thesis using readdir_enumerates [OF s _ refl refl refl, of wit_env 9] s es(1) by auto
qed

section \<open>The file system's invariant survives every client\<close>

text \<open>The world's invariant holds and every open file still satisfies its contract.\<close>

definition sinv :: "('w \<Rightarrow> bool) \<Rightarrow> 'w sftp \<Rightarrow> bool" where
  "sinv I s \<longleftrightarrow> I (h_world s) \<and> (\<forall>(k, e)\<in>set (h_handles s). case e of OFile f \<Rightarrow> file_contract I (of_file f) | ODir _ \<Rightarrow> True)"

lemma sinv_cong: "h_world s' = h_world s \<Longrightarrow> h_handles s' = h_handles s \<Longrightarrow> sinv I s' \<longleftrightarrow> sinv I s"
  by (simp add: sinv_def)

lemma sinv_replies [simp]:
  "sinv I (snd (send t b s)) \<longleftrightarrow> sinv I s" "sinv I (snd (replyStatus i c m s)) \<longleftrightarrow> sinv I s"
  "sinv I (snd (reply_code i c e s)) \<longleftrightarrow> sinv I s" "sinv I (snd (reply_err i e s)) \<longleftrightarrow> sinv I s"
  "sinv I (xfer_end a st er s) \<longleftrightarrow> sinv I s" "sinv I (xfer_add a n s) \<longleftrightarrow> sinv I s"
  "sinv I (emit env p q x y z s) \<longleftrightarrow> sinv I s" "sinv I (auditFileClosed env f st' s) \<longleftrightarrow> sinv I s"
  "sinv I (s\<lparr>h_stopped := b'\<rparr>) \<longleftrightarrow> sinv I s" "sinv I (s\<lparr>h_nextHandle := v\<rparr>) \<longleftrightarrow> sinv I s"
  by (rule sinv_cong; simp)+

lemma set_update: "set (AList.update k e xs) \<subseteq> insert (k, e) (set xs)"
  by (induction xs) auto

lemma sinv_set_handle:
  "sinv I s \<Longrightarrow> (case e of OFile f \<Rightarrow> file_contract I (of_file f) | ODir _ \<Rightarrow> True) \<Longrightarrow> sinv I (set_handle k e s)"
  using set_update [of k e "h_handles s"] unfolding sinv_def set_handle_def by auto

lemma sinv_delete: "sinv I s \<Longrightarrow> sinv I (s\<lparr>h_handles := AList.delete k (h_handles s)\<rparr>)"
  by (auto simp: sinv_def AList.delete_eq)

lemma sinv_file: "sinv I s \<Longrightarrow> map_of (h_handles s) k = Some (OFile f) \<Longrightarrow> file_contract I (of_file f)"
  unfolding sinv_def by (force dest: map_of_SomeD)

lemma sinv_on_world:
  "on_world g s = (r, s') \<Longrightarrow> sinv I s \<Longrightarrow> (\<And>w r w'. I w \<Longrightarrow> g w = (r, w') \<Longrightarrow> I w') \<Longrightarrow> sinv I s'"
  by (auto simp: on_world_def sinv_def split: prod.splits)

lemma sinv_with_id: "sinv I s \<Longrightarrow> (\<And>i r. sinv I (snd (k i r s))) \<Longrightarrow> sinv I (snd (with_id p k s))"
  by (auto simp: with_id_def split: prod.splits sum.splits)

lemma sinv_with_field: "sinv I s \<Longrightarrow> (\<And>x r'. sinv I (snd (k x r' s))) \<Longrightarrow> sinv I (snd (with_field rd msg i r k s))"
  by (simp add: with_field_def split: prod.splits sum.splits)

lemma sinv_if: "sinv I (snd x) \<Longrightarrow> sinv I (snd y) \<Longrightarrow> sinv I (snd (if c then x else y))"
  by simp

lemma sinv_fs_request:
  assumes "sinv I s" "\<And>w r w'. I w \<Longrightarrow> call w = (r, w') \<Longrightarrow> I w'" "\<And>s1. sinv I s1 \<Longrightarrow> sinv I (ok s1)"
  shows "sinv I (snd (fs_request i call ok s))"
  using assms by (auto simp: fs_request_def dest: sinv_on_world split: prod.splits option.splits)

lemma sinv_start: "start_transfer env p fl s = (tid, s') \<Longrightarrow> sinv I s' \<longleftrightarrow> sinv I s"
  by (auto simp: start_transfer_def sinv_def split: option.splits prod.splits)

lemma sinv_open_reply: "sinv I s \<Longrightarrow> file_contract I f \<Longrightarrow> sinv I (snd (open_reply env i p fl f s))"
  by (auto simp: open_reply_def newHandle_def dest: sinv_start intro!: sinv_set_handle split: prod.splits)

lemma sinv_do_read:
  assumes "sinv I s" "map_of (h_handles s) k = Some (OFile f)"
  shows "sinv I (snd (do_read i k f off len s))"
  using assms sinv_file [OF assms] 
  by (auto simp: do_read_def dest!: sinv_on_world [where I = I] intro: file_contract.readAt_inv intro!: sinv_set_handle split: prod.splits)

lemma sinv_do_write:
  assumes "sinv I s" "map_of (h_handles s) k = Some (OFile f)"
  shows "sinv I (snd (do_write i k f off d s))"
  using assms sinv_file [OF assms] 
  by (auto simp: do_write_def dest!: sinv_on_world [where I = I] intro: file_contract.seek_inv file_contract.write_inv
      intro!: sinv_set_handle split: prod.splits sum.splits option.splits)

lemma sinv_do_close:
  assumes "sinv I s"
  shows "sinv I (snd (do_close env i k s))"
proof (cases "map_of (h_handles s) k")
  case (Some e)
  show ?thesis
  proof (cases e)
    case (OFile f)
    then have "file_contract I (of_file f)" using sinv_file [OF assms] Some by simp
    then show ?thesis using Some OFile sinv_delete [OF assms, of k]
      by (auto simp: do_close_def Let_def dest!: sinv_on_world [where I = I] intro: file_contract.close_inv
          split: prod.splits option.splits)
  qed (use Some sinv_delete [OF assms, of k] in \<open>simp add: do_close_def\<close>)
qed (use assms in \<open>simp add: do_close_def\<close>)

lemma sinv_close_entry:
  "sinv I s \<Longrightarrow> (case e of OFile f \<Rightarrow> file_contract I (of_file f) | ODir _ \<Rightarrow> True) \<Longrightarrow> sinv I (close_entry env e s)"
  by (auto simp: close_entry_def on_world_def sinv_def intro: file_contract.close_inv split: hentry.splits prod.splits)

lemma sinv_closeAll:
  assumes "sinv I s"
  shows "sinv I (closeAllHandles env s)"
proof -
  have "\<forall>(k, e)\<in>set xs. (case e of OFile f \<Rightarrow> file_contract I (of_file f) | ODir _ \<Rightarrow> True) \<Longrightarrow> sinv I t \<Longrightarrow>
      sinv I (fold (\<lambda>(_, e). close_entry env e) xs t)" for xs :: "(string \<times> 'a hentry) list" and t
    by (induction xs arbitrary: t) (auto intro: sinv_close_entry)
  then have "sinv I (fold (\<lambda>(_, e). close_entry env e) (h_handles s) s)"
    using assms unfolding sinv_def [of I s] by (simp add: assms)
  then show ?thesis by (simp add: closeAllHandles_def sinv_def)
qed

context fs_contract
begin

lemma truncate_path_inv:
  assumes "inv w" "truncate_path fs p n w = (r, w')"
  shows "inv w'"
proof -
  obtain x w1 where o: "fs_open fs p O_WRONLY 0 w = (x, w1)" by (metis prod.exhaust)
  have w1: "inv w1" by (rule open_inv [OF assms(1) o])
  show ?thesis
  proof (cases x)
    case (Inl e)
    then show ?thesis using assms o w1 by (simp add: truncate_path_def)
  next
    case (Inr f)
    have f: "file_contract inv f" using open_file [OF assms(1)] o Inr by simp
    obtain c w2 where t: "f_truncate f n w1 = (c, w2)" by (metis prod.exhaust)
    have w2: "inv w2" by (rule file_contract.truncate_inv [OF f w1 t])
    have "inv (snd (f_close f w2))" using file_contract.close_inv [OF f w2] by (metis prod.collapse)
    then show ?thesis using assms(2) o Inr t w2
      by (cases "f_close f w2") (auto simp: truncate_path_def split: option.splits if_splits)
  qed
qed

lemma setstat_sinv:
  assumes "sinv inv s"
  shows "sinv inv (snd (do_setstat fs b i target attrs s))"
proof (rule do_setstat_rule [where Q = "\<lambda>r. sinv inv (snd r)" and P = "sinv inv"])
  show "sinv inv s" by fact
  fix f k n s1 s2 and r :: "goerr option"
  assume "sinv inv s1" "map_of (h_handles s) k = Some (OFile f)" "on_world (f_truncate (of_file f) n) s1 = (r, s2)"
  then show "sinv inv s2"
    using sinv_file [OF assms] by (blast intro: sinv_on_world file_contract.truncate_inv)
qed (auto intro: sinv_on_world truncate_path_inv chmod_inv chtimes_inv)

lemma requests_sinv:
  assumes "sinv inv s"
  shows "sinv inv (snd (handleOpen env fs payload s))" "sinv inv (snd (handleClose env payload s))"
    "sinv inv (snd (handleRead payload s))" "sinv inv (snd (handleWrite payload s))"
    "sinv inv (snd (handleOpenDir fs payload s))" "sinv inv (snd (handleReadDir env payload s))"
    "sinv inv (snd (handleRemove env fs payload s))" "sinv inv (snd (handleMkdir env fs payload s))"
    "sinv inv (snd (handleRmdir env fs payload s))" "sinv inv (snd (handleStat fs b payload s))"
    "sinv inv (snd (handleFStat payload s))" "sinv inv (snd (handleRename env fs payload s))"
    "sinv inv (snd (handleRealpath fs payload s))" "sinv inv (snd (handleSetstat fs b payload s))"
proof -
  note intros = assms sinv_with_id sinv_with_field sinv_do_read sinv_do_write sinv_do_close setstat_sinv sinv_set_handle
    sinv_open_reply
  have opened: "file_contract inv f" if q: "on_world (fs_open fs p fl m) s = (Inr f, s1)" for p fl m f s1
    using q assms open_file [of "h_world s" p fl m f] by (auto simp: on_world_def sinv_def split: prod.splits)
  show "sinv inv (snd (handleOpen env fs payload s))"
    unfolding handleOpen_def Let_def
    by (intro intros) (auto simp: assms intro!: sinv_open_reply intro: opened sinv_on_world [OF _ assms] open_inv split: prod.splits sum.splits)
  show "sinv inv (snd (handleClose env payload s))" unfolding handleClose_def by (intro intros)
  show "sinv inv (snd (handleRead payload s))" unfolding handleRead_def
    by (intro intros) (auto simp: assms file_of_Inr intro: intros split: sum.splits option.splits)
  show "sinv inv (snd (handleWrite payload s))" unfolding handleWrite_def
    by (intro intros) (auto simp: assms file_of_Inr intro: intros split: sum.splits option.splits)
  show "sinv inv (snd (handleOpenDir fs payload s))" unfolding handleOpenDir_def Let_def
    by (intro intros) (auto simp: assms newHandle_def intro!: sinv_set_handle split: sum.splits)
  show "sinv inv (snd (handleReadDir env payload s))" unfolding handleReadDir_def
    by (intro intros) (auto simp: assms intro!: sinv_set_handle split: option.splits hentry.splits prod.splits)
  show "sinv inv (snd (handleRemove env fs payload s))" unfolding handleRemove_def
    by (intro intros sinv_fs_request) (auto intro: remove_inv)
  show "sinv inv (snd (handleMkdir env fs payload s))" unfolding handleMkdir_def
    by (intro intros sinv_fs_request) (auto intro: mkdir_inv)
  show "sinv inv (snd (handleRmdir env fs payload s))" unfolding handleRmdir_def
    by (intro intros sinv_fs_request) (auto intro: remove_inv)
  show "sinv inv (snd (handleStat fs b payload s))" "sinv inv (snd (handleFStat payload s))"
    "sinv inv (snd (handleRealpath fs payload s))"
    unfolding handleStat_def handleFStat_def handleRealpath_def reply_attrs_def Let_def
    by (intro intros; auto simp: assms split: sum.splits)+
  show "sinv inv (snd (handleRename env fs payload s))" unfolding handleRename_def sftp_rename_def
    by (intro intros sinv_fs_request) (auto intro: rename_inv)
  show "sinv inv (snd (handleSetstat fs b payload s))" unfolding handleSetstat_def by (intro intros)
qed

lemma extended_sinv:
  assumes "sinv inv s"
  shows "sinv inv (snd (handleExtended env fs payload s))"
proof -
  have ren: "sinv inv (snd (sftp_rename env fs i old new s))" for i old new
    unfolding sftp_rename_def by (intro sinv_fs_request assms) (auto intro: rename_inv)
  have sync: "sinv inv (snd (do_sync i (map_of (h_handles s) k) s))" for i k
    by (auto simp: do_sync_def assms intro!: sinv_fs_request dest: sinv_file [OF assms]
        intro: file_contract.sync_inv split: option.splits hentry.splits)
  have stat: "sinv inv (snd (replyStatVFS fs i p s))" for i p
    by (simp add: replyStatVFS_def assms split: sum.split)
  show ?thesis unfolding handleExtended_def
    by (intro sinv_with_id sinv_with_field sinv_if assms stat sync)
       (auto simp: assms ren stat split: prod.splits sum.splits option.splits hentry.splits)
qed

lemma dispatch_sinv:
  assumes "sinv inv s"
  shows "sinv inv (snd (dispatch env fs t payload s))"
  unfolding dispatch_def
  by (auto simp: requests_sinv [OF assms] extended_sinv [OF assms] assms)
     (auto simp: handleInit_def assms split: prod.splits sum.splits)

lemma loop_sinv: "sinv inv s \<Longrightarrow> sinv inv (snd (sftp_loop env fs inp s))"
proof (induction inp arbitrary: s rule: measure_induct_rule [of length])
  case (less inp)
  show ?case
  proof (cases "readPacket inp")
    case (Inl e)
    then show ?thesis using sinv_closeAll [OF less.prems] by (simp add: sftp_loop.simps [of env fs inp s])
  next
    case (Inr y)
    obtain t payload rest where y: "y = (t, payload, rest)" by (cases y) auto
    obtain err s' where d: "dispatch env fs (of_char t) payload s = (err, s')" by (metis prod.exhaust)
    have "sinv inv s'" using dispatch_sinv [OF less.prems, of env "of_char t" payload] d by simp
    then show ?thesis
      using less.IH [of rest s'] readPacket_shorter [of inp t payload rest] Inr y d sinv_closeAll [of inv s' env]
      by (simp add: sftp_loop.simps [of env fs inp s])
  qed
qed

lemma runSFTP_inv: "inv w \<Longrightarrow> inv (h_world (runSFTP env fs inp w audit xfer ulids now))"
  using loop_sinv [of "newHandler w audit xfer ulids now" env inp] by (simp add: runSFTP_def sinv_def newHandler_def)

end

lemma closeAll_handles: "h_handles (closeAllHandles env s) = []"
  by (simp add: closeAllHandles_def)

lemma loop_closes: "h_handles (snd (sftp_loop env fs inp s)) = []"
proof (induction inp arbitrary: s rule: measure_induct_rule [of length])
  case (less inp)
  show ?case
  proof (cases "readPacket inp")
    case (Inr y)
    obtain t payload rest where y: "y = (t, payload, rest)" by (cases y) auto
    then show ?thesis
      using less.IH [of rest] readPacket_shorter [of inp t payload rest] Inr
      by (simp add: sftp_loop.simps [of env fs inp s] closeAll_handles split: prod.split)
  qed (simp add: sftp_loop.simps [of env fs inp s] closeAll_handles)
qed

lemma runSFTP_closes: "h_handles (runSFTP env fs inp w audit xfer ulids now) = []"
  unfolding runSFTP_def by (rule loop_closes)

end
