(* ===== verification/Audit_Chain.thy ===== *)
theory Audit_Chain
  imports GoPath
begin

text \<open>
  The tamper-evident audit log of \<^verbatim>\<open>internal/audit/chain.go\<close>: sealing a record, reading a sealed line
  back, and verifying a whole log.  What the code takes from the libraries is a parameter (\<open>codec\<close>): the
  keyed hash of \<^verbatim>\<open>crypto/hmac\<close>, the decoding of the chain object by \<^verbatim>\<open>json.Unmarshal\<close>, the two meta
  fields of a decoded \<^verbatim>\<open>audit.pruned\<close> event, and the encoding of such an event.  The second half is the file sink of
  \<^verbatim>\<open>file_sink.go\<close> and \<^verbatim>\<open>rotation.go\<close>: appending, rotating, pruning and resuming, on a directory whose
  operations succeed except for writes, which may fail after any number of bytes.
\<close>

section \<open>Sealing\<close>

record chainState =
  cs_Seq :: "64 word"
  cs_Prev :: string
  cs_MAC :: string

record chain =
  c_key :: bytes
  c_seq :: "64 word"
  c_prev :: string

record codec =
  cd_hmac :: "bytes \<Rightarrow> bytes \<Rightarrow> bytes"
  cd_unmarshal :: "bytes \<Rightarrow> chainState res"
  cd_pruned :: "bytes \<Rightarrow> (string \<times> string) option"
  cd_prune_event :: "string \<Rightarrow> chainState option \<Rightarrow> bytes"

definition NL :: char where
  "NL = CHR 0x0A"

definition show_uint :: "64 word \<Rightarrow> string" where
  "show_uint n = digits (Suc (unat n)) (unat n)"

definition hex_encode :: "bytes \<Rightarrow> string" where
  "hex_encode bs = concat (map (\<lambda>c. [hex_digit (of_char c div 16), hex_digit (of_char c mod 16)]) bs)"

definition chainMarker :: bytes where
  \<open>chainMarker = '',"chain":{''\<close>

definition chainMAC :: "codec \<Rightarrow> bytes \<Rightarrow> 64 word \<Rightarrow> string \<Rightarrow> bytes \<Rightarrow> string" where
  "chainMAC cd key seq prev event = hex_encode (cd_hmac cd key (show_uint seq @ [NL] @ prev @ [NL] @ event))"

text \<open>\<^verbatim>\<open>json.Marshal\<close> of a chain state, whose strings are hexadecimal and need no escapes.\<close>

definition marshal_state :: "chainState \<Rightarrow> bytes" where
  \<open>marshal_state st =
     ''{"seq":'' @ show_uint (cs_Seq st) @ '',"prev":"'' @ cs_Prev st @ ''","mac":"'' @ cs_MAC st @ ''"}''\<close>

definition seal :: "codec \<Rightarrow> chain \<Rightarrow> bytes \<Rightarrow> (bytes \<times> chainState) res" where
  "seal cd c event0 =
     (let event = trim_space event0 in
      if length event < 2 \<or> last event \<noteq> CHR ''}'' then Inl (ErrMsg ''audit event is not a JSON object'')
      else
        let seq = c_seq c + 1;
            st = \<lparr>cs_Seq = seq, cs_Prev = c_prev c, cs_MAC = chainMAC cd (c_key c) seq (c_prev c) event\<rparr>
        in Inr (butlast event @ chainMarker @ tl (marshal_state st) @ ''}'', st))"

definition commit :: "chainState \<Rightarrow> chain \<Rightarrow> chain" where
  "commit st c = c\<lparr>c_seq := cs_Seq st, c_prev := cs_MAC st\<rparr>"

section \<open>Reading a line back\<close>

text \<open>\<^verbatim>\<open>bytes.LastIndex\<close>, for a pattern that is not empty.\<close>

fun last_index :: "bytes \<Rightarrow> bytes \<Rightarrow> nat option" where
  "last_index pat [] = None"
| "last_index pat (x # xs) =
     (case last_index pat xs of
        Some i \<Rightarrow> Some (Suc i)
      | None \<Rightarrow> if prefix pat (x # xs) then Some 0 else None)"

datatype split = Plain | Broken string | Linked bytes chainState

definition splitChained :: "codec \<Rightarrow> bytes \<Rightarrow> split" where
  "splitChained cd line =
     (case last_index chainMarker line of
        None \<Rightarrow> Plain
      | Some idx \<Rightarrow>
          if last line \<noteq> CHR ''}'' then Broken ''malformed chained record''
          else
            (case cd_unmarshal cd (butlast (drop (idx + length chainMarker - 1) line)) of
               Inl e \<Rightarrow> Broken (''malformed chain field: '' @ err_text e)
             | Inr st \<Rightarrow> Linked (take idx line @ ''}'') st))"

section \<open>Verification\<close>

record problem =
  pr_Line :: nat
  pr_Seq :: "64 word"
  pr_Reason :: string

record openStart =
  os_line :: nat
  os_seq :: "64 word"
  os_prev :: string

text \<open>The report (\<open>v_Records\<close> to \<open>v_Problems\<close>) and the loop's variables.\<close>

record verify =
  v_Records :: nat
  v_Chained :: nat
  v_Unchained :: nat
  v_Segments :: nat
  v_LastSeq :: "64 word"
  v_LastMAC :: string
  v_Problems :: "problem list"
  v_prevSeq :: "64 word"
  v_prevMAC :: string
  v_inChain :: bool
  v_starts :: "openStart list"
  v_pruned :: "string list"

definition verify0 :: verify where
  "verify0 = \<lparr>v_Records = 0, v_Chained = 0, v_Unchained = 0, v_Segments = 0, v_LastSeq = 0, v_LastMAC = [], v_Problems = [],
     v_prevSeq = 0, v_prevMAC = [], v_inChain = False, v_starts = [], v_pruned = []\<rparr>"

definition maxVerifyProblems :: nat where
  "maxVerifyProblems = 100"

definition add_problem :: "nat \<Rightarrow> 64 word \<Rightarrow> string \<Rightarrow> verify \<Rightarrow> verify" where
  "add_problem n seq reason v =
     (if length (v_Problems v) < maxVerifyProblems
      then v\<lparr>v_Problems := v_Problems v @ [\<lparr>pr_Line = n, pr_Seq = seq, pr_Reason = reason\<rparr>]\<rparr> else v)"

text \<open>The \<^verbatim>\<open>switch\<close> on how a chained record continues the chain.\<close>

definition verify_link :: "nat \<Rightarrow> chainState \<Rightarrow> verify \<Rightarrow> verify" where
  "verify_link n st v =
     (if cs_Seq st = 1 \<and> cs_Prev st = [] then
        (if v_inChain v then add_problem n (cs_Seq st) ''chain restarted after a chained record'' v else v)
          \<lparr>v_Segments := v_Segments v + 1\<rparr>
      else if \<not> v_inChain v then
        v\<lparr>v_starts := v_starts v @ [\<lparr>os_line = n, os_seq = cs_Seq st, os_prev = cs_Prev st\<rparr>], v_Segments := v_Segments v + 1\<rparr>
      else if cs_Seq st \<noteq> v_prevSeq v + 1 then
        add_problem n (cs_Seq st) (''sequence gap: expected '' @ show_uint (v_prevSeq v + 1)) v
      else if cs_Prev st \<noteq> v_prevMAC v then
        add_problem n (cs_Seq st) ''previous-record link mismatch (record removed or reordered)'' v
      else v)"

definition EventAuditPruned :: string where
  "EventAuditPruned = ''audit.pruned''"

definition pruned_pattern :: bytes where
  \<open>pruned_pattern = ''"type":"'' @ EventAuditPruned @ ''"''\<close>

definition verify_mac :: "codec \<Rightarrow> bytes \<Rightarrow> nat \<Rightarrow> bytes \<Rightarrow> chainState \<Rightarrow> verify \<Rightarrow> verify" where
  "verify_mac cd key n event st v =
     (if chainMAC cd key (cs_Seq st) (cs_Prev st) event \<noteq> cs_MAC st then
        add_problem n (cs_Seq st) ''MAC mismatch (record modified, or wrong key)'' v
      else if last_index pruned_pattern event \<noteq> None then
        (case cd_pruned cd event of
           Some (lastSeq, lastMAC) \<Rightarrow> v\<lparr>v_pruned := (lastSeq @ ''/'' @ lastMAC) # v_pruned v\<rparr>
         | None \<Rightarrow> v)
      else v)"

definition verify_line :: "codec \<Rightarrow> bytes \<Rightarrow> nat \<times> bytes \<Rightarrow> verify \<Rightarrow> verify" where
  "verify_line cd key nl v =
     (case nl of (n, raw) \<Rightarrow>
      let line = trim_space raw in
      if line = [] then v
      else let v1 = v\<lparr>v_Records := v_Records v + 1\<rparr> in
        (case splitChained cd line of
           Plain \<Rightarrow>
             (if v_inChain v then add_problem n 0 ''unchained record inside a chained segment'' v1 else v1)
               \<lparr>v_Unchained := v_Unchained v + 1, v_inChain := False\<rparr>
         | Broken e \<Rightarrow> (add_problem n 0 e v1)\<lparr>v_Chained := v_Chained v + 1, v_inChain := False\<rparr>
         | Linked event st \<Rightarrow>
             (verify_mac cd key n event st (verify_link n st (v1\<lparr>v_Chained := v_Chained v + 1\<rparr>)))
               \<lparr>v_prevSeq := cs_Seq st, v_prevMAC := cs_MAC st, v_inChain := True,
                v_LastSeq := cs_Seq st, v_LastMAC := cs_MAC st\<rparr>))"

text \<open>
  The lines \<^verbatim>\<open>bufio.Scanner\<close> delivers with a buffer of at most 16 MiB: the last line need not be
  terminated, a trailing carriage return is dropped, and a line that does not fit ends the scan with an error.
\<close>

definition raw_lines :: "bytes \<Rightarrow> bytes list" where
  "raw_lines data = (let ls = split_on NL data in if last ls = [] then butlast ls else ls)"

definition fits :: "bytes \<Rightarrow> bool" where
  "fits l \<longleftrightarrow> int (length l) < 16777216"

definition scan_lines :: "bytes \<Rightarrow> bytes list \<times> goerr option" where
  "scan_lines data =
     (map (trim_suffix [CHR 0x0D]) (takeWhile fits (raw_lines data)),
      if list_all fits (raw_lines data) then None else Some (ErrMsg ''bufio.Scanner: token too long''))"

definition verify_start :: "openStart \<Rightarrow> verify \<Rightarrow> verify" where
  "verify_start s v =
     (if show_uint (os_seq s - 1) @ ''/'' @ os_prev s \<in> set (v_pruned v) then v
      else add_problem (os_line s) (os_seq s)
        ''chain does not start at seq 1 and no audit.pruned record explains the missing records'' v)"

definition VerifyChain :: "codec \<Rightarrow> bytes \<Rightarrow> bytes \<Rightarrow> verify \<times> goerr option" where
  "VerifyChain cd key data =
     (case scan_lines data of (ls, err) \<Rightarrow>
        let v = fold (verify_line cd key) (zip [1..<Suc (length ls)] ls) verify0 in
        if err \<noteq> None then (v, err) else (fold verify_start (v_starts v) v, None))"

definition report_OK :: "verify \<Rightarrow> bool" where
  "report_OK v \<longleftrightarrow> v_Problems v = []"

section \<open>The file sink\<close>

text \<open>\<open>k_rotated\<close> lists the rotated files by name, oldest first.\<close>

record sink =
  k_live :: bytes
  k_size :: int
  k_chain :: "chain option"
  k_rotated :: "(string \<times> bytes) list"
  k_MaxSize :: int
  k_MaxBackups :: int

text \<open>What \<^verbatim>\<open>s.file.Write\<close> did with a buffer: the bytes it wrote and its error.\<close>

type_synonym write_result = "bytes \<Rightarrow> nat \<times> goerr option"

definition sink_write :: "write_result \<Rightarrow> bytes \<Rightarrow> sink \<Rightarrow> goerr option \<times> sink" where
  "sink_write wr line s =
     (case wr line of (n, err) \<Rightarrow>
        (map_option (\<lambda>e. ErrMsg (''write audit event to file sink: '' @ err_text e)) err,
         s\<lparr>k_live := k_live s @ take n line, k_size := k_size s + int n\<rparr>))"

definition appendLocked :: "codec \<Rightarrow> write_result \<Rightarrow> bytes \<Rightarrow> sink \<Rightarrow> goerr option \<times> sink" where
  "appendLocked cd wr line s =
     (case k_chain s of
        None \<Rightarrow> sink_write wr line s
      | Some c \<Rightarrow>
          (case seal cd c line of
             Inl e \<Rightarrow> (Some e, s)
           | Inr (sealed, st) \<Rightarrow>
               (case sink_write wr (sealed @ [NL]) s of
                  (Some e, s1) \<Rightarrow> (Some e, s1)
                | (None, s1) \<Rightarrow> (None, s1\<lparr>k_chain := Some (commit st c)\<rparr>))))"

definition lastChainState :: "codec \<Rightarrow> bytes \<Rightarrow> chainState option" where
  "lastChainState cd file =
     (if file = [] then None
      else
        let buf = drop (length file - 1048576) file;
            lines = split_on NL (rev (dropWhile (\<lambda>c. c = NL) (rev buf)))
        in case splitChained cd (trim_space (last lines)) of Linked _ st \<Rightarrow> Some st | _ \<Rightarrow> None)"

text \<open>\<open>prune_oldest\<close> is one round of the retention loop: record the oldest file, then remove it.\<close>

definition prune_oldest :: "codec \<Rightarrow> write_result \<Rightarrow> sink \<Rightarrow> goerr option \<times> sink" where
  "prune_oldest cd wr s =
     (case k_rotated s of
        [] \<Rightarrow> (None, s)
      | (name, content) # rest \<Rightarrow>
          (case appendLocked cd wr (cd_prune_event cd name (lastChainState cd content)) s of
             (Some e, s1) \<Rightarrow> (Some e, s1)
           | (None, s1) \<Rightarrow> (None, s1\<lparr>k_rotated := rest\<rparr>)))"

fun prune_rounds :: "nat \<Rightarrow> codec \<Rightarrow> write_result \<Rightarrow> sink \<Rightarrow> goerr option \<times> sink" where
  "prune_rounds 0 cd wr s = (None, s)"
| "prune_rounds (Suc n) cd wr s =
     (case prune_oldest cd wr s of (Some e, s1) \<Rightarrow> (Some e, s1) | (None, s1) \<Rightarrow> prune_rounds n cd wr s1)"

text \<open>\<open>name\<close> is the rotated name the clock gives; renaming onto an existing file replaces it.\<close>

definition rotateLocked :: "codec \<Rightarrow> write_result \<Rightarrow> string \<Rightarrow> sink \<Rightarrow> goerr option \<times> sink" where
  "rotateLocked cd wr name s =
     (let others = filter (\<lambda>(m, _). m \<noteq> name) (k_rotated s);
          s1 = s\<lparr>k_rotated := filter (\<lambda>(m, _). m < name) others @ (name, k_live s) # filter (\<lambda>(m, _). \<not> m < name) others,
                 k_live := [], k_size := 0\<rparr>
      in if k_MaxBackups s \<le> 0 then (None, s1)
         else prune_rounds (length (k_rotated s1) - nat (k_MaxBackups s)) cd wr s1)"

text \<open>\<^verbatim>\<open>FileSink.Write\<close> of an encoded event.\<close>

definition sink_Write :: "codec \<Rightarrow> write_result \<Rightarrow> string \<Rightarrow> bytes \<Rightarrow> sink \<Rightarrow> goerr option \<times> sink" where
  "sink_Write cd wr name line s =
     (if k_MaxSize s > 0 \<and> k_size s > 0 \<and> k_size s + int (length line) + 128 > k_MaxSize s then
        (case rotateLocked cd wr name s of
           (Some e, s1) \<Rightarrow> (Some (ErrMsg (''rotate audit file: '' @ err_text e)), s1)
         | (None, s1) \<Rightarrow> appendLocked cd wr line s1)
      else appendLocked cd wr line s)"

text \<open>The whole log as one stream, with a line feed after each file, and where a restart continues.\<close>

definition OpenLog :: "sink \<Rightarrow> bytes" where
  "OpenLog s = concat (map (\<lambda>f. f @ [NL]) (map snd (k_rotated s) @ [k_live s]))"

definition resumeChain :: "codec \<Rightarrow> bytes \<Rightarrow> bytes list \<Rightarrow> chain" where
  "resumeChain cd key files =
     (case filter (\<lambda>f. f \<noteq> []) (rev files) of
        [] \<Rightarrow> \<lparr>c_key = key, c_seq = 0, c_prev = []\<rparr>
      | f # _ \<Rightarrow>
          (case lastChainState cd f of
             Some st \<Rightarrow> \<lparr>c_key = key, c_seq = cs_Seq st, c_prev = cs_MAC st\<rparr>
           | None \<Rightarrow> \<lparr>c_key = key, c_seq = 0, c_prev = []\<rparr>))"

end
