(* ===== verification/Audit_Props.thy ===== *)
theory Audit_Props
  imports Audit_Chain
begin

text \<open>
  The audit log is tamper-evident: what the sink writes, rotates and prunes verifies, and what verifies is a
  beginning of what was sealed.  A sealed line reads back as its record; a log is a list of records that are
  \<open>linked\<close>; the sink's files hold such a log (\<open>sink_holds\<close>, \<open>good\<close>); verification accepts linked logs and
  nothing else.
\<close>

section \<open>Reading back what was sealed\<close>

definition is_hex :: "char \<Rightarrow> bool" where
  "is_hex c \<longleftrightarrow> c \<in> set ''0123456789abcdef''"

lemma hex_digit_is_hex: "n < 16 \<Longrightarrow> is_hex (hex_digit n)"
proof -
  have "\<forall>n\<in>set [0..<16]. is_hex (hex_digit n)" by code_simp
  then show "n < 16 \<Longrightarrow> is_hex (hex_digit n)" by simp
qed

lemma hex_encode_is_hex: "list_all is_hex (hex_encode bs)"
proof -
  have "is_hex (hex_digit (of_char c div 16))" "is_hex (hex_digit (of_char c mod 16))" for c
    using nat_of_char_less_256 [of c] by (simp_all add: hex_digit_is_hex less_mult_imp_div_less)
  then show ?thesis by (auto simp: hex_encode_def list_all_iff)
qed

lemma chainMAC_is_hex [simp]: "list_all is_hex (chainMAC cd key seq prev ev)"
  by (simp add: chainMAC_def hex_encode_is_hex)

lemma digit_is_hex: "n < 10 \<Longrightarrow> is_hex (char_of (48 + n :: nat))"
  using hex_digit_is_hex [of n] by (simp add: hex_digit_def)

lemma digits_is_hex: "list_all is_hex (digits k n)"
  by (induction k n rule: digits.induct) (auto simp: digit_is_hex)

lemma show_uint_is_hex [simp]: "list_all is_hex (show_uint n)"
  unfolding show_uint_def by (rule digits_is_hex)

lemma not_hex: "\<not> is_hex CHR '',''" "\<not> is_hex NL"
  by code_simp+

lemma hex_no_comma: "list_all is_hex s \<Longrightarrow> CHR '','' \<notin> set s"
  using not_hex by (auto simp: list_all_iff)

lemma hex_no_NL: "list_all is_hex s \<Longrightarrow> NL \<notin> set s"
  using not_hex by (auto simp: list_all_iff)

text \<open>A pattern that begins with a character the text before it lacks is found behind it.\<close>

lemma last_index_skip:
  assumes "c \<notin> set xs"
  shows "last_index (c # pat) (xs @ ys) = map_option ((+) (length xs)) (last_index (c # pat) ys)"
  using assms by (induction xs; cases "last_index (c # pat) ys") auto

lemma last_index_append:
  assumes "pat \<noteq> []" "last_index pat ys = Some i"
  shows "last_index pat (xs @ ys) = Some (length xs + i)"
  using assms by (induction xs) auto

definition seal_line :: "bytes \<Rightarrow> chainState \<Rightarrow> bytes" where
  "seal_line ev st = butlast ev @ chainMarker @ tl (marshal_state st) @ ''}''"

definition hex_state :: "chainState \<Rightarrow> bool" where
  "hex_state st \<longleftrightarrow> list_all is_hex (cs_Prev st) \<and> list_all is_hex (cs_MAC st)"

lemma marker_once:
  assumes "hex_state st"
  shows "last_index chainMarker (chainMarker @ tl (marshal_state st) @ ''}'') = Some 0"
proof -
  let ?p = \<open>''"chain":{''\<close>
  have m: "chainMarker = CHR '','' # ?p" by (simp add: chainMarker_def)
  have no: "CHR '','' \<notin> set (show_uint (cs_Seq st))" "CHR '','' \<notin> set (cs_Prev st)" "CHR '','' \<notin> set (cs_MAC st)"
    using assms by (auto simp: hex_state_def hex_no_comma)
  have 3: "last_index (CHR '','' # ?p) (cs_MAC st @ ''\"}}'') = None"
    unfolding last_index_skip [OF no(3)] by simp
  have 2: "last_index (CHR '','' # ?p) (cs_Prev st @ ''\",\"mac\":\"'' @ cs_MAC st @ ''\"}}'') = None"
    unfolding last_index_skip [OF no(2)] using 3 by simp
  have 1: "last_index (CHR '','' # ?p) (show_uint (cs_Seq st) @ '',\"prev\":\"'' @ cs_Prev st @ ''\",\"mac\":\"'' @ cs_MAC st @ ''\"}}'') = None"
    unfolding last_index_skip [OF no(1)] using 2 by simp
  show ?thesis using 1 unfolding m marshal_state_def by simp
qed

text \<open>What the code relies on from \<^verbatim>\<open>encoding/json\<close>: decoding an encoded chain state gives it back.\<close>

definition json_roundtrip :: "codec \<Rightarrow> bool" where
  "json_roundtrip cd \<longleftrightarrow> (\<forall>st. hex_state st \<longrightarrow> cd_unmarshal cd (marshal_state st) = Inr st)"

lemma splitChained_seal_line:
  assumes "json_roundtrip cd" "hex_state st" "ev \<noteq> []" "last ev = CHR ''}''"
  shows "splitChained cd (seal_line ev st) = Linked ev st"
proof -
  have idx: "last_index chainMarker (seal_line ev st) = Some (length (butlast ev))"
    using last_index_append [OF _ marker_once [OF assms(2)], of "butlast ev"]
    by (simp add: seal_line_def chainMarker_def)
  have tail: "butlast (drop (length (butlast ev) + length chainMarker - 1) (seal_line ev st)) = marshal_state st"
    by (simp add: seal_line_def chainMarker_def marshal_state_def butlast_append)
  have lst: "last (seal_line ev st) = CHR ''}''" by (simp add: seal_line_def)
  have "take (length (butlast ev)) (seal_line ev st) @ ''}'' = ev"
    using assms(3,4) append_butlast_last_id [of ev] by (simp add: seal_line_def)
  then show ?thesis
    using assms(1,2) unfolding splitChained_def idx option.case tail lst by (simp add: json_roundtrip_def)
qed

section \<open>Lines\<close>

text \<open>An encoded event: one JSON object on one line.\<close>

definition is_object :: "bytes \<Rightarrow> bool" where
  "is_object ev \<longleftrightarrow> 2 \<le> length ev \<and> hd ev = CHR ''{'' \<and> last ev = CHR ''}'' \<and> NL \<notin> set ev"

lemma trim_left_stop:
  assumes "\<forall>r\<in>set rs. r \<noteq> [] \<and> hd r \<noteq> hd s" "s \<noteq> []"
  shows "trim_left_fuel n rs s = s"
proof -
  have "find (\<lambda>r. prefix r s) rs = None"
    using assms by (auto simp: find_None_iff prefix_def neq_Nil_conv)
  then show ?thesis by (cases n) simp_all
qed

lemma runes_no_brace:
  "\<forall>r\<in>set space_runes. r \<noteq> [] \<and> hd r \<noteq> CHR ''{''" "\<forall>r\<in>set (map rev space_runes). r \<noteq> [] \<and> hd r \<noteq> CHR ''}''"
  using space_runes_heads space_runes_ne by (auto simp: list_all_iff plain_char_def hd_rev)

lemma find_NL: "find (\<lambda>r. prefix r (NL # s)) (map rev space_runes) = Some [NL]"
proof -
  have runes: "\<forall>r\<in>set (map rev space_runes). r \<noteq> [] \<and> (hd r = NL \<longrightarrow> r = [NL])" "[NL] \<in> set (map rev space_runes)"
    by (simp_all add: space_runes_def NL_def char_of_def bit_Suc_0_iff bit_1_iff)
  have "find (\<lambda>r. prefix r (NL # s)) (map rev space_runes) \<noteq> None"
    unfolding find_None_iff using runes(2) by (metis Cons_prefix_Cons Nil_prefix)
  then obtain r where r: "find (\<lambda>r. prefix r (NL # s)) (map rev space_runes) = Some r" by blast
  then have "prefix r (NL # s)" "r \<in> set (map rev space_runes)"
    by (metis (mono_tags, lifting) find_Some_iff nth_mem)+
  moreover from this(2) have "r \<noteq> [] \<and> (hd r = NL \<longrightarrow> r = [NL])" using runes(1) by blast
  ultimately have "r = [NL]" by (cases r) auto
  then show ?thesis using r by simp
qed

lemma trim_object:
  assumes "hd s = CHR ''{''" "last s = CHR ''}''" "s \<noteq> []"
  shows "trim_space s = s" and "trim_space (s @ [NL]) = s"
proof -
  have l: "trim_left_fuel k space_runes (s @ t) = s @ t" for k t
    using runes_no_brace(1) assms by (intro trim_left_stop) auto
  have r: "trim_left_fuel k (map rev space_runes) (rev s) = rev s" for k
    using runes_no_brace(2) assms by (intro trim_left_stop) (auto simp: hd_rev)
  show "trim_space s = s" using l [of _ "[]"] r by (simp add: trim_space_def)
  have "find (\<lambda>r. prefix r (NL # rev s)) (map rev space_runes) = Some [NL]"
    by (rule find_NL)
  then show "trim_space (s @ [NL]) = s" using l [of _ "[NL]"] r by (simp add: trim_space_def)
qed

section \<open>Logs of sealed records\<close>

type_synonym sealed = "bytes \<times> chainState"

definition sealed_line :: "sealed \<Rightarrow> bytes" where
  "sealed_line r = seal_line (fst r) (snd r)"

definition file_of_records :: "sealed list \<Rightarrow> bytes" where
  "file_of_records rs = concat (map (\<lambda>r. sealed_line r @ [NL]) rs)"

definition short :: "bytes \<Rightarrow> bool" where
  "short ev \<longleftrightarrow> int (length ev) \<le> 1000000"

text \<open>\<open>rs\<close> continues a chain that stands at \<open>seq\<close> and \<open>prev\<close>; \<open>chain_end\<close> is where it then stands.\<close>

fun linked :: "codec \<Rightarrow> bytes \<Rightarrow> 64 word \<Rightarrow> string \<Rightarrow> sealed list \<Rightarrow> bool" where
  "linked cd key seq prev [] = True"
| "linked cd key seq prev ((ev, st) # rs) \<longleftrightarrow>
     is_object ev \<and> short ev \<and> st = \<lparr>cs_Seq = seq + 1, cs_Prev = prev, cs_MAC = chainMAC cd key (seq + 1) prev ev\<rparr>
     \<and> linked cd key (seq + 1) (cs_MAC st) rs"

fun chain_end :: "64 word \<Rightarrow> string \<Rightarrow> sealed list \<Rightarrow> 64 word \<times> string" where
  "chain_end seq prev [] = (seq, prev)"
| "chain_end seq prev ((ev, st) # rs) = chain_end (cs_Seq st) (cs_MAC st) rs"

lemma chain_end_append: "chain_end seq prev (rs @ ts) = (case chain_end seq prev rs of (q, p) \<Rightarrow> chain_end q p ts)"
  by (induction seq prev rs rule: chain_end.induct) auto

lemma linked_append:
  "linked cd key seq prev (rs @ ts) \<longleftrightarrow>
     linked cd key seq prev rs \<and> (case chain_end seq prev rs of (q, p) \<Rightarrow> linked cd key q p ts)"
  by (induction cd key seq prev rs rule: linked.induct) auto

lemma chain_end_seq: "linked cd key seq prev rs \<Longrightarrow> fst (chain_end seq prev rs) = seq + of_nat (length rs)"
  by (induction cd key seq prev rs rule: linked.induct) (auto simp: algebra_simps)

lemma linked_hex:
  "linked cd key seq prev rs \<Longrightarrow> list_all is_hex prev \<Longrightarrow> r \<in> set rs \<Longrightarrow> hex_state (snd r) \<and> is_object (fst r) \<and> short (fst r)"
  by (induction cd key seq prev rs rule: linked.induct) (auto simp: hex_state_def)

lemma chain_end_hex: "linked cd key seq prev rs \<Longrightarrow> list_all is_hex prev \<Longrightarrow> list_all is_hex (snd (chain_end seq prev rs))"
  by (induction cd key seq prev rs rule: linked.induct) auto

lemma chain_end_last: "rs \<noteq> [] \<Longrightarrow> chain_end seq prev rs = (cs_Seq (snd (last rs)), cs_MAC (snd (last rs)))"
  by (induction seq prev rs rule: chain_end.induct) auto

lemma digits_length: "n < 10 ^ k \<Longrightarrow> 0 < k \<Longrightarrow> length (digits m n) \<le> k"
proof (induction m n arbitrary: k rule: digits.induct)
  case (2 m n)
  show ?case
  proof (cases "n < 10")
    case False
    then have "1 < k" using 2(2) by (cases k) (auto simp: power_eq_if split: if_splits)
    moreover have "n div 10 < 10 ^ (k - 1)" using 2(2,3) by (cases k) (auto simp: less_mult_imp_div_less)
    ultimately show ?thesis using 2(1) [OF False, of "k - 1"] False by simp
  qed (use 2 in simp)
qed simp

lemma show_uint_length: "length (show_uint n) \<le> 20"
  unfolding show_uint_def
  by (rule digits_length) (use unsigned_less [of n, where ?'a = nat] in simp_all)

lemma object_line:
  assumes "is_object (fst r)"
  shows "hd (sealed_line r) = CHR ''{''" "last (sealed_line r) = CHR ''}''" "sealed_line r \<noteq> []"
proof -
  have "butlast (fst r) \<noteq> []" "hd (butlast (fst r)) = CHR ''{''"
    using assms by (cases "fst r"; cases "tl (fst r)"; auto simp: is_object_def)+
  then show "hd (sealed_line r) = CHR ''{''" "sealed_line r \<noteq> []" by (auto simp: sealed_line_def seal_line_def)
  show "last (sealed_line r) = CHR ''}''" by (simp add: sealed_line_def seal_line_def)
qed

lemma sealed_line_no_NL:
  assumes "is_object (fst r)" "hex_state (snd r)"
  shows "NL \<notin> set (sealed_line r)"
proof -
  have "NL \<notin> set (butlast (fst r))" using assms(1) by (auto simp: is_object_def dest: in_set_butlastD)
  moreover have "NL \<notin> set (cs_Prev (snd r))" "NL \<notin> set (cs_MAC (snd r))" "NL \<notin> set (show_uint (cs_Seq (snd r)))"
    using assms(2) by (auto simp: hex_state_def hex_no_NL)
  ultimately show ?thesis
    by (simp add: sealed_line_def seal_line_def marshal_state_def chainMarker_def NL_def)
qed

definition mac_size :: "codec \<Rightarrow> bool" where
  "mac_size cd \<longleftrightarrow> (\<forall>k m. length (cd_hmac cd k m) = 32)"

lemma length_hex_encode: "length (hex_encode bs) = 2 * length bs"
  by (induction bs) (auto simp: hex_encode_def)

lemma chainMAC_length: "mac_size cd \<Longrightarrow> length (chainMAC cd key seq prev ev) = 64"
  by (simp add: chainMAC_def length_hex_encode mac_size_def)

lemma linked_mac_length:
  "mac_size cd \<Longrightarrow> linked cd key seq prev rs \<Longrightarrow> length prev \<le> 64 \<Longrightarrow> r \<in> set rs \<Longrightarrow>
     length (cs_Prev (snd r)) \<le> 64 \<and> length (cs_MAC (snd r)) = 64"
  by (induction cd key seq prev rs rule: linked.induct) (auto simp: chainMAC_length)

lemma sealed_line_short:
  assumes "short (fst r)" "length (cs_Prev (snd r)) \<le> 64" "length (cs_MAC (snd r)) = 64"
  shows "length (sealed_line r) < 1048000"
proof -
  have "int (length (fst r)) \<le> 1000000" using assms(1) by (simp add: short_def)
  then have "length (butlast (fst r)) \<le> 1000000" by simp
  moreover have "length (sealed_line r) = length (butlast (fst r)) + length (show_uint (cs_Seq (snd r)))
      + length (cs_Prev (snd r)) + length (cs_MAC (snd r)) + 37"
    by (simp add: sealed_line_def seal_line_def marshal_state_def chainMarker_def)
  ultimately show ?thesis using assms(2,3) show_uint_length [of "cs_Seq (snd r)"] by linarith
qed

section \<open>The newest record of a file\<close>

lemma last_split_line:
  assumes "NL \<notin> set l" "x = [] \<or> last x = NL"
  shows "last (split_on NL (x @ l)) = l"
proof (cases "x = []")
  case True
  then show ?thesis using assms(1) by (simp add: split_on_id)
next
  case False
  then obtain y where "x = y @ [NL]" using assms(2) append_butlast_last_id by metis
  then show ?thesis using assms(1) by (simp add: split_on_append split_on_id)
qed

lemma lastChainState_file:
  assumes json: "json_roundtrip cd" and size: "mac_size cd" and l: "linked cd key seq prev rs" and hex: "list_all is_hex prev"
    and len: "length prev \<le> 64" and ne: "rs \<noteq> []"
  shows "lastChainState cd (file_of_records rs) = Some (snd (last rs))"
proof -
  let ?r = "last rs"
  have r: "hex_state (snd ?r)" "is_object (fst ?r)" "short (fst ?r)" using linked_hex [OF l hex] ne by simp_all
  have mac: "length (cs_Prev (snd ?r)) \<le> 64" "length (cs_MAC (snd ?r)) = 64"
    using linked_mac_length [OF size l len] ne by simp_all
  have sl: "length (sealed_line ?r) < 1048000" by (rule sealed_line_short [OF r(3) mac])
  define x where "x = file_of_records (butlast rs)"
  have fr: "file_of_records rs = x @ sealed_line ?r @ [NL]"
    using ne append_butlast_last_id [of rs] by (metis (no_types, lifting) append_Nil2 concat.simps concat_append file_of_records_def list.map map_append x_def)
  have x: "x = [] \<or> last x = NL"
    by (cases "butlast rs" rule: rev_cases) (simp_all add: x_def file_of_records_def)
  define d where "d = length (file_of_records rs) - 1048576"
  have "d \<le> length x" using sl by (simp add: d_def fr)
  then have buf: "drop d (file_of_records rs) = drop d x @ sealed_line ?r @ [NL]" by (simp add: fr)
  have dx: "drop d x = [] \<or> last (drop d x) = NL" using x by (cases "d < length x") auto
  have strip: "rev (dropWhile (\<lambda>c. c = NL) (rev (drop d x @ sealed_line ?r @ [NL]))) = drop d x @ sealed_line ?r"
  proof -
    have "rev (sealed_line ?r) \<noteq> []" "hd (rev (sealed_line ?r)) \<noteq> NL"
      using object_line [OF r(2)] by (auto simp: hd_rev NL_def)
    then show ?thesis by (cases "rev (sealed_line ?r)") (auto simp: rev_swap)
  qed
  have split: "last (split_on NL (drop d x @ sealed_line ?r)) = sealed_line ?r"
    by (rule last_split_line [OF sealed_line_no_NL [OF r(2,1)] dx])
  have trim: "trim_space (sealed_line ?r) = sealed_line ?r" by (rule trim_object(1) [OF object_line [OF r(2)]])
  have "splitChained cd (sealed_line ?r) = Linked (fst ?r) (snd ?r)"
    unfolding sealed_line_def by (rule splitChained_seal_line [OF json r(1)]) (use r(2) in \<open>auto simp: is_object_def\<close>)
  moreover have "file_of_records rs \<noteq> []" by (simp add: fr)
  ultimately show ?thesis
    unfolding lastChainState_def Let_def d_def [symmetric] buf strip split trim by simp
qed

section \<open>Verifying sealed records\<close>

definition prune_key :: "codec \<Rightarrow> bytes \<Rightarrow> string list" where
  "prune_key cd ev =
     (if last_index pruned_pattern ev = None then []
      else (case cd_pruned cd ev of Some (q, m) \<Rightarrow> [q @ ''/'' @ m] | None \<Rightarrow> []))"

lemma verify_mac_ok:
  "chainMAC cd key (cs_Seq st) (cs_Prev st) ev = cs_MAC st \<Longrightarrow>
     verify_mac cd key n ev st v = v\<lparr>v_pruned := prune_key cd ev @ v_pruned v\<rparr>"
  by (auto simp: verify_mac_def prune_key_def split: option.splits)

lemma verify_line_sealed:
  assumes "json_roundtrip cd" "hex_state (snd r)" "is_object (fst r)"
  shows "verify_line cd key (n, sealed_line r) v =
    (verify_mac cd key n (fst r) (snd r)
        (verify_link n (snd r) (v\<lparr>v_Records := v_Records v + 1, v_Chained := v_Chained v + 1\<rparr>)))
      \<lparr>v_prevSeq := cs_Seq (snd r), v_prevMAC := cs_MAC (snd r), v_inChain := True,
       v_LastSeq := cs_Seq (snd r), v_LastMAC := cs_MAC (snd r)\<rparr>"
proof -
  have "trim_space (sealed_line r) = sealed_line r" by (rule trim_object(1) [OF object_line [OF assms(3)]])
  moreover have "sealed_line r \<noteq> []" by (rule object_line(3) [OF assms(3)])
  moreover have "splitChained cd (sealed_line r) = Linked (fst r) (snd r)"
    unfolding sealed_line_def by (rule splitChained_seal_line [OF assms(1,2)]) (use assms(3) in \<open>auto simp: is_object_def\<close>)
  ultimately show ?thesis by (simp add: verify_line_def Let_def)
qed

lemma verify_line_blank: "verify_line cd key (n, []) v = v"
  by (simp add: verify_line_def trim_space_def)

text \<open>Inside a chain, the records that continue it are accepted without a problem.\<close>

lemma verify_continues:
  assumes "json_roundtrip cd"
  shows "linked cd key q p rs \<Longrightarrow> list_all is_hex p \<Longrightarrow> filter (\<lambda>l. l \<noteq> []) (map snd nls) = map sealed_line rs \<Longrightarrow>
     v_inChain v \<Longrightarrow> v_prevSeq v = q \<Longrightarrow> v_prevMAC v = p \<Longrightarrow> v_LastSeq v = q \<Longrightarrow> v_LastMAC v = p \<Longrightarrow>
     0 < unat q \<Longrightarrow> unat q + length rs < 2 ^ 64 \<Longrightarrow> v' = fold (verify_line cd key) nls v \<Longrightarrow>
     v_Problems v' = v_Problems v \<and> v_Unchained v' = v_Unchained v \<and> v_starts v' = v_starts v
     \<and> set (v_pruned v') = set (v_pruned v) \<union> (\<Union>r\<in>set rs. set (prune_key cd (fst r)))
     \<and> (v_LastSeq v', v_LastMAC v') = chain_end q p rs"
proof (induction nls arbitrary: q p rs v)
  case (Cons nl nls)
  obtain n l where nl: "nl = (n, l)" by (cases nl)
  show ?case
  proof (cases "l = []")
    case True
    then show ?thesis using Cons.IH [of q p rs v] Cons.prems nl by (simp add: verify_line_blank)
  next
    case False
    then obtain r rs' where rs: "rs = r # rs'" "l = sealed_line r" "filter (\<lambda>l. l \<noteq> []) (map snd nls) = map sealed_line rs'"
      using Cons.prems(3) nl by (cases rs) auto
    obtain ev st where r: "r = (ev, st)" by (cases r)
    have st: "is_object ev" "st = \<lparr>cs_Seq = q + 1, cs_Prev = p, cs_MAC = chainMAC cd key (q + 1) p ev\<rparr>"
      "linked cd key (q + 1) (cs_MAC st) rs'" using Cons.prems(1) rs(1) r by auto
    have q1: "unat (q + 1) = Suc (unat q)" "q + 1 \<noteq> 1"
    proof -
      have "unat q + 1 < 2 ^ 64" using Cons.prems(10) rs(1) by simp
      then show u: "unat (q + 1) = Suc (unat q)" by (simp add: unat_word_ariths)
      show "q + 1 \<noteq> 1" using u Cons.prems(9) by auto
    qed
    have hex: "hex_state st" using Cons.prems(2) st(2) by (simp add: hex_state_def)
    define w where "w = verify_line cd key (n, sealed_line r) v"
    have "w = v\<lparr>v_Records := v_Records v + 1, v_Chained := v_Chained v + 1, v_pruned := prune_key cd ev @ v_pruned v,
        v_prevSeq := cs_Seq st, v_prevMAC := cs_MAC st, v_inChain := True, v_LastSeq := cs_Seq st, v_LastMAC := cs_MAC st\<rparr>"
      unfolding w_def r using assms hex st q1 Cons.prems
      by (subst verify_line_sealed) (simp_all add: verify_mac_ok verify_link_def)
    moreover have "v' = fold (verify_line cd key) nls w" using Cons.prems(11) nl rs(2) by (simp add: w_def)
    ultimately show ?thesis
      using Cons.IH [of "q + 1" "cs_MAC st" rs' w] st q1 rs Cons.prems r by auto
  qed
qed simp

text \<open>
  From a fresh start, a linked log whose start is either the first record or explained by a prune record verifies.
\<close>

lemma verify_log:
  assumes json: "json_roundtrip cd" and l: "linked cd key q p rs" and hex: "list_all is_hex p"
    and nls: "filter (\<lambda>l. l \<noteq> []) (map snd nls) = map sealed_line rs"
    and len: "unat q + length rs < 2 ^ 64" and q0: "q = 0 \<longrightarrow> p = []"
    and v: "v = fold (verify_line cd key) nls verify0"
  shows "v_Problems v = [] \<and> v_Unchained v = 0 \<and> (\<forall>s\<in>set (v_starts v). os_seq s = q + 1 \<and> os_prev s = p \<and> q \<noteq> 0)
     \<and> set (v_pruned v) = (\<Union>r\<in>set rs. set (prune_key cd (fst r)))
     \<and> (v_LastSeq v, v_LastMAC v) = (if rs = [] then (0, []) else chain_end q p rs)"
  using nls v
proof (induction nls)
  case (Cons nl nls)
  obtain n l where nl: "nl = (n, l)" by (cases nl)
  show ?case
  proof (cases "l = []")
    case True
    then show ?thesis using Cons nl by (simp add: verify_line_blank)
  next
    case False
    then obtain r rs' where rs: "rs = r # rs'" "l = sealed_line r" "filter (\<lambda>l. l \<noteq> []) (map snd nls) = map sealed_line rs'"
      using Cons.prems(1) nl by (cases rs) auto
    obtain ev st where r: "r = (ev, st)" by (cases r)
    have st: "is_object ev" "st = \<lparr>cs_Seq = q + 1, cs_Prev = p, cs_MAC = chainMAC cd key (q + 1) p ev\<rparr>"
      "linked cd key (q + 1) (cs_MAC st) rs'" using l rs(1) r by auto
    have q1: "unat (q + 1) = Suc (unat q)"
      using len rs(1) by (simp add: unat_word_ariths)
    have hexst: "hex_state st" using hex st(2) by (simp add: hex_state_def)
    define w where "w = verify_line cd key (n, sealed_line r) verify0"
    have "w = verify0\<lparr>v_Records := 1, v_Chained := 1, v_Segments := 1, v_pruned := prune_key cd ev,
        v_starts := (if q = 0 then [] else [\<lparr>os_line = n, os_seq = q + 1, os_prev = p\<rparr>]),
        v_prevSeq := cs_Seq st, v_prevMAC := cs_MAC st, v_inChain := True, v_LastSeq := cs_Seq st, v_LastMAC := cs_MAC st\<rparr>"
      unfolding w_def r using json hexst st q0
      by (subst verify_line_sealed) (auto simp: verify_mac_ok verify_link_def verify0_def)
    moreover have "v = fold (verify_line cd key) nls w" using Cons.prems(2) nl rs(2) by (simp add: w_def)
    ultimately show ?thesis
      using verify_continues [OF json, of key "q + 1" "cs_MAC st" rs' nls w v] st q1 rs len r
      by (auto simp: verify0_def)
  qed
qed (simp_all add: verify0_def)

lemma split_on_lines: "\<forall>l\<in>set ls. NL \<notin> set l \<Longrightarrow> split_on NL (concat (map (\<lambda>l. l @ [NL]) ls)) = ls @ [[]]"
  by (induction ls) (simp_all add: split_on_append split_on_id)

lemma raw_lines_lines: "\<forall>l\<in>set ls. NL \<notin> set l \<Longrightarrow> raw_lines (concat (map (\<lambda>l. l @ [NL]) ls)) = ls"
  by (simp add: raw_lines_def split_on_lines Let_def)

definition log_lines :: "sealed list list \<Rightarrow> bytes list" where
  "log_lines rss = concat (map (\<lambda>rs. map sealed_line rs @ [[]]) rss)"

definition log_bytes :: "sealed list list \<Rightarrow> bytes" where
  "log_bytes rss = concat (map (\<lambda>f. f @ [NL]) (map file_of_records rss))"

lemma log_bytes_lines: "log_bytes rss = concat (map (\<lambda>l. l @ [NL]) (log_lines rss))"
  by (induction rss) (simp_all add: log_bytes_def log_lines_def file_of_records_def comp_def)

lemma scan_log:
  assumes "mac_size cd" "linked cd key q p (concat rss)" "list_all is_hex p" "length p \<le> 64"
  shows "scan_lines (log_bytes rss) = (log_lines rss, None)"
    and "filter (\<lambda>l. l \<noteq> []) (log_lines rss) = map sealed_line (concat rss)"
proof -
  have obj: "is_object (fst r) \<and> hex_state (snd r) \<and> length (sealed_line r) < 1048000" if "r \<in> set (concat rss)" for r
    using linked_hex [OF assms(2,3) that] linked_mac_length [OF assms(1,2,4) that] sealed_line_short by blast
  have line: "l = [] \<or> (\<exists>r\<in>set (concat rss). l = sealed_line r)" if "l \<in> set (log_lines rss)" for l
    using that by (auto simp: log_lines_def split: if_splits)
  have "NL \<notin> set l \<and> fits l \<and> trim_suffix [CHR 0x0D] l = l" if "l \<in> set (log_lines rss)" for l
    using line [OF that]
  proof
    assume "\<exists>r\<in>set (concat rss). l = sealed_line r"
    then obtain r where r: "r \<in> set (concat rss)" "l = sealed_line r" by blast
    have "last l = CHR ''}''" using object_line(2) obj [OF r(1)] r(2) by blast
    then show ?thesis
      using obj [OF r(1)] r(2) sealed_line_no_NL by (auto simp: fits_def trim_suffix_def suffix_def)
  qed (simp add: fits_def trim_suffix_def)
  then show "scan_lines (log_bytes rss) = (log_lines rss, None)"
    using raw_lines_lines [of "log_lines rss"]
    by (simp add: scan_lines_def log_bytes_lines list_all_iff takeWhile_eq_all_conv [THEN iffD2] map_idI)
  have "sealed_line r \<noteq> []" if "r \<in> set (concat rss)" for r using object_line(3) obj [OF that] by blast
  then show "filter (\<lambda>l. l \<noteq> []) (log_lines rss) = map sealed_line (concat rss)"
    unfolding log_lines_def by (induction rss) (auto simp: filter_id_conv)
qed

lemma verify_starts_explained:
  "\<forall>s\<in>set ss. show_uint (os_seq s - 1) @ ''/'' @ os_prev s \<in> set (v_pruned v) \<Longrightarrow> fold verify_start ss v = v"
  by (induction ss) (auto simp: verify_start_def)

lemma log_verifies:
  assumes json: "json_roundtrip cd" and size: "mac_size cd" and l: "linked cd key q p (concat rss)" and hex: "list_all is_hex p"
    and p: "length p \<le> 64" and len: "unat q + length (concat rss) < 2 ^ 64" and q0: "q = 0 \<longrightarrow> p = []"
    and pr: "q \<noteq> 0 \<longrightarrow> (\<exists>r\<in>set (concat rss). show_uint q @ ''/'' @ p \<in> set (prune_key cd (fst r)))"
    and v: "VerifyChain cd key (log_bytes rss) = (v, err)"
  shows "err = None \<and> report_OK v \<and> v_Unchained v = 0
    \<and> (v_LastSeq v, v_LastMAC v) = (if concat rss = [] then (0, []) else chain_end q p (concat rss))"
proof -
  define nls where "nls = zip [1..<Suc (length (log_lines rss))] (log_lines rss)"
  define w where "w = fold (verify_line cd key) nls verify0"
  have "map snd nls = log_lines rss" unfolding nls_def by (rule map_snd_zip) (simp del: upt_Suc)
  then have "filter (\<lambda>l. l \<noteq> []) (map snd nls) = map sealed_line (concat rss)"
    using scan_log(2) [OF size l hex p] by simp
  from verify_log [OF json l hex this len q0 w_def]
  have w: "v_Problems w = []" "v_Unchained w = 0" "\<forall>s\<in>set (v_starts w). os_seq s = q + 1 \<and> os_prev s = p \<and> q \<noteq> 0"
    "set (v_pruned w) = (\<Union>r\<in>set (concat rss). set (prune_key cd (fst r)))"
    "(v_LastSeq w, v_LastMAC w) = (if concat rss = [] then (0, []) else chain_end q p (concat rss))" by blast+
  have "fold verify_start (v_starts w) w = w"
    by (rule verify_starts_explained) (use w(3,4) pr in auto)
  then have "v = w" "err = None"
    using v scan_log(1) [OF size l hex p] by (simp_all add: VerifyChain_def nls_def w_def)
  then show ?thesis using w(1,2,5) by (simp add: report_OK_def)
qed

section \<open>The sink keeps a verifiable log\<close>

text \<open>
  What the code relies on from \<^verbatim>\<open>encoding/json\<close> and \<^verbatim>\<open>crypto\<close>: the chain state round-trips, SHA-256 has 32 bytes, and
  an encoded prune event is one object line whose meta fields decode to the recorded state.
\<close>

definition codec_ok :: "codec \<Rightarrow> bool" where
  "codec_ok cd \<longleftrightarrow> json_roundtrip cd \<and> mac_size cd
     \<and> (\<forall>name st. length name \<le> 255 \<and> hex_state st \<and> length (cs_MAC st) = 64 \<longrightarrow>
          (\<exists>ev. cd_prune_event cd name (Some st) = ev @ [NL] \<and> is_object ev \<and> short ev
             \<and> prune_key cd ev = [show_uint (cs_Seq st) @ ''/'' @ cs_MAC st]))"

definition write_ok :: write_result where
  "write_ok l = (length l, None)"

definition explained :: "codec \<Rightarrow> 64 word \<Rightarrow> string \<Rightarrow> sealed list \<Rightarrow> bool" where
  "explained cd q p rs \<longleftrightarrow> (if q = 0 then p = [] else \<exists>r\<in>set rs. show_uint q @ ''/'' @ p \<in> set (prune_key cd (fst r)))"

text \<open>\<open>rss\<close> are the records of the rotated files, \<open>ls\<close> those of the live one; the chain starts at \<open>q\<close>, \<open>p\<close>.\<close>

definition sink_holds :: "codec \<Rightarrow> bytes \<Rightarrow> sink \<Rightarrow> 64 word \<Rightarrow> string \<Rightarrow> sealed list list \<Rightarrow> sealed list \<Rightarrow> bool" where
  "sink_holds cd key s q p rss ls \<longleftrightarrow>
     map snd (k_rotated s) = map file_of_records rss \<and> k_live s = file_of_records ls
     \<and> k_size s = int (length (k_live s))
     \<and> linked cd key q p (concat rss @ ls) \<and> list_all is_hex p \<and> length p \<le> 64
     \<and> k_chain s = Some \<lparr>c_key = key, c_seq = fst (chain_end q p (concat rss @ ls)), c_prev = snd (chain_end q p (concat rss @ ls))\<rparr>
     \<and> (\<forall>rs\<in>set rss. rs \<noteq> []) \<and> (\<forall>(name, _)\<in>set (k_rotated s). length name \<le> 255)"

lemma seal_object:
  assumes "is_object ev"
  shows "seal cd c (ev @ [NL]) = Inr (seal_line ev st, st) \<longleftrightarrow>
    st = \<lparr>cs_Seq = c_seq c + 1, cs_Prev = c_prev c, cs_MAC = chainMAC cd (c_key c) (c_seq c + 1) (c_prev c) ev\<rparr>"
proof -
  have "trim_space (ev @ [NL]) = ev" "2 \<le> length ev" "last ev = CHR ''}''"
    using trim_object(2) [of ev] assms by (cases ev; auto simp: is_object_def)+
  then show ?thesis by (auto simp: seal_def Let_def seal_line_def)
qed

lemma append_holds:
  assumes h: "sink_holds cd key s q p rss ls" and ev: "is_object ev" "short ev"
  shows "\<exists>st s'. appendLocked cd write_ok (ev @ [NL]) s = (None, s') \<and> sink_holds cd key s' q p rss (ls @ [(ev, st)])
    \<and> k_rotated s' = k_rotated s \<and> k_MaxSize s' = k_MaxSize s \<and> k_MaxBackups s' = k_MaxBackups s"
proof -
  define c where "c = \<lparr>c_key = key, c_seq = fst (chain_end q p (concat rss @ ls)), c_prev = snd (chain_end q p (concat rss @ ls))\<rparr>"
  define st where "st = \<lparr>cs_Seq = c_seq c + 1, cs_Prev = c_prev c, cs_MAC = chainMAC cd (c_key c) (c_seq c + 1) (c_prev c) ev\<rparr>"
  define s' where "s' = s\<lparr>k_live := k_live s @ seal_line ev st @ [NL], k_size := k_size s + int (length (seal_line ev st @ [NL])),
     k_chain := Some (commit st c)\<rparr>"
  have "seal cd c (ev @ [NL]) = Inr (seal_line ev st, st)" using seal_object [OF ev(1)] st_def by blast
  moreover have ch: "k_chain s = Some c" using h by (simp add: sink_holds_def c_def)
  ultimately have "appendLocked cd write_ok (ev @ [NL]) s = (None, s')"
    by (simp add: appendLocked_def sink_write_def write_ok_def s'_def)
  moreover have "sink_holds cd key s' q p rss (ls @ [(ev, st)])"
    using h ev unfolding sink_holds_def
    by (simp add: s'_def file_of_records_def sealed_line_def linked_append chain_end_append commit_def c_def st_def
        case_prod_unfold flip: append_assoc)
  ultimately show ?thesis by (auto simp: s'_def)
qed

lemma chain_end_unat:
  "linked cd key q p rs \<Longrightarrow> unat q + length rs < 2 ^ 64 \<Longrightarrow> unat (fst (chain_end q p rs)) = unat q + length rs"
  by (simp add: chain_end_seq unat_word_ariths unat_of_nat)

lemma prune_holds:
  assumes cd: "codec_ok cd" and h: "sink_holds cd key s q p (rs # rss) ls"
    and lt: "unat q + length (concat (rs # rss) @ ls) < 2 ^ 64"
  shows "\<exists>s' ls' q' p'. prune_oldest cd write_ok s = (None, s') \<and> sink_holds cd key s' q' p' rss ls'
    \<and> explained cd q' p' ls' \<and> unat q' + length (concat rss @ ls') \<le> Suc (unat q + length (concat (rs # rss) @ ls))
    \<and> k_rotated s' = tl (k_rotated s) \<and> k_MaxSize s' = k_MaxSize s \<and> k_MaxBackups s' = k_MaxBackups s"
proof -
  note H = h [unfolded sink_holds_def]
  obtain name rest where rot: "k_rotated s = (name, file_of_records rs) # rest" "map snd rest = map file_of_records rss"
    using H by (cases "k_rotated s") auto
  obtain q' p' where e: "chain_end q p rs = (q', p')" by (cases "chain_end q p rs")
  have lrs: "linked cd key q p rs" "linked cd key q' p' (concat rss @ ls)" using H e by (simp_all add: linked_append)
  have ne: "rs \<noteq> []" using H by simp
  define st where "st = snd (last rs)"
  have st: "cs_Seq st = q'" "cs_MAC st = p'" using e chain_end_last [OF ne, of q p] by (simp_all add: st_def)
  have hex: "hex_state st" using linked_hex [OF lrs(1), of "last rs"] H ne by (simp add: st_def)
  have mac: "length (cs_MAC st) = 64"
    using linked_mac_length [OF _ lrs(1), of "last rs"] H ne cd by (simp add: st_def codec_ok_def)
  have last: "lastChainState cd (file_of_records rs) = Some st"
    using lastChainState_file [OF _ _ lrs(1) _ _ ne] H cd by (simp add: codec_ok_def st_def)
  have "length name \<le> 255" using H rot by auto
  then obtain ev where ev: "cd_prune_event cd name (Some st) = ev @ [NL]" "is_object ev" "short ev"
    "prune_key cd ev = [show_uint q' @ ''/'' @ p']"
    using cd hex mac st unfolding codec_ok_def by metis
  obtain st1 s1 where s1: "appendLocked cd write_ok (ev @ [NL]) s = (None, s1)"
    "sink_holds cd key s1 q p (rs # rss) (ls @ [(ev, st1)])" "k_rotated s1 = k_rotated s" "k_MaxSize s1 = k_MaxSize s"
    "k_MaxBackups s1 = k_MaxBackups s"
    using append_holds [OF h ev(2,3)] by blast
  define s' where "s' = s1\<lparr>k_rotated := rest\<rparr>"
  have "prune_oldest cd write_ok s = (None, s')"
    using rot(1) last ev(1) s1(1) by (simp add: prune_oldest_def s'_def)
  moreover have "sink_holds cd key s' q' p' rss (ls @ [(ev, st1)])"
    using s1(2) e hex mac st rot s1(3)
    by (auto simp: sink_holds_def s'_def linked_append chain_end_append hex_state_def)
  moreover have q': "unat q' = unat q + length rs" using chain_end_unat [OF lrs(1)] e lt by simp
  moreover have "explained cd q' p' (ls @ [(ev, st1)])"
    using q' ne ev(4) by (auto simp: explained_def)
  moreover have "k_rotated s' = tl (k_rotated s)" "k_MaxSize s' = k_MaxSize s" "k_MaxBackups s' = k_MaxBackups s"
    using s1 rot(1) by (simp_all add: s'_def)
  ultimately show ?thesis
    by (intro exI [of _ s'] exI [of _ "ls @ [(ev, st1)]"] exI [of _ q'] exI [of _ p']) simp
qed

text \<open>
  The sink's state is good: its files hold linked records whose start is explained, and the records ever sealed
  and the rotated files number at most \<open>n\<close>.
\<close>

definition good :: "codec \<Rightarrow> bytes \<Rightarrow> nat \<Rightarrow> sink \<Rightarrow> bool" where
  "good cd key n s \<longleftrightarrow> (\<exists>q p rss ls. sink_holds cd key s q p rss ls \<and> explained cd q p (concat rss @ ls)
     \<and> unat q + length (concat rss @ ls) + length (k_rotated s) \<le> n)"

lemma explained_mono: "explained cd q p rs \<Longrightarrow> set rs \<subseteq> set ts \<Longrightarrow> explained cd q p ts"
  unfolding explained_def by (cases "q = 0") auto

lemma good_mono: "good cd key n s \<Longrightarrow> n \<le> m \<Longrightarrow> good cd key m s"
  unfolding good_def using order_trans by blast

lemma append_good:
  assumes "good cd key n s" "is_object ev" "short ev"
  shows "\<exists>s'. appendLocked cd write_ok (ev @ [NL]) s = (None, s') \<and> good cd key (Suc n) s' \<and> k_rotated s' = k_rotated s
     \<and> k_MaxSize s' = k_MaxSize s \<and> k_MaxBackups s' = k_MaxBackups s"
proof -
  obtain q p rss ls where h: "sink_holds cd key s q p rss ls" "explained cd q p (concat rss @ ls)"
    "unat q + length (concat rss @ ls) + length (k_rotated s) \<le> n"
    using assms(1) unfolding good_def by blast
  obtain st s' where s': "appendLocked cd write_ok (ev @ [NL]) s = (None, s')" "sink_holds cd key s' q p rss (ls @ [(ev, st)])"
    "k_rotated s' = k_rotated s \<and> k_MaxSize s' = k_MaxSize s \<and> k_MaxBackups s' = k_MaxBackups s"
    using append_holds [OF h(1) assms(2,3)] by blast
  have "explained cd q p (concat rss @ ls @ [(ev, st)])" by (rule explained_mono [OF h(2)]) auto
  then have "good cd key (Suc n) s'" unfolding good_def using s'(2,3) h(3) by fastforce
  then show ?thesis using s' by blast
qed

lemma prune_good:
  assumes "codec_ok cd" "good cd key n s" "k_rotated s \<noteq> []" "n < 2 ^ 64"
  shows "\<exists>s'. prune_oldest cd write_ok s = (None, s') \<and> good cd key n s' \<and> k_rotated s' = tl (k_rotated s)
     \<and> k_MaxSize s' = k_MaxSize s \<and> k_MaxBackups s' = k_MaxBackups s"
proof -
  obtain q p rss ls where h: "sink_holds cd key s q p rss ls" "explained cd q p (concat rss @ ls)"
    "unat q + length (concat rss @ ls) + length (k_rotated s) \<le> n"
    using assms(2) unfolding good_def by blast
  obtain rs rss' where rss: "rss = rs # rss'" using h(1) assms(3) by (cases rss) (auto simp: sink_holds_def)
  obtain s' ls' q' p' where s': "prune_oldest cd write_ok s = (None, s')" "sink_holds cd key s' q' p' rss' ls'"
    "explained cd q' p' ls'" "unat q' + length (concat rss' @ ls') \<le> Suc (unat q + length (concat rss @ ls))"
    "k_rotated s' = tl (k_rotated s) \<and> k_MaxSize s' = k_MaxSize s \<and> k_MaxBackups s' = k_MaxBackups s"
    using prune_holds [OF assms(1) h(1) [unfolded rss]] h(3) assms(4) rss by auto
  have "explained cd q' p' (concat rss' @ ls')" by (rule explained_mono [OF s'(3)]) auto
  moreover have "unat q' + length (concat rss' @ ls') + length (k_rotated s') \<le> n"
    using s'(4,5) h(3) assms(3) by (cases "k_rotated s") auto
  ultimately have "good cd key n s'" unfolding good_def using s'(2) by blast
  then show ?thesis using s' by blast
qed

lemma prune_rounds_good:
  assumes "codec_ok cd" "n < 2 ^ 64"
  shows "good cd key n s \<Longrightarrow> k \<le> length (k_rotated s) \<Longrightarrow>
     \<exists>s'. prune_rounds k cd write_ok s = (None, s') \<and> good cd key n s' \<and> k_rotated s' = drop k (k_rotated s)"
proof (induction k arbitrary: s)
  case (Suc k)
  obtain s1 where s1: "prune_oldest cd write_ok s = (None, s1)" "good cd key n s1" "k_rotated s1 = tl (k_rotated s)"
    using prune_good [OF assms(1) Suc.prems(1) _ assms(2)] Suc.prems(2) by fastforce
  obtain s2 where "prune_rounds k cd write_ok s1 = (None, s2)" "good cd key n s2" "k_rotated s2 = drop k (k_rotated s1)"
    using Suc.IH [OF s1(2)] Suc.prems(2) s1(3) by (cases "k_rotated s") auto
  then show ?case using s1 by (simp add: drop_Suc)
qed auto

lemma rotate_good:
  assumes cd: "codec_ok cd" and n: "Suc n < 2 ^ 64" and g: "good cd key n s" and ne: "k_live s \<noteq> []" and nm: "length name \<le> 255"
    and newer: "\<forall>(m, _)\<in>set (k_rotated s). m < name"
  shows "\<exists>s'. rotateLocked cd write_ok name s = (None, s') \<and> good cd key (Suc n) s'
    \<and> fst ` set (k_rotated s') \<subseteq> insert name (fst ` set (k_rotated s))"
proof -
  obtain q p rss ls where h: "sink_holds cd key s q p rss ls" "explained cd q p (concat rss @ ls)"
    "unat q + length (concat rss @ ls) + length (k_rotated s) \<le> n"
    using g unfolding good_def by blast
  have ids: "filter (\<lambda>(m, _). m < name) (filter (\<lambda>(m, _). m \<noteq> name) (k_rotated s)) = k_rotated s"
    "filter (\<lambda>(m, _). \<not> m < name) (filter (\<lambda>(m, _). m \<noteq> name) (k_rotated s)) = []"
    using newer by (auto simp: filter_id_conv filter_empty_conv)
  define s1 where "s1 = s\<lparr>k_rotated := k_rotated s @ [(name, k_live s)], k_live := [], k_size := 0\<rparr>"
  have "ls \<noteq> []" using h(1) ne by (auto simp: sink_holds_def file_of_records_def)
  then have "sink_holds cd key s1 q p (rss @ [ls]) []"
    using h(1) nm by (auto simp: sink_holds_def s1_def file_of_records_def)
  then have g1: "good cd key (Suc n) s1" unfolding good_def
    using h(2,3) by (intro exI [of _ q] exI [of _ p] exI [of _ "rss @ [ls]"] exI [of _ "[]"]) (auto simp: s1_def)
  have rot: "rotateLocked cd write_ok name s =
    (if k_MaxBackups s \<le> 0 then (None, s1) else prune_rounds (length (k_rotated s1) - nat (k_MaxBackups s)) cd write_ok s1)"
    unfolding rotateLocked_def Let_def ids by (simp add: s1_def)
  show ?thesis
  proof (cases "k_MaxBackups s \<le> 0")
    case True
    then show ?thesis using rot g1 by (auto simp: s1_def)
  next
    case False
    then obtain s' where "prune_rounds (length (k_rotated s1) - nat (k_MaxBackups s)) cd write_ok s1 = (None, s')"
      "good cd key (Suc n) s'" "k_rotated s' = drop (length (k_rotated s1) - nat (k_MaxBackups s)) (k_rotated s1)"
      using prune_rounds_good [OF cd n g1, of "length (k_rotated s1) - nat (k_MaxBackups s)"] by auto
    then show ?thesis using rot False by (auto simp: s1_def dest!: in_set_dropD)
  qed
qed

lemma Write_good:
  assumes cd: "codec_ok cd" and n: "Suc n < 2 ^ 64" and g: "good cd key n s" and ev: "is_object ev" "short ev" and nm: "length name \<le> 255"
    and newer: "\<forall>m\<in>fst ` set (k_rotated s). m < name"
  shows "\<exists>s'. sink_Write cd write_ok name (ev @ [NL]) s = (None, s') \<and> good cd key (n + 2) s'
    \<and> fst ` set (k_rotated s') \<subseteq> insert name (fst ` set (k_rotated s))"
proof (cases "k_MaxSize s > 0 \<and> k_size s > 0 \<and> k_size s + int (length (ev @ [NL])) + 128 > k_MaxSize s")
  case True
  then have "k_live s \<noteq> []" using g by (auto simp: good_def sink_holds_def)
  then obtain s1 where s1: "rotateLocked cd write_ok name s = (None, s1)" "good cd key (Suc n) s1"
    "fst ` set (k_rotated s1) \<subseteq> insert name (fst ` set (k_rotated s))"
    using rotate_good [OF cd n g _ nm] newer by fastforce
  obtain s2 where "appendLocked cd write_ok (ev @ [NL]) s1 = (None, s2)" "good cd key (Suc (Suc n)) s2" "k_rotated s2 = k_rotated s1"
    using append_good [OF s1(2) ev] by blast
  then show ?thesis using True s1 by (simp add: sink_Write_def)
next
  case False
  obtain s2 where s2: "appendLocked cd write_ok (ev @ [NL]) s = (None, s2)" "good cd key (Suc n) s2" "k_rotated s2 = k_rotated s"
    using append_good [OF g ev] by blast
  moreover have "good cd key (n + 2) s2" by (rule good_mono [OF s2(2)]) simp
  ultimately show ?thesis using False by (auto simp: sink_Write_def)
qed

definition new_sink :: "bytes \<Rightarrow> int \<Rightarrow> int \<Rightarrow> sink" where
  "new_sink key maxSize maxBackups =
     \<lparr>k_live = [], k_size = 0, k_chain = Some \<lparr>c_key = key, c_seq = 0, c_prev = []\<rparr>, k_rotated = [],
      k_MaxSize = maxSize, k_MaxBackups = maxBackups\<rparr>"

definition write_all :: "codec \<Rightarrow> (string \<times> bytes) list \<Rightarrow> sink \<Rightarrow> sink" where
  "write_all cd ws s = fold (\<lambda>(name, ev) s. snd (sink_Write cd write_ok name (ev @ [NL]) s)) ws s"

lemma new_sink_good: "good cd key 0 (new_sink key a b)"
  unfolding good_def
  by (intro exI [of _ 0] exI [of _ "[]"])
     (simp add: sink_holds_def explained_def new_sink_def file_of_records_def)

lemma write_all_good:
  assumes cd: "codec_ok cd"
  shows "\<forall>(name, ev)\<in>set ws. is_object ev \<and> short ev \<and> length name \<le> 255 \<Longrightarrow> sorted_wrt (<) (map fst ws) \<Longrightarrow>
     n + 2 * length ws < 2 ^ 64 \<Longrightarrow> good cd key n s \<Longrightarrow> \<forall>m\<in>fst ` set (k_rotated s). \<forall>w\<in>set ws. m < fst w \<Longrightarrow>
     good cd key (n + 2 * length ws) (write_all cd ws s)"
proof (induction ws arbitrary: n s)
  case (Cons w ws)
  obtain name ev where w: "w = (name, ev)" by (cases w)
  obtain s' where s': "sink_Write cd write_ok name (ev @ [NL]) s = (None, s')" "good cd key (n + 2) s'"
    "fst ` set (k_rotated s') \<subseteq> insert name (fst ` set (k_rotated s))"
    using Write_good [OF cd _ Cons.prems(4), of ev name] Cons.prems w by auto
  have "\<forall>m\<in>fst ` set (k_rotated s'). \<forall>w\<in>set ws. m < fst w"
    using s'(3) Cons.prems(2,5) w by fastforce
  then have "good cd key (n + 2 + 2 * length ws) (write_all cd ws s')"
    using Cons.IH [OF _ _ _ s'(2)] Cons.prems by simp
  then show ?case using s'(1) w by (simp add: write_all_def)
qed (simp add: write_all_def)



section \<open>Tampering is detected\<close>

text \<open>The chained records of a stream, in order.\<close>

definition record_of :: "codec \<Rightarrow> bytes \<Rightarrow> sealed option" where
  "record_of cd raw = (case splitChained cd (trim_space raw) of Linked ev st \<Rightarrow> Some (ev, st) | _ \<Rightarrow> None)"

definition valid_mac :: "codec \<Rightarrow> bytes \<Rightarrow> sealed \<Rightarrow> bool" where
  "valid_mac cd key r \<longleftrightarrow> chainMAC cd key (cs_Seq (snd r)) (cs_Prev (snd r)) (fst r) = cs_MAC (snd r)"

lemma add_problem_ne [simp]: "v_Problems (add_problem n q m v) \<noteq> []"
  by (auto simp: add_problem_def maxVerifyProblems_def)

lemma add_problem_same [simp]:
  "v_Unchained (add_problem n q m v) = v_Unchained v" "v_starts (add_problem n q m v) = v_starts v"
  "v_pruned (add_problem n q m v) = v_pruned v" "v_inChain (add_problem n q m v) = v_inChain v"
  "v_prevSeq (add_problem n q m v) = v_prevSeq v" "v_prevMAC (add_problem n q m v) = v_prevMAC v"
  "v_Records (add_problem n q m v) = v_Records v"
  by (simp_all add: add_problem_def)

lemma add_problem_grows: "v_Problems v \<noteq> [] \<Longrightarrow> v_Problems (add_problem n q m v) \<noteq> []"
  by (simp add: add_problem_def)

text \<open>A line that leaves no problem, nothing unchained and no open start: blank, or a record that continues the chain.\<close>

lemma verify_line_clean:
  assumes "w = verify_line cd key (n, raw) v" "v_Problems w = []" "v_Unchained w = 0"
  shows "v_Problems v = [] \<and> v_Unchained v = 0 \<and> (v_starts w = [] \<longrightarrow> v_starts v = [])
    \<and> (trim_space raw = [] \<and> w = v
       \<or> trim_space raw \<noteq> [] \<and> (\<exists>ev st. record_of cd raw = Some (ev, st) \<and> valid_mac cd key (ev, st)
          \<and> v_pruned w = prune_key cd ev @ v_pruned v \<and> v_inChain w \<and> v_prevSeq w = cs_Seq st \<and> v_prevMAC w = cs_MAC st
          \<and> v_Records w = Suc (v_Records v)
          \<and> (v_starts w = [] \<longrightarrow> (if v_inChain v then cs_Seq st = v_prevSeq v + 1 \<and> cs_Prev st = v_prevMAC v
               else cs_Seq st = 1 \<and> cs_Prev st = []))))"
proof (cases "trim_space raw = []")
  case True
  then show ?thesis using assms by (simp add: verify_line_def)
next
  case False
  show ?thesis
  proof (cases "splitChained cd (trim_space raw)")
    case (Linked ev st)
    define u where "u = verify_link n st (v\<lparr>v_Records := v_Records v + 1, v_Chained := v_Chained v + 1\<rparr>)"
    have w: "w = (verify_mac cd key n ev st u)\<lparr>v_prevSeq := cs_Seq st, v_prevMAC := cs_MAC st, v_inChain := True,
        v_LastSeq := cs_Seq st, v_LastMAC := cs_MAC st\<rparr>"
      using assms(1) False Linked by (simp add: verify_line_def Let_def u_def)
    have mac: "chainMAC cd key (cs_Seq st) (cs_Prev st) ev = cs_MAC st"
      using assms(2) w by (auto simp: verify_mac_def split: if_splits)
    have wu: "v_Problems u = []" "v_Unchained u = 0" "v_starts w = v_starts u" "v_pruned w = prune_key cd ev @ v_pruned u"
      "v_Records w = v_Records u"
      using assms(2,3) w by (simp_all add: verify_mac_ok [OF mac])
    have uv: "v_Problems v = []" "v_Unchained v = 0" "v_pruned u = v_pruned v" "v_Records u = Suc (v_Records v)"
      "v_starts u = [] \<longrightarrow> v_starts v = [] \<and> (if v_inChain v then cs_Seq st = v_prevSeq v + 1 \<and> cs_Prev st = v_prevMAC v
               else cs_Seq st = 1 \<and> cs_Prev st = [])"
      using wu(1,2) unfolding u_def verify_link_def by (simp_all split: if_splits)
    show ?thesis using False Linked mac wu uv w
      by (simp add: record_of_def valid_mac_def)
  qed (use assms False in \<open>auto simp: verify_line_def Let_def split: if_splits\<close>)
qed


lemma linked_nth: "linked cd key q p log \<Longrightarrow> i < length log \<Longrightarrow> cs_Seq (snd (log ! i)) = q + of_nat (Suc i)"
proof (induction log arbitrary: q p i)
  case (Cons r log)
  then show ?case by (cases r; cases i) (auto simp: algebra_simps)
qed simp

lemma linked_index:
  assumes "linked cd key 0 [] log" "length log < 2 ^ 64 - 1" "r \<in> set log" "cs_Seq (snd r) = of_nat (Suc k)" "k \<le> length log"
  shows "k < length log \<and> r = log ! k"
proof -
  obtain i where i: "i < length log" "r = log ! i" using assms(3) by (auto simp: in_set_conv_nth)
  have "(of_nat (Suc i) :: 64 word) = of_nat (Suc k)"
    using linked_nth [OF assms(1) i(1)] assms(4) i(2) by simp
  then have "unat (of_nat (Suc i) :: 64 word) = unat (of_nat (Suc k) :: 64 word)" by simp
  moreover have "unat (of_nat (Suc j) :: 64 word) = Suc j" if "j \<le> length log" for j
    using that assms(2) by (simp add: unat_of_nat del: of_nat_Suc)
  ultimately have "i = k" using i(1) assms(5) by simp
  then show ?thesis using i by simp
qed

text \<open>
  The keyed hash cannot be forged: a line with a valid MAC is a record the server sealed, whoever wrote the stream.
\<close>

definition unforged :: "codec \<Rightarrow> bytes \<Rightarrow> sealed list \<Rightarrow> bytes list \<Rightarrow> bool" where
  "unforged cd key log raws \<longleftrightarrow>
     (\<forall>raw\<in>set raws. case record_of cd raw of Some r \<Rightarrow> valid_mac cd key r \<longrightarrow> r \<in> set log | None \<Rightarrow> True)"

lemma verify_genuine:
  assumes log: "linked cd key 0 [] log" "length log < 2 ^ 64 - 1"
    and plain: "\<And>r. r \<in> set log \<Longrightarrow> prune_key cd (fst r) = []"
  shows "unforged cd key log (map snd nls) \<Longrightarrow> v = fold (verify_line cd key) nls verify0 \<Longrightarrow> v_Problems v = [] \<Longrightarrow> v_Unchained v = 0 \<Longrightarrow>
    v_pruned v = [] \<and> (v_starts v = [] \<longrightarrow>
      map (record_of cd) (filter (\<lambda>l. trim_space l \<noteq> []) (map snd nls)) = map Some (take (v_Records v) log) \<and> v_Records v \<le> length log
      \<and> (if v_Records v = 0 then \<not> v_inChain v
         else v_inChain v \<and> v_prevSeq v = of_nat (v_Records v)))"
proof (induction nls arbitrary: v rule: rev_induct)
  case Nil
  then show ?case by (simp add: verify0_def)
next
  case (snoc nl nls)
  obtain n raw where nl: "nl = (n, raw)" by (cases nl)
  define u where "u = fold (verify_line cd key) nls verify0"
  have v: "v = verify_line cd key (n, raw) u" using snoc.prems(2) nl by (simp add: u_def)
  note clean = verify_line_clean [OF v snoc.prems(3,4)]
  have un: "unforged cd key log (map snd nls)" using snoc.prems(1) by (simp add: unforged_def)
  have cu: "v_Problems u = []" "v_Unchained u = 0" using clean by blast+
  have nls: "map snd (nls @ [nl]) = map snd nls @ [raw]" using nl by simp
  have IHu: "v_pruned u = []" "v_starts u = [] \<longrightarrow>
      map (record_of cd) (filter (\<lambda>l. trim_space l \<noteq> []) (map snd nls)) = map Some (take (v_Records u) log) \<and> v_Records u \<le> length log
      \<and> (if v_Records u = 0 then \<not> v_inChain u else v_inChain u \<and> v_prevSeq u = of_nat (v_Records u))"
    using snoc.IH [OF un u_def cu] by blast+
  show ?case
  proof (cases "trim_space raw = []")
    case True
    then have "v = u" using clean by blast
    then show ?thesis using IHu True unfolding nls by simp
  next
    case False
    then obtain ev st where r: "record_of cd raw = Some (ev, st)" "valid_mac cd key (ev, st)" "v_pruned v = prune_key cd ev @ v_pruned u"
      "v_inChain v" "v_prevSeq v = cs_Seq st" "v_Records v = Suc (v_Records u)"
      "v_starts v = [] \<longrightarrow> (if v_inChain u then cs_Seq st = v_prevSeq u + 1 \<and> cs_Prev st = v_prevMAC u else cs_Seq st = 1 \<and> cs_Prev st = [])"
      using clean by blast
    have inlog: "(ev, st) \<in> set log" using snoc.prems(1) r(1,2) nl by (simp add: unforged_def)
    show ?thesis
    proof (intro conjI impI)
      show "v_pruned v = []" using r(3) IHu(1) plain [OF inlog] by simp
      assume "v_starts v = []"
      then have "v_starts u = []" using clean by blast
      then have U: "map (record_of cd) (filter (\<lambda>l. trim_space l \<noteq> []) (map snd nls)) = map Some (take (v_Records u) log)"
        "v_Records u \<le> length log" "if v_Records u = 0 then \<not> v_inChain u else v_inChain u \<and> v_prevSeq u = of_nat (v_Records u)"
        using IHu(2) by blast+
      have seq: "cs_Seq st = of_nat (Suc (v_Records u))"
        using r(7) \<open>v_starts v = []\<close> U(3) by (simp split: if_splits)
      then have ix: "v_Records u < length log" "(ev, st) = log ! v_Records u"
        using linked_index [OF log inlog _ U(2)] by simp_all
      have "map (record_of cd) (filter (\<lambda>l. trim_space l \<noteq> []) (map snd (nls @ [nl]))) = map Some (take (v_Records u) log @ [log ! v_Records u])"
        unfolding nls using U(1) False r(1) ix(2) by simp
      then show "map (record_of cd) (filter (\<lambda>l. trim_space l \<noteq> []) (map snd (nls @ [nl]))) = map Some (take (v_Records v) log)"
        using ix(1) r(6) by (simp add: take_Suc_conv_app_nth)
      show "v_Records v \<le> length log" using ix(1) r(6) by simp
      show "if v_Records v = 0 then \<not> v_inChain v else v_inChain v \<and> v_prevSeq v = of_nat (v_Records v)"
        using r seq by simp
    qed
  qed
qed



section \<open>A concrete codec\<close>

text \<open>
  For the examples: a toy keyed hash of 32 bytes, and decoding by the positions of the quotation marks.
\<close>

definition dec_val :: "string \<Rightarrow> nat" where
  "dec_val s = foldl (\<lambda>a c. a * 10 + (of_char c - 48)) 0 s"

definition QUOTE :: char where
  "QUOTE = CHR 0x22"

definition wit_hmac :: "bytes \<Rightarrow> bytes \<Rightarrow> bytes" where
  "wit_hmac key m = replicate 31 CHR ''a'' @ [char_of (foldl (\<lambda>a c. (a * 31 + of_char c) mod 251) 7 (key @ m) :: int)]"

definition wit_codec :: codec where
  \<open>wit_codec =
     \<lparr>cd_hmac = wit_hmac,
      cd_unmarshal = (\<lambda>b. case split_on QUOTE b of
         [_, _, n, _, _, p, _, _, _, m, _] \<Rightarrow> Inr \<lparr>cs_Seq = of_nat (dec_val (butlast (tl n))), cs_Prev = p, cs_MAC = m\<rparr>
       | _ \<Rightarrow> Inl (ErrMsg ''bad JSON'')),
      cd_pruned = (\<lambda>b. case split_on QUOTE b of
         [_, _, _, ty, _, _, _, q, _, _, _, m, _] \<Rightarrow> if ty = EventAuditPruned then Some (q, m) else None
       | _ \<Rightarrow> None),
      cd_prune_event = (\<lambda>name st. case st of
         None \<Rightarrow> ''{}'' @ [NL]
       | Some st \<Rightarrow> ''{"type":"audit.pruned","last_seq":"'' @ show_uint (cs_Seq st) @ ''","last_mac":"'' @ cs_MAC st @ ''"}'' @ [NL])\<rparr>\<close>

lemma dec_val_snoc: "dec_val (s @ [c]) = dec_val s * 10 + (of_char c - 48)"
  by (simp add: dec_val_def)

lemma dec_val_digits: "n < k \<Longrightarrow> dec_val (digits k n) = n"
proof (induction k n rule: digits.induct)
  case (2 k n)
  show ?case
  proof (cases "n < 10")
    case True
    then show ?thesis by (simp add: dec_val_def)
  next
    case False
    then have "dec_val (digits k (n div 10)) = n div 10" using 2 by simp
    then show ?thesis using False by (simp add: dec_val_snoc)
  qed
qed simp

lemma dec_val_show [simp]: "of_nat (dec_val (show_uint n)) = n"
  unfolding show_uint_def by (subst dec_val_digits) simp_all

lemma split_on_skip: "c \<notin> set s \<Longrightarrow> split_on c (s @ r) = (s @ hd (split_on c r)) # tl (split_on c r)"
  by (induction s) auto

lemma hex_no_quote: "list_all is_hex s \<Longrightarrow> QUOTE \<notin> set s"
proof -
  have "\<not> is_hex QUOTE" by code_simp
  then show "list_all is_hex s \<Longrightarrow> QUOTE \<notin> set s" by (auto simp: list_all_iff)
qed

lemma wit_codec_json: "json_roundtrip wit_codec"
proof -
  have "cd_unmarshal wit_codec (marshal_state st) = Inr st" if "hex_state st" for st
  proof -
    have no: "QUOTE \<notin> set (show_uint (cs_Seq st))" "QUOTE \<notin> set (cs_Prev st)" "QUOTE \<notin> set (cs_MAC st)"
      using that by (auto simp: hex_state_def hex_no_quote)
    have "split_on QUOTE (marshal_state st) =
      [''{'', ''seq'', CHR '':'' # show_uint (cs_Seq st) @ '','', ''prev'', '':'', cs_Prev st, '','', ''mac'', '':'', cs_MAC st, ''}'']"
      using no by (simp add: marshal_state_def split_on_skip QUOTE_def)
    then show ?thesis by (simp add: wit_codec_def butlast_append)
  qed
  then show ?thesis by (simp add: json_roundtrip_def)
qed

lemma last_index_prefix: "pat \<noteq> [] \<Longrightarrow> prefix pat ys \<Longrightarrow> last_index pat (xs @ ys) \<noteq> None"
proof (induction xs)
  case Nil
  then show ?case by (cases ys) (auto split: option.splits)
qed (auto split: option.splits)

lemma wit_codec_ok: "codec_ok wit_codec"
proof -
  have "\<exists>ev. cd_prune_event wit_codec name (Some st) = ev @ [NL] \<and> is_object ev \<and> short ev
      \<and> prune_key wit_codec ev = [show_uint (cs_Seq st) @ ''/'' @ cs_MAC st]"
    if st: "hex_state st" "length (cs_MAC st) = 64" for name st
  proof -
    define ev where "ev = ''{'' @ pruned_pattern @ '',\"last_seq\":\"'' @ show_uint (cs_Seq st) @ ''\",\"last_mac\":\"'' @ cs_MAC st @ ''\"}''"
    have no: "QUOTE \<notin> set (show_uint (cs_Seq st))" "QUOTE \<notin> set (cs_MAC st)" "NL \<notin> set (show_uint (cs_Seq st))" "NL \<notin> set (cs_MAC st)"
      using st by (auto simp: hex_state_def hex_no_quote hex_no_NL)
    have "cd_prune_event wit_codec name (Some st) = ev @ [NL]"
      by (simp add: wit_codec_def ev_def pruned_pattern_def EventAuditPruned_def)
    moreover have "is_object ev"
      using no by (simp add: is_object_def ev_def pruned_pattern_def EventAuditPruned_def NL_def)
    moreover have "short ev"
      using show_uint_length [of "cs_Seq st"] st(2) by (simp add: short_def ev_def pruned_pattern_def EventAuditPruned_def)
    moreover have "last_index pruned_pattern ev \<noteq> None"
      unfolding ev_def by (rule last_index_prefix) (simp_all add: pruned_pattern_def)
    moreover have "cd_pruned wit_codec ev = Some (show_uint (cs_Seq st), cs_MAC st)"
    proof -
      have "split_on QUOTE ev = [''{'', ''type'', '':'', ''audit.pruned'', '','', ''last_seq'', '':'', show_uint (cs_Seq st), '','', ''last_mac'', '':'', cs_MAC st, ''}'']"
        using no by (simp add: ev_def pruned_pattern_def EventAuditPruned_def split_on_skip QUOTE_def)
      then show ?thesis by (simp add: wit_codec_def EventAuditPruned_def)
    qed
    ultimately show ?thesis by (intro exI [of _ ev]) (simp add: prune_key_def)
  qed
  then show ?thesis using wit_codec_json by (auto simp: codec_ok_def mac_size_def wit_codec_def wit_hmac_def)
qed

definition wit_events :: "(string \<times> bytes) list" where
  \<open>wit_events = [(''1'', ''{"id":"A"}''), (''2'', ''{"id":"B"}''), (''3'', ''{"id":"C"}'')]\<close>


text \<open>The records as they were written are never forgeries.\<close>

lemma honest_unforged:
  assumes "json_roundtrip cd" "mac_size cd" "linked cd key 0 [] log"
  shows "unforged cd key log (fst (scan_lines (log_bytes [log])))"
proof -
  have sc: "fst (scan_lines (log_bytes [log])) = map sealed_line log @ [[]]"
    using scan_log(1) [OF assms(2), of key 0 "[]" "[log]"] assms(3) by (simp add: log_lines_def)
  have "record_of cd (sealed_line r) = Some r" if "r \<in> set log" for r
  proof -
    have r: "hex_state (snd r)" "is_object (fst r)" using linked_hex [OF assms(3) _ that] by simp_all
    have "trim_space (sealed_line r) = sealed_line r" by (rule trim_object(1) [OF object_line [OF r(2)]])
    moreover have "splitChained cd (sealed_line r) = Linked (fst r) (snd r)"
      unfolding sealed_line_def by (rule splitChained_seal_line [OF assms(1) r(1)]) (use r(2) in \<open>auto simp: is_object_def\<close>)
    ultimately show ?thesis by (simp add: record_of_def)
  qed
  moreover have "record_of cd [] = None" by (simp add: record_of_def trim_space_def splitChained_def)
  ultimately show ?thesis unfolding unforged_def sc by auto
qed

definition wit_log :: "sealed list" where
  \<open>wit_log = [(''{"id":"A"}'', \<lparr>cs_Seq = 1, cs_Prev = [], cs_MAC = chainMAC wit_codec ''key'' 1 [] ''{"id":"A"}''\<rparr>)]\<close>


end
