(* ===== verification/Netguard.thy ===== *)
theory Netguard
  imports GoPath
begin

text \<open>
  \<^verbatim>\<open>internal/netguard/netguard.go\<close>: address filters and connection caps, with what they use of Go's \<^verbatim>\<open>net\<close> and
  \<^verbatim>\<open>net/netip\<close>: splitting \<^verbatim>\<open>host:port\<close>, parsing and printing addresses, and prefixes.  A zone of an address is
  dropped while parsing: every use in the program ignores it.  The theorems show that the per-address limiter
  counts exactly the connections that are open, whatever the order of releases and however often a release is called.
\<close>

unbundle bit_operations_syntax

section \<open>Addresses\<close>

datatype addr = V4 "32 word" | V6 "128 word"

definition index_byte :: "char \<Rightarrow> string \<Rightarrow> nat option" where
  "index_byte c s = (if c \<in> set s then Some (length (takeWhile (\<lambda>x. x \<noteq> c) s)) else None)"

definition last_index_byte :: "char \<Rightarrow> string \<Rightarrow> nat option" where
  "last_index_byte c s = (if c \<in> set s then Some (length s - 1 - length (takeWhile (\<lambda>x. x \<noteq> c) (rev s))) else None)"

text \<open>The host of \<^verbatim>\<open>net.SplitHostPort\<close>, or \<open>None\<close> where it returns an error.\<close>

definition SplitHostPort :: "string \<Rightarrow> string option" where
  "SplitHostPort hp =
     (case last_index_byte CHR '':'' hp of
        None \<Rightarrow> None
      | Some i \<Rightarrow>
          if hd hp = CHR ''['' then
            (case index_byte CHR '']'' hp of
               None \<Rightarrow> None
             | Some e \<Rightarrow>
                 if e + 1 \<noteq> i then None
                 else if CHR ''['' \<in> set (drop 1 hp) \<or> CHR '']'' \<in> set (drop (e + 1) hp) then None
                 else Some (drop 1 (take e hp)))
          else if CHR '':'' \<in> set (take i hp) \<or> CHR ''['' \<in> set hp \<or> CHR '']'' \<in> set hp then None
          else Some (take i hp))"

definition strip_zone :: "string \<Rightarrow> string" where
  "strip_zone host = takeWhile (\<lambda>c. c \<noteq> CHR ''%'') host"

definition digit_value :: "char \<Rightarrow> int" where
  "digit_value c = of_char c - 48"

text \<open>One octet: at least one digit, no leading zero, at most 255.\<close>

definition parse_octet :: "string \<Rightarrow> int option" where
  "parse_octet s =
     (if s = [] \<or> \<not> list_all (\<lambda>c. CHR ''0'' \<le> c \<and> c \<le> CHR ''9'') s \<or> (hd s = CHR ''0'' \<and> length s > 1) then None
      else let v = foldl (\<lambda>a c. a * 10 + digit_value c) 0 s in if v > 255 then None else Some v)"

definition parse_octets :: "string \<Rightarrow> int list option" where
  "parse_octets s = (let os = map parse_octet (split_on CHR ''.'' s) in
     if length os = 4 \<and> None \<notin> set os then Some (map the os) else None)"

definition from_digits :: "int \<Rightarrow> int list \<Rightarrow> int" where
  "from_digits b ds = foldl (\<lambda>a d. a * b + d) 0 ds"

definition parseIPv4 :: "string \<Rightarrow> addr option" where
  "parseIPv4 s = map_option (\<lambda>os. V4 (word_of_int (from_digits 256 os))) (parse_octets s)"

definition hex_value :: "char \<Rightarrow> int option" where
  "hex_value c =
     (if CHR ''0'' \<le> c \<and> c \<le> CHR ''9'' then Some (of_char c - 48)
      else if CHR ''a'' \<le> c \<and> c \<le> CHR ''f'' then Some (of_char c - 87)
      else if CHR ''A'' \<le> c \<and> c \<le> CHR ''F'' then Some (of_char c - 55)
      else None)"

text \<open>
  The loop of \<^verbatim>\<open>netip.parseIPv6\<close> over the fields: the groups read so far, where the \<^verbatim>\<open>::\<close> stood, and the rest
  of the string.  Eight groups are the bound of its \<^verbatim>\<open>for i < 16\<close>.
\<close>

fun v6_fields :: "nat \<Rightarrow> int list \<Rightarrow> nat option \<Rightarrow> string \<Rightarrow> (int list \<times> nat option) option" where
  "v6_fields 0 gs ell s = (if s = [] then Some (gs, ell) else None)"
| "v6_fields (Suc n) gs ell s =
     (let ds = takeWhile (\<lambda>c. hex_value c \<noteq> None) s;
          rest = drop (length ds) s;
          acc = from_digits 16 (map (\<lambda>c. the (hex_value c)) ds)
      in if ds = [] \<or> length ds > 4 then None
         else if rest \<noteq> [] \<and> hd rest = CHR ''.'' then
           (if (ell = None \<and> length gs \<noteq> 6) \<or> length gs > 6 then None
            else (case parse_octets s of
                    Some [a, b, c, d] \<Rightarrow> Some (gs @ [a * 256 + b, c * 256 + d], ell)
                  | _ \<Rightarrow> None))
         else if rest = [] then Some (gs @ [acc], ell)
         else if hd rest \<noteq> CHR '':'' \<or> length rest = 1 then None
         else
           let s1 = tl rest in
           if hd s1 = CHR '':'' then
             (if ell \<noteq> None then None
              else if tl s1 = [] then Some (gs @ [acc], Some (length gs + 1))
              else v6_fields n (gs @ [acc]) (Some (length gs + 1)) (tl s1))
           else v6_fields n (gs @ [acc]) ell s1)"

definition expand_ellipsis :: "int list \<Rightarrow> nat option \<Rightarrow> int list option" where
  "expand_ellipsis gs ell =
     (case ell of
        None \<Rightarrow> if length gs = 8 then Some gs else None
      | Some e \<Rightarrow> if length gs < 8 then Some (take e gs @ replicate (8 - length gs) 0 @ drop e gs) else None)"

definition parse_groups :: "string \<Rightarrow> int list option" where
  "parse_groups s =
     (if prefix ''::'' s then
        (if length s = 2 then Some (replicate 8 0)
         else Option.bind (v6_fields 8 [] (Some 0) (drop 2 s)) (\<lambda>(gs, e). expand_ellipsis gs e))
      else Option.bind (v6_fields 8 [] None s) (\<lambda>(gs, e). expand_ellipsis gs e))"

definition parseIPv6 :: "string \<Rightarrow> addr option" where
  "parseIPv6 s0 =
     (if CHR ''%'' \<in> set s0 \<and> last s0 = CHR ''%'' \<and> strip_zone s0 = butlast s0 then None
      else map_option (\<lambda>gs. V6 (word_of_int (from_digits 65536 gs))) (parse_groups (strip_zone s0)))"

definition ParseAddr :: "string \<Rightarrow> addr option" where
  "ParseAddr s =
     (case dropWhile (\<lambda>c. c \<noteq> CHR ''.'' \<and> c \<noteq> CHR '':'' \<and> c \<noteq> CHR ''%'') s of
        [] \<Rightarrow> None
      | c # _ \<Rightarrow> if c = CHR ''.'' then parseIPv4 s else if c = CHR '':'' then parseIPv6 s else None)"

definition Is4In6 :: "addr \<Rightarrow> bool" where
  "Is4In6 a = (case a of V4 _ \<Rightarrow> False | V6 w \<Rightarrow> drop_bit 32 w = 0xFFFF)"

definition Unmap :: "addr \<Rightarrow> addr" where
  "Unmap a = (case a of V4 _ \<Rightarrow> a | V6 w \<Rightarrow> if Is4In6 a then V4 (ucast w) else a)"

text \<open>\<^verbatim>\<open>Addr.String\<close>: dotted decimals, or hexadecimal groups with the first longest run of zeros cut out.\<close>

definition show_v4 :: "32 word \<Rightarrow> string" where
  "show_v4 w = join_with ''.'' (map (\<lambda>i. show_int (uint (drop_bit (8 * i) w AND 0xFF))) [3, 2, 1, 0])"

fun show_hex :: "nat \<Rightarrow> int \<Rightarrow> string" where
  "show_hex 0 n = []"
| "show_hex (Suc k) n = (if n < 16 then [hex_digit (nat n)] else show_hex k (n div 16) @ [hex_digit (nat (n mod 16))])"

definition groups_of :: "128 word \<Rightarrow> int list" where
  "groups_of w = map (\<lambda>i. uint (drop_bit (16 * i) w AND 0xFFFF)) [7, 6, 5, 4, 3, 2, 1, 0]"

definition zero_run :: "int list \<Rightarrow> nat \<Rightarrow> nat" where
  "zero_run gs i = length (takeWhile (\<lambda>g. g = 0) (drop i gs))"

definition longest_run :: "int list \<Rightarrow> (nat \<times> nat) option" where
  "longest_run gs =
     foldl (\<lambda>best i. let l = zero_run gs i in
              if l \<ge> 2 \<and> (case best of None \<Rightarrow> True | Some (_, m) \<Rightarrow> l > m) then Some (i, l) else best) None [0..<8]"

definition show_v6 :: "128 word \<Rightarrow> string" where
  "show_v6 w =
     (let gs = groups_of w; hx = (\<lambda>g. join_with '':'' (map (show_hex 4) g)) in
      case longest_run gs of
        None \<Rightarrow> hx gs
      | Some (i, l) \<Rightarrow> hx (take i gs) @ ''::'' @ hx (drop (i + l) gs))"

section \<open>Prefixes and filters\<close>

record netprefix =
  np_addr :: addr
  np_bits :: nat

definition bit_len :: "addr \<Rightarrow> nat" where
  "bit_len a = (case a of V4 _ \<Rightarrow> 32 | V6 _ \<Rightarrow> 128)"

text \<open>\<^verbatim>\<open>Prefix.Contains\<close>, and \<^verbatim>\<open>Prefix.Masked\<close> for a valid prefix.\<close>

definition Contains :: "netprefix \<Rightarrow> addr \<Rightarrow> bool" where
  "Contains p a =
     (case (np_addr p, a) of
        (V4 x, V4 y) \<Rightarrow> np_bits p \<le> 32 \<and> drop_bit (32 - np_bits p) (x XOR y) = 0
      | (V6 x, V6 y) \<Rightarrow> np_bits p \<le> 128 \<and> drop_bit (128 - np_bits p) (x XOR y) = 0
      | _ \<Rightarrow> False)"

definition mask_addr :: "nat \<Rightarrow> addr \<Rightarrow> addr" where
  "mask_addr bits a =
     (case a of
        V4 x \<Rightarrow> V4 (push_bit (32 - bits) (drop_bit (32 - bits) x))
      | V6 x \<Rightarrow> V6 (push_bit (128 - bits) (drop_bit (128 - bits) x)))"

text \<open>
  \<^verbatim>\<open>netip.ParsePrefix\<close>: the address before the last slash (without a zone), and a number of bits without sign or
  leading zeros that fits the address.
\<close>

definition ParsePrefix :: "string \<Rightarrow> netprefix option" where
  "ParsePrefix s =
     (case last_index_byte CHR ''/'' s of
        None \<Rightarrow> None
      | Some i \<Rightarrow>
          let host = take i s; bits = drop (i + 1) s in
          (case ParseAddr host of
             None \<Rightarrow> None
           | Some a \<Rightarrow>
               if CHR ''%'' \<in> set host then None
               else if length bits > 1 \<and> (hd bits < CHR ''1'' \<or> hd bits > CHR ''9'') then None
               else if bits = [] \<or> length bits > 3 \<or> \<not> list_all (\<lambda>c. CHR ''0'' \<le> c \<and> c \<le> CHR ''9'') bits then None
               else
                 let n = foldl (\<lambda>acc c. acc * 10 + digit_value c) 0 bits in
                 if n > int (bit_len a) then None else Some \<lparr>np_addr = a, np_bits = nat n\<rparr>))"

text \<open>
  One entry of a list.  A 4-in-6 prefix of fewer than 96 bits becomes an invalid prefix, whose \<^verbatim>\<open>Masked\<close> is the zero prefix that
  contains nothing: bits beyond the address length stand for it.
\<close>

definition parse_entry :: "string \<Rightarrow> netprefix option" where
  "parse_entry raw =
     (if CHR ''/'' \<in> set raw then
        (case ParsePrefix raw of
           None \<Rightarrow> None
         | Some p \<Rightarrow>
             if Is4In6 (np_addr p) then
               (if np_bits p < 96 then Some \<lparr>np_addr = V4 0, np_bits = 33\<rparr>
                else Some \<lparr>np_addr = mask_addr (np_bits p - 96) (Unmap (np_addr p)), np_bits = np_bits p - 96\<rparr>)
             else Some \<lparr>np_addr = mask_addr (np_bits p) (np_addr p), np_bits = np_bits p\<rparr>)
      else map_option (\<lambda>a. \<lparr>np_addr = Unmap a, np_bits = bit_len (Unmap a)\<rparr>) (ParseAddr raw))"

fun parsePrefixes :: "string list \<Rightarrow> netprefix list res" where
  "parsePrefixes [] = Inr []"
| "parsePrefixes (raw0 # es) =
     (let raw = trim_space raw0 in
      if raw = [] then parsePrefixes es
      else
        (case parse_entry raw of
           None \<Rightarrow> Inl (ErrMsg (''invalid entry '' @ raw))
         | Some p \<Rightarrow> (case parsePrefixes es of Inl e \<Rightarrow> Inl e | Inr ps \<Rightarrow> Inr (p # ps))))"

record ipFilter =
  if_allow :: "netprefix list"
  if_deny :: "netprefix list"

definition filter_Update :: "string list \<Rightarrow> string list \<Rightarrow> ipFilter \<Rightarrow> goerr option \<times> ipFilter" where
  "filter_Update allowed denied f =
     (case parsePrefixes allowed of
        Inl e \<Rightarrow> (Some (ErrMsg (''allowed_ips: '' @ err_text e)), f)
      | Inr allow \<Rightarrow>
          (case parsePrefixes denied of
             Inl e \<Rightarrow> (Some (ErrMsg (''denied_ips: '' @ err_text e)), f)
           | Inr deny \<Rightarrow> (None, \<lparr>if_allow = allow, if_deny = deny\<rparr>)))"

definition NewIPFilter :: "string list \<Rightarrow> string list \<Rightarrow> ipFilter res" where
  "NewIPFilter allowed denied =
     (case filter_Update allowed denied \<lparr>if_allow = [], if_deny = []\<rparr> of
        (Some e, _) \<Rightarrow> Inl e
      | (None, f) \<Rightarrow> Inr f)"

text \<open>A nil filter admits everything.\<close>

definition Allowed :: "ipFilter option \<Rightarrow> addr \<Rightarrow> bool" where
  "Allowed f0 ip0 =
     (case f0 of
        None \<Rightarrow> True
      | Some f \<Rightarrow>
          let ip = Unmap ip0 in
          if list_ex (\<lambda>p. Contains p ip) (if_deny f) then False
          else if if_allow f = [] then True
          else list_ex (\<lambda>p. Contains p ip) (if_allow f))"

text \<open>The host part of \<^verbatim>\<open>host:port\<close> or a bare host.\<close>

definition remote_host :: "string \<Rightarrow> string" where
  "remote_host remote = strip_zone (case SplitHostPort remote of Some h \<Rightarrow> h | None \<Rightarrow> remote)"

definition AllowedRemote :: "ipFilter option \<Rightarrow> string \<Rightarrow> bool" where
  "AllowedRemote f0 remote =
     (case f0 of
        None \<Rightarrow> True
      | Some f \<Rightarrow>
          (case ParseAddr (remote_host remote) of
             None \<Rightarrow> if_allow f = [] \<and> if_deny f = []
           | Some ip \<Rightarrow> Allowed f0 ip))"

definition parseRemote :: "string \<Rightarrow> addr option" where
  "parseRemote remote = map_option Unmap (ParseAddr (remote_host remote))"

section \<open>Limiters\<close>

text \<open>The slots taken of a channel of capacity \<open>l_cap\<close>; releasing an empty one would block for ever.\<close>

record limiter =
  l_cap :: nat
  l_used :: nat

definition NewLimiter :: "int \<Rightarrow> limiter option" where
  "NewLimiter m = (if m \<le> 0 then None else Some \<lparr>l_cap = nat m, l_used = 0\<rparr>)"

definition TryAcquire :: "limiter option \<Rightarrow> bool \<times> limiter option" where
  "TryAcquire l0 =
     (case l0 of
        None \<Rightarrow> (True, None)
      | Some l \<Rightarrow> if l_used l < l_cap l then (True, Some (l\<lparr>l_used := l_used l + 1\<rparr>)) else (False, Some l))"

definition limiter_Release :: "limiter option \<Rightarrow> limiter option option" where
  "limiter_Release l0 =
     (case l0 of
        None \<Rightarrow> Some None
      | Some l \<Rightarrow> if l_used l = 0 then None else Some (Some (l\<lparr>l_used := l_used l - 1\<rparr>)))"

definition AcceptBackoff :: "int \<Rightarrow> int" where
  "AcceptBackoff n = (if n \<le> 0 then 0 else min (5000000 * 2 ^ nat (min (n - 1) 8)) 1000000000)"

text \<open>
  The per-address limiter.  \<open>il_once\<close> lists the release functions handed out: the address each gives back, and whether
  its \<^verbatim>\<open>sync.Once\<close> has fired.  \<^verbatim>\<open>Acquire\<close> returns the index of the function, or \<open>None\<close> for the empty one.
\<close>

record perIPLimiter =
  il_max :: int
  il_counts :: "(addr \<times> int) list"
  il_once :: "(addr \<times> bool) list"

definition NewPerIPLimiter :: "int \<Rightarrow> perIPLimiter" where
  "NewPerIPLimiter m = \<lparr>il_max = m, il_counts = [], il_once = []\<rparr>"

definition SetMax :: "int \<Rightarrow> perIPLimiter \<Rightarrow> perIPLimiter" where
  "SetMax m l = l\<lparr>il_max := m\<rparr>"

definition ip_count :: "perIPLimiter \<Rightarrow> addr \<Rightarrow> int" where
  "ip_count l ip = (case map_of (il_counts l) ip of None \<Rightarrow> 0 | Some n \<Rightarrow> n)"

definition Acquire :: "string \<Rightarrow> perIPLimiter \<Rightarrow> (nat option \<times> bool) \<times> perIPLimiter" where
  "Acquire remote l =
     (case parseRemote remote of
        None \<Rightarrow> ((None, True), l)
      | Some ip \<Rightarrow>
          if il_max l > 0 \<and> ip_count l ip \<ge> il_max l then ((None, False), l)
          else ((Some (length (il_once l)), True),
                l\<lparr>il_counts := AList.update ip (wrap64 (ip_count l ip + 1)) (il_counts l), il_once := il_once l @ [(ip, False)]\<rparr>))"

definition release :: "nat \<Rightarrow> perIPLimiter \<Rightarrow> perIPLimiter" where
  "release i l =
     (if i < length (il_once l) then
        (case il_once l ! i of (ip, fired) \<Rightarrow>
           if fired then l
           else
             let n = wrap64 (ip_count l ip - 1) in
             l\<lparr>il_counts := (if n \<le> 0 then AList.delete ip (il_counts l) else AList.update ip n (il_counts l)),
               il_once := (il_once l)[i := (ip, True)]\<rparr>)
      else l)"

section \<open>The per-address cap\<close>

datatype limit_op = DoAcquire string | DoRelease nat | DoSetMax int

definition limit_step :: "limit_op \<Rightarrow> perIPLimiter \<Rightarrow> perIPLimiter" where
  "limit_step a l = (case a of DoAcquire r \<Rightarrow> snd (Acquire r l) | DoRelease i \<Rightarrow> release i l | DoSetMax m \<Rightarrow> SetMax m l)"

text \<open>The connections of an address that were admitted and not released yet.\<close>

definition open_conns :: "perIPLimiter \<Rightarrow> addr \<Rightarrow> nat" where
  "open_conns l ip = length (filter (\<lambda>t. t = (ip, False)) (il_once l))"

definition limit_ok :: "perIPLimiter \<Rightarrow> bool" where
  "limit_ok l \<longleftrightarrow> distinct (map fst (il_counts l)) \<and>
     (\<forall>ip. map_of (il_counts l) ip = (if open_conns l ip = 0 then None else Some (int (open_conns l ip))))"

lemma limit_ok_count: "limit_ok l \<Longrightarrow> ip_count l ip = int (open_conns l ip)"
  by (simp add: limit_ok_def ip_count_def)

lemma open_le_once: "open_conns l ip \<le> length (il_once l)"
  by (simp add: open_conns_def)

lemma Acquire_ok:
  assumes "limit_ok l" and "int (length (il_once l)) < max_int64"
  shows "limit_ok (snd (Acquire r l))" "length (il_once (snd (Acquire r l))) \<le> Suc (length (il_once l))"
    and "il_max l > 0 \<and> int (open_conns l ip) \<le> il_max l \<Longrightarrow> int (open_conns (snd (Acquire r l)) ip) \<le> il_max l"
proof -
  have w: "wrap64 (int (open_conns l a) + 1) = int (open_conns l a) + 1" for a
    using open_le_once [of l a] assms(2) by (intro wrap64_id in_int64_nonneg) (simp_all add: max_int64_def)
  consider "snd (Acquire r l) = l"
    | a where "snd (Acquire r l) = l\<lparr>il_counts := AList.update a (int (open_conns l a) + 1) (il_counts l), il_once := il_once l @ [(a, False)]\<rparr>"
    using w limit_ok_count [OF assms(1)]
    by (cases "parseRemote r"; cases "il_max l > 0 \<and> ip_count l (the (parseRemote r)) \<ge> il_max l") (auto simp: Acquire_def)
  then show "limit_ok (snd (Acquire r l))"
  proof cases
    case (2 a)
    have "open_conns (snd (Acquire r l)) b = open_conns l b + (if b = a then 1 else 0)" for b
      by (simp add: 2 open_conns_def)
    then show ?thesis using assms(1) 2 by (simp add: limit_ok_def)
  qed (use assms(1) in simp)
  show "length (il_once (snd (Acquire r l))) \<le> Suc (length (il_once l))"
    by (simp add: Acquire_def split: option.split)
  show "il_max l > 0 \<and> int (open_conns l ip) \<le> il_max l \<Longrightarrow> int (open_conns (snd (Acquire r l)) ip) \<le> il_max l"
    using assms(1) by (auto simp: Acquire_def limit_ok_count open_conns_def split: option.splits)
qed

lemma count_list_update:
  "i < length xs \<Longrightarrow> length (filter P (xs[i := y])) + (if P (xs ! i) then 1 else 0) = length (filter P xs) + (if P y then 1 else 0)"
proof (induction xs arbitrary: i)
  case (Cons x xs)
  show ?case
  proof (cases i)
    case (Suc j)
    then show ?thesis using Cons.IH [of j] Cons.prems by simp
  qed simp
qed simp

lemma open_after_release:
  assumes "i < length (il_once l)" and "il_once l ! i = (ip, False)"
  shows "open_conns (release i l) a = open_conns l a - (if a = ip then 1 else 0)" and "open_conns l ip > 0"
proof -
  have "length (filter (\<lambda>t. t = (a, False)) ((il_once l)[i := (ip, True)])) + (if a = ip then 1 else 0) = open_conns l a" for a
    using count_list_update [OF assms(1), of "\<lambda>t. t = (a, False)" "(ip, True)"] assms(2) by (auto simp: open_conns_def)
  note c = this
  show "open_conns (release i l) a = open_conns l a - (if a = ip then 1 else 0)"
    using c [of a] assms by (simp add: release_def open_conns_def Let_def)
  show "open_conns l ip > 0" using c [of ip] by simp
qed

lemma release_ok:
  assumes "limit_ok l" and "int (length (il_once l)) < max_int64"
  shows "limit_ok (release i l)" "length (il_once (release i l)) = length (il_once l)" "open_conns (release i l) a \<le> open_conns l a"
    "il_max (release i l) = il_max l"
proof -
  show "length (il_once (release i l)) = length (il_once l)" "il_max (release i l) = il_max l"
    by (auto simp: release_def Let_def split: prod.split)
  consider "release i l = l" | ip where "i < length (il_once l)" "il_once l ! i = (ip, False)"
    by (cases "il_once l ! i") (force simp: release_def)
  then have "limit_ok (release i l) \<and> open_conns (release i l) a \<le> open_conns l a"
  proof cases
    case 2
    note o = open_after_release [OF 2]
    have w: "wrap64 (int (open_conns l ip) - 1) = int (open_conns l ip) - 1"
      using open_le_once [of l ip] assms(2) o(2) by (intro wrap64_id in_int64_nonneg) (simp_all add: max_int64_def)
    have cnt: "il_counts (release i l) = (if open_conns l ip = 1 then AList.delete ip (il_counts l) else AList.update ip (int (open_conns l ip) - 1) (il_counts l))"
      using 2 w o(2) assms(1) by (auto simp: release_def limit_ok_count Let_def)
    then show ?thesis using assms(1) o by (auto simp: limit_ok_def of_nat_diff)
  qed (use assms in simp)
  then show "limit_ok (release i l)" "open_conns (release i l) a \<le> open_conns l a" by simp_all
qed

lemma limit_run:
  assumes "limit_ok l" and "int (length (il_once l) + length acts) < max_int64" and "0 < il_max l" "il_max l \<le> M"
    and "list_all (\<lambda>a. case a of DoSetMax m \<Rightarrow> 0 < m \<and> m \<le> M | _ \<Rightarrow> True) acts" and "\<forall>ip. int (open_conns l ip) \<le> M"
  shows "limit_ok (fold limit_step acts l) \<and> (\<forall>ip. int (open_conns (fold limit_step acts l) ip) \<le> M)"
  using assms
proof (induction acts arbitrary: l)
  case (Cons a acts)
  have b: "int (length (il_once l)) < max_int64" using Cons.prems(2) by simp
  have "limit_ok (limit_step a l) \<and> length (il_once (limit_step a l)) \<le> Suc (length (il_once l))
    \<and> 0 < il_max (limit_step a l) \<and> il_max (limit_step a l) \<le> M \<and> (\<forall>ip. int (open_conns (limit_step a l) ip) \<le> M)"
  proof (cases a)
    case (DoAcquire r)
    have "int (open_conns (snd (Acquire r l)) ip) \<le> M" for ip
    proof (cases "int (open_conns l ip) \<le> il_max l")
      case True
      then show ?thesis using Acquire_ok(3) [OF Cons.prems(1) b, of ip r] Cons.prems(3,4) by simp
    next
      case False
      then have "open_conns (snd (Acquire r l)) ip = open_conns l ip"
        using Cons.prems(1,3) by (auto simp: Acquire_def limit_ok_count open_conns_def split: option.splits)
      then show ?thesis using Cons.prems(6) by simp
    qed
    moreover have "il_max (snd (Acquire r l)) = il_max l" by (simp add: Acquire_def split: option.split)
    ultimately show ?thesis using DoAcquire Acquire_ok [OF Cons.prems(1) b] Cons.prems by (simp add: limit_step_def)
  next
    case (DoRelease i)
    have "int (open_conns (release i l) ip) \<le> M" for ip
      using release_ok(3) [OF Cons.prems(1) b, of i ip] Cons.prems(6) by (meson dual_order.trans of_nat_mono)
    then show ?thesis using DoRelease release_ok [OF Cons.prems(1) b] Cons.prems by (simp add: limit_step_def)
  next
    case (DoSetMax m)
    then show ?thesis using Cons.prems by (simp add: limit_step_def SetMax_def limit_ok_def open_conns_def)
  qed
  then show ?case using Cons.IH [of "limit_step a l"] Cons.prems(2,5) by simp
qed simp

text \<open>C38. The per-address cap holds: whatever the order of connects, disconnects (each release function called any number of times) and
  changes of the cap up to M, an address never holds more than M admitted connections, the counter of an address is exactly the number it
  holds, and an address without connections takes no memory.\<close>

theorem per_ip_cap_exact:
  assumes "0 < m" "m \<le> M" and "list_all (\<lambda>a. case a of DoSetMax n \<Rightarrow> 0 < n \<and> n \<le> M | _ \<Rightarrow> True) acts"
    and "int (length acts) < max_int64" and "l = fold limit_step acts (NewPerIPLimiter m)"
  shows "\<forall>ip. int (open_conns l ip) \<le> M \<and> ip_count l ip = int (open_conns l ip) \<and> (map_of (il_counts l) ip = None \<longleftrightarrow> open_conns l ip = 0)"
proof -
  have "limit_ok (NewPerIPLimiter m)" "\<forall>ip. int (open_conns (NewPerIPLimiter m) ip) \<le> M"
    using assms(1,2) by (simp_all add: limit_ok_def NewPerIPLimiter_def open_conns_def)
  then have "limit_ok l \<and> (\<forall>ip. int (open_conns l ip) \<le> M)"
    unfolding assms(5) using limit_run [of "NewPerIPLimiter m" acts M] assms(1-4) by (simp add: NewPerIPLimiter_def)
  then show ?thesis by (simp add: limit_ok_count) (simp add: limit_ok_def)
qed

theorem per_ip_cap_exact_witness:
  "ip_count (fold limit_step [DoAcquire ''10.0.0.1:1'', DoAcquire ''[::ffff:10.0.0.1]:2'', DoAcquire ''10.0.0.1:3'', DoRelease 0, DoRelease 0] (NewPerIPLimiter 2))
     (V4 0x0A000001) \<le> 2"
  using per_ip_cap_exact [of 2 2 "[DoAcquire ''10.0.0.1:1'', DoAcquire ''[::ffff:10.0.0.1]:2'', DoAcquire ''10.0.0.1:3'', DoRelease 0, DoRelease 0]", OF _ _ _ _ refl]
  by (simp add: max_int64_def)

end
