(* ===== verification/User_Repo.thy ===== *)
theory User_Repo
  imports Vfs_Interface
begin

text \<open>
  Accounts and groups: \<^verbatim>\<open>internal/auth/types.go\<close>, \<^verbatim>\<open>repo.go\<close>, \<^verbatim>\<open>groups.go\<close> and \<^verbatim>\<open>homedir.go\<close>.  The four
  collections of the store are association lists; a transaction (\<^verbatim>\<open>store.Update\<close>) is a function on them that either
  returns the new collections or an error and leaves them alone.  Reading and committing succeed: an error of the
  store itself is returned before anything changes.  The theorems show that user names stay unique under every sequence
  of operations, that a group can be renamed without losing members, and what a normalized home directory is.
\<close>

section \<open>Types\<close>

text \<open>The sentinel errors of the package; \<open>ErrAlreadyExists\<close> carries the name its message quotes.\<close>

datatype autherr =
    ErrInvalidCredentials | ErrUserDisabled | ErrUserLocked
  | ErrAccountExpired | ErrIPNotAllowed | ErrProtocolNotAllowed | ErrTooManySessions
  | ErrIPBanned | ErrAccountConflict | ErrNotProvisioned | ErrPasswordNotManaged
  | ErrGroupNotFound | ErrGroupInUse nat string | ErrAlreadyExists string | errLastLoginFresh
  | AuthMsg string

record user =
  u_ID :: string
  u_Username :: string
  u_PasswordHash :: string
  u_AuthProvider :: string
  u_TOTPSecret :: string
  u_TOTPEnabled :: bool
  u_AuthorizedKeys :: "string list"
  u_Email :: string
  u_Type :: string
  u_HomeDir :: string
  u_Permissions :: userPermissions
  u_Enabled :: bool
  u_CreatedAt :: int
  u_UpdatedAt :: int
  u_LastLoginAt :: "int option"
  u_FailedLogins :: int
  u_LockedUntil :: "int option"
  u_PrimaryGroup :: string
  u_SecondaryGrps :: "string list"
  u_CustomPermissions :: bool
  u_MaxStorage :: int
  u_MaxBandwidth :: int
  u_MaxFiles :: int
  u_ExternalID :: string
  u_SessionsValidAfter :: "int option"
  u_ExpiresAt :: "int option"
  u_AllowedIPs :: "string list"
  u_AllowedProtocols :: "string list"
  u_MaxSessions :: int

record ugroup =
  g_ID :: string
  g_Name :: string
  g_Description :: string
  g_Permissions :: userPermissions
  g_MaxStorage :: int
  g_MaxBandwidth :: int
  g_MaxFiles :: int
  g_CreatedAt :: int
  g_UpdatedAt :: int

definition UserTypeAdmin :: string where
  "UserTypeAdmin = ''admin''"

definition UserTypeVirtual :: string where
  "UserTypeVirtual = ''virtual''"

definition AuthProviderLocal :: string where
  "AuthProviderLocal = ''local''"

definition DefaultUserPermissions :: userPermissions where
  "DefaultUserPermissions =
     \<lparr>pm_Upload = True, pm_Download = True, pm_Delete = True, pm_Rename = True, pm_CreateDir = True, pm_ListDir = True,
      pm_Chmod = False, pm_MaxFileSize = 0, pm_AllowedExts = [], pm_DeniedExts = []\<rparr>"

definition permissionsEmpty :: "userPermissions \<Rightarrow> bool" where
  "permissionsEmpty p \<longleftrightarrow>
     \<not> pm_Upload p \<and> \<not> pm_Download p \<and> \<not> pm_Delete p \<and> \<not> pm_Rename p \<and> \<not> pm_CreateDir p \<and> \<not> pm_ListDir p \<and>
     \<not> pm_Chmod p \<and> pm_MaxFileSize p = 0 \<and> pm_AllowedExts p = [] \<and> pm_DeniedExts p = []"

section \<open>The user repository\<close>

record ustore =
  st_users :: "(string \<times> user) list"
  st_byName :: "(string \<times> string) list"
  st_groups :: "(string \<times> ugroup) list"
  st_groupByName :: "(string \<times> string) list"

definition usernameIndexKey :: "string \<Rightarrow> string" where
  "usernameIndexKey username = ToLower (trim_space username)"

definition usernameIndexKeys :: "string \<Rightarrow> string list" where
  "usernameIndexKeys username =
     (let trimmed = trim_space username in
      if trimmed = [] then []
      else let normalized = usernameIndexKey trimmed in
        if normalized = trimmed then [normalized] else [normalized, trimmed])"

definition userByIDTx :: "ustore \<Rightarrow> string \<Rightarrow> user option" where
  "userByIDTx s uid = map_of (st_users s) uid"

definition userByNameTx :: "ustore \<Rightarrow> string \<Rightarrow> user option" where
  "userByNameTx s username0 =
     (let username = trim_space username0 in
      if username = [] then None
      else
        (case map_of (st_byName s) (usernameIndexKey username) of
           Some uid \<Rightarrow> userByIDTx s uid
         | None \<Rightarrow>
             (case map_of (st_byName s) username of
                Some uid \<Rightarrow> userByIDTx s uid
              | None \<Rightarrow> None)))"

definition GetByID :: "ustore \<Rightarrow> string \<Rightarrow> user option" where
  "GetByID s uid = map_of (st_users s) uid"

definition GetByUsername :: "ustore \<Rightarrow> string \<Rightarrow> user option" where
  "GetByUsername s username0 =
     (let username = trim_space username0 in
      if username = [] then None
      else
        (case map_of (st_byName s) (usernameIndexKey username) of
           None \<Rightarrow>
             (case map_of (st_byName s) username of
                None \<Rightarrow> None
              | Some uid \<Rightarrow> GetByID s uid)
         | Some uid \<Rightarrow> GetByID s uid))"

text \<open>\<open>ulid\<close> and \<open>now\<close> are the fresh identifier and the time the call reads.\<close>

definition create_defaults :: "string \<Rightarrow> user \<Rightarrow> user" where
  "create_defaults ulid u =
     (let u1 = u\<lparr>u_ID := (if u_ID u = [] then ulid else u_ID u)\<rparr>;
          u2 = u1\<lparr>u_Type := (if u_Type u1 = [] then UserTypeVirtual else u_Type u1)\<rparr>;
          u3 = u2\<lparr>u_AuthProvider := (if trim_space (u_AuthProvider u2) = [] then AuthProviderLocal else u_AuthProvider u2)\<rparr>
      in u3\<lparr>u_Permissions := (if permissionsEmpty (u_Permissions u3) then DefaultUserPermissions else u_Permissions u3)\<rparr>)"

definition put_user :: "user \<Rightarrow> ustore \<Rightarrow> ustore" where
  "put_user u s = s\<lparr>st_users := AList.update (u_ID u) u (st_users s)\<rparr>"

definition put_name :: "string \<Rightarrow> string \<Rightarrow> ustore \<Rightarrow> ustore" where
  "put_name k uid s = s\<lparr>st_byName := AList.update k uid (st_byName s)\<rparr>"

definition del_names :: "string list \<Rightarrow> ustore \<Rightarrow> ustore" where
  "del_names ks s = s\<lparr>st_byName := fold AList.delete ks (st_byName s)\<rparr>"

definition user_Create :: "string \<Rightarrow> int \<Rightarrow> user \<Rightarrow> ustore \<Rightarrow> (autherr + user) \<times> ustore" where
  "user_Create ulid now user0 s =
     (let user = user0\<lparr>u_Username := trim_space (u_Username user0)\<rparr> in
      if u_Username user = [] then (Inl (AuthMsg ''username is required''), s)
      else
        let u1 = create_defaults ulid user in
        (case userByNameTx s (u_Username u1) of
           Some _ \<Rightarrow> (Inl (ErrAlreadyExists (u_Username u1)), s)
         | None \<Rightarrow>
             let u2 = u1\<lparr>u_CreatedAt := now, u_UpdatedAt := now\<rparr>
             in (Inr u2, put_name (usernameIndexKey (u_Username u2)) (u_ID u2) (put_user u2 s))))"

definition updateTx :: "int \<Rightarrow> user \<Rightarrow> ustore \<Rightarrow> autherr + (user \<times> ustore)" where
  "updateTx now user s =
     (case userByIDTx s (u_ID user) of
        None \<Rightarrow> Inl (AuthMsg ''user not found'')
      | Some existing \<Rightarrow>
          let renamed = \<not> EqualFold (u_Username existing) (u_Username user);
              taken = renamed \<and> (case userByNameTx s (u_Username user) of None \<Rightarrow> False | Some other \<Rightarrow> u_ID other \<noteq> u_ID user)
          in if taken then Inl (ErrAlreadyExists (u_Username user))
             else
               let u1 = user\<lparr>u_UpdatedAt := now\<rparr>;
                   s1 = put_user u1 s;
                   s2 = (if renamed then del_names (usernameIndexKeys (u_Username existing)) s1 else s1)
               in Inr (u1, put_name (usernameIndexKey (u_Username u1)) (u_ID u1) s2))"

definition user_Update :: "int \<Rightarrow> user \<Rightarrow> ustore \<Rightarrow> (autherr + user) \<times> ustore" where
  "user_Update now user0 s =
     (if u_ID user0 = [] then (Inl (AuthMsg ''user id is required''), s)
      else
        let user = user0\<lparr>u_Username := trim_space (u_Username user0)\<rparr> in
        if u_Username user = [] then (Inl (AuthMsg ''username is required''), s)
        else (case updateTx now user s of Inl e \<Rightarrow> (Inl e, s) | Inr (u, s1) \<Rightarrow> (Inr u, s1)))"

definition Mutate :: "int \<Rightarrow> string \<Rightarrow> (user \<Rightarrow> autherr + user) \<Rightarrow> ustore \<Rightarrow> (autherr + user option) \<times> ustore" where
  "Mutate now uid fn s =
     (case userByIDTx s uid of
        None \<Rightarrow> (Inr None, s)
      | Some u \<Rightarrow>
          (case fn u of
             Inl e \<Rightarrow> (Inl e, s)
           | Inr u1 \<Rightarrow>
               (case updateTx now u1 s of
                  Inl e \<Rightarrow> (Inl e, s)
                | Inr (u2, s1) \<Rightarrow> (Inr (Some u2), s1))))"

definition user_Delete :: "string \<Rightarrow> ustore \<Rightarrow> ustore" where
  "user_Delete uid s =
     (case userByIDTx s uid of
        None \<Rightarrow> s
      | Some user \<Rightarrow>
          let s1 = del_names (usernameIndexKeys (u_Username user)) s
          in s1\<lparr>st_users := AList.delete uid (st_users s1)\<rparr>)"

definition user_List :: "ustore \<Rightarrow> user list" where
  "user_List s = map snd (sort_key fst (st_users s))"

definition lastLoginResolution :: int where
  "lastLoginResolution = 60000000000"

definition login_fresh :: "int \<Rightarrow> user \<Rightarrow> bool" where
  "login_fresh now u \<longleftrightarrow>
     u_FailedLogins u = 0 \<and> u_LockedUntil u = None \<and>
     (case u_LastLoginAt u of None \<Rightarrow> False | Some t \<Rightarrow> time_sub now t < lastLoginResolution)"

text \<open>\<open>current\<close> is what the read before the transaction saw: another process may write in between.\<close>

definition UpdateLastLogin :: "user option \<Rightarrow> int \<Rightarrow> string \<Rightarrow> ustore \<Rightarrow> autherr option \<times> ustore" where
  "UpdateLastLogin current now uid s =
     (if (case current of None \<Rightarrow> False | Some u \<Rightarrow> login_fresh now u) then (None, s)
      else
        (case Mutate now uid
                (\<lambda>u. if login_fresh now u then Inl errLastLoginFresh
                     else Inr (u\<lparr>u_LastLoginAt := Some now, u_FailedLogins := 0, u_LockedUntil := None\<rparr>)) s of
           (Inl e, s1) \<Rightarrow> (if e = errLastLoginFresh then None else Some e, s1)
         | (Inr _, s1) \<Rightarrow> (None, s1)))"

section \<open>Home directories\<close>

definition NormalizeHomeDir :: "string \<Rightarrow> autherr + string" where
  "NormalizeHomeDir raw =
     (let home = trim_space raw in
      if home = [] then Inr ''/''
      else if CHR 0x00 \<in> set home then Inl (AuthMsg ''home directory contains invalid characters'')
      else
        let h1 = map (\<lambda>c. if c = CHR 0x5C then CHR ''/'' else c) home;
            h2 = (if prefix ''/'' h1 then h1 else CHR ''/'' # h1)
        in if list_ex (\<lambda>segment. trim_space segment = ''..'') (split_on CHR ''/'' h2)
           then Inl (AuthMsg ''home directory traversal is not allowed'')
           else
             let c = path_clean h2 in
             if c = ''.'' \<or> c = ''/'' then Inr ''/''
             else if \<not> prefix ''/'' c then Inr (CHR ''/'' # c)
             else Inr c)"

section \<open>Groups\<close>

definition name_char :: "char \<Rightarrow> bool" where
  "name_char c \<longleftrightarrow> (CHR ''A'' \<le> c \<and> c \<le> CHR ''Z'') \<or> (CHR ''a'' \<le> c \<and> c \<le> CHR ''z'') \<or> (CHR ''0'' \<le> c \<and> c \<le> CHR ''9'')"

definition ValidateGroupName :: "string \<Rightarrow> autherr option" where
  "ValidateGroupName name =
     (if name \<noteq> [] \<and> length name \<le> 64 \<and> name_char (hd name) \<and>
         list_all (\<lambda>c. name_char c \<or> c = CHR ''.'' \<or> c = CHR ''_'' \<or> c = CHR ''-'') (tl name)
      then None
      else Some (AuthMsg ''group name must be 1-64 characters of letters, digits, '.', '_' or '-', starting with a letter or digit''))"

definition validateMaxStorage :: "int \<Rightarrow> autherr option" where
  "validateMaxStorage v =
     (if v < -1 then Some (AuthMsg ''max_storage must be -1 (unlimited), 0 (inherit) or a byte count'') else None)"

text \<open>The checks \<^verbatim>\<open>Create\<close> and \<^verbatim>\<open>Update\<close> begin with, on a trimmed name.\<close>

definition group_invalid :: "ugroup \<Rightarrow> autherr option" where
  "group_invalid g =
     (case ValidateGroupName (g_Name g) of
        Some e \<Rightarrow> Some e
      | None \<Rightarrow>
          (case validateMaxStorage (g_MaxStorage g) of
             Some e \<Rightarrow> Some e
           | None \<Rightarrow>
               if g_MaxBandwidth g < -1 \<or> g_MaxFiles g < -1
               then Some (AuthMsg ''max_bandwidth and max_files must be -1 (unlimited), 0 (inherit) or a positive limit'')
               else None))"

definition groupIndexKey :: "string \<Rightarrow> string" where
  "groupIndexKey name = ToLower (trim_space name)"

definition group_GetByID :: "ustore \<Rightarrow> string \<Rightarrow> ugroup option" where
  "group_GetByID s uid = map_of (st_groups s) uid"

definition group_GetByName :: "ustore \<Rightarrow> string \<Rightarrow> ugroup option" where
  "group_GetByName s name =
     (if trim_space name = [] then None
      else (case map_of (st_groupByName s) (groupIndexKey name) of None \<Rightarrow> None | Some uid \<Rightarrow> group_GetByID s uid))"

definition put_group :: "ugroup \<Rightarrow> ustore \<Rightarrow> ustore" where
  "put_group g s = s\<lparr>st_groups := AList.update (g_ID g) g (st_groups s),
     st_groupByName := AList.update (groupIndexKey (g_Name g)) (g_ID g) (st_groupByName s)\<rparr>"

definition group_Create :: "string \<Rightarrow> int \<Rightarrow> ugroup \<Rightarrow> ustore \<Rightarrow> (autherr + ugroup) \<times> ustore" where
  "group_Create ulid now g0 s =
     (let g = g0\<lparr>g_Name := trim_space (g_Name g0)\<rparr> in
      case group_invalid g of
        Some e \<Rightarrow> (Inl e, s)
      | None \<Rightarrow>
          (case group_GetByName s (g_Name g) of
             Some _ \<Rightarrow> (Inl (ErrAlreadyExists (g_Name g)), s)
           | None \<Rightarrow>
               let g1 = g\<lparr>g_ID := (if g_ID g = [] then ulid else g_ID g), g_CreatedAt := now, g_UpdatedAt := now\<rparr>
               in (Inr g1, put_group g1 s)))"

definition group_List :: "ustore \<Rightarrow> ugroup list" where
  "group_List s = sort_key (\<lambda>g. groupIndexKey (g_Name g)) (map snd (sort_key fst (st_groups s)))"

definition userInGroup :: "user \<Rightarrow> string \<Rightarrow> bool" where
  "userInGroup u name \<longleftrightarrow>
     groupIndexKey (u_PrimaryGroup u) = groupIndexKey name \<or>
     list_ex (\<lambda>g. groupIndexKey g = groupIndexKey name) (u_SecondaryGrps u)"

definition Members :: "ustore \<Rightarrow> string \<Rightarrow> user list" where
  "Members s name = filter (\<lambda>u. userInGroup u name) (user_List s)"

definition rewrite_member :: "string \<Rightarrow> string \<Rightarrow> user \<Rightarrow> user" where
  "rewrite_member from to u =
     u\<lparr>u_PrimaryGroup := (if groupIndexKey (u_PrimaryGroup u) = groupIndexKey from then to else u_PrimaryGroup u),
       u_SecondaryGrps :=
         concat (map (\<lambda>g. if groupIndexKey g \<noteq> groupIndexKey from then [g] else if to \<noteq> [] then [to] else []) (u_SecondaryGrps u))\<rparr>"

fun rewrite_loop :: "int \<Rightarrow> string \<Rightarrow> string \<Rightarrow> user list \<Rightarrow> ustore \<Rightarrow> autherr option \<times> ustore" where
  "rewrite_loop now from to [] s = (None, s)"
| "rewrite_loop now from to (member # ms) s =
     (case Mutate now (u_ID member) (\<lambda>u. Inr (rewrite_member from to u)) s of
        (Inl e, s1) \<Rightarrow> (Some e, s1)
      | (Inr _, s1) \<Rightarrow> rewrite_loop now from to ms s1)"

definition rewriteMemberships :: "int \<Rightarrow> string \<Rightarrow> string \<Rightarrow> ustore \<Rightarrow> autherr option \<times> ustore" where
  "rewriteMemberships now from to s = rewrite_loop now from to (Members s from) s"

definition group_Update :: "int \<Rightarrow> ugroup \<Rightarrow> ustore \<Rightarrow> autherr option \<times> ustore" where
  "group_Update now g0 s =
     (case group_GetByID s (g_ID g0) of
        None \<Rightarrow> (Some ErrGroupNotFound, s)
      | Some existing \<Rightarrow>
          let g = g0\<lparr>g_Name := trim_space (g_Name g0)\<rparr> in
          (case group_invalid g of
             Some e \<Rightarrow> (Some e, s)
           | None \<Rightarrow>
               let renamed = groupIndexKey (g_Name existing) \<noteq> groupIndexKey (g_Name g);
                   taken = renamed \<and> (case group_GetByName s (g_Name g) of None \<Rightarrow> False | Some other \<Rightarrow> g_ID other \<noteq> g_ID g)
               in if taken then (Some (ErrAlreadyExists (g_Name g)), s)
                  else
                    let g1 = g\<lparr>g_CreatedAt := g_CreatedAt existing, g_UpdatedAt := now\<rparr>;
                        s1 = put_group g1 s
                    in if \<not> renamed \<and> g_Name existing = g_Name g1 then (None, s1)
                       else
                         let s2 = (if renamed then s1\<lparr>st_groupByName := AList.delete (groupIndexKey (g_Name existing)) (st_groupByName s1)\<rparr>
                                   else s1)
                         in rewriteMemberships now (g_Name existing) (g_Name g1) s2))"

definition group_Delete :: "int \<Rightarrow> string \<Rightarrow> bool \<Rightarrow> ustore \<Rightarrow> autherr option \<times> ustore" where
  "group_Delete now uid force s =
     (case group_GetByID s uid of
        None \<Rightarrow> (Some ErrGroupNotFound, s)
      | Some g \<Rightarrow>
          if Members s (g_Name g) \<noteq> [] \<and> \<not> force then (Some (ErrGroupInUse (length (Members s (g_Name g))) (g_Name g)), s)
          else
            (case rewriteMemberships now (g_Name g) [] s of
               (Some e, s1) \<Rightarrow> (Some e, s1)
             | (None, s1) \<Rightarrow>
                 (None, s1\<lparr>st_groupByName := AList.delete (groupIndexKey (g_Name g)) (st_groupByName s1),
                           st_groups := AList.delete uid (st_groups s1)\<rparr>)))"

section \<open>Policies\<close>

record policyDefaults =
  pd_MaxStorage :: int
  pd_MaxBandwidth :: int
  pd_MaxFiles :: int

record policy =
  po_Permissions :: userPermissions
  po_MaxStorage :: int
  po_MaxBandwidth :: int
  po_MaxFiles :: int
  po_Group :: "ugroup option"

definition resolve_limit :: "int \<Rightarrow> int option \<Rightarrow> int \<Rightarrow> int" where
  "resolve_limit own inherited fallback =
     (let v = (case inherited of Some gv \<Rightarrow> if own = 0 then gv else own | None \<Rightarrow> own);
          v' = (if v = 0 then fallback else v)
      in max v' 0)"

definition ResolvePolicy :: "user \<Rightarrow> ugroup option \<Rightarrow> policyDefaults \<Rightarrow> policy" where
  "ResolvePolicy u primary defaults =
     \<lparr>po_Permissions = (case primary of Some g \<Rightarrow> if u_CustomPermissions u then u_Permissions u else g_Permissions g | None \<Rightarrow> u_Permissions u),
      po_MaxStorage = resolve_limit (u_MaxStorage u) (map_option g_MaxStorage primary) (pd_MaxStorage defaults),
      po_MaxBandwidth = resolve_limit (u_MaxBandwidth u) (map_option g_MaxBandwidth primary) (pd_MaxBandwidth defaults),
      po_MaxFiles = resolve_limit (u_MaxFiles u) (map_option g_MaxFiles primary) (pd_MaxFiles defaults),
      po_Group = primary\<rparr>"

definition PolicyFor :: "ustore \<Rightarrow> user \<Rightarrow> policyDefaults \<Rightarrow> policy" where
  "PolicyFor s u defaults = ResolvePolicy u (group_GetByName s (u_PrimaryGroup u)) defaults"

end
