(* ===== verification/Login.thy ===== *)
theory Login
  imports Netguard User_Repo
begin

text \<open>
  Signing in: the per-user access policy (\<^verbatim>\<open>internal/auth/access.go\<close>), the per-address throttle (\<^verbatim>\<open>ipthrottle.go\<close>), the
  engine (\<^verbatim>\<open>engine.go\<close>) and accounts of external identity providers (\<^verbatim>\<open>external.go\<close>).  What the engine takes from
  third-party packages or tables is a parameter (\<open>authlib\<close>): hashing and verifying passwords, parsing SSH keys, the LDAP directory and
  the Unicode classes of a password's characters.  An operation reads the clock once; a mutex is the atomicity of the operation that holds it.
\<close>

section \<open>Access policy\<close>

definition ProtocolFTP :: string where "ProtocolFTP = ''ftp''"

definition ProtocolFTPS :: string where "ProtocolFTPS = ''ftps''"

definition ProtocolSFTP :: string where "ProtocolSFTP = ''sftp''"

definition ProtocolSCP :: string where "ProtocolSCP = ''scp''"

definition ProtocolWebUI :: string where "ProtocolWebUI = ''webui''"

definition KnownProtocols :: "string list" where
  "KnownProtocols = [ProtocolFTP, ProtocolFTPS, ProtocolSFTP, ProtocolSCP, ProtocolWebUI]"

definition Expired :: "user \<Rightarrow> int \<Rightarrow> bool" where
  "Expired u now = (case u_ExpiresAt u of None \<Rightarrow> False | Some t \<Rightarrow> \<not> now < t)"

definition ProtocolAllowed :: "user \<Rightarrow> string \<Rightarrow> bool" where
  "ProtocolAllowed u protocol \<longleftrightarrow> u_AllowedProtocols u = [] \<or> protocol \<in> set (u_AllowedProtocols u)"

definition AnyProtocolAllowed :: "user \<Rightarrow> string list \<Rightarrow> bool" where
  "AnyProtocolAllowed u protocols \<longleftrightarrow> list_ex (ProtocolAllowed u) protocols"

definition parseAccessPrefix :: "string \<Rightarrow> netprefix option" where
  "parseAccessPrefix raw = parse_entry (trim_space raw)"

definition IPAllowed :: "user \<Rightarrow> string \<Rightarrow> bool" where
  "IPAllowed u remote =
     (if u_AllowedIPs u = [] then True
      else
        (case ParseAddr (remote_host remote) of
           None \<Rightarrow> False
         | Some ip \<Rightarrow>
             list_ex (\<lambda>entry. case parseAccessPrefix entry of None \<Rightarrow> False | Some p \<Rightarrow> Contains p (Unmap ip)) (u_AllowedIPs u)))"

definition CheckAccess :: "user \<Rightarrow> string \<Rightarrow> int \<Rightarrow> string list \<Rightarrow> autherr option" where
  "CheckAccess u remote now protocols =
     (if Expired u now then Some ErrAccountExpired
      else if \<not> IPAllowed u remote then Some ErrIPNotAllowed
      else if protocols \<noteq> [] \<and> \<not> AnyProtocolAllowed u protocols then Some ErrProtocolNotAllowed
      else None)"

definition IsAccessDenied :: "autherr \<Rightarrow> bool" where
  "IsAccessDenied e \<longleftrightarrow> e \<in> {ErrAccountExpired, ErrIPNotAllowed, ErrProtocolNotAllowed, ErrTooManySessions}"

text \<open>\<^verbatim>\<open>Prefix.String\<close>; the zero prefix prints as \<^verbatim>\<open>invalid Prefix\<close>.\<close>

definition show_addr :: "addr \<Rightarrow> string" where
  "show_addr a =
     (case a of
        V4 w \<Rightarrow> show_v4 w
      | V6 w \<Rightarrow> if Is4In6 a then ''::ffff:'' @ show_v4 (ucast w) else show_v6 w)"

definition show_prefix :: "netprefix \<Rightarrow> string" where
  "show_prefix p =
     (if np_bits p > bit_len (np_addr p) then ''invalid Prefix''
      else show_addr (np_addr p) @ ''/'' @ show_int (int (np_bits p)))"

definition canonical_entry :: "netprefix \<Rightarrow> string" where
  "canonical_entry p = (if np_bits p = bit_len (np_addr p) then show_addr (np_addr p) else show_prefix p)"

fun normalize_ips :: "string list \<Rightarrow> string list \<Rightarrow> autherr + string list" where
  "normalize_ips [] out = Inr out"
| "normalize_ips (raw0 # es) out =
     (let raw = trim_space raw0 in
      if raw = [] then normalize_ips es out
      else
        (case parseAccessPrefix raw of
           None \<Rightarrow> Inl (AuthMsg (''allowed_ips entry '' @ raw @ '' is not an IP address or CIDR range''))
         | Some p \<Rightarrow> normalize_ips es (if canonical_entry p \<in> set out then out else out @ [canonical_entry p])))"

fun normalize_protocols :: "string list \<Rightarrow> string list \<Rightarrow> autherr + string list" where
  "normalize_protocols [] out = Inr out"
| "normalize_protocols (raw # es) out =
     (let name = ToLower (trim_space raw) in
      if name = [] then normalize_protocols es out
      else if name \<notin> set KnownProtocols then Inl (AuthMsg (''unknown protocol '' @ raw))
      else normalize_protocols es (if name \<in> set out then out else out @ [name]))"

definition protocol_index :: "string \<Rightarrow> nat" where
  "protocol_index a = length (takeWhile (\<lambda>p. p \<noteq> a) KnownProtocols)"

definition NormalizeAccessPolicy :: "string list \<Rightarrow> string list \<Rightarrow> int \<Rightarrow> autherr + (string list \<times> string list)" where
  "NormalizeAccessPolicy ips protocols maxSessions =
     (if maxSessions < 0 then Inl (AuthMsg ''max_sessions must be 0 (unlimited) or positive'')
      else
        (case normalize_ips ips [] of
           Inl e \<Rightarrow> Inl e
         | Inr outIPs \<Rightarrow>
             (case normalize_protocols protocols [] of
                Inl e \<Rightarrow> Inl e
              | Inr outProtocols \<Rightarrow> Inr (outIPs, sort_key protocol_index outProtocols))))"

section \<open>The throttle\<close>

record ipFailures =
  fl_count :: int
  fl_firstAt :: int
  fl_bannedUntil :: int

record throttle =
  th_enabled :: bool
  th_threshold :: int
  th_duration :: int
  th_whitelist :: "ipFilter option"
  th_entries :: "(string \<times> ipFailures) list"

definition maxTrackedIPs :: nat where
  "maxTrackedIPs = 100000"

record throttleConfig =
  tc_Enabled :: bool
  tc_Threshold :: int
  tc_Duration :: int
  tc_Whitelist :: "string list"

definition Configure :: "throttleConfig \<Rightarrow> throttle \<Rightarrow> goerr option \<times> throttle" where
  "Configure cfg t =
     (case (if tc_Whitelist cfg = [] then Inr None else map_sum (\<lambda>e. e) Some (NewIPFilter (tc_Whitelist cfg) [])) of
        Inl e \<Rightarrow> (Some e, t)
      | Inr whitelist \<Rightarrow>
          let enabled = tc_Enabled cfg \<and> tc_Threshold cfg > 0 in
          (None, \<lparr>th_enabled = enabled, th_threshold = tc_Threshold cfg,
                  th_duration = (if tc_Duration cfg \<le> 0 then 3600000000000 else tc_Duration cfg),
                  th_whitelist = whitelist, th_entries = (if enabled then th_entries t else [])\<rparr>))"

definition NewIPThrottle :: "throttleConfig \<Rightarrow> throttle res" where
  "NewIPThrottle cfg =
     (case Configure cfg \<lparr>th_enabled = False, th_threshold = 0, th_duration = 0, th_whitelist = None, th_entries = []\<rparr> of
        (Some e, _) \<Rightarrow> Inl e
      | (None, t) \<Rightarrow> Inr t)"

definition exempt :: "throttle \<Rightarrow> string \<Rightarrow> bool" where
  "exempt t remote \<longleftrightarrow> th_whitelist t \<noteq> None \<and> AllowedRemote (th_whitelist t) remote"

definition throttleKey :: "string \<Rightarrow> string" where
  "throttleKey remote =
     (case ParseAddr (remote_host (trim_space remote)) of
        None \<Rightarrow> []
      | Some ip \<Rightarrow>
          (case Unmap ip of
             V4 w \<Rightarrow> show_v4 w
           | V6 w \<Rightarrow> show_addr (mask_addr 64 (V6 w)) @ ''/64''))"

definition throttle_Check :: "throttle \<Rightarrow> string \<Rightarrow> int \<Rightarrow> autherr option" where
  "throttle_Check t remote now =
     (let ip = throttleKey remote in
      if \<not> th_enabled t \<or> ip = [] \<or> exempt t remote then None
      else
        (case map_of (th_entries t) ip of
           None \<Rightarrow> None
         | Some e \<Rightarrow> if now < fl_bannedUntil e then Some ErrIPBanned else None))"

definition stale :: "throttle \<Rightarrow> int \<Rightarrow> ipFailures \<Rightarrow> bool" where
  "stale t now e \<longleftrightarrow> time_sub now (fl_firstAt e) > th_duration t \<and> \<not> now < fl_bannedUntil e"

definition pruneLocked :: "int \<Rightarrow> throttle \<Rightarrow> throttle" where
  "pruneLocked now t = t\<lparr>th_entries := filter (\<lambda>(_, e). \<not> stale t now e) (th_entries t)\<rparr>"

definition count_failure :: "string \<Rightarrow> int \<Rightarrow> ipFailures \<Rightarrow> throttle \<Rightarrow> bool \<times> throttle" where
  "count_failure ip now e0 t =
     (let e = e0\<lparr>fl_count := wrap64 (fl_count e0 + 1)\<rparr> in
      if fl_count e \<ge> th_threshold t \<and> \<not> now < fl_bannedUntil e
      then (True, t\<lparr>th_entries := AList.update ip (e\<lparr>fl_bannedUntil := now + th_duration t\<rparr>) (th_entries t)\<rparr>)
      else (False, t\<lparr>th_entries := AList.update ip e (th_entries t)\<rparr>))"

definition RecordFailure :: "string \<Rightarrow> int \<Rightarrow> throttle \<Rightarrow> bool \<times> throttle" where
  "RecordFailure remote now t =
     (let ip = throttleKey remote;
          fresh = \<lparr>fl_count = 0, fl_firstAt = now, fl_bannedUntil = zero_time\<rparr>
      in if \<not> th_enabled t \<or> ip = [] \<or> exempt t remote then (False, t)
         else
           (case map_of (th_entries t) ip of
              None \<Rightarrow>
                let t1 = (if length (th_entries t) \<ge> maxTrackedIPs then pruneLocked now t else t) in
                if length (th_entries t1) \<ge> maxTrackedIPs then (False, t1) else count_failure ip now fresh t1
            | Some e \<Rightarrow> count_failure ip now (if stale t now e then fresh else e) t))"

definition RecordSuccess :: "string \<Rightarrow> throttle \<Rightarrow> throttle" where
  "RecordSuccess remote t =
     (let ip = throttleKey remote in
      case map_of (th_entries t) ip of
        None \<Rightarrow> t
      | Some e \<Rightarrow> if fl_bannedUntil e = zero_time then t\<lparr>th_entries := AList.delete ip (th_entries t)\<rparr> else t)"

definition BannedCount :: "throttle \<Rightarrow> int \<Rightarrow> nat" where
  "BannedCount t now = length (filter (\<lambda>(_, e). now < fl_bannedUntil e) (th_entries t))"

section \<open>The engine\<close>

record ldapIdentity =
  li_Username :: string
  li_Email :: string
  li_Groups :: "string list"
  li_Type :: string
  li_HomeDir :: string
  li_Permissions :: userPermissions

record authlib =
  al_VerifyPassword :: "string \<Rightarrow> string \<Rightarrow> bool"
  al_HashPassword :: "string \<Rightarrow> string \<Rightarrow> autherr + string"
  al_keyMatches :: "string \<Rightarrow> bytes \<Rightarrow> bool"
  al_hasSpecial :: "string \<Rightarrow> bool"
  al_ldap :: "(string \<Rightarrow> string \<Rightarrow> autherr + ldapIdentity) option"

record engine =
  en_hashAlgo :: string
  en_maxAttempts :: int
  en_lockDuration :: int
  en_minPasswordLength :: int
  en_requireSpecial :: bool
  en_lockoutDisabled :: bool

definition AuthProviderLDAP :: string where
  "AuthProviderLDAP = ''ldap''"

definition AuthProviderOIDC :: string where
  "AuthProviderOIDC = ''oidc''"

definition NewEngine :: "string \<Rightarrow> int \<Rightarrow> int \<Rightarrow> engine" where
  "NewEngine hashAlgo maxAttempts lockDuration =
     \<lparr>en_hashAlgo = hashAlgo, en_maxAttempts = (if maxAttempts \<le> 0 then 5 else maxAttempts),
      en_lockDuration = (if lockDuration \<le> 0 then 900000000000 else lockDuration),
      en_minPasswordLength = 0, en_requireSpecial = False, en_lockoutDisabled = False\<rparr>"

definition SetLockoutEnabled :: "bool \<Rightarrow> engine \<Rightarrow> engine" where
  "SetLockoutEnabled enabled e = e\<lparr>en_lockoutDisabled := \<not> enabled\<rparr>"

definition SetLockoutPolicy :: "int \<Rightarrow> int \<Rightarrow> engine \<Rightarrow> engine" where
  "SetLockoutPolicy maxAttempts lockDuration e =
     e\<lparr>en_maxAttempts := (if maxAttempts > 0 then maxAttempts else en_maxAttempts e),
       en_lockDuration := (if lockDuration > 0 then lockDuration else en_lockDuration e)\<rparr>"

definition SetRequireSpecialChar :: "bool \<Rightarrow> engine \<Rightarrow> engine" where
  "SetRequireSpecialChar require e = e\<lparr>en_requireSpecial := require\<rparr>"

definition SetMinPasswordLength :: "int \<Rightarrow> engine \<Rightarrow> engine" where
  "SetMinPasswordLength n e = e\<lparr>en_minPasswordLength := (if n < 0 then 0 else n)\<rparr>"

definition validatePassword :: "authlib \<Rightarrow> engine \<Rightarrow> string \<Rightarrow> autherr option" where
  "validatePassword lib e password =
     (if en_minPasswordLength e > 0 \<and> int (length password) < en_minPasswordLength e then
        Some (AuthMsg (''password must be at least '' @ show_int (en_minPasswordLength e) @ '' characters''))
      else if en_requireSpecial e \<and> \<not> al_hasSpecial lib password then
        Some (AuthMsg ''password must contain at least one special character'')
      else None)"

definition ensureLoginAllowed :: "int \<Rightarrow> user \<Rightarrow> autherr option" where
  "ensureLoginAllowed now u =
     (if \<not> u_Enabled u then Some ErrUserDisabled
      else if Expired u now then Some ErrAccountExpired
      else if (case u_LockedUntil u of None \<Rightarrow> False | Some t \<Rightarrow> t > now) then Some ErrUserLocked
      else None)"

definition fail_login :: "engine \<Rightarrow> int \<Rightarrow> user \<Rightarrow> user" where
  "fail_login e now u0 =
     (let u = u0\<lparr>u_FailedLogins := wrap64 (u_FailedLogins u0 + 1)\<rparr> in
      if \<not> en_lockoutDisabled e \<and> u_FailedLogins u \<ge> en_maxAttempts e
      then u\<lparr>u_LockedUntil := Some (now + en_lockDuration e)\<rparr> else u)"

definition registerFailedLogin :: "engine \<Rightarrow> int \<Rightarrow> user option \<Rightarrow> ustore \<Rightarrow> autherr option \<times> ustore" where
  "registerFailedLogin e now user s =
     (case user of
        None \<Rightarrow> (None, s)
      | Some u \<Rightarrow>
          (case Mutate now (u_ID u) (\<lambda>u. Inr (fail_login e now u)) s of
             (Inl err, s1) \<Rightarrow> (Some err, s1)
           | (Inr _, s1) \<Rightarrow> (None, s1)))"

definition isLDAPUser :: "user \<Rightarrow> bool" where
  "isLDAPUser u \<longleftrightarrow> EqualFold (trim_space (u_AuthProvider u)) AuthProviderLDAP"

definition authenticateLocalUser :: "authlib \<Rightarrow> engine \<Rightarrow> int \<Rightarrow> user \<Rightarrow> string \<Rightarrow> ustore \<Rightarrow> (autherr + user) \<times> ustore" where
  "authenticateLocalUser lib e now user0 password s =
     (case GetByID s (u_ID user0) of
        None \<Rightarrow> (Inl ErrInvalidCredentials, s)
      | Some user \<Rightarrow>
          (case ensureLoginAllowed now user of
             Some err \<Rightarrow> (Inl err, s)
           | None \<Rightarrow>
               if EqualFold (u_AuthProvider user) AuthProviderOIDC then (Inl ErrInvalidCredentials, s)
               else if \<not> al_VerifyPassword lib password (u_PasswordHash user) then
                 (Inl ErrInvalidCredentials, snd (registerFailedLogin e now (Some user) s))
               else (Inr user, s)))"

definition firstGroup :: "string list \<Rightarrow> string" where
  "firstGroup groups = (case groups of [] \<Rightarrow> [] | g # _ \<Rightarrow> g)"

definition zero_user :: user where
  "zero_user =
     \<lparr>u_ID = [], u_Username = [], u_PasswordHash = [], u_AuthProvider = [], u_TOTPSecret = [], u_TOTPEnabled = False, u_AuthorizedKeys = [],
      u_Email = [], u_Type = [], u_HomeDir = [],
      u_Permissions = \<lparr>pm_Upload = False, pm_Download = False, pm_Delete = False, pm_Rename = False, pm_CreateDir = False, pm_ListDir = False,
        pm_Chmod = False, pm_MaxFileSize = 0, pm_AllowedExts = [], pm_DeniedExts = []\<rparr>,
      u_Enabled = False, u_CreatedAt = zero_time, u_UpdatedAt = zero_time, u_LastLoginAt = None, u_FailedLogins = 0, u_LockedUntil = None,
      u_PrimaryGroup = [], u_SecondaryGrps = [], u_CustomPermissions = False, u_MaxStorage = 0, u_MaxBandwidth = 0, u_MaxFiles = 0,
      u_ExternalID = [], u_SessionsValidAfter = None, u_ExpiresAt = None, u_AllowedIPs = [], u_AllowedProtocols = [], u_MaxSessions = 0\<rparr>"

definition sync_edit :: "ldapIdentity \<Rightarrow> user \<Rightarrow> user" where
  "sync_edit i u =
     u\<lparr>u_AuthProvider := AuthProviderLDAP, u_Email := li_Email i, u_Type := li_Type i,
       u_HomeDir := (if trim_space (u_HomeDir u) = [] then li_HomeDir i else u_HomeDir u),
       u_PrimaryGroup := firstGroup (li_Groups i), u_SecondaryGrps := tl (li_Groups i)\<rparr>"

definition syncLDAPUser :: "string \<Rightarrow> int \<Rightarrow> ldapIdentity \<Rightarrow> user option \<Rightarrow> ustore \<Rightarrow> (autherr + user option) \<times> ustore" where
  "syncLDAPUser ulid now i shadow s =
     (case shadow of
        None \<Rightarrow>
          (case user_Create ulid now
                  (zero_user\<lparr>u_Username := li_Username i, u_AuthProvider := AuthProviderLDAP, u_Email := li_Email i, u_Type := li_Type i,
                     u_HomeDir := li_HomeDir i, u_Enabled := True, u_Permissions := li_Permissions i,
                     u_PrimaryGroup := firstGroup (li_Groups i), u_SecondaryGrps := tl (li_Groups i)\<rparr>) s of
             (Inl err, s1) \<Rightarrow> (Inl err, s1)
           | (Inr _, s1) \<Rightarrow> (Inr (GetByUsername s1 (li_Username i)), s1))
      | Some u \<Rightarrow>
          (case Mutate now (u_ID u) (\<lambda>u. Inr (sync_edit i u)) s of
             (Inl err, s1) \<Rightarrow> (Inl err, s1)
           | (Inr None, s1) \<Rightarrow> (Inl ErrInvalidCredentials, s1)
           | (Inr (Some saved), s1) \<Rightarrow> (Inr (Some saved), s1)))"

text \<open>
  The result is \<open>Inr None\<close> where the code returns a nil user without an error: a directory account whose record was deleted between its
  creation and the look-up.
\<close>

definition authenticateLDAPUser ::
    "authlib \<Rightarrow> engine \<Rightarrow> string \<Rightarrow> int \<Rightarrow> user option \<Rightarrow> string \<Rightarrow> string \<Rightarrow> ustore \<Rightarrow> (autherr + user option) \<times> ustore" where
  "authenticateLDAPUser lib e ulid now shadow username password s =
     (case (case shadow of None \<Rightarrow> None | Some u \<Rightarrow> ensureLoginAllowed now u) of
        Some err \<Rightarrow> (Inl err, s)
      | None \<Rightarrow>
          (case al_ldap lib of
             None \<Rightarrow> (Inl ErrInvalidCredentials, s)
           | Some ldap \<Rightarrow>
               (case ldap username password of
                  Inl err \<Rightarrow> (Inl err, snd (registerFailedLogin e now shadow s))
                | Inr i \<Rightarrow>
                    (case syncLDAPUser ulid now i shadow s of
                       (Inl err, s1) \<Rightarrow> (Inl err, s1)
                     | (Inr user, s1) \<Rightarrow>
                         (case (case user of None \<Rightarrow> None | Some u \<Rightarrow> ensureLoginAllowed now u) of
                            Some err \<Rightarrow> (Inl err, s1)
                          | None \<Rightarrow> (Inr user, s1))))))"

definition authenticate :: "authlib \<Rightarrow> engine \<Rightarrow> string \<Rightarrow> int \<Rightarrow> string \<Rightarrow> string \<Rightarrow> ustore \<Rightarrow> (autherr + user option) \<times> ustore" where
  "authenticate lib e ulid now username0 password s =
     (let username = trim_space username0; local = (\<lambda>u. map_prod (map_sum (\<lambda>x. x) Some) (\<lambda>x. x) (authenticateLocalUser lib e now u password s)) in
      if username = [] then (Inl ErrInvalidCredentials, s)
      else
        (case GetByUsername s username of
           Some u \<Rightarrow>
             if \<not> isLDAPUser u then local u
             else if al_ldap lib \<noteq> None then authenticateLDAPUser lib e ulid now (Some u) username password s
             else local u
         | None \<Rightarrow>
             if al_ldap lib \<noteq> None then authenticateLDAPUser lib e ulid now None username password s
             else (Inl ErrInvalidCredentials, s)))"

definition AuthenticatePublicKey :: "authlib \<Rightarrow> int \<Rightarrow> string \<Rightarrow> bytes \<Rightarrow> ustore \<Rightarrow> (autherr + user) \<times> ustore" where
  "AuthenticatePublicKey lib now username key s =
     (case GetByUsername s username of
        None \<Rightarrow> (Inl ErrInvalidCredentials, s)
      | Some user \<Rightarrow>
          (case ensureLoginAllowed now user of
             Some err \<Rightarrow> (Inl err, s)
           | None \<Rightarrow>
               if list_ex (\<lambda>authorized. al_keyMatches lib (trim_space authorized) key) (u_AuthorizedKeys user)
               then (Inr (user\<lparr>u_FailedLogins := 0, u_LockedUntil := None\<rparr>), snd (UpdateLastLogin (GetByID s (u_ID user)) now (u_ID user) s))
               else (Inl ErrInvalidCredentials, s)))"

definition CreateUser :: "authlib \<Rightarrow> engine \<Rightarrow> string \<Rightarrow> int \<Rightarrow> string \<Rightarrow> string \<Rightarrow> string \<Rightarrow> bool \<Rightarrow> ustore \<Rightarrow> (autherr + user) \<times> ustore" where
  "CreateUser lib e ulid now username password homeDir admin s =
     (case validatePassword lib e password of
        Some err \<Rightarrow> (Inl err, s)
      | None \<Rightarrow>
          (case NormalizeHomeDir homeDir of
             Inl err \<Rightarrow> (Inl err, s)
           | Inr home \<Rightarrow>
               (case al_HashPassword lib password (en_hashAlgo e) of
                  Inl err \<Rightarrow> (Inl err, s)
                | Inr hash \<Rightarrow>
                    user_Create ulid now
                      (zero_user\<lparr>u_Username := username, u_PasswordHash := hash, u_AuthProvider := AuthProviderLocal, u_HomeDir := home,
                         u_Enabled := True, u_Permissions := DefaultUserPermissions,
                         u_Type := (if admin then UserTypeAdmin else UserTypeVirtual)\<rparr>) s)))"

definition ResetPassword :: "authlib \<Rightarrow> engine \<Rightarrow> int \<Rightarrow> string \<Rightarrow> string \<Rightarrow> ustore \<Rightarrow> autherr option \<times> ustore" where
  "ResetPassword lib e now username password s =
     (case GetByUsername s username of
        None \<Rightarrow> (Some ErrInvalidCredentials, s)
      | Some u \<Rightarrow>
          (case validatePassword lib e password of
             Some err \<Rightarrow> (Some err, s)
           | None \<Rightarrow>
               (case al_HashPassword lib password (en_hashAlgo e) of
                  Inl err \<Rightarrow> (Some err, s)
                | Inr hash \<Rightarrow>
                    (case Mutate now (u_ID u)
                            (\<lambda>u. Inr (u\<lparr>u_PasswordHash := hash, u_FailedLogins := 0, u_LockedUntil := None,
                                       u_SessionsValidAfter := Some (now div 1000000000 * 1000000000)\<rparr>)) s of
                       (Inl err, s1) \<Rightarrow> (Some err, s1)
                     | (Inr None, s1) \<Rightarrow> (Some ErrInvalidCredentials, s1)
                     | (Inr (Some _), s1) \<Rightarrow> (None, s1)))))"

definition ChangePassword :: "authlib \<Rightarrow> engine \<Rightarrow> int \<Rightarrow> string \<Rightarrow> string \<Rightarrow> string \<Rightarrow> ustore \<Rightarrow> autherr option \<times> ustore" where
  "ChangePassword lib e now username current new s =
     (case GetByUsername s username of
        None \<Rightarrow> (Some ErrInvalidCredentials, s)
      | Some u \<Rightarrow>
          if \<not> EqualFold (u_AuthProvider u) AuthProviderLocal \<and> u_AuthProvider u \<noteq> [] then (Some ErrPasswordNotManaged, s)
          else if \<not> al_VerifyPassword lib current (u_PasswordHash u) then
            (Some ErrInvalidCredentials, snd (registerFailedLogin e now (Some u) s))
          else if current = new then (Some (AuthMsg ''new password must differ from the current one''), s)
          else ResetPassword lib e now username new s)"

definition RecordSuccessfulLogin :: "int \<Rightarrow> string \<Rightarrow> ustore \<Rightarrow> autherr option \<times> ustore" where
  "RecordSuccessfulLogin now userID s =
     (if trim_space userID = [] then (None, s) else UpdateLastLogin (GetByID s userID) now userID s)"

definition RecordFailedLogin :: "engine \<Rightarrow> int \<Rightarrow> string \<Rightarrow> ustore \<Rightarrow> autherr option \<times> ustore" where
  "RecordFailedLogin e now userID s =
     (if trim_space userID = [] then (None, s)
      else (case GetByID s userID of None \<Rightarrow> (None, s) | Some u \<Rightarrow> registerFailedLogin e now (Some u) s))"

section \<open>External identity providers\<close>

record externalIdentity =
  ei_Provider :: string
  ei_Subject :: string
  ei_Username :: string
  ei_Email :: string
  ei_Admin :: "bool option"
  ei_PrimaryGroup :: string
  ei_SecondaryGroups :: "string list"
  ei_SyncGroups :: bool
  ei_HomeDir :: string

definition unusablePasswordHash :: string where
  "unusablePasswordHash = ''!external''"

definition external_edit :: "externalIdentity \<Rightarrow> user \<Rightarrow> autherr + user" where
  "external_edit i u =
     (if \<not> EqualFold (u_AuthProvider u) (ei_Provider i) then Inl ErrAccountConflict
      else if u_ExternalID u \<noteq> [] \<and> u_ExternalID u \<noteq> ei_Subject i then Inl ErrAccountConflict
      else if \<not> u_Enabled u then Inl ErrUserDisabled
      else
        let u1 = u\<lparr>u_ExternalID := ei_Subject i\<rparr>;
            u2 = (if ei_Email i \<noteq> [] then u1\<lparr>u_Email := ei_Email i\<rparr> else u1);
            u3 = (case ei_Admin i of
                    None \<Rightarrow> u2
                  | Some admin \<Rightarrow> u2\<lparr>u_Type := (if admin then UserTypeAdmin else UserTypeVirtual)\<rparr>)
        in Inr (if ei_SyncGroups i then u3\<lparr>u_PrimaryGroup := ei_PrimaryGroup i, u_SecondaryGrps := ei_SecondaryGroups i\<rparr> else u3))"

definition ProvisionExternalUser ::
    "string \<Rightarrow> int \<Rightarrow> externalIdentity \<Rightarrow> bool \<Rightarrow> ustore \<Rightarrow> (autherr + user) \<times> ustore" where
  "ProvisionExternalUser ulid now i0 autoCreate s =
     (let i = i0\<lparr>ei_Username := trim_space (ei_Username i0)\<rparr> in
      if ei_Username i = [] \<or> ei_Subject i = [] then (Inl (AuthMsg ''external identity needs a username and a subject''), s)
      else
        (case GetByUsername s (ei_Username i) of
           None \<Rightarrow>
             if \<not> autoCreate then (Inl ErrNotProvisioned, s)
             else
               (case NormalizeHomeDir (ei_HomeDir i) of
                  Inl err \<Rightarrow> (Inl (case err of AuthMsg m \<Rightarrow> AuthMsg (''home directory: '' @ m) | _ \<Rightarrow> err), s)
                | Inr home \<Rightarrow>
                    user_Create ulid now
                      (zero_user\<lparr>u_Username := ei_Username i, u_PasswordHash := unusablePasswordHash, u_AuthProvider := ei_Provider i,
                         u_ExternalID := ei_Subject i, u_Email := ei_Email i,
                         u_Type := (if ei_Admin i = Some True then UserTypeAdmin else UserTypeVirtual),
                         u_HomeDir := home, u_Enabled := True, u_Permissions := DefaultUserPermissions,
                         u_PrimaryGroup := ei_PrimaryGroup i, u_SecondaryGrps := ei_SecondaryGroups i\<rparr>) s)
         | Some u \<Rightarrow>
             (case Mutate now (u_ID u) (external_edit i) s of
                (Inl err, s1) \<Rightarrow> (Inl err, s1)
              | (Inr None, s1) \<Rightarrow> (Inl ErrNotProvisioned, s1)
              | (Inr (Some saved), s1) \<Rightarrow> (Inr saved, s1))))"

end
