(* ===== verification/User_Repo_Props.thy ===== *)
theory User_Repo_Props
  imports User_Repo
begin

text \<open>
  Accounts stay consistent: the name index of the store matches the records (\<open>repo_ok\<close>) after every operation, so user names are
  unique whatever the interleaving of processes; group renames and deletions treat every member; home directories are
  canonical paths.
\<close>

section \<open>Names\<close>

definition name_ok :: "string \<Rightarrow> bool" where
  "name_ok n \<longleftrightarrow> trim_space n = n \<and> n \<noteq> []"

lemma lower_char_idem [simp]: "lower_char (lower_char c) = lower_char c"
proof -
  have "\<not> (CHR ''A'' \<le> char_of (of_char c + 32 :: nat) \<and> char_of (of_char c + 32 :: nat) \<le> CHR ''Z'')"
    if "CHR ''A'' \<le> c" "c \<le> CHR ''Z''"
    using that by (auto simp: less_eq_char_def of_char_of)
  then show ?thesis by (cases "CHR ''A'' \<le> c \<and> c \<le> CHR ''Z''") (auto simp: lower_char_def)
qed

lemma ToLower_idem [simp]: "ToLower (ToLower s) = ToLower s"
  by (simp add: ToLower_def)

lemma ToLower_Nil [simp]: "ToLower s = [] \<longleftrightarrow> s = []"
  by (simp add: ToLower_def)

lemma key_name_ok [simp]: "name_ok n \<Longrightarrow> usernameIndexKey n = ToLower n"
  by (simp add: name_ok_def usernameIndexKey_def)

lemma keys_name_ok: "name_ok n \<Longrightarrow> set (usernameIndexKeys n) = {ToLower n, n}"
  by (auto simp: name_ok_def usernameIndexKey_def usernameIndexKeys_def Let_def)

lemma GetByUsername_tx: "GetByUsername s n = userByNameTx s n"
  by (auto simp: GetByUsername_def userByNameTx_def GetByID_def userByIDTx_def Let_def split: option.splits)

section \<open>The index matches the records\<close>

definition repo_ok :: "ustore \<Rightarrow> bool" where
  "repo_ok s \<longleftrightarrow>
     distinct (map fst (st_users s)) \<and>
     (\<forall>i u. map_of (st_users s) i = Some u \<longrightarrow>
        u_ID u = i \<and> name_ok (u_Username u) \<and> map_of (st_byName s) (ToLower (u_Username u)) = Some i) \<and>
     (\<forall>k i. map_of (st_byName s) k = Some i \<longrightarrow> (\<exists>u. map_of (st_users s) i = Some u \<and> ToLower (u_Username u) = k))"

lemma repo_okD:
  assumes "repo_ok s"
  shows "map_of (st_users s) i = Some u \<Longrightarrow> u_ID u = i" "map_of (st_users s) i = Some u \<Longrightarrow> name_ok (u_Username u)"
    "map_of (st_users s) i = Some u \<Longrightarrow> map_of (st_byName s) (ToLower (u_Username u)) = Some i"
    "map_of (st_byName s) k = Some i \<Longrightarrow> \<exists>u. map_of (st_users s) i = Some u \<and> ToLower (u_Username u) = k"
  using assms by (auto simp: repo_ok_def)

lemma byName_lower: "repo_ok s \<Longrightarrow> map_of (st_byName s) k = Some i \<Longrightarrow> ToLower k = k"
  by (metis ToLower_idem repo_okD(4))

lemma userByName_index:
  assumes "repo_ok s"
  shows "userByNameTx s n = Some u \<longleftrightarrow> map_of (st_users s) (u_ID u) = Some u \<and> EqualFold (u_Username u) (trim_space n)"
proof (cases "trim_space n = []")
  case True
  then have "\<not> EqualFold (u_Username u) (trim_space n)" if "map_of (st_users s) (u_ID u) = Some u"
    using repo_okD(2) [OF assms that] by (auto simp: EqualFold_def name_ok_def ToLower_def)
  then show ?thesis using True by (auto simp: userByNameTx_def)
next
  case False
  define k where "k = ToLower (trim_space n)"
  have "userByNameTx s n = (case map_of (st_byName s) k of Some i \<Rightarrow> map_of (st_users s) i | None \<Rightarrow> None)"
  proof (cases "map_of (st_byName s) k")
    case None
    then have "map_of (st_byName s) (trim_space n) = None" using byName_lower [OF assms] by (metis k_def not_None_eq)
    then show ?thesis using False None by (simp add: userByNameTx_def usernameIndexKey_def k_def userByIDTx_def)
  qed (use False in \<open>simp add: userByNameTx_def usernameIndexKey_def k_def userByIDTx_def\<close>)
  note look = this
  show ?thesis
  proof
    assume "userByNameTx s n = Some u"
    then obtain i where "map_of (st_byName s) k = Some i" "map_of (st_users s) i = Some u"
      using look by (auto split: option.splits)
    then show "map_of (st_users s) (u_ID u) = Some u \<and> EqualFold (u_Username u) (trim_space n)"
      using repo_okD(1,4) [OF assms] by (fastforce simp: EqualFold_def k_def)
  next
    assume u: "map_of (st_users s) (u_ID u) = Some u \<and> EqualFold (u_Username u) (trim_space n)"
    then have "map_of (st_byName s) k = Some (u_ID u)"
      using repo_okD(3) [OF assms] by (fastforce simp: EqualFold_def k_def)
    then show "userByNameTx s n = Some u" using u look by simp
  qed
qed

lemma map_of_del_names: "map_of (fold AList.delete ks xs) k = (if k \<in> set ks then None else map_of xs k)"
  by (induction ks arbitrary: xs) (auto simp: fun_upd_def)

lemma delete_keys_map:
  assumes "repo_ok s" and "name_ok n"
  shows "map_of (st_byName (del_names (usernameIndexKeys n) s)) = (map_of (st_byName s))(ToLower n := None)"
proof (rule ext)
  fix k
  have "map_of (st_byName s) n = None" if "n \<noteq> ToLower n"
    using byName_lower [OF assms(1)] that by (metis not_None_eq)
  then show "map_of (st_byName (del_names (usernameIndexKeys n) s)) k = ((map_of (st_byName s))(ToLower n := None)) k"
    using keys_name_ok [OF assms(2)] by (auto simp: del_names_def map_of_del_names)
qed

section \<open>Every operation keeps the index\<close>

lemma repo_okI:
  assumes "distinct (map fst (st_users s))"
    and "\<And>i u. map_of (st_users s) i = Some u \<Longrightarrow> u_ID u = i \<and> name_ok (u_Username u) \<and> map_of (st_byName s) (ToLower (u_Username u)) = Some i"
    and "\<And>k i. map_of (st_byName s) k = Some i \<Longrightarrow> \<exists>u. map_of (st_users s) i = Some u \<and> ToLower (u_Username u) = k"
  shows "repo_ok s"
  using assms by (auto simp: repo_ok_def)

lemma repo_ok_cong:
  "st_users s' = st_users s \<Longrightarrow> st_byName s' = st_byName s \<Longrightarrow> repo_ok s' = repo_ok s"
  by (simp add: repo_ok_def)

lemma create_defaults_simps [simp]: "u_Username (create_defaults ulid u) = u_Username u"
  "u_ID (create_defaults ulid u) = (if u_ID u = [] then ulid else u_ID u)"
  by (simp_all add: create_defaults_def Let_def)

lemma put_simps [simp]:
  "st_users (put_name k i s) = st_users s" "st_byName (put_name k i s) = AList.update k i (st_byName s)"
  "st_users (put_user u s) = AList.update (u_ID u) u (st_users s)" "st_byName (put_user u s) = st_byName s"
  "st_users (del_names ks s) = st_users s"
  by (simp_all add: put_name_def put_user_def del_names_def)

text \<open>A record under a new key with a new name.\<close>

lemma repo_ok_insert:
  assumes "repo_ok s" and "name_ok (u_Username u)" and "map_of (st_users s) (u_ID u) = None"
    and "map_of (st_byName s) (ToLower (u_Username u)) = None"
  shows "repo_ok (put_name (ToLower (u_Username u)) (u_ID u) (put_user u s))"
proof (rule repo_okI)
  show "distinct (map fst (st_users (put_name (ToLower (u_Username u)) (u_ID u) (put_user u s))))"
    using assms(1) by (simp add: repo_ok_def)
qed (use assms(2-4) repo_okD [OF assms(1)] in \<open>fastforce split: if_splits\<close>)+

lemma user_Create_ok:
  assumes "repo_ok s" and "user_Create ulid now u s = (Inr u1, s1)" and "map_of (st_users s) (if u_ID u = [] then ulid else u_ID u) = None"
  shows "repo_ok s1"
proof -
  have n: "trim_space (u_Username u) \<noteq> []" using assms(2) by (auto simp: user_Create_def Let_def)
  then have ok: "name_ok (trim_space (u_Username u))" by (simp add: name_ok_def)
  have free: "userByNameTx s (trim_space (u_Username u)) = None"
    using assms(2) by (auto simp: user_Create_def Let_def split: if_splits option.splits)
  have "map_of (st_byName s) (ToLower (trim_space (u_Username u))) = None"
  proof (rule ccontr)
    assume "map_of (st_byName s) (ToLower (trim_space (u_Username u))) \<noteq> None"
    then obtain i v where "map_of (st_users s) i = Some v" "ToLower (u_Username v) = ToLower (trim_space (u_Username u))"
      using repo_okD(4) [OF assms(1)] by blast
    then have "userByNameTx s (trim_space (u_Username u)) = Some v"
      using repo_okD(1) [OF assms(1)] by (simp add: userByName_index [OF assms(1)] EqualFold_def)
    then show False using free by simp
  qed
  then show ?thesis
    using assms repo_ok_insert [OF assms(1), of u1] ok n
    by (auto simp: user_Create_def Let_def split: if_splits option.splits)
qed

lemma updateTx_ok:
  assumes "repo_ok s" and "name_ok (u_Username u)" and "updateTx now u s = Inr (u1, s1)"
  shows "repo_ok s1"
proof -
  obtain old where old: "map_of (st_users s) (u_ID u) = Some old"
    using assms(3) by (auto simp: updateTx_def userByIDTx_def split: option.splits)
  note D = repo_okD [OF assms(1)]
  have u1: "u1 = u\<lparr>u_UpdatedAt := now\<rparr>"
    using assms(3) old by (auto simp: updateTx_def userByIDTx_def Let_def split: if_splits)
  have users: "st_users s1 = AList.update (u_ID u) u1 (st_users s)"
    using assms(3) old by (auto simp: updateTx_def userByIDTx_def Let_def split: if_splits)
  have inj: "i = u_ID u" if "map_of (st_users s) i = Some v" "ToLower (u_Username v) = ToLower (u_Username old)" for i v
    using D(3) [OF that(1)] D(3) [OF old] that(2) by simp
  have names: "map_of (st_byName s1) = (map_of (st_byName s))(ToLower (u_Username old) := None, ToLower (u_Username u) \<mapsto> u_ID u)"
  proof (cases "EqualFold (u_Username old) (u_Username u)")
    case True
    then show ?thesis
      using assms(2,3) old by (auto simp: updateTx_def userByIDTx_def Let_def EqualFold_def split: if_splits)
  next
    case False
    have "map_of (st_byName (del_names (usernameIndexKeys (u_Username old)) (put_user u1 s)))
      = (map_of (st_byName s))(ToLower (u_Username old) := None)"
      using delete_keys_map [OF assms(1) D(2) [OF old]] by (simp add: del_names_def)
    then show ?thesis
      using assms(2,3) old False u1 by (auto simp: updateTx_def userByIDTx_def Let_def split: if_splits)
  qed
  have free: "i = u_ID u" if "map_of (st_users s) i = Some v" "ToLower (u_Username v) = ToLower (u_Username u)" for i v
  proof (cases "EqualFold (u_Username old) (u_Username u)")
    case True
    then show ?thesis using inj that by (simp add: EqualFold_def)
  next
    case False
    have "userByNameTx s (u_Username u) = Some v"
      using that D(1) [OF that(1)] assms(2) by (simp add: userByName_index [OF assms(1)] EqualFold_def name_ok_def)
    then have "u_ID v = u_ID u"
      using assms(3) old False by (auto simp: updateTx_def userByIDTx_def Let_def split: if_splits)
    then show ?thesis using D(1) [OF that(1)] by simp
  qed
  show ?thesis
  proof (rule repo_okI)
    show "distinct (map fst (st_users s1))" using assms(1) users by (simp add: repo_ok_def)
  next
    fix i v assume v: "map_of (st_users s1) i = Some v"
    show "u_ID v = i \<and> name_ok (u_Username v) \<and> map_of (st_byName s1) (ToLower (u_Username v)) = Some i"
    proof (cases "i = u_ID u")
      case True
      then show ?thesis using v users u1 names assms(2) by auto
    next
      case False
      then have "map_of (st_users s) i = Some v" using v users by auto
      then show ?thesis using D(1-3) inj free False names by fastforce
    qed
  next
    fix k i assume k: "map_of (st_byName s1) k = Some i"
    show "\<exists>v. map_of (st_users s1) i = Some v \<and> ToLower (u_Username v) = k"
    proof (cases "k = ToLower (u_Username u)")
      case True
      then show ?thesis using k names users u1 by auto
    next
      case False
      then have "map_of (st_byName s) k = Some i" "k \<noteq> ToLower (u_Username old)" using k names by (auto split: if_splits)
      then obtain v where v: "map_of (st_users s) i = Some v" "ToLower (u_Username v) = k" using D(4) by blast
      then have "i \<noteq> u_ID u" using old \<open>k \<noteq> ToLower (u_Username old)\<close> by auto
      then show ?thesis using v users by auto
    qed
  qed
qed

lemma user_Delete_ok:
  assumes "repo_ok s" shows "repo_ok (user_Delete i s)"
proof (cases "map_of (st_users s) i")
  case None
  then show ?thesis using assms by (simp add: user_Delete_def userByIDTx_def)
next
  case (Some u)
  note D = repo_okD [OF assms]
  have users: "st_users (user_Delete i s) = AList.delete i (st_users s)"
    using Some by (simp add: user_Delete_def userByIDTx_def Let_def)
  have names: "map_of (st_byName (user_Delete i s)) = (map_of (st_byName s))(ToLower (u_Username u) := None)"
    using Some delete_keys_map [OF assms D(2) [OF Some]] by (simp add: user_Delete_def userByIDTx_def Let_def)
  show ?thesis
  proof (rule repo_okI)
    show "distinct (map fst (st_users (user_Delete i s)))" using assms users by (simp add: repo_ok_def)
  next
    fix j v assume "map_of (st_users (user_Delete i s)) j = Some v"
    then have "map_of (st_users s) j = Some v" "j \<noteq> i" using users by (auto split: if_splits)
    then show "u_ID v = j \<and> name_ok (u_Username v) \<and> map_of (st_byName (user_Delete i s)) (ToLower (u_Username v)) = Some j"
      using D(1-3) names D(3) [OF Some] by fastforce
  next
    fix k j assume "map_of (st_byName (user_Delete i s)) k = Some j"
    then have "map_of (st_byName s) k = Some j" "k \<noteq> ToLower (u_Username u)" using names by (auto split: if_splits)
    then show "\<exists>v. map_of (st_users (user_Delete i s)) j = Some v \<and> ToLower (u_Username v) = k"
      using D(4) users Some by fastforce
  qed
qed

text \<open>An edit keeps the identifier and leaves the user name alone or sets a trimmed one, as every caller of \<^verbatim>\<open>Mutate\<close> does.\<close>

definition safe_edit :: "(user \<Rightarrow> autherr + user) \<Rightarrow> bool" where
  "safe_edit fn \<longleftrightarrow> (\<forall>u v. fn u = Inr v \<longrightarrow> u_ID v = u_ID u \<and> (u_Username v = u_Username u \<or> name_ok (u_Username v)))"

lemma safe_editD: "safe_edit fn \<Longrightarrow> fn u = Inr v \<Longrightarrow> name_ok (u_Username u) \<Longrightarrow> name_ok (u_Username v)"
  by (metis safe_edit_def)

lemma Mutate_ok: "repo_ok s \<Longrightarrow> safe_edit fn \<Longrightarrow> repo_ok (snd (Mutate now i fn s))"
  by (auto simp: Mutate_def userByIDTx_def split: option.splits sum.splits
      intro: updateTx_ok dest: safe_editD repo_okD(2))

lemma user_Update_ok: "repo_ok s \<Longrightarrow> repo_ok (snd (user_Update now u s))"
  using updateTx_ok [of s "u\<lparr>u_Username := trim_space (u_Username u)\<rparr>" now]
  by (auto simp: user_Update_def Let_def name_ok_def split: sum.splits prod.splits)

lemma safe_edit_login:
  "safe_edit (\<lambda>u. if login_fresh now u then Inl errLastLoginFresh
                  else Inr (u\<lparr>u_LastLoginAt := Some now, u_FailedLogins := 0, u_LockedUntil := None\<rparr>))"
  by (auto simp: safe_edit_def split: if_splits)

lemma UpdateLastLogin_ok: "repo_ok s \<Longrightarrow> repo_ok (snd (UpdateLastLogin seen now i s))"
  using Mutate_ok [OF _ safe_edit_login, of s now i now]
  by (auto simp: UpdateLastLogin_def split: prod.splits sum.splits)

text \<open>An edit that keeps the name always succeeds and changes the one record.\<close>

lemma Mutate_same_name:
  assumes "repo_ok s" and "map_of (st_users s) i = Some u" and "fn u = Inr v" and "u_ID v = i" and "u_Username v = u_Username u"
  obtains s1 where "Mutate now i fn s = (Inr (Some (v\<lparr>u_UpdatedAt := now\<rparr>)), s1)"
    and "st_users s1 = AList.update i (v\<lparr>u_UpdatedAt := now\<rparr>) (st_users s)" and "repo_ok s1"
    and "st_groups s1 = st_groups s" and "st_groupByName s1 = st_groupByName s"
proof -
  define s1 where "s1 = put_name (usernameIndexKey (u_Username v)) i (put_user (v\<lparr>u_UpdatedAt := now\<rparr>) s)"
  have up: "updateTx now v s = Inr (v\<lparr>u_UpdatedAt := now\<rparr>, s1)"
    using assms(2,4,5) by (simp add: updateTx_def userByIDTx_def EqualFold_def s1_def Let_def)
  show thesis
  proof (rule that)
    show "Mutate now i fn s = (Inr (Some (v\<lparr>u_UpdatedAt := now\<rparr>)), s1)"
      using assms(2,3) up by (simp add: Mutate_def userByIDTx_def)
    show "repo_ok s1" using updateTx_ok [OF assms(1) _ up] repo_okD(2) [OF assms(1,2)] assms(5) by simp
  qed (use assms(4) in \<open>simp_all add: s1_def put_name_def put_user_def\<close>)
qed

section \<open>Group memberships\<close>

lemma rewrite_simps [simp]: "u_ID (rewrite_member a b u) = u_ID u" "u_Username (rewrite_member a b u) = u_Username u"
  by (simp_all add: rewrite_member_def)

lemma user_List_members:
  assumes "repo_ok s"
  shows "u \<in> set (user_List s) \<longleftrightarrow> map_of (st_users s) (u_ID u) = Some u" "distinct (map u_ID (user_List s))"
proof -
  have d: "distinct (map fst (st_users s))" using assms by (simp add: repo_ok_def)
  have ids: "u_ID (snd p) = fst p" if "p \<in> set (st_users s)" for p
    using repo_okD(1) [OF assms, of "fst p" "snd p"] that d by (simp add: map_of_is_SomeI)
  show "u \<in> set (user_List s) \<longleftrightarrow> map_of (st_users s) (u_ID u) = Some u"
  proof -
    have "u \<in> set (user_List s) \<longleftrightarrow> (\<exists>i. (i, u) \<in> set (st_users s))" by (force simp: user_List_def)
    also have "\<dots> \<longleftrightarrow> (u_ID u, u) \<in> set (st_users s)" using ids by force
    finally show ?thesis by (simp add: map_of_eq_Some_iff [OF d])
  qed
  have "map u_ID (user_List s) = map fst (sort_key fst (st_users s))"
    using ids by (simp add: user_List_def)
  also have "distinct \<dots>" using d by (simp add: distinct_map)
  finally show "distinct (map u_ID (user_List s))" .
qed

lemma rewrite_loop_spec:
  assumes "repo_ok s" and "distinct (map u_ID ms)" and "\<forall>m\<in>set ms. map_of (st_users s) (u_ID m) \<noteq> None"
  obtains s' where "rewrite_loop now a b ms s = (None, s')" "repo_ok s'" "st_groups s' = st_groups s" "st_groupByName s' = st_groupByName s"
    "\<And>j. map_of (st_users s') j = map_option (\<lambda>u. if j \<in> u_ID ` set ms then (rewrite_member a b u)\<lparr>u_UpdatedAt := now\<rparr> else u) (map_of (st_users s) j)"
  using assms
proof (induction ms arbitrary: s thesis)
  case Nil
  then show ?case by (simp add: option.map_ident)
next
  case (Cons m ms)
  obtain u where u: "map_of (st_users s) (u_ID m) = Some u" using Cons.prems(4) by auto
  have i: "u_ID (rewrite_member a b u) = u_ID m" using repo_okD(1) [OF Cons.prems(2) u] by simp
  obtain s1 where s1: "Mutate now (u_ID m) (\<lambda>u. Inr (rewrite_member a b u)) s = (Inr (Some ((rewrite_member a b u)\<lparr>u_UpdatedAt := now\<rparr>)), s1)"
    "st_users s1 = AList.update (u_ID m) ((rewrite_member a b u)\<lparr>u_UpdatedAt := now\<rparr>) (st_users s)" "repo_ok s1"
    "st_groups s1 = st_groups s" "st_groupByName s1 = st_groupByName s"
    by (rule Mutate_same_name [OF Cons.prems(2) u, of "\<lambda>u. Inr (rewrite_member a b u)" "rewrite_member a b u" now])
       (use i in simp_all)
  have m1: "\<forall>x\<in>set ms. map_of (st_users s1) (u_ID x) \<noteq> None" using Cons.prems(4) s1(2) by auto
  have "distinct (map u_ID ms)" using Cons.prems(3) by simp
  then obtain s' where s': "rewrite_loop now a b ms s1 = (None, s')" "repo_ok s'" "st_groups s' = st_groups s1" "st_groupByName s' = st_groupByName s1"
    "\<And>j. map_of (st_users s') j = map_option (\<lambda>u. if j \<in> u_ID ` set ms then (rewrite_member a b u)\<lparr>u_UpdatedAt := now\<rparr> else u) (map_of (st_users s1) j)"
    using Cons.IH [OF _ s1(3) _ m1] by blast
  have notin: "u_ID m \<notin> u_ID ` set ms" using Cons.prems(3) by simp
  show ?case
  proof (rule Cons.prems(1) [of s'])
    show "rewrite_loop now a b (m # ms) s = (None, s')" using s1(1) s'(1) by simp
    show "map_of (st_users s') j = map_option (\<lambda>u. if j \<in> u_ID ` set (m # ms) then (rewrite_member a b u)\<lparr>u_UpdatedAt := now\<rparr> else u) (map_of (st_users s) j)" for j
      using s'(5) [of j] s1(2) u notin by (cases "j = u_ID m") auto
  qed (use s' s1 in simp_all)
qed

lemma rewriteMemberships_spec:
  assumes "repo_ok s"
  obtains s' where "rewriteMemberships now a b s = (None, s')" "repo_ok s'" "st_groups s' = st_groups s" "st_groupByName s' = st_groupByName s"
    "\<And>j. map_of (st_users s') j = map_option (\<lambda>u. if userInGroup u a then (rewrite_member a b u)\<lparr>u_UpdatedAt := now\<rparr> else u) (map_of (st_users s) j)"
proof -
  note L = user_List_members [OF assms]
  have "distinct (map u_ID (Members s a))" using L(2) by (simp add: Members_def distinct_map_filter)
  moreover have "\<forall>m\<in>set (Members s a). map_of (st_users s) (u_ID m) \<noteq> None" using L(1) by (simp add: Members_def)
  ultimately obtain s' where s': "rewrite_loop now a b (Members s a) s = (None, s')" "repo_ok s'" "st_groups s' = st_groups s" "st_groupByName s' = st_groupByName s"
    "\<And>j. map_of (st_users s') j = map_option (\<lambda>u. if j \<in> u_ID ` set (Members s a) then (rewrite_member a b u)\<lparr>u_UpdatedAt := now\<rparr> else u) (map_of (st_users s) j)"
    using rewrite_loop_spec [OF assms] by blast
  have mem: "j \<in> u_ID ` set (Members s a) \<longleftrightarrow> userInGroup u a" if "map_of (st_users s) j = Some u" for j u
  proof
    assume "j \<in> u_ID ` set (Members s a)"
    then obtain v where "j = u_ID v" "map_of (st_users s) (u_ID v) = Some v" "userInGroup v a"
      using L(1) by (auto simp: Members_def)
    then show "userInGroup u a" using that by simp
  next
    assume "userInGroup u a"
    then show "j \<in> u_ID ` set (Members s a)"
      using L(1) [of u] repo_okD(1) [OF assms that] that by (force simp: Members_def)
  qed
  show thesis
  proof (rule that)
    show "map_of (st_users s') j = map_option (\<lambda>u. if userInGroup u a then (rewrite_member a b u)\<lparr>u_UpdatedAt := now\<rparr> else u) (map_of (st_users s) j)" for j
      using s'(5) [of j] mem by (cases "map_of (st_users s) j") auto
  qed (use s' in \<open>simp_all add: rewriteMemberships_def\<close>)
qed

lemma put_group_users [simp]: "st_users (put_group g s) = st_users s" "st_byName (put_group g s) = st_byName s"
  by (simp_all add: put_group_def)

lemma rewriteMemberships_ok: "repo_ok s \<Longrightarrow> repo_ok (snd (rewriteMemberships now a b s))"
  by (metis rewriteMemberships_spec snd_conv)

lemma group_Update_ok:
  assumes "repo_ok s" shows "repo_ok (snd (group_Update now g s))"
proof -
  have ok: "repo_ok (put_group h s)" "repo_ok ((put_group h s)\<lparr>st_groupByName := x\<rparr>)" for h x
    using assms repo_ok_cong [of "put_group h s" s] repo_ok_cong [of "(put_group h s)\<lparr>st_groupByName := x\<rparr>" s] by simp_all
  show ?thesis
    using assms ok rewriteMemberships_ok
    by (simp add: group_Update_def Let_def split: option.split)
qed

lemma group_Delete_ok:
  assumes "repo_ok s" shows "repo_ok (snd (group_Delete now i force s))"
proof (cases "group_GetByID s i")
  case (Some g)
  obtain s' where s': "rewriteMemberships now (g_Name g) [] s = (None, s')" "repo_ok s'"
    using rewriteMemberships_spec [OF assms] by metis
  have "repo_ok (s'\<lparr>st_groupByName := x, st_groups := y\<rparr>)" for x y
    using s'(2) repo_ok_cong [of "s'\<lparr>st_groupByName := x, st_groups := y\<rparr>" s'] by simp
  then show ?thesis using Some s' assms by (simp add: group_Delete_def)
qed (use assms in \<open>simp add: group_Delete_def\<close>)

section \<open>User names stay unique\<close>

text \<open>One call of the package's operations on the store, by any process and at any time.\<close>

inductive repo_step :: "ustore \<Rightarrow> ustore \<Rightarrow> bool" where
  Create: "map_of (st_users s) (if u_ID u = [] then ulid else u_ID u) = None \<Longrightarrow> repo_step s (snd (user_Create ulid now u s))"
| Update: "repo_step s (snd (user_Update now u s))"
| Edit: "safe_edit fn \<Longrightarrow> repo_step s (snd (Mutate now i fn s))"
| Delete: "repo_step s (user_Delete i s)"
| SignIn: "repo_step s (snd (UpdateLastLogin seen now i s))"
| GroupCreate: "repo_step s (snd (group_Create ulid now g s))"
| GroupUpdate: "repo_step s (snd (group_Update now g s))"
| GroupDelete: "repo_step s (snd (group_Delete now i force s))"

definition empty_store :: ustore where
  "empty_store = \<lparr>st_users = [], st_byName = [], st_groups = [], st_groupByName = []\<rparr>"

lemma repo_step_ok: "repo_step s t \<Longrightarrow> repo_ok s \<Longrightarrow> repo_ok t"
proof (induction rule: repo_step.induct)
  case (Create s u ulid now)
  then show ?case
  proof (cases "fst (user_Create ulid now u s)")
    case (Inr u1)
    then show ?thesis using user_Create_ok [OF Create.prems _ Create.hyps] by (metis prod.collapse)
  next
    case (Inl e)
    then have "snd (user_Create ulid now u s) = s" by (auto simp: user_Create_def Let_def split: if_splits option.splits)
    then show ?thesis using Create.prems by simp
  qed
next
  case (GroupCreate s ulid now g)
  have "repo_ok (put_group h s)" for h using GroupCreate repo_ok_cong [of "put_group h s" s] by simp
  then show ?case using GroupCreate by (simp add: group_Create_def Let_def split: option.split)
qed (simp_all add: user_Update_ok Mutate_ok user_Delete_ok UpdateLastLogin_ok group_Update_ok group_Delete_ok)

lemma reachable_repo_ok: "repo_step\<^sup>*\<^sup>* empty_store s \<Longrightarrow> repo_ok s"
  by (induction rule: rtranclp_induct) (simp_all add: repo_step_ok, simp add: repo_ok_def empty_store_def)


lemma rewrite_in_group:
  assumes "b \<noteq> []"
  shows "userInGroup (rewrite_member a b u) b \<longleftrightarrow> userInGroup u a \<or> userInGroup u b"
    and "userInGroup (rewrite_member a b u) a \<Longrightarrow> groupIndexKey a = groupIndexKey b"
  using assms by (auto simp: userInGroup_def rewrite_member_def list_ex_iff split: if_splits)

lemma userInGroup_trim: "userInGroup u (trim_space n) = userInGroup u n"
  by (simp add: userInGroup_def groupIndexKey_def)

lemma userInGroup_stamp [simp]: "userInGroup (u\<lparr>u_UpdatedAt := x\<rparr>) n = userInGroup u n"
  by (simp add: userInGroup_def)

lemma rewrite_rest:
  "((rewrite_member a b u)\<lparr>u_UpdatedAt := now\<rparr>)\<lparr>u_PrimaryGroup := u_PrimaryGroup u, u_SecondaryGrps := u_SecondaryGrps u, u_UpdatedAt := u_UpdatedAt u\<rparr> = u"
  by (simp add: rewrite_member_def)

text \<open>Renaming a group keeps its members: a successful update moves every member of the old name to the new one, adds nobody else,
  leaves nobody behind under the old name, and changes nothing else of any account but its time stamp.\<close>

theorem group_rename_keeps_members:
  assumes "repo_step\<^sup>*\<^sup>* empty_store s" and "group_GetByID s (g_ID g) = Some old" and "group_Update now g s = (None, s')"
  shows "\<forall>i u. GetByID s i = Some u \<longrightarrow>
    (\<exists>v. GetByID s' i = Some v
       \<and> (userInGroup v (g_Name g) \<longleftrightarrow> userInGroup u (g_Name g) \<or> userInGroup u (g_Name old))
       \<and> (userInGroup v (g_Name old) \<longrightarrow> groupIndexKey (g_Name old) = groupIndexKey (g_Name g))
       \<and> v\<lparr>u_PrimaryGroup := u_PrimaryGroup u, u_SecondaryGrps := u_SecondaryGrps u, u_UpdatedAt := u_UpdatedAt u\<rparr> = u)"
proof (intro allI impI)
  fix i u assume u: "GetByID s i = Some u"
  define b where "b = trim_space (g_Name g)"
  have valid: "group_invalid (g\<lparr>g_Name := b\<rparr>) = None" using assms(2,3) by (auto simp: group_Update_def b_def Let_def split: option.splits)
  then have b: "b \<noteq> []" by (auto simp: group_invalid_def ValidateGroupName_def split: option.splits if_splits)
  have bg: "groupIndexKey b = groupIndexKey (g_Name g)" "userInGroup x b = userInGroup x (g_Name g)" for x
    by (simp_all add: b_def groupIndexKey_def userInGroup_trim)
  show "\<exists>v. GetByID s' i = Some v
       \<and> (userInGroup v (g_Name g) \<longleftrightarrow> userInGroup u (g_Name g) \<or> userInGroup u (g_Name old))
       \<and> (userInGroup v (g_Name old) \<longrightarrow> groupIndexKey (g_Name old) = groupIndexKey (g_Name g))
       \<and> v\<lparr>u_PrimaryGroup := u_PrimaryGroup u, u_SecondaryGrps := u_SecondaryGrps u, u_UpdatedAt := u_UpdatedAt u\<rparr> = u"
  proof (cases "g_Name old = b")
    case True
    then have "st_users s' = st_users s"
      using assms(2,3) valid by (auto simp: group_Update_def b_def Let_def split: if_splits)
    then show ?thesis using u True bg by (intro exI [of _ u]) (simp add: GetByID_def)
  next
    case False
    obtain s2 where s2: "rewriteMemberships now (g_Name old) b s2 = (None, s')" "st_users s2 = st_users s" "st_byName s2 = st_byName s"
      using assms(2,3) valid False by (auto simp: group_Update_def b_def Let_def split: if_splits)
    have "repo_ok s2" using reachable_repo_ok [OF assms(1)] repo_ok_cong [OF s2(2,3)] by simp
    then obtain s3 where s3: "rewriteMemberships now (g_Name old) b s2 = (None, s3)"
      "\<And>j. map_of (st_users s3) j = map_option (\<lambda>u. if userInGroup u (g_Name old) then (rewrite_member (g_Name old) b u)\<lparr>u_UpdatedAt := now\<rparr> else u) (map_of (st_users s2) j)"
      by (rule rewriteMemberships_spec [of s2 now "g_Name old" b]) blast
    have "s3 = s'" using s2(1) s3(1) by simp
    then have v: "GetByID s' i = Some (if userInGroup u (g_Name old) then (rewrite_member (g_Name old) b u)\<lparr>u_UpdatedAt := now\<rparr> else u)"
      using u s2(2) s3(2) [of i] by (simp add: GetByID_def)
    show ?thesis
    proof (cases "userInGroup u (g_Name old)")
      case True
      then show ?thesis using v rewrite_in_group [OF b, of "g_Name old" u] bg rewrite_rest by (auto intro!: exI)
    next
      case False
      then show ?thesis using v by simp
    qed
  qed
qed

text \<open>A group in use is not deleted: without force, deleting a group that has members is refused and changes nothing; with force (or
  without members) the group is gone, no account refers to it any more, and no account is lost.\<close>

theorem group_delete_drops_members:
  assumes "repo_step\<^sup>*\<^sup>* empty_store s" and "group_GetByID s i = Some g" and "trim_space (g_Name g) \<noteq> []" and "group_Delete now i force s = (err, s')"
  shows "if \<not> force \<and> (\<exists>j u. GetByID s j = Some u \<and> userInGroup u (g_Name g))
    then err = Some (ErrGroupInUse (length (Members s (g_Name g))) (g_Name g)) \<and> s' = s
    else err = None \<and> group_GetByID s' i = None \<and> group_GetByName s' (g_Name g) = None
      \<and> (\<forall>j. (GetByID s' j = None) = (GetByID s j = None)) \<and> (\<forall>j u. GetByID s' j = Some u \<longrightarrow> \<not> userInGroup u (g_Name g))"
proof -
  note ok = reachable_repo_ok [OF assms(1)]
  have mem: "Members s (g_Name g) \<noteq> [] \<longleftrightarrow> (\<exists>j u. GetByID s j = Some u \<and> userInGroup u (g_Name g))"
    using user_List_members(1) [OF ok] repo_okD(1) [OF ok] by (auto simp: Members_def filter_empty_conv GetByID_def)
  obtain s1 where s1: "rewriteMemberships now (g_Name g) [] s = (None, s1)"
    "\<And>j. map_of (st_users s1) j = map_option (\<lambda>u. if userInGroup u (g_Name g) then (rewrite_member (g_Name g) [] u)\<lparr>u_UpdatedAt := now\<rparr> else u) (map_of (st_users s) j)"
    by (rule rewriteMemberships_spec [OF ok, of now "g_Name g" "[]"]) blast
  have key: "groupIndexKey (g_Name g) \<noteq> []" "groupIndexKey [] = []" using assms(3) by (simp_all add: groupIndexKey_def ToLower_def trim_space_def)
  have out: "\<not> userInGroup (rewrite_member (g_Name g) [] u) (g_Name g)" for u
    using key by (auto simp: userInGroup_def rewrite_member_def list_ex_iff split: if_splits)
  show ?thesis
  proof (cases "\<not> force \<and> Members s (g_Name g) \<noteq> []")
    case True
    then show ?thesis using assms(2,4) mem by (auto simp: group_Delete_def)
  next
    case False
    then have s': "err = None" "s' = s1\<lparr>st_groupByName := AList.delete (groupIndexKey (g_Name g)) (st_groupByName s1), st_groups := AList.delete i (st_groups s1)\<rparr>"
      using assms(2,4) s1(1) by (auto simp: group_Delete_def)
    have "\<not> userInGroup u (g_Name g)" if u: "GetByID s' j = Some u" for j u
    proof -
      have "GetByID s' j = map_of (st_users s1) j" using s'(2) by (simp add: GetByID_def)
      then obtain v where "u = (if userInGroup v (g_Name g) then (rewrite_member (g_Name g) [] v)\<lparr>u_UpdatedAt := now\<rparr> else v)"
        using u s1(2) [of j] by (cases "map_of (st_users s) j") auto
      then show ?thesis using out [of v] by (cases "userInGroup v (g_Name g)") simp_all
    qed
    moreover have "(GetByID s' j = None) = (GetByID s j = None)" for j
      using s'(2) s1(2) [of j] by (simp add: GetByID_def)
    moreover have "group_GetByID s' i = None" "group_GetByName s' (g_Name g) = None"
      using s'(2) by (simp_all add: group_GetByID_def group_GetByName_def)
    ultimately show ?thesis using False mem s'(1) by auto
  qed
qed

section \<open>Home directories\<close>

lemma foldl_clean_no_dotdot:
  assumes "''..'' \<notin> set cs"
  shows "foldl (clean_step r) stk cs = rev (filter (\<lambda>c. c \<noteq> [] \<and> c \<noteq> ''.'') cs) @ stk"
  using assms by (induction cs arbitrary: stk) (auto simp: clean_step_def)

lemma set_join_with: "set (join_with sep cs) \<subseteq> set sep \<union> \<Union> (set ` set cs)"
  by (induction sep cs rule: join_with.induct) auto

lemma set_split_on: "x \<in> set (split_on c s) \<Longrightarrow> set x \<subseteq> set s"
proof (induction s arbitrary: x)
  case (Cons a s)
  obtain y ys where ys: "split_on c s = y # ys" by (cases "split_on c s") auto
  then have "set y \<subseteq> set s" "\<forall>z\<in>set ys. set z \<subseteq> set s" using Cons.IH by simp_all
  then show ?case using Cons.prems ys by (fastforce split: if_splits)
qed simp

lemma trim_space_dotdot: "trim_space ''..'' = ''..''"
  by (simp add: trim_space_plain plain_char_def)

text \<open>A normalized home directory is a canonical absolute path: it is clean, has no NUL and no backslash, and none of its components
  is \<^verbatim>\<open>..\<close>, not even padded with white space; so joining it below a root never leaves the root.\<close>

theorem NormalizeHomeDir_canonical:
  assumes "NormalizeHomeDir raw = Inr h"
  shows "abs_clean h \<and> CHR 0x00 \<notin> set h \<and> CHR 0x5C \<notin> set h \<and> list_all (\<lambda>c. trim_space c \<noteq> ''..'') (clean_comps h)"
proof -
  define h1 where "h1 = map (\<lambda>c. if c = CHR 0x5C then CHR ''/'' else c) (trim_space raw)"
  define h2 where "h2 = (if prefix ''/'' h1 then h1 else CHR ''/'' # h1)"
  define cs where "cs = filter (\<lambda>c. c \<noteq> [] \<and> c \<noteq> ''.'') (split_on CHR ''/'' h2)"
  have root: "clean_comps ''/'' = []" using clean_comps_abs_path [of "[]"] by simp
  show ?thesis
  proof (cases "trim_space raw = []")
    case True
    then have "h = ''/''" using assms by (simp add: NormalizeHomeDir_def)
    then show ?thesis using root by simp
  next
    case False
    have ok: "CHR 0x00 \<notin> set (trim_space raw)" "list_all (\<lambda>c. trim_space c \<noteq> ''..'') (split_on CHR ''/'' h2)"
      using assms False unfolding NormalizeHomeDir_def Let_def h1_def [symmetric] h2_def [symmetric]
      by (auto simp: list_all_iff list_ex_iff split: if_splits)
    have c: "clean_comps h2 = cs"
      using ok(2) trim_space_dotdot unfolding clean_comps_def cs_def
      by (subst foldl_clean_no_dotdot) (auto simp: list_all_iff)
    have "\<exists>h3. h2 = CHR ''/'' # h3" by (auto simp: h2_def prefix_def)
    then obtain h3 where h3: "h2 = CHR ''/'' # h3" by blast
    have pc: "path_clean h2 = abs_path cs" using c by (simp add: h3 path_clean_rooted)
    have h: "h = abs_path cs"
      using assms False ok pc unfolding NormalizeHomeDir_def Let_def h1_def [symmetric] h2_def [symmetric]
      by (auto simp: list_all_iff list_ex_iff abs_path_def split: if_splits)
    have "set h2 \<subseteq> insert CHR ''/'' (set h1)" by (auto simp: h2_def)
    then have "set h \<subseteq> insert CHR ''/'' (set h1)"
      unfolding h abs_path_def using set_join_with [of "''/''" cs] set_split_on by (fastforce simp: cs_def)
    moreover have "CHR 0x00 \<notin> set h1" "CHR 0x5C \<notin> set h1" using ok(1) by (auto simp: h1_def)
    moreover have "list_all clean_comp cs" using clean_comps_clean [of h2] by (simp add: c)
    moreover have "list_all (\<lambda>c. trim_space c \<noteq> ''..'') cs" using ok(2) by (auto simp: cs_def list_all_iff)
    ultimately show ?thesis unfolding h by auto
  qed
qed

lemma group_Update_succeeds:
  assumes "repo_ok s" and "group_GetByID s (g_ID g) = Some old" and "group_invalid (g\<lparr>g_Name := trim_space (g_Name g)\<rparr>) = None"
    and "group_GetByName s (trim_space (g_Name g)) = None"
  shows "fst (group_Update now g s) = None"
proof -
  have "fst (rewriteMemberships now a b t) = None" if "repo_ok t" for a b t
    by (rule rewriteMemberships_spec [OF that, of now a b]) simp
  moreover have "repo_ok ((put_group h s)\<lparr>st_groupByName := x\<rparr>)" "repo_ok (put_group h s)" for h x
    using assms(1) repo_ok_cong [of "(put_group h s)\<lparr>st_groupByName := x\<rparr>" s] repo_ok_cong [of "put_group h s" s] by simp_all
  ultimately show ?thesis using assms(2-4) by (simp add: group_Update_def Let_def)
qed

section \<open>Examples\<close>

definition new_user :: "string \<Rightarrow> user" where
  "new_user name =
     \<lparr>u_ID = [], u_Username = name, u_PasswordHash = ''h'', u_AuthProvider = [], u_TOTPSecret = [], u_TOTPEnabled = False, u_AuthorizedKeys = [],
      u_Email = [], u_Type = [], u_HomeDir = ''/'', u_Permissions = DefaultUserPermissions, u_Enabled = True, u_CreatedAt = 0, u_UpdatedAt = 0,
      u_LastLoginAt = None, u_FailedLogins = 0, u_LockedUntil = None, u_PrimaryGroup = ''Staff'', u_SecondaryGrps = [''web''],
      u_CustomPermissions = False, u_MaxStorage = 0, u_MaxBandwidth = 0, u_MaxFiles = 0, u_ExternalID = [], u_SessionsValidAfter = None,
      u_ExpiresAt = None, u_AllowedIPs = [], u_AllowedProtocols = [], u_MaxSessions = 0\<rparr>"

definition new_group :: "string \<Rightarrow> string \<Rightarrow> ugroup" where
  "new_group i name = \<lparr>g_ID = i, g_Name = name, g_Description = [], g_Permissions = DefaultUserPermissions, g_MaxStorage = 0, g_MaxBandwidth = 0,
     g_MaxFiles = 0, g_CreatedAt = 0, g_UpdatedAt = 0\<rparr>"

definition wit_store :: ustore where
  "wit_store = snd (group_Create ''g1'' 1 (new_group ''g1'' ''staff'') (snd (user_Create ''u1'' 1 (new_user ''Alice'') empty_store)))"

lemma wit_store_reachable: "repo_step\<^sup>*\<^sup>* empty_store wit_store"
proof -
  have "repo_step empty_store (snd (user_Create ''u1'' 1 (new_user ''Alice'') empty_store))"
    by (rule repo_step.Create) (simp add: empty_store_def)
  then show ?thesis
    unfolding wit_store_def by (rule rtranclp.rtrancl_into_rtrancl [OF r_into_rtranclp]) (rule repo_step.GroupCreate)
qed

lemma wit_lower:
  "ToLower ''Alice'' = ''alice'' \<and> ToLower ''ALICE'' = ''alice'' \<and> ToLower ''staff'' = ''staff'' \<and> ToLower ''Staff'' = ''staff''
   \<and> ToLower ''team'' = ''team''"
  by code_simp

lemmas wit_trims = wit_lower trim_space_plain plain_char_def

lemma wit_names: "group_invalid (new_group ''g1'' ''staff'') = None \<and> group_invalid (new_group ''g1'' ''team'') = None"
  by code_simp

lemma wit_store_users:
  "\<exists>u. wit_store = \<lparr>st_users = [(''u1'', u)], st_byName = [(''alice'', ''u1'')],
      st_groups = [(''g1'', (new_group ''g1'' ''staff'')\<lparr>g_CreatedAt := 1, g_UpdatedAt := 1\<rparr>)], st_groupByName = [(''staff'', ''g1'')]\<rparr>
    \<and> u_Username u = ''Alice'' \<and> u_PrimaryGroup u = ''Staff''"
  using wit_names
  by (simp add: wit_store_def user_Create_def userByNameTx_def create_defaults_def empty_store_def usernameIndexKey_def wit_trims Let_def
      put_user_def put_name_def new_user_def group_Create_def group_GetByName_def put_group_def groupIndexKey_def new_group_def)


theorem group_rename_keeps_members_witness:
  "\<exists>v. GetByID (snd (group_Update 2 (new_group ''g1'' ''team'') wit_store)) ''u1'' = Some v \<and> userInGroup v ''team''"
proof -
  obtain u where u: "wit_store = \<lparr>st_users = [(''u1'', u)], st_byName = [(''alice'', ''u1'')],
      st_groups = [(''g1'', (new_group ''g1'' ''staff'')\<lparr>g_CreatedAt := 1, g_UpdatedAt := 1\<rparr>)], st_groupByName = [(''staff'', ''g1'')]\<rparr>"
    "u_PrimaryGroup u = ''Staff''" using wit_store_users by blast
  have old: "group_GetByID wit_store (g_ID (new_group ''g1'' ''team'')) = Some ((new_group ''g1'' ''staff'')\<lparr>g_CreatedAt := 1, g_UpdatedAt := 1\<rparr>)"
    unfolding u(1) by (simp add: group_GetByID_def new_group_def)
  have "fst (group_Update 2 (new_group ''g1'' ''team'') wit_store) = None"
    using group_Update_succeeds [OF reachable_repo_ok [OF wit_store_reachable] old] wit_names unfolding u(1)
    by (simp add: new_group_def wit_trims group_GetByName_def groupIndexKey_def)
  then show ?thesis
    using group_rename_keeps_members [OF wit_store_reachable old, of 2 "snd (group_Update 2 (new_group ''g1'' ''team'') wit_store)"] u(2) unfolding u(1)
    by (force simp: prod_eq_iff new_group_def GetByID_def userInGroup_def groupIndexKey_def wit_trims)
qed

theorem group_delete_drops_members_witness:
  "fst (group_Delete 2 ''g1'' False wit_store) = Some (ErrGroupInUse (length (Members wit_store ''staff'')) ''staff'')"
proof -
  obtain u where u: "wit_store = \<lparr>st_users = [(''u1'', u)], st_byName = [(''alice'', ''u1'')],
      st_groups = [(''g1'', (new_group ''g1'' ''staff'')\<lparr>g_CreatedAt := 1, g_UpdatedAt := 1\<rparr>)], st_groupByName = [(''staff'', ''g1'')]\<rparr>"
    "u_PrimaryGroup u = ''Staff''" using wit_store_users by blast
  have g: "group_GetByID wit_store ''g1'' = Some ((new_group ''g1'' ''staff'')\<lparr>g_CreatedAt := 1, g_UpdatedAt := 1\<rparr>)"
    unfolding u(1) by (simp add: group_GetByID_def)
  have m: "\<exists>j u. GetByID wit_store j = Some u \<and> userInGroup u ''staff''"
    unfolding u(1) using u(2) by (intro exI [of _ "''u1''"] exI [of _ u]) (simp add: GetByID_def userInGroup_def groupIndexKey_def wit_trims)
  show ?thesis
    using group_delete_drops_members [OF wit_store_reachable g, of 2 False "fst (group_Delete 2 ''g1'' False wit_store)" "snd (group_Delete 2 ''g1'' False wit_store)"] m
    by (simp add: new_group_def wit_trims)
qed

theorem NormalizeHomeDir_canonical_witness: "NormalizeHomeDir ''team/./docs'' = Inr ''/team/docs'' \<and> abs_clean ''/team/docs''"
proof -
  have t: "trim_space ''team/./docs'' = ''team/./docs''" "trim_space ''team'' = ''team''" "trim_space ''.'' = ''.''" "trim_space ''docs'' = ''docs''"
    by (rule trim_space_plain; simp add: plain_char_def)+
  have e: "trim_space [] = []" by (simp add: trim_space_def)
  have c: "path_clean ''/team/./docs'' = ''/team/docs''" by code_simp
  have "NormalizeHomeDir ''team/./docs'' = Inr ''/team/docs''"
    by (simp add: NormalizeHomeDir_def t c e)
  then show ?thesis using NormalizeHomeDir_canonical [of "''team/./docs''"] by simp
qed

section \<open>The repository refines a map from names to accounts\<close>

text \<open>The specification has no index: the account of a normalized name is found by looking through all records.\<close>

definition accounts :: "ustore \<Rightarrow> string \<Rightarrow> user option" where
  "accounts s k = find (\<lambda>u. usernameIndexKey (u_Username u) = k) (user_List s)"

lemma accounts_iff:
  assumes "repo_ok s"
  shows "accounts s k = Some u \<longleftrightarrow> map_of (st_users s) (u_ID u) = Some u \<and> ToLower (u_Username u) = k"
proof -
  note D = repo_okD [OF assms] and L = user_List_members(1) [OF assms]
  have key: "usernameIndexKey (u_Username v) = ToLower (u_Username v)" if "v \<in> set (user_List s)" for v
    using that L D(2) by simp
  have same: "v = w" if "v \<in> set (user_List s)" "w \<in> set (user_List s)" "ToLower (u_Username v) = ToLower (u_Username w)" for v w
    using that L D(3) by (metis option.inject)
  show ?thesis
  proof
    assume "accounts s k = Some u"
    then have "u \<in> set (user_List s)" "usernameIndexKey (u_Username u) = k" by (auto simp: accounts_def find_Some_iff)
    then show "map_of (st_users s) (u_ID u) = Some u \<and> ToLower (u_Username u) = k" using L key by simp
  next
    assume u: "map_of (st_users s) (u_ID u) = Some u \<and> ToLower (u_Username u) = k"
    then have mem: "u \<in> set (user_List s)" using L by simp
    then have "accounts s k \<noteq> None" using key u by (auto simp: accounts_def find_None_iff)
    then obtain v where "accounts s k = Some v" by auto
    then have "v \<in> set (user_List s)" "usernameIndexKey (u_Username v) = k" by (auto simp: accounts_def find_Some_iff)
    then show "accounts s k = Some u" using same [OF _ mem, of v] key u \<open>accounts s k = Some v\<close> by simp
  qed
qed

lemma accounts_write:
  assumes "repo_ok s" "repo_ok s1" and "map_of (st_users s1) = (map_of (st_users s))(u_ID u \<mapsto> u)"
  shows "accounts s1 = (case map_of (st_users s) (u_ID u) of None \<Rightarrow> accounts s | Some old \<Rightarrow> (accounts s)(ToLower (u_Username old) := None))
    (ToLower (u_Username u) \<mapsto> u)"
proof (intro ext option_eqI)
  fix k c
  note A = accounts_iff [OF assms(1)] and A1 = accounts_iff [OF assms(2)]
  have uniq: "u_ID c = u_ID u" if "map_of (st_users s1) (u_ID c) = Some c" "ToLower (u_Username c) = ToLower (u_Username u)"
    using repo_okD(3) [OF assms(2) that(1)] repo_okD(3) [OF assms(2), of "u_ID u" u] assms(3) that(2) by simp
  have uniq0: "u_ID c = u_ID u" if "map_of (st_users s) (u_ID c) = Some c" "map_of (st_users s) (u_ID u) = Some v" "ToLower (u_Username c) = ToLower (u_Username v)" for v
    using repo_okD(3) [OF assms(1) that(1)] repo_okD(3) [OF assms(1) that(2)] that(3) by simp
  show "accounts s1 k = Some c \<longleftrightarrow>
    ((case map_of (st_users s) (u_ID u) of None \<Rightarrow> accounts s | Some old \<Rightarrow> (accounts s)(ToLower (u_Username old) := None)) (ToLower (u_Username u) \<mapsto> u)) k = Some c"
  proof (cases "k = ToLower (u_Username u)")
    case True
    have "accounts s1 k = Some c \<longleftrightarrow> c = u"
    proof
      assume "accounts s1 k = Some c"
      then have "map_of (st_users s1) (u_ID c) = Some c" "u_ID c = u_ID u" using A1 uniq True by auto
      then show "c = u" using assms(3) by simp
    next
      assume "c = u"
      then show "accounts s1 k = Some c" using A1 True assms(3) by simp
    qed
    then show ?thesis using True by auto
  next
    case False
    show ?thesis
    proof (cases "map_of (st_users s) (u_ID u)")
      case None
      then have "map_of (st_users s1) (u_ID c) = Some c \<longleftrightarrow> (if u_ID c = u_ID u then u = c else map_of (st_users s) (u_ID c) = Some c)"
        "map_of (st_users s) (u_ID c) = Some c \<Longrightarrow> u_ID c \<noteq> u_ID u"
        using assms(3) by auto
      then show ?thesis using False None A [of k c] A1 [of k c] by (auto split: if_splits)
    next
      case (Some v)
      have "map_of (st_users s1) (u_ID c) = Some c \<longleftrightarrow> (if u_ID c = u_ID u then u = c else map_of (st_users s) (u_ID c) = Some c)"
        using assms(3) by auto
      then have L: "accounts s1 k = Some c \<longleftrightarrow> (if u_ID c = u_ID u then u = c else map_of (st_users s) (u_ID c) = Some c) \<and> ToLower (u_Username c) = k"
        using A1 by simp
      have R: "((accounts s)(ToLower (u_Username v) := None, ToLower (u_Username u) \<mapsto> u)) k = Some c \<longleftrightarrow>
          k \<noteq> ToLower (u_Username v) \<and> map_of (st_users s) (u_ID c) = Some c \<and> ToLower (u_Username c) = k"
        using False A by simp
      show ?thesis
      proof (cases "u_ID c = u_ID u")
        case True
        then have "map_of (st_users s) (u_ID c) = Some c \<Longrightarrow> c = v" using Some by simp
        then show ?thesis using True L R False Some by auto
      next
        case neq: False
        then have "map_of (st_users s) (u_ID c) = Some c \<Longrightarrow> ToLower (u_Username c) \<noteq> ToLower (u_Username v)"
          using uniq0 [OF _ Some] by blast
        then show ?thesis using neq L R Some by auto
      qed
    qed
  qed
qed

lemma accounts_delete:
  assumes "repo_ok s" "repo_ok s1" and "map_of (st_users s1) = (map_of (st_users s))(i := None)" and "map_of (st_users s) i = Some u"
  shows "accounts s1 = (accounts s)(ToLower (u_Username u) := None)"
proof (intro ext option_eqI)
  fix k c
  have id: "u_ID u = i" by (rule repo_okD(1) [OF assms(1,4)])
  have "u_ID c = i" if "map_of (st_users s) (u_ID c) = Some c" "ToLower (u_Username c) = ToLower (u_Username u)"
    using repo_okD(3) [OF assms(1) that(1)] repo_okD(3) [OF assms(1,4)] that(2) by simp
  moreover have "map_of (st_users s1) (u_ID c) = Some c \<longleftrightarrow> u_ID c \<noteq> i \<and> map_of (st_users s) (u_ID c) = Some c" using assms(3) by simp
  moreover have "c = u" if "map_of (st_users s) (u_ID c) = Some c" "u_ID c = i" using that assms(4) by simp
  ultimately show "accounts s1 k = Some c \<longleftrightarrow> ((accounts s)(ToLower (u_Username u) := None)) k = Some c"
    using accounts_iff [OF assms(1), of k c] accounts_iff [OF assms(2), of k c] by auto
qed



end
