(* ===== verification/Login_Props.thy ===== *)
theory Login_Props
  imports Login User_Repo_Props
begin

text \<open>
  What signing in guarantees: only accounts in good standing get in, guesses are bounded by the lockout, an external provider
  reaches only its own accounts, the throttle bans exactly when its threshold is reached and its table is bounded; and two behaviours the code
  does not intend, the counter reset by an offered key and the address range that locks everyone out.
\<close>

section \<open>Only accounts in good standing sign in\<close>

lemma authenticateLocal_allowed:
  "authenticateLocalUser lib e now u0 password s = (Inr u, s') \<Longrightarrow>
   ensureLoginAllowed now u = None \<and> s' = s \<and> GetByID s (u_ID u0) = Some u \<and> al_VerifyPassword lib password (u_PasswordHash u)
   \<and> \<not> EqualFold (u_AuthProvider u) AuthProviderOIDC"
  by (auto simp: authenticateLocalUser_def split: option.splits if_splits)

lemma authenticateLDAP_allowed:
  "authenticateLDAPUser lib e ulid now shadow name password s = (Inr (Some u), s') \<Longrightarrow> ensureLoginAllowed now u = None"
  by (auto simp: authenticateLDAPUser_def split: option.splits sum.splits prod.splits)

lemma lift_local: "map_prod (map_sum (\<lambda>x. x) Some) (\<lambda>x. x) r = (Inr (Some u), s') \<longleftrightarrow> r = (Inr u, s')"
  by (cases r; cases "fst r") auto

lemma authenticate_success:
  assumes "authenticate lib e ulid now name password s = (Inr (Some u), s')"
  shows "(\<exists>v. authenticateLocalUser lib e now v password s = (Inr u, s')) \<or>
    (\<exists>shadow. authenticateLDAPUser lib e ulid now shadow (trim_space name) password s = (Inr (Some u), s'))"
  using assms by (auto simp: authenticate_def Let_def lift_local split: option.splits if_splits)


section \<open>Guessing\<close>

text \<open>A sequence of password attempts for one name, each at its time, and their results.\<close>

fun guesses :: "authlib \<Rightarrow> engine \<Rightarrow> string \<Rightarrow> string \<Rightarrow> (int \<times> string) list \<Rightarrow> ustore \<Rightarrow> (autherr + user option) list" where
  "guesses lib e ulid name [] s = []"
| "guesses lib e ulid name ((now, password) # gs) s =
     (case authenticate lib e ulid now name password s of (r, s1) \<Rightarrow> r # guesses lib e ulid name gs s1)"

lemma authenticate_local:
  assumes "GetByUsername s (trim_space name) = Some u" and "trim_space name \<noteq> []" and "isLDAPUser u \<longrightarrow> al_ldap lib = None"
  shows "authenticate lib e ulid now name password s
    = map_prod (map_sum (\<lambda>x. x) Some) (\<lambda>x. x) (authenticateLocalUser lib e now u password s)"
  using assms by (simp add: authenticate_def Let_def)

lemma GetByUsername_trimmed: "GetByUsername s (trim_space name) = GetByUsername s name"
  by (simp add: GetByUsername_def Let_def)

lemma fail_login_simps [simp]:
  "u_ID (fail_login e now u) = u_ID u" "u_Username (fail_login e now u) = u_Username u" "u_AuthProvider (fail_login e now u) = u_AuthProvider u"
  "u_PasswordHash (fail_login e now u) = u_PasswordHash u" "u_Enabled (fail_login e now u) = u_Enabled u" "u_ExpiresAt (fail_login e now u) = u_ExpiresAt u"
  by (simp_all add: fail_login_def Let_def)

text \<open>One wrong guess on an account in good standing: it is counted, and nothing else of the account changes.\<close>

lemma wrong_guess:
  assumes "repo_ok s" and "GetByUsername s name = Some u" and "isLDAPUser u \<longrightarrow> al_ldap lib = None"
    and "ensureLoginAllowed now u = None" and "\<not> EqualFold (u_AuthProvider u) AuthProviderOIDC" and "\<not> al_VerifyPassword lib password (u_PasswordHash u)"
  obtains s1 where "authenticate lib e ulid now name password s = (Inl ErrInvalidCredentials, s1)" and "repo_ok s1"
    and "GetByUsername s1 name = Some ((fail_login e now u)\<lparr>u_UpdatedAt := now\<rparr>)"
proof -
  have u: "map_of (st_users s) (u_ID u) = Some u" "EqualFold (u_Username u) (trim_space name)"
    using userByName_index [OF assms(1)] assms(2) by (simp_all add: GetByUsername_tx)
  have ne: "trim_space name \<noteq> []" using assms(2) by (auto simp: GetByUsername_def)
  obtain s1 where s1: "Mutate now (u_ID u) (\<lambda>u. Inr (fail_login e now u)) s = (Inr (Some ((fail_login e now u)\<lparr>u_UpdatedAt := now\<rparr>)), s1)"
    "st_users s1 = AList.update (u_ID u) ((fail_login e now u)\<lparr>u_UpdatedAt := now\<rparr>) (st_users s)" "repo_ok s1"
    by (rule Mutate_same_name [OF assms(1) u(1), of "\<lambda>u. Inr (fail_login e now u)" "fail_login e now u" now]) simp_all
  show thesis
  proof (rule that [OF _ s1(3)])
    have "authenticateLocalUser lib e now u password s = (Inl ErrInvalidCredentials, s1)"
      using u(1) assms(4-6) s1(1) by (simp add: authenticateLocalUser_def GetByID_def registerFailedLogin_def)
    then show "authenticate lib e ulid now name password s = (Inl ErrInvalidCredentials, s1)"
      using authenticate_local [of s name u lib e ulid now password] assms(2,3) ne by (simp add: GetByUsername_trimmed)
    show "GetByUsername s1 name = Some ((fail_login e now u)\<lparr>u_UpdatedAt := now\<rparr>)"
      using s1(2) u(2) by (simp add: GetByUsername_tx userByName_index [OF s1(3)])
  qed
qed

text \<open>A locked account refuses every guess and does not change.\<close>

lemma locked_guess:
  assumes "repo_ok s" and "GetByUsername s name = Some u" and "isLDAPUser u \<longrightarrow> al_ldap lib = None" and "ensureLoginAllowed now u = Some err"
  shows "authenticate lib e ulid now name password s = (Inl err, s)"
proof -
  have "map_of (st_users s) (u_ID u) = Some u"
    using userByName_index [OF assms(1)] assms(2) by (simp add: GetByUsername_tx)
  moreover have "trim_space name \<noteq> []" using assms(2) by (auto simp: GetByUsername_def)
  ultimately show ?thesis
    using authenticate_local [of s name u lib e ulid now password] assms by (simp add: GetByUsername_trimmed authenticateLocalUser_def GetByID_def)
qed

lemma locked_guesses:
  assumes "repo_ok s" and "GetByUsername s name = Some u" and "isLDAPUser u \<longrightarrow> al_ldap lib = None"
    and "\<forall>(now, _)\<in>set gs. ensureLoginAllowed now u = Some ErrUserLocked"
  shows "guesses lib e ulid name gs s = replicate (length gs) (Inl ErrUserLocked)"
  using assms(4)
proof (induction gs)
  case (Cons g gs)
  then show ?case using locked_guess [OF assms(1-3)] by (cases g) simp
qed simp

lemma ensure_after_lock:
  assumes "ensureLoginAllowed now u = None" and "u_Enabled v = u_Enabled u" and "u_ExpiresAt v = u_ExpiresAt u"
  shows "ensureLoginAllowed now v = (if case u_LockedUntil v of None \<Rightarrow> False | Some t \<Rightarrow> t > now then Some ErrUserLocked else None)"
  using assms by (auto simp: ensureLoginAllowed_def Expired_def split: if_splits)

lemma guess_bound:
  assumes "repo_ok s" and "GetByUsername s name = Some u" and "isLDAPUser u \<longrightarrow> al_ldap lib = None"
    and "\<not> EqualFold (u_AuthProvider u) AuthProviderOIDC" and "\<not> en_lockoutDisabled e"
    and "\<forall>(now, _)\<in>set gs. t0 \<le> now \<and> now < t0 + en_lockDuration e \<and> ensureLoginAllowed now u = None"
    and "0 \<le> u_FailedLogins u" and "u_FailedLogins u < max_int64" and "en_maxAttempts e < max_int64"
    and "\<forall>(_, password)\<in>set (take (nat (max 1 (en_maxAttempts e - u_FailedLogins u))) gs). \<not> al_VerifyPassword lib password (u_PasswordHash u)"
  shows "\<exists>k \<le> nat (max 1 (en_maxAttempts e - u_FailedLogins u)).
    guesses lib e ulid name gs s = replicate (min k (length gs)) (Inl ErrInvalidCredentials) @ replicate (length gs - k) (Inl ErrUserLocked)"
  using assms
proof (induction gs arbitrary: s u)
  case (Cons g gs)
  obtain now password where g: "g = (now, password)" by (cases g)
  define n where "n = nat (max 1 (en_maxAttempts e - u_FailedLogins u))"
  have n: "take n (g # gs) = g # take (n - 1) gs" "n \<ge> 1" by (simp_all add: n_def take_Cons' )
  have wrong: "\<not> al_VerifyPassword lib password (u_PasswordHash u)"
    using Cons.prems(10) g n(1) unfolding n_def [symmetric] by simp
  have now: "t0 \<le> now" "ensureLoginAllowed now u = None" using Cons.prems(6) g by simp_all
  define v where "v = (fail_login e now u)\<lparr>u_UpdatedAt := now\<rparr>"
  obtain s1 where s1: "authenticate lib e ulid now name password s = (Inl ErrInvalidCredentials, s1)" "repo_ok s1" "GetByUsername s1 name = Some v"
    using wrong_guess [OF Cons.prems(1-3) now(2) Cons.prems(4) wrong, of e ulid] unfolding v_def by blast
  have v: "u_AuthProvider v = u_AuthProvider u" "u_PasswordHash v = u_PasswordHash u" "u_Enabled v = u_Enabled u" "u_ExpiresAt v = u_ExpiresAt u"
    by (simp_all add: v_def)
  have w: "wrap64 (u_FailedLogins u + 1) = u_FailedLogins u + 1"
    using Cons.prems(7,8) by (intro wrap64_id in_int64_nonneg) (simp_all add: max_int64_def)
  have ldap: "isLDAPUser v \<longrightarrow> al_ldap lib = None" using Cons.prems(3) v(1) by (simp add: isLDAPUser_def)
  show ?case
  proof (cases "u_FailedLogins u + 1 \<ge> en_maxAttempts e")
    case True
    then have "u_LockedUntil v = Some (now + en_lockDuration e)"
      using w Cons.prems(5) by (simp add: v_def fail_login_def Let_def)
    then have "\<forall>(t, _)\<in>set gs. ensureLoginAllowed t v = Some ErrUserLocked"
      using Cons.prems(6) now(1) ensure_after_lock [OF _ v(3,4)] by fastforce
    then have "guesses lib e ulid name gs s1 = replicate (length gs) (Inl ErrUserLocked)"
      by (rule locked_guesses [OF s1(2,3) ldap])
    then show ?thesis using g s1(1) n(2) unfolding n_def by (intro exI [of _ 1]) simp
  next
    case False
    then have f: "u_FailedLogins v = u_FailedLogins u + 1" "u_LockedUntil v = u_LockedUntil u"
      using w by (simp_all add: v_def fail_login_def Let_def)
    have m: "nat (max 1 (en_maxAttempts e - u_FailedLogins v)) = n - 1" using False f(1) by (simp add: n_def)
    have ok: "\<forall>(t, _)\<in>set gs. t0 \<le> t \<and> t < t0 + en_lockDuration e \<and> ensureLoginAllowed t v = None"
      using Cons.prems(6) v(3,4) f(2) by (auto simp: ensureLoginAllowed_def Expired_def split: if_splits)
    have "\<exists>k \<le> nat (max 1 (en_maxAttempts e - u_FailedLogins v)).
      guesses lib e ulid name gs s1 = replicate (min k (length gs)) (Inl ErrInvalidCredentials) @ replicate (length gs - k) (Inl ErrUserLocked)"
    proof (rule Cons.IH [OF s1(2,3) ldap _ Cons.prems(5) ok])
      show "\<not> EqualFold (u_AuthProvider v) AuthProviderOIDC" using Cons.prems(4) v(1) by simp
      show "\<forall>(_, password)\<in>set (take (nat (max 1 (en_maxAttempts e - u_FailedLogins v))) gs). \<not> al_VerifyPassword lib password (u_PasswordHash v)"
        using Cons.prems(10) n(1) v(2) unfolding n_def [symmetric] m by simp
    qed (use f(1) False Cons.prems(7,9) in simp_all)
    then obtain k where k: "k \<le> n - 1"
      "guesses lib e ulid name gs s1 = replicate (min k (length gs)) (Inl ErrInvalidCredentials) @ replicate (length gs - k) (Inl ErrUserLocked)"
      unfolding m by blast
    then show ?thesis using g s1(1) n(2) unfolding n_def [symmetric] by (intro exI [of _ "Suc k"]) auto
  qed
qed (simp add: exI [of _ 0])

text \<open>C11. Guessing is bounded: against a local account whose lockout is on, a sequence of guesses within one lock period gets at most as many
  passwords checked as the account has attempts left (at least one); if those were wrong, every later guess is refused unchecked, right or
  wrong, so no guess succeeds.\<close>

theorem brute_force_bounded:
  assumes "repo_step\<^sup>*\<^sup>* empty_store s" and "GetByUsername s name = Some u" and "isLDAPUser u \<longrightarrow> al_ldap lib = None"
    and "\<not> EqualFold (u_AuthProvider u) AuthProviderOIDC" and "\<not> en_lockoutDisabled e"
    and "\<forall>(now, _)\<in>set gs. t0 \<le> now \<and> now < t0 + en_lockDuration e \<and> ensureLoginAllowed now u = None"
    and "0 \<le> u_FailedLogins u" and "u_FailedLogins u < max_int64" and "en_maxAttempts e < max_int64"
    and "\<forall>(_, password)\<in>set (take (nat (max 1 (en_maxAttempts e - u_FailedLogins u))) gs). \<not> al_VerifyPassword lib password (u_PasswordHash u)"
  shows "\<exists>k \<le> nat (max 1 (en_maxAttempts e - u_FailedLogins u)).
    guesses lib e ulid name gs s = replicate (min k (length gs)) (Inl ErrInvalidCredentials) @ replicate (length gs - k) (Inl ErrUserLocked)"
  by (rule guess_bound [OF reachable_repo_ok [OF assms(1)] assms(2-10)])

section \<open>External accounts\<close>

text \<open>C26. A provider cannot take over an account: when an external identity claims the name of an account of another provider, or of
  another subject, it is refused and nothing changes; when it succeeds, the account it gets is its own, linked to its subject and no other.\<close>

theorem external_no_takeover:
  assumes "repo_step\<^sup>*\<^sup>* empty_store s"
  shows "(\<forall>u. GetByUsername s (ei_Username i) = Some u \<and> ei_Subject i \<noteq> []
            \<and> (\<not> EqualFold (u_AuthProvider u) (ei_Provider i) \<or> u_ExternalID u \<notin> {[], ei_Subject i})
          \<longrightarrow> ProvisionExternalUser ulid now i auto s = (Inl ErrAccountConflict, s))
    \<and> (\<forall>u s'. ProvisionExternalUser ulid now i auto s = (Inr u, s')
          \<longrightarrow> u_ExternalID u = ei_Subject i \<and> u_Enabled u
            \<and> (case GetByUsername s (ei_Username i) of
                 None \<Rightarrow> auto \<and> u_PasswordHash u = unusablePasswordHash
               | Some old \<Rightarrow> u_ID u = u_ID old \<and> EqualFold (u_AuthProvider old) (ei_Provider i) \<and> u_PasswordHash u = u_PasswordHash old))"
proof -
  define j where "j = i\<lparr>ei_Username := trim_space (ei_Username i)\<rparr>"
  note ok = reachable_repo_ok [OF assms]
  have by_name: "GetByUsername s (ei_Username j) = GetByUsername s (ei_Username i)" by (simp add: j_def GetByUsername_trimmed)
  have stored: "userByIDTx s (u_ID old) = Some old" if "GetByUsername s (ei_Username i) = Some old" for old
    using that userByName_index [OF ok] by (simp add: GetByUsername_tx userByIDTx_def)
  have ne: "ei_Username j \<noteq> []" if "GetByUsername s (ei_Username i) = Some old" for old
    using that by (auto simp: j_def GetByUsername_def)
  show ?thesis
  proof (rule conjI; intro allI impI)
    fix u assume u: "GetByUsername s (ei_Username i) = Some u \<and> ei_Subject i \<noteq> []
        \<and> (\<not> EqualFold (u_AuthProvider u) (ei_Provider i) \<or> u_ExternalID u \<notin> {[], ei_Subject i})"
    then have "external_edit j u = Inl ErrAccountConflict" by (auto simp: external_edit_def j_def)
    then show "ProvisionExternalUser ulid now i auto s = (Inl ErrAccountConflict, s)"
      unfolding ProvisionExternalUser_def Let_def j_def [symmetric]
      using u ne [of u] by_name stored [of u] by (simp add: Mutate_def) (simp add: j_def)
  next
    fix u s' assume P: "ProvisionExternalUser ulid now i auto s = (Inr u, s')"
    show "u_ExternalID u = ei_Subject i \<and> u_Enabled u
            \<and> (case GetByUsername s (ei_Username i) of
                 None \<Rightarrow> auto \<and> u_PasswordHash u = unusablePasswordHash
               | Some old \<Rightarrow> u_ID u = u_ID old \<and> EqualFold (u_AuthProvider old) (ei_Provider i) \<and> u_PasswordHash u = u_PasswordHash old)"
    proof (cases "GetByUsername s (ei_Username i)")
      case None
      then show ?thesis
        using P unfolding ProvisionExternalUser_def Let_def j_def [symmetric] by_name
        by (auto simp: user_Create_def create_defaults_def Let_def j_def split: if_splits sum.splits option.splits)
    next
      case (Some old)
      obtain v where v: "external_edit j old = Inr v" "updateTx now v s = Inr (u, s')"
        using P Some by_name stored [OF Some] unfolding ProvisionExternalUser_def Let_def j_def [symmetric]
        by (auto simp: Mutate_def split: if_splits sum.splits option.splits)
      have "u = v\<lparr>u_UpdatedAt := now\<rparr>" using v(2) by (auto simp: updateTx_def Let_def split: option.splits if_splits)
      then show ?thesis using Some v(1) by (auto simp: external_edit_def j_def Let_def split: if_splits option.splits)
    qed
  qed
qed

section \<open>Keys and counters\<close>

text \<open>Accepting a key clears the failure count: when a listed key of an account in good standing is presented, the account's failure counter is
  reset.  The SSH server calls this also for a key that is only offered, before any signature is checked.\<close>

theorem offered_key_resets_counter:
  assumes "repo_step\<^sup>*\<^sup>* empty_store s" and "GetByUsername s name = Some u" and "ensureLoginAllowed now u = None"
    and "k \<in> set (u_AuthorizedKeys u)" and "al_keyMatches lib (trim_space k) key"
  shows "\<exists>v. GetByUsername (snd (AuthenticatePublicKey lib now name key s)) name = Some v \<and> u_FailedLogins v = 0 \<and> u_LockedUntil v = None
    \<and> u_PasswordHash v = u_PasswordHash u"
proof -
  note ok = reachable_repo_ok [OF assms(1)]
  have u: "map_of (st_users s) (u_ID u) = Some u" "EqualFold (u_Username u) (trim_space name)"
    using userByName_index [OF ok] assms(2) by (simp_all add: GetByUsername_tx)
  have key: "list_ex (\<lambda>authorized. al_keyMatches lib (trim_space authorized) key) (u_AuthorizedKeys u)"
    using assms(4,5) by (auto simp: list_ex_iff)
  then have s': "snd (AuthenticatePublicKey lib now name key s) = snd (UpdateLastLogin (Some u) now (u_ID u) s)"
    using assms(2,3) u(1) by (simp add: AuthenticatePublicKey_def GetByID_def)
  show ?thesis
  proof (cases "login_fresh now u")
    case True
    then have "snd (AuthenticatePublicKey lib now name key s) = s" using s' by (simp add: UpdateLastLogin_def)
    then show ?thesis using assms(2) True by (simp add: login_fresh_def)
  next
    case False
    define fn :: "user \<Rightarrow> autherr + user" where "fn = (\<lambda>u. if login_fresh now u then Inl errLastLoginFresh
                     else Inr (u\<lparr>u_LastLoginAt := Some now, u_FailedLogins := 0, u_LockedUntil := None\<rparr>))"
    define v where "v = u\<lparr>u_LastLoginAt := Some now, u_FailedLogins := 0, u_LockedUntil := None\<rparr>"
    obtain s1 where s1: "Mutate now (u_ID u) fn s = (Inr (Some (v\<lparr>u_UpdatedAt := now\<rparr>)), s1)"
      "st_users s1 = AList.update (u_ID u) (v\<lparr>u_UpdatedAt := now\<rparr>) (st_users s)" "repo_ok s1"
      by (rule Mutate_same_name [OF ok u(1), of fn v now]) (use False in \<open>simp_all add: fn_def v_def\<close>)
    have "snd (UpdateLastLogin (Some u) now (u_ID u) s) = s1"
      using False s1(1) unfolding UpdateLastLogin_def fn_def [symmetric] by simp
    moreover have "GetByUsername s1 name = Some (v\<lparr>u_UpdatedAt := now\<rparr>)"
      using s1(2) u(2) by (simp add: GetByUsername_tx userByName_index [OF s1(3)] v_def)
    ultimately show ?thesis using s' by (simp add: v_def)
  qed
qed

section \<open>Access entries\<close>

lemma invalid_prefix_entry: "parseAccessPrefix ''invalid Prefix'' = None"
  by (simp add: parseAccessPrefix_def trim_space_plain plain_char_def parse_entry_def ParseAddr_def)

lemma mapped_groups: "parse_groups ''::ffff:10.0.0.0'' = Some [0,0,0,0,0,65535,2560,0]"
  by code_simp

lemma mapped_addr: "ParseAddr ''::ffff:10.0.0.0'' = Some (V6 0xFFFF0A000000)"
proof -
  have "strip_zone ''::ffff:10.0.0.0'' = ''::ffff:10.0.0.0''" by (simp add: strip_zone_def)
  then show ?thesis using mapped_groups by (simp add: ParseAddr_def parseIPv6_def from_digits_def)
qed

lemma mapped_entry: "parse_entry ''::ffff:10.0.0.0/90'' = Some \<lparr>np_addr = V4 0, np_bits = 33\<rparr>"
proof -
  have "ParsePrefix ''::ffff:10.0.0.0/90'' = Some \<lparr>np_addr = V6 0xFFFF0A000000, np_bits = 90\<rparr>"
    by (simp add: ParsePrefix_def last_index_byte_def mapped_addr bit_len_def digit_value_def less_eq_char_def less_char_def)
  moreover have "Is4In6 (V6 0xFFFF0A000000)" by (simp add: Is4In6_def)
  ultimately show ?thesis by (simp add: parse_entry_def)
qed

text \<open>An address range that is written as a 4-in-6 prefix shorter than 96 bits is accepted and stored as the text \<^verbatim>\<open>invalid Prefix\<close>, which
  never matches: a user with only this entry is refused from every address.\<close>

theorem short_4in6_entry_locks_out:
  "NormalizeAccessPolicy [''::ffff:10.0.0.0/90''] [] 0 = Inr ([''invalid Prefix''], [])
   \<and> \<not> IPAllowed (u\<lparr>u_AllowedIPs := [''invalid Prefix'']\<rparr>) remote"
proof -
  have "trim_space ''::ffff:10.0.0.0/90'' = ''::ffff:10.0.0.0/90''" by (simp add: trim_space_plain plain_char_def)
  then have "NormalizeAccessPolicy [''::ffff:10.0.0.0/90''] [] 0 = Inr ([''invalid Prefix''], [])"
    by (simp add: NormalizeAccessPolicy_def parseAccessPrefix_def mapped_entry canonical_entry_def show_prefix_def bit_len_def Let_def)
  then show ?thesis by (simp add: IPAllowed_def invalid_prefix_entry split: option.split)
qed

section \<open>The throttle\<close>

datatype throttle_op = TFail string int | TSuccess string | TConfigure throttleConfig

definition throttle_step :: "throttle_op \<Rightarrow> throttle \<Rightarrow> throttle" where
  "throttle_step a t =
     (case a of TFail r now \<Rightarrow> snd (RecordFailure r now t) | TSuccess r \<Rightarrow> RecordSuccess r t | TConfigure cfg \<Rightarrow> snd (Configure cfg t))"

lemma length_update_le: "length (AList.update k v xs) \<le> Suc (length xs)" "map_of xs k \<noteq> None \<Longrightarrow> length (AList.update k v xs) = length xs"
  by (induction xs) auto

lemma length_delete_le': "length (AList.delete k xs) \<le> length xs"
  by (simp add: delete_filter)

definition tracked_ok :: "throttle \<Rightarrow> bool" where
  "tracked_ok t \<longleftrightarrow> distinct (map fst (th_entries t)) \<and> length (th_entries t) \<le> maxTrackedIPs"

lemma distinct_keys_filter: "distinct (map fst xs) \<Longrightarrow> distinct (map fst (filter P xs))"
  by (simp add: distinct_map_filter)

lemma count_failure_entries:
  "\<exists>e. th_entries (snd (count_failure ip now e0 t)) = AList.update ip e (th_entries t)"
  by (auto simp: count_failure_def Let_def)

lemma step_tracked: "tracked_ok t \<Longrightarrow> tracked_ok (throttle_step a t)"
proof (cases a)
  case (TFail r now)
  assume t: "tracked_ok t"
  let ?ip = "throttleKey r"
  have pruned: "distinct (map fst (th_entries (pruneLocked now t)))" "length (th_entries (pruneLocked now t)) \<le> length (th_entries t)"
    using t by (simp_all add: pruneLocked_def tracked_ok_def distinct_keys_filter)
  show ?thesis
  proof (cases "\<not> th_enabled t \<or> ?ip = [] \<or> exempt t r")
    case True
    then show ?thesis using t TFail by (auto simp: throttle_step_def RecordFailure_def Let_def)
  next
    case False
    show ?thesis
    proof (cases "map_of (th_entries t) ?ip")
      case None
      define t1 where "t1 = (if length (th_entries t) \<ge> maxTrackedIPs then pruneLocked now t else t)"
      define fresh where "fresh = \<lparr>fl_count = 0, fl_firstAt = now, fl_bannedUntil = zero_time\<rparr>"
      have t1: "tracked_ok t1" using t pruned by (simp add: t1_def tracked_ok_def)
      have "throttle_step a t = (if length (th_entries t1) \<ge> maxTrackedIPs then t1 else snd (count_failure ?ip now fresh t1))"
        using False None TFail by (simp add: throttle_step_def RecordFailure_def t1_def fresh_def Let_def)
      moreover obtain e where "th_entries (snd (count_failure ?ip now fresh t1)) = AList.update ?ip e (th_entries t1)"
        using count_failure_entries by blast
      moreover have "length (AList.update ?ip e (th_entries t1)) \<le> Suc (length (th_entries t1))"
        by (rule length_update_le)
      ultimately show ?thesis using t1 by (simp add: tracked_ok_def)
    next
      case (Some e)
      obtain e' where "th_entries (throttle_step a t) = AList.update ?ip e' (th_entries t)"
        using False Some TFail count_failure_entries by (fastforce simp: throttle_step_def RecordFailure_def Let_def)
      then show ?thesis using t length_update_le(2) [of "th_entries t" ?ip e'] Some by (simp add: tracked_ok_def)
    qed
  qed
next
  case (TSuccess r)
  assume "tracked_ok t"
  then show ?thesis
    using TSuccess length_delete_le' [of "throttleKey r" "th_entries t"]
    by (auto simp: throttle_step_def RecordSuccess_def tracked_ok_def Let_def split: option.split)
next
  case (TConfigure cfg)
  assume "tracked_ok t"
  then show ?thesis using TConfigure by (auto simp: throttle_step_def Configure_def tracked_ok_def Let_def split: sum.split)
qed

text \<open>The failure table stays bounded: whatever addresses fail, succeed, or how the throttle is reconfigured, it never tracks more than
  100000 of them, and tracks none twice.\<close>

theorem throttle_table_bounded:
  assumes "NewIPThrottle cfg = Inr t0" and "t = fold throttle_step acts t0"
  shows "length (th_entries t) \<le> 100000 \<and> distinct (map fst (th_entries t))"
proof -
  have "tracked_ok t0" using assms(1) by (auto simp: NewIPThrottle_def Configure_def tracked_ok_def Let_def split: sum.splits option.splits)
  then have "tracked_ok (fold throttle_step acts t0)" by (induction acts arbitrary: t0) (simp_all add: step_tracked)
  then show ?thesis using assms(2) by (simp add: tracked_ok_def maxTrackedIPs_def)
qed

text \<open>The times of the failures that count against a key.\<close>

definition fails_of :: "string \<Rightarrow> throttle_op list \<Rightarrow> int list" where
  "fails_of k acts = concat (map (\<lambda>a. case a of TFail r now \<Rightarrow> if throttleKey r = k then [now] else [] | _ \<Rightarrow> []) acts)"

text \<open>Events inside one window, none of them a success of the key or a new configuration.\<close>

definition in_window :: "throttle \<Rightarrow> string \<Rightarrow> int \<Rightarrow> throttle_op \<Rightarrow> bool" where
  "in_window t k t0 a \<longleftrightarrow>
     (case a of
        TFail r now \<Rightarrow> t0 \<le> now \<and> now < t0 + th_duration t \<and> (throttleKey r = k \<longrightarrow> \<not> exempt t r)
      | TSuccess r \<Rightarrow> throttleKey r \<noteq> k
      | TConfigure _ \<Rightarrow> False)"

definition settings :: "throttle \<Rightarrow> bool \<times> int \<times> int \<times> ipFilter option" where
  "settings t = (th_enabled t, th_threshold t, th_duration t, th_whitelist t)"

lemma count_failure_settings [simp]: "settings (snd (count_failure ip now e t)) = settings t"
  by (simp add: count_failure_def settings_def Let_def)

lemma prune_settings [simp]: "settings (pruneLocked now t) = settings t"
  by (simp add: pruneLocked_def settings_def)

lemma window_settings: "in_window u k t0 a \<Longrightarrow> settings (throttle_step a t) = settings t"
  by (auto simp: throttle_step_def RecordFailure_def RecordSuccess_def in_window_def settings_def [of "_\<lparr>th_entries := _\<rparr>"] Let_def
      split: throttle_op.splits option.split) (simp_all add: settings_def)

text \<open>What the table holds for the key after j counted failures, the first at f and the last but the threshold's at b.\<close>

definition entry_after :: "throttle \<Rightarrow> string \<Rightarrow> int list \<Rightarrow> ipFailures option \<Rightarrow> bool" where
  "entry_after t k ts e \<longleftrightarrow>
     (case ts of
        [] \<Rightarrow> e = None
      | f # _ \<Rightarrow>
          (\<exists>c. e = Some \<lparr>fl_count = c, fl_firstAt = f,
             fl_bannedUntil = (if int (length ts) \<ge> th_threshold t then ts ! nat (th_threshold t - 1) + th_duration t else zero_time)\<rparr>
           \<and> c = int (length ts)))"

lemma count_failure_lookup:
  "map_of (th_entries (snd (count_failure ip now e t))) ip =
    Some (let e1 = e\<lparr>fl_count := wrap64 (fl_count e + 1)\<rparr> in
      if fl_count e1 \<ge> th_threshold t \<and> \<not> now < fl_bannedUntil e then e1\<lparr>fl_bannedUntil := now + th_duration t\<rparr> else e1)"
  by (simp add: count_failure_def Let_def)

lemma other_key_step:
  assumes "in_window t k t0 a" and "fails_of k [a] = []" and "length (th_entries t) < maxTrackedIPs"
  shows "map_of (th_entries (throttle_step a t)) k = map_of (th_entries t) k"
proof (cases a)
  case (TFail r now)
  then have "throttleKey r \<noteq> k" using assms(2) by (auto simp: fails_of_def)
  then have "map_of (th_entries (snd (count_failure (throttleKey r) now e t))) k = map_of (th_entries t) k" for e
    by (simp add: count_failure_def Let_def)
  then show ?thesis using TFail assms(3) by (simp add: throttle_step_def RecordFailure_def Let_def split: option.split)
next
  case (TSuccess r)
  then show ?thesis using assms(1) by (simp add: in_window_def throttle_step_def RecordSuccess_def Let_def split: option.split)
next
  case (TConfigure cfg)
  then show ?thesis using assms(1) by (simp add: in_window_def)
qed

lemma step_length: "in_window t k t0 a \<Longrightarrow> length (th_entries t) < maxTrackedIPs \<Longrightarrow> length (th_entries (throttle_step a t)) \<le> Suc (length (th_entries t))"
proof (cases a)
  case (TFail r now)
  assume "length (th_entries t) < maxTrackedIPs"
  moreover have "length (th_entries (snd (count_failure ip now e t))) \<le> Suc (length (th_entries t))" for ip now e
    using count_failure_entries [of ip now e t] length_update_le(1) by auto
  ultimately show ?thesis using TFail by (simp add: throttle_step_def RecordFailure_def Let_def split: option.split)
next
  case (TSuccess r)
  then show ?thesis
    using length_delete_le' [of "throttleKey r" "th_entries t"] by (auto simp: throttle_step_def RecordSuccess_def Let_def le_SucI split: option.split)
next
  case (TConfigure cfg)
  assume "in_window t k t0 a"
  then show ?thesis using TConfigure by (simp add: in_window_def)
qed

lemma own_key_step:
  assumes "th_enabled t" "0 < th_threshold t" "0 < th_duration t" "k \<noteq> []" "zero_time < t0"
    and "in_window t k t0 (TFail r now)" and "throttleKey r = k" and "length (th_entries t) < maxTrackedIPs"
    and "int (length ts) < max_int64" and "\<forall>f\<in>set ts. t0 \<le> f" and "entry_after t k ts (map_of (th_entries t) k)"
  shows "entry_after t k (ts @ [now]) (map_of (th_entries (throttle_step (TFail r now) t)) k)"
proof -
  have w: "t0 \<le> now" "now < t0 + th_duration t" "\<not> exempt t r" "\<not> now < zero_time"
    using assms(5-7) by (simp_all add: in_window_def)
  have inc: "wrap64 (int (length ts) + 1) = int (length ts) + 1"
    using assms(9) by (intro wrap64_id in_int64_nonneg) (simp_all add: max_int64_def)
  show ?thesis
  proof (cases ts)
    case Nil
    then have "map_of (th_entries t) k = None" using assms(11) by (simp add: entry_after_def)
    then have "throttle_step (TFail r now) t = snd (count_failure k now \<lparr>fl_count = 0, fl_firstAt = now, fl_bannedUntil = zero_time\<rparr> t)"
      using assms(1,4,7,8) w(3) by (simp add: throttle_step_def RecordFailure_def Let_def)
    then show ?thesis using Nil inc w(4) assms(2) by (simp add: count_failure_lookup entry_after_def Let_def)
  next
    case (Cons f fs)
    define bu where "bu = (if int (length ts) \<ge> th_threshold t then ts ! nat (th_threshold t - 1) + th_duration t else zero_time)"
    have e: "map_of (th_entries t) k = Some \<lparr>fl_count = int (length ts), fl_firstAt = f, fl_bannedUntil = bu\<rparr>"
      using assms(11) Cons by (auto simp: entry_after_def bu_def)
    have "t0 \<le> f" using assms(10) Cons by simp
    then have "\<not> stale t now \<lparr>fl_count = int (length ts), fl_firstAt = f, fl_bannedUntil = bu\<rparr>"
      using w assms(3) by (auto simp: stale_def time_sub_def max_def min_def)
    then have step: "throttle_step (TFail r now) t = snd (count_failure k now \<lparr>fl_count = int (length ts), fl_firstAt = f, fl_bannedUntil = bu\<rparr> t)"
      using assms(1,4,7) w(3) e by (simp add: throttle_step_def RecordFailure_def Let_def)
    have banned: "now < bu" if "int (length ts) \<ge> th_threshold t"
    proof -
      have "nat (th_threshold t - 1) < length ts" using that assms(2) by linarith
      then have "t0 \<le> ts ! nat (th_threshold t - 1)" using assms(10) nth_mem by blast
      then show ?thesis using that w(2) by (simp add: bu_def)
    qed
    have idx: "(ts @ [now]) ! nat (th_threshold t - 1) = (if int (length ts) \<ge> th_threshold t then ts ! nat (th_threshold t - 1) else now)"
      if "int (length ts) + 1 \<ge> th_threshold t" using that assms(2) by (auto simp: nth_append nth_Cons')
    have tl: "ts @ [now] = f # (fs @ [now])" using Cons by simp
    show ?thesis
    proof (cases "int (length ts) \<ge> th_threshold t")
      case True
      then have "entry_after t k (ts @ [now]) (Some \<lparr>fl_count = int (length ts) + 1, fl_firstAt = f, fl_bannedUntil = bu\<rparr>)"
        using idx by (simp add: entry_after_def bu_def tl [symmetric]) (simp add: tl Cons)
      then show ?thesis using step banned True inc by (simp add: count_failure_lookup Let_def)
    next
      case False
      then show ?thesis
        using step inc idx w(4) by (simp add: count_failure_lookup entry_after_def bu_def Let_def) (simp add: tl Cons)
    qed
  qed
qed

lemma fails_of_snoc: "fails_of k (acts @ [a]) = fails_of k acts @ fails_of k [a]"
  by (simp add: fails_of_def)

lemma fails_of_window: "list_all (in_window t k t0) acts \<Longrightarrow> \<forall>f\<in>set (fails_of k acts). t0 \<le> f"
  by (induction acts) (auto simp: fails_of_def in_window_def split: throttle_op.splits if_splits)

lemma fails_of_length: "length (fails_of k acts) \<le> length acts"
  by (induction acts) (auto simp: fails_of_def split: throttle_op.splits)

lemma in_window_settings: "settings u = settings t \<Longrightarrow> in_window u k t0 a = in_window t k t0 a"
  by (auto simp: in_window_def settings_def exempt_def split: throttle_op.splits)

lemma entry_after_settings: "settings u = settings t \<Longrightarrow> entry_after u k ts e = entry_after t k ts e"
  by (simp add: entry_after_def settings_def split: list.splits)

lemma window_run:
  assumes "th_enabled t" "0 < th_threshold t" "0 < th_duration t" "k \<noteq> []" "zero_time < t0"
    and "map_of (th_entries t) k = None" and "list_all (in_window t k t0) acts" and "length (th_entries t) + length acts \<le> maxTrackedIPs"
  shows "settings (fold throttle_step acts t) = settings t \<and> length (th_entries (fold throttle_step acts t)) \<le> length (th_entries t) + length acts
    \<and> entry_after t k (fails_of k acts) (map_of (th_entries (fold throttle_step acts t)) k)"
  using assms(7,8)
proof (induction acts rule: rev_induct)
  case Nil
  then show ?case using assms(6) by (simp add: fails_of_def entry_after_def)
next
  case (snoc a acts)
  define u where "u = fold throttle_step acts t"
  have IH: "settings u = settings t" "length (th_entries u) \<le> length (th_entries t) + length acts"
    "entry_after t k (fails_of k acts) (map_of (th_entries u) k)"
    using snoc unfolding u_def by simp_all
  have w: "in_window u k t0 a" using snoc.prems(1) in_window_settings [OF IH(1)] by simp
  have room: "length (th_entries u) < maxTrackedIPs" using IH(2) snoc.prems(2) by simp
  have "entry_after u k (fails_of k (acts @ [a])) (map_of (th_entries (throttle_step a u)) k)"
  proof (cases "fails_of k [a] = []")
    case True
    then show ?thesis using other_key_step [OF w True room] IH(3) entry_after_settings [OF IH(1)] by (simp add: fails_of_snoc)
  next
    case False
    then obtain r now where a: "a = TFail r now" "throttleKey r = k" by (auto simp: fails_of_def split: throttle_op.splits if_splits)
    have len: "int (length (fails_of k acts)) < max_int64"
      using fails_of_length [of k acts] snoc.prems(2) by (simp add: maxTrackedIPs_def max_int64_def)
    have ge: "\<forall>f\<in>set (fails_of k acts). t0 \<le> f" using fails_of_window [of t k t0 acts] snoc.prems(1) by simp
    have "entry_after u k (fails_of k acts @ [now]) (map_of (th_entries (throttle_step (TFail r now) u)) k)"
      by (rule own_key_step [OF _ _ _ assms(4,5) _ a(2) room len ge])
        (use assms(1-3) IH w a entry_after_settings [OF IH(1)] in \<open>simp_all add: settings_def\<close>)
    then show ?thesis using a by (simp add: fails_of_snoc fails_of_def)
  qed
  then show ?case
    using step_length [OF w room] IH window_settings [OF w] entry_after_settings [OF IH(1)] by (simp add: u_def)
qed


section \<open>Examples\<close>

definition wit_lib :: authlib where
  "wit_lib = \<lparr>al_VerifyPassword = (\<lambda>p h. p = h), al_HashPassword = (\<lambda>p _. Inr p), al_keyMatches = (\<lambda>entry key. entry = key),
     al_hasSpecial = (\<lambda>_. True), al_ldap = None\<rparr>"

definition wit_engine :: engine where
  "wit_engine = NewEngine ''bcrypt'' 2 100"

definition wit_account :: user where
  "wit_account = (new_user ''Alice'')\<lparr>u_AuthorizedKeys := [''key''], u_FailedLogins := 1\<rparr>"

definition wit_users :: ustore where
  "wit_users = snd (user_Create ''u1'' 1 wit_account empty_store)"

lemma wit_users_reachable: "repo_step\<^sup>*\<^sup>* empty_store wit_users"
  unfolding wit_users_def by (rule r_into_rtranclp, rule repo_step.Create) (simp add: empty_store_def)

lemma trim_space_Nil: "trim_space [] = []"
  by (simp add: trim_space_def)

lemma wit_users_alice:
  "\<exists>u. wit_users = \<lparr>st_users = [(''u1'', u)], st_byName = [(''alice'', ''u1'')], st_groups = [], st_groupByName = []\<rparr>
    \<and> u_Username u = ''Alice'' \<and> u_ID u = ''u1'' \<and> u_AuthProvider u = ''local'' \<and> u_PasswordHash u = ''h'' \<and> u_AuthorizedKeys u = [''key'']
    \<and> u_Enabled u \<and> u_LockedUntil u = None \<and> u_ExpiresAt u = None \<and> u_FailedLogins u = 1 \<and> u_ExternalID u = []"
  by (simp add: wit_users_def user_Create_def userByNameTx_def create_defaults_def empty_store_def usernameIndexKey_def wit_trims Let_def
      put_user_def put_name_def wit_account_def new_user_def AuthProviderLocal_def trim_space_Nil)

lemma alice:
  obtains u where "GetByUsername wit_users ''ALICE'' = Some u" and "u_ID u = ''u1''" "u_AuthProvider u = ''local''" "u_PasswordHash u = ''h''"
    "u_AuthorizedKeys u = [''key'']" "u_FailedLogins u = 1" "u_ExternalID u = []" "\<And>now. ensureLoginAllowed now u = None"
proof -
  obtain u where u: "wit_users = \<lparr>st_users = [(''u1'', u)], st_byName = [(''alice'', ''u1'')], st_groups = [], st_groupByName = []\<rparr>"
    "u_ID u = ''u1''" "u_AuthProvider u = ''local''" "u_PasswordHash u = ''h''" "u_AuthorizedKeys u = [''key'']"
    "u_Enabled u" "u_LockedUntil u = None" "u_ExpiresAt u = None" "u_FailedLogins u = 1" "u_ExternalID u = []"
    using wit_users_alice by blast
  show thesis
  proof (rule that)
    show "GetByUsername wit_users ''ALICE'' = Some u"
      unfolding u(1) by (simp add: GetByUsername_def GetByID_def usernameIndexKey_def wit_trims Let_def)
    show "ensureLoginAllowed now u = None" for now using u(6-8) by (simp add: ensureLoginAllowed_def Expired_def)
  qed (use u in simp_all)
qed

lemma providers: "\<not> EqualFold ''local'' AuthProviderOIDC" "\<not> EqualFold (trim_space ''local'') AuthProviderLDAP" "\<not> EqualFold ''local'' ''oidc''"
proof -
  have "ToLower ''local'' = ''local'' \<and> ToLower ''oidc'' = ''oidc'' \<and> ToLower ''ldap'' = ''ldap''" by code_simp
  then show "\<not> EqualFold ''local'' AuthProviderOIDC" "\<not> EqualFold (trim_space ''local'') AuthProviderLDAP" "\<not> EqualFold ''local'' ''oidc''"
    by (simp_all add: EqualFold_def AuthProviderOIDC_def AuthProviderLDAP_def trim_space_plain plain_char_def)
qed

theorem brute_force_bounded_witness:
  "\<exists>k \<le> 1. guesses wit_lib wit_engine [] ''ALICE'' [(5, ''x''), (6, ''h'')] wit_users
     = replicate (min k 2) (Inl ErrInvalidCredentials) @ replicate (2 - k) (Inl ErrUserLocked)"
proof -
  obtain u where u: "GetByUsername wit_users ''ALICE'' = Some u" "u_AuthProvider u = ''local''" "u_PasswordHash u = ''h''" "u_FailedLogins u = 1"
    "\<And>now. ensureLoginAllowed now u = None" using alice by metis
  have e: "en_maxAttempts wit_engine = 2" "en_lockDuration wit_engine = 100" "\<not> en_lockoutDisabled wit_engine"
    by (simp_all add: wit_engine_def NewEngine_def)
  show ?thesis
    using brute_force_bounded [OF wit_users_reachable u(1), of wit_lib wit_engine "[(5, ''x''), (6, ''h'')]" 0 "[]"] u(2-5) e providers
    by (simp add: isLDAPUser_def wit_lib_def max_int64_def numeral_2_eq_2)
qed


theorem external_no_takeover_witness:
  "ProvisionExternalUser [] 5 \<lparr>ei_Provider = ''oidc'', ei_Subject = ''sub'', ei_Username = ''ALICE'', ei_Email = [], ei_Admin = Some True,
     ei_PrimaryGroup = [], ei_SecondaryGroups = [], ei_SyncGroups = True, ei_HomeDir = []\<rparr> True wit_users = (Inl ErrAccountConflict, wit_users)"
proof -
  obtain u where u: "GetByUsername wit_users ''ALICE'' = Some u" "u_AuthProvider u = ''local''" using alice by metis
  then show ?thesis
    using external_no_takeover [OF wit_users_reachable, of "\<lparr>ei_Provider = ''oidc'', ei_Subject = ''sub'', ei_Username = ''ALICE'', ei_Email = [],
       ei_Admin = Some True, ei_PrimaryGroup = [], ei_SecondaryGroups = [], ei_SyncGroups = True, ei_HomeDir = []\<rparr>" "[]" 5 True] providers(3)
    by simp
qed

theorem offered_key_resets_counter_witness:
  "\<exists>v. GetByUsername (snd (AuthenticatePublicKey wit_lib 5 ''ALICE'' ''key'' wit_users)) ''ALICE'' = Some v \<and> u_FailedLogins v = 0"
proof -
  obtain u where u: "GetByUsername wit_users ''ALICE'' = Some u" "u_AuthorizedKeys u = [''key'']" "\<And>now. ensureLoginAllowed now u = None"
    using alice by metis
  have "al_keyMatches wit_lib (trim_space ''key'') ''key''" by (simp add: wit_lib_def trim_space_plain plain_char_def)
  then show ?thesis using offered_key_resets_counter [OF wit_users_reachable u(1,3), of "''key''" wit_lib "''key''"] u(2) by auto
qed

definition wit_config :: throttleConfig where
  "wit_config = \<lparr>tc_Enabled = True, tc_Threshold = 2, tc_Duration = 100, tc_Whitelist = []\<rparr>"

definition wit_throttle :: throttle where
  "wit_throttle = \<lparr>th_enabled = True, th_threshold = 2, th_duration = 100, th_whitelist = None, th_entries = []\<rparr>"

lemma wit_throttle_new: "NewIPThrottle wit_config = Inr wit_throttle"
  by (simp add: NewIPThrottle_def Configure_def wit_config_def wit_throttle_def)

theorem throttle_table_bounded_witness:
  "length (th_entries (fold throttle_step [TFail ''10.0.0.1:1'' 5, TSuccess ''10.0.0.1:2''] wit_throttle)) \<le> 100000"
  using throttle_table_bounded [OF wit_throttle_new refl, of "[TFail ''10.0.0.1:1'' 5, TSuccess ''10.0.0.1:2'']"] by simp

lemma wit_addr: "ParseAddr ''10.0.0.1'' = Some (V4 0x0A000001) \<and> SplitHostPort ''10.0.0.1:1'' = Some ''10.0.0.1'' \<and> SplitHostPort ''10.0.0.1:2'' = Some ''10.0.0.1''"
  by code_simp

lemma wit_keys: "throttleKey ''10.0.0.1:1'' = show_v4 0x0A000001" "throttleKey ''10.0.0.1:2'' = show_v4 0x0A000001" "show_v4 0x0A000001 \<noteq> []"
  using wit_addr by (simp_all add: throttleKey_def remote_host_def strip_zone_def trim_space_plain plain_char_def Unmap_def)
    (simp add: show_v4_def)


end
