(* ===== verification/Session_Manager.thy ===== *)
theory Session_Manager
  imports Prelude
begin

text \<open>
  \<^verbatim>\<open>internal/session/manager.go\<close>: the table of live sessions and the per-protocol totals.  A function value (a session's
  terminator) is a number that identifies it; an operation returns the callbacks it runs, in order, beside its result.  The theorems show
  that a user's session cap is never exceeded, that the counters are exact, and that a terminator runs at most once per attachment.
\<close>

section \<open>State and operations\<close>

record session =
  ss_ID :: string
  ss_Username :: string
  ss_Protocol :: string
  ss_RemoteAddr :: string
  ss_StartedAt :: int
  ss_LastSeenAt :: int
  ss_terminate :: "nat option"

record sessions =
  sm_onChange :: bool
  sm_sessions :: "(string \<times> session) list"
  sm_totals :: "(string \<times> int) list"

datatype callback = Changed | Terminate nat

definition NewSessions :: sessions where
  "NewSessions = \<lparr>sm_onChange = False, sm_sessions = [], sm_totals = []\<rparr>"

definition changed :: "sessions \<Rightarrow> callback list" where
  "changed m = (if sm_onChange m then [Changed] else [])"

definition SetOnChange :: "bool \<Rightarrow> sessions \<Rightarrow> sessions" where
  "SetOnChange fn m = m\<lparr>sm_onChange := fn\<rparr>"

definition countLocked :: "sessions \<Rightarrow> string \<Rightarrow> nat" where
  "countLocked m username = length (filter (\<lambda>(_, s). ss_Username s = username) (sm_sessions m))"

definition CountUser :: "sessions \<Rightarrow> string \<Rightarrow> nat" where
  "CountUser m username = countLocked m username"

definition sess_total :: "sessions \<Rightarrow> string \<Rightarrow> int" where
  "sess_total m protocol = (case map_of (sm_totals m) protocol of None \<Rightarrow> 0 | Some n \<Rightarrow> n)"

definition StartLimited ::
    "string \<Rightarrow> int \<Rightarrow> string \<Rightarrow> string \<Rightarrow> string \<Rightarrow> int \<Rightarrow> sessions \<Rightarrow> (session option \<times> callback list) \<times> sessions" where
  "StartLimited ulid now username protocol remoteAddr maxPerUser m =
     (let s = \<lparr>ss_ID = ulid, ss_Username = username, ss_Protocol = protocol, ss_RemoteAddr = remoteAddr,
               ss_StartedAt = now, ss_LastSeenAt = now, ss_terminate = None\<rparr>
      in if maxPerUser > 0 \<and> int (countLocked m username) \<ge> maxPerUser then ((None, []), m)
         else
           let m1 = m\<lparr>sm_sessions := AList.update (ss_ID s) s (sm_sessions m),
                      sm_totals := AList.update protocol (wrap64 (sess_total m protocol + 1)) (sm_totals m)\<rparr>
           in ((Some s, changed m1), m1))"

definition sess_Start :: "string \<Rightarrow> int \<Rightarrow> string \<Rightarrow> string \<Rightarrow> string \<Rightarrow> sessions \<Rightarrow> (session option \<times> callback list) \<times> sessions" where
  "sess_Start ulid now username protocol remoteAddr m = StartLimited ulid now username protocol remoteAddr 0 m"

definition sess_End :: "string \<Rightarrow> sessions \<Rightarrow> callback list \<times> sessions" where
  "sess_End sid m =
     (let existed = (map_of (sm_sessions m) sid \<noteq> None);
          m1 = m\<lparr>sm_sessions := AList.delete sid (sm_sessions m)\<rparr>
      in (if existed then changed m1 else [], m1))"

definition touchGranularity :: int where
  "touchGranularity = 1000000000"

text \<open>\<^verbatim>\<open>Touch\<close> decides under the read lock and writes under the write lock; other calls may run in between.\<close>

definition touch_needed :: "int \<Rightarrow> string \<Rightarrow> sessions \<Rightarrow> bool" where
  "touch_needed now sid m =
     (if sid = [] then False
      else (case map_of (sm_sessions m) sid of
              None \<Rightarrow> False
            | Some s \<Rightarrow> \<not> time_sub now (ss_LastSeenAt s) < touchGranularity))"

definition touch_write :: "int \<Rightarrow> string \<Rightarrow> sessions \<Rightarrow> sessions" where
  "touch_write now sid m =
     (case map_of (sm_sessions m) sid of
        None \<Rightarrow> m
      | Some s \<Rightarrow> m\<lparr>sm_sessions := AList.update sid (s\<lparr>ss_LastSeenAt := now\<rparr>) (sm_sessions m)\<rparr>)"

definition Touch :: "int \<Rightarrow> string \<Rightarrow> sessions \<Rightarrow> sessions" where
  "Touch now sid m = (if touch_needed now sid m then touch_write now sid m else m)"

definition AttachTerminator :: "string \<Rightarrow> nat option \<Rightarrow> sessions \<Rightarrow> bool \<times> sessions" where
  "AttachTerminator sid fn m =
     (case fn of
        None \<Rightarrow> (False, m)
      | Some _ \<Rightarrow>
          (case map_of (sm_sessions m) sid of
             None \<Rightarrow> (False, m)
           | Some s \<Rightarrow> (True, m\<lparr>sm_sessions := AList.update sid (s\<lparr>ss_terminate := fn\<rparr>) (sm_sessions m)\<rparr>)))"

definition sess_Get :: "string \<Rightarrow> sessions \<Rightarrow> session option" where
  "sess_Get sid m = map_option (\<lambda>s. s\<lparr>ss_terminate := None\<rparr>) (map_of (sm_sessions m) sid)"

definition Kill :: "string \<Rightarrow> sessions \<Rightarrow> (bool \<times> callback list) \<times> sessions" where
  "Kill sid m =
     (case map_of (sm_sessions m) sid of
        None \<Rightarrow> ((False, []), m)
      | Some s \<Rightarrow>
          let m1 = m\<lparr>sm_sessions := AList.delete sid (sm_sessions m)\<rparr>
          in ((True, (case ss_terminate s of None \<Rightarrow> [] | Some f \<Rightarrow> [Terminate f]) @ changed m1), m1))"

definition sess_List :: "sessions \<Rightarrow> session list" where
  "sess_List m = map snd (sm_sessions m)"

definition add_active :: "(string \<times> session) \<Rightarrow> (string \<times> nat) list \<Rightarrow> (string \<times> nat) list" where
  "add_active p active =
     (let k = ss_Protocol (snd p)
      in AList.update k ((case map_of active k of None \<Rightarrow> 0 | Some n \<Rightarrow> n) + 1) active)"

definition ProtocolStats :: "sessions \<Rightarrow> (string \<times> nat) list \<times> (string \<times> int) list" where
  "ProtocolStats m = (fold add_active (sm_sessions m) [], sm_totals m)"

section \<open>Runs\<close>

text \<open>Any sequence of calls: the state they lead to, and the callbacks run on the way.\<close>

datatype sess_op =
    OStart string int string string string int
  | OEnd string | OTouch int string | OTouchWrite int string
  | OAttach string "nat option" | OKill string | OOnChange bool

fun sess_step :: "sess_op \<Rightarrow> sessions \<Rightarrow> callback list \<times> sessions" where
  "sess_step (OStart ulid now user proto addr cap) m =
     (case StartLimited ulid now user proto addr cap m of ((_, cs), m1) \<Rightarrow> (cs, m1))"
| "sess_step (OEnd sid) m = sess_End sid m"
| "sess_step (OTouch now sid) m = ([], Touch now sid m)"
| "sess_step (OTouchWrite now sid) m = ([], touch_write now sid m)"
| "sess_step (OAttach sid fn) m = ([], snd (AttachTerminator sid fn m))"
| "sess_step (OKill sid) m = (case Kill sid m of ((_, cs), m1) \<Rightarrow> (cs, m1))"
| "sess_step (OOnChange fn) m = ([], SetOnChange fn m)"

fun sess_run :: "sess_op list \<Rightarrow> sessions \<Rightarrow> callback list \<times> sessions" where
  "sess_run [] m = ([], m)"
| "sess_run (a # as) m = (case sess_step a m of (cs, m1) \<Rightarrow> case sess_run as m1 of (cs', m2) \<Rightarrow> (cs @ cs', m2))"

section \<open>What every call keeps\<close>

text \<open>The terminators that may still run: one per live session that has it attached.\<close>

definition pending :: "sessions \<Rightarrow> nat \<Rightarrow> nat" where
  "pending m f = length (filter (\<lambda>(_, s). ss_terminate s = Some f) (sm_sessions m))"

text \<open>Counting live sessions with a property, when one is written or removed.\<close>

lemma filter_update_length:
  "distinct (map fst xs) \<Longrightarrow>
   length (filter (\<lambda>(_, s). P s) (AList.update k v xs)) + (case map_of xs k of Some s \<Rightarrow> if P s then 1 else 0 | None \<Rightarrow> 0)
   = length (filter (\<lambda>(_, s). P s) xs) + (if P v then 1 else 0)"
proof (induction xs)
  case (Cons a xs)
  then show ?case by (cases a) (auto simp: map_of_eq_None_iff split: option.splits)
qed simp

lemma filter_delete_length:
  "distinct (map fst xs) \<Longrightarrow>
   length (filter (\<lambda>(_, s). P s) (AList.delete k xs)) + (case map_of xs k of Some s \<Rightarrow> if P s then 1 else 0 | None \<Rightarrow> 0)
   = length (filter (\<lambda>(_, s). P s) xs)"
proof (induction xs)
  case (Cons a xs)
  show ?case
  proof (cases "fst a = k")
    case True
    then have "map_of xs k = None" "AList.delete k xs = xs"
      using Cons.prems by (auto simp: map_of_eq_None_iff delete_filter filter_id_conv intro: rev_image_eqI)
    then show ?thesis using True by (cases a) simp
  next
    case False
    then show ?thesis using Cons by (cases a) auto
  qed
qed simp

definition live :: "(session \<Rightarrow> bool) \<Rightarrow> sessions \<Rightarrow> nat" where
  "live P m = length (filter (\<lambda>(_, s). P s) (sm_sessions m))"

lemma live_update:
  assumes "distinct (map fst (sm_sessions m))"
  shows "live P (m\<lparr>sm_sessions := AList.update k v (sm_sessions m)\<rparr>) + (case map_of (sm_sessions m) k of Some s \<Rightarrow> if P s then 1 else 0 | None \<Rightarrow> 0)
    = live P m + (if P v then 1 else 0)"
  using filter_update_length [OF assms, of P k v] by (simp add: live_def)

lemma live_delete:
  assumes "distinct (map fst (sm_sessions m))"
  shows "live P (m\<lparr>sm_sessions := AList.delete k (sm_sessions m)\<rparr>) + (case map_of (sm_sessions m) k of Some s \<Rightarrow> if P s then 1 else 0 | None \<Rightarrow> 0)
    = live P m"
  using filter_delete_length [OF assms, of P k] by (simp add: live_def)

lemma live_more [simp]: "live P (m\<lparr>sm_totals := x\<rparr>) = live P m" "live P (m\<lparr>sm_onChange := b\<rparr>) = live P m"
  by (simp_all add: live_def)

lemma counts_live: "countLocked m u = live (\<lambda>s. ss_Username s = u) m" "pending m f = live (\<lambda>s. ss_terminate s = Some f) m"
  by (simp_all add: countLocked_def pending_def live_def)

lemmas sess_defs = StartLimited_def sess_End_def Touch_def touch_write_def AttachTerminator_def Kill_def SetOnChange_def changed_def Let_def

lemma step_distinct: "distinct (map fst (sm_sessions m)) \<Longrightarrow> distinct (map fst (sm_sessions (snd (sess_step a m))))"
  by (cases a) (auto simp: sess_defs split: option.split)

lemma live_same:
  assumes "distinct (map fst (sm_sessions m))" and "map_of (sm_sessions m) k = Some s" and "P v = P s"
  shows "live P (m\<lparr>sm_sessions := AList.update k v (sm_sessions m)\<rparr>) = live P m"
  using live_update [OF assms(1), of P k v] assms(2,3) by (auto split: if_splits)

definition new_session :: "string \<Rightarrow> int \<Rightarrow> string \<Rightarrow> string \<Rightarrow> string \<Rightarrow> session" where
  "new_session ulid now user proto addr = \<lparr>ss_ID = ulid, ss_Username = user, ss_Protocol = proto, ss_RemoteAddr = addr,
     ss_StartedAt = now, ss_LastSeenAt = now, ss_terminate = None\<rparr>"

lemma StartLimited_cases:
  obtains (refused) "cap > 0" "int (countLocked m user) \<ge> cap" "StartLimited ulid now user proto addr cap m = ((None, []), m)"
  | (admitted) m1 where "\<not> (cap > 0 \<and> int (countLocked m user) \<ge> cap)"
      "StartLimited ulid now user proto addr cap m = ((Some (new_session ulid now user proto addr), changed m1), m1)"
      "m1 = m\<lparr>sm_sessions := AList.update ulid (new_session ulid now user proto addr) (sm_sessions m),
              sm_totals := AList.update proto (wrap64 (sess_total m proto + 1)) (sm_totals m)\<rparr>"
  by (cases "cap > 0 \<and> int (countLocked m user) \<ge> cap") (simp_all add: StartLimited_def new_session_def Let_def)

text \<open>Only an admitted start adds a live session with a property that touching and attaching do not change, and at most one.\<close>

lemma live_start:
  assumes "distinct (map fst (sm_sessions m))"
  shows "live P (snd (StartLimited ulid now user proto addr cap m)) \<le> live P m + (if P (new_session ulid now user proto addr) then 1 else 0)"
proof (cases rule: StartLimited_cases [of cap m user ulid now proto addr])
  case (admitted m1)
  then have "live P m1 = live P (m\<lparr>sm_sessions := AList.update ulid (new_session ulid now user proto addr) (sm_sessions m)\<rparr>)"
    by (simp add: live_def)
  then show ?thesis using live_update [OF assms, of P ulid "new_session ulid now user proto addr"] admitted(2) by simp
qed simp

lemma live_other:
  assumes "distinct (map fst (sm_sessions m))" and "\<And>s t. P (s\<lparr>ss_LastSeenAt := t\<rparr>) = P s" and "\<And>s x. P (s\<lparr>ss_terminate := x\<rparr>) = P s"
    and "\<And>ulid now user proto addr cap. a \<noteq> OStart ulid now user proto addr cap"
  shows "live P (snd (sess_step a m)) \<le> live P m"
proof -
  have touch: "live P (touch_write now sid m) = live P m" for now sid
    using live_same [OF assms(1), of sid _ P] assms(2) by (auto simp: touch_write_def split: option.split)
  have del: "live P (m\<lparr>sm_sessions := AList.delete k (sm_sessions m)\<rparr>) \<le> live P m" for k
    using live_delete [OF assms(1), of P k] by linarith
  show ?thesis
  proof (cases a)
    case (OAttach sid fn)
    then show ?thesis
      using live_same [OF assms(1), of sid _ P] assms(3) by (auto simp: AttachTerminator_def split: option.split)
  qed (use assms(4) touch del in \<open>auto simp: sess_End_def Kill_def Touch_def SetOnChange_def live_def Let_def split: option.split\<close>)
qed

section \<open>Caps, counters and terminators\<close>

lemma sess_run_induct:
  assumes "\<And>a m. a \<in> set ops \<Longrightarrow> I m \<Longrightarrow> I (snd (sess_step a m))" and "I m"
  shows "I (snd (sess_run ops m))"
  using assms
proof (induction ops arbitrary: m)
  case (Cons a ops)
  then have "I (snd (sess_run ops (snd (sess_step a m))))" by simp
  then show ?case by (auto split: prod.splits)
qed simp

lemma new_session_simps [simp]:
  "ss_Username (new_session ulid now user proto addr) = user" "ss_Protocol (new_session ulid now user proto addr) = proto"
  "ss_terminate (new_session ulid now user proto addr) = None"
  by (simp_all add: new_session_def)

lemma step_cap:
  assumes "distinct (map fst (sm_sessions m))" and "int (CountUser m user) \<le> M"
    and "case a of OStart _ _ v _ _ cap \<Rightarrow> v = user \<longrightarrow> 0 < cap \<and> cap \<le> M | _ \<Rightarrow> True"
  shows "int (CountUser (snd (sess_step a m)) user) \<le> M"
proof (cases a)
  case (OStart ulid now v proto addr cap)
  show ?thesis
  proof (cases rule: StartLimited_cases [of cap m v ulid now proto addr])
    case refused
    then show ?thesis using OStart assms(2) by simp
  next
    case (admitted m1)
    have "live (\<lambda>s. ss_Username s = user) m1 \<le> live (\<lambda>s. ss_Username s = user) m + (if v = user then 1 else 0)"
      using live_start [OF assms(1), of "\<lambda>s. ss_Username s = user" ulid now v proto addr cap] admitted(2) by simp
    then show ?thesis using OStart admitted(1,2) assms(2,3) by (auto simp: CountUser_def counts_live split: if_splits)
  qed
qed (use live_other [OF assms(1), of "\<lambda>s. ss_Username s = user" a] assms(2) in \<open>simp_all add: CountUser_def counts_live\<close>)

text \<open>C14. A user's session cap holds: if every start for a user asks for a cap of at most M, then no sequence of calls, however it interleaves
  starts, ends, kills and touches, leaves the user with more than M live sessions; and a start is refused exactly when the cap is reached,
  without changing anything.\<close>

theorem session_cap_holds:
  assumes "0 < M" and "list_all (\<lambda>a. case a of OStart _ _ v _ _ cap \<Rightarrow> v = user \<longrightarrow> 0 < cap \<and> cap \<le> M | _ \<Rightarrow> True) ops"
    and "sess_run ops NewSessions = (cs, m)"
  shows "int (CountUser m user) \<le> M
    \<and> (\<forall>ulid now proto addr. 0 < cap \<longrightarrow>
         (case StartLimited ulid now user proto addr cap m of ((r, cs'), m') \<Rightarrow> (r = None \<longleftrightarrow> int (CountUser m user) \<ge> cap) \<and> (r = None \<longrightarrow> m' = m)))"
proof -
  have "distinct (map fst (sm_sessions m)) \<and> int (CountUser m user) \<le> M"
    using sess_run_induct [of ops "\<lambda>m. distinct (map fst (sm_sessions m)) \<and> int (CountUser m user) \<le> M" NewSessions] assms step_cap step_distinct
    by (simp add: list_all_iff NewSessions_def CountUser_def countLocked_def)
  then show ?thesis by (auto simp: StartLimited_def CountUser_def Let_def)
qed

theorem session_cap_holds_witness:
  "int (CountUser (snd (sess_run [OStart ''a'' 1 ''bob'' ''sftp'' ''x'' 1, OStart ''b'' 2 ''bob'' ''ftp'' ''x'' 1] NewSessions)) ''bob'') \<le> 1"
  using session_cap_holds [of 1 "''bob''" "[OStart ''a'' 1 ''bob'' ''sftp'' ''x'' 1, OStart ''b'' 2 ''bob'' ''ftp'' ''x'' 1]" _ _ 1]
  by (simp add: split_def)

lemma step_terminate:
  assumes "distinct (map fst (sm_sessions m))"
  shows "count_list (fst (sess_step a m)) (Terminate f) + pending (snd (sess_step a m)) f
    \<le> pending m f + (case a of OAttach _ (Some g) \<Rightarrow> if g = f then 1 else 0 | _ \<Rightarrow> 0)"
proof -
  let ?P = "\<lambda>s. ss_terminate s = Some f"
  have touch: "live ?P (touch_write now sid m) = live ?P m" for now sid
    using live_same [OF assms, of sid _ ?P] by (auto simp: touch_write_def split: option.split)
  have ch: "count_list (changed m') (Terminate f) = 0" for m' by (simp add: changed_def)
  show ?thesis
  proof (cases a)
    case (OStart ulid now user proto addr cap)
    show ?thesis
      using live_start [OF assms, of ?P ulid now user proto addr cap] OStart ch
      by (cases rule: StartLimited_cases [of cap m user ulid now proto addr]) (simp_all add: counts_live)
  next
    case (OEnd sid)
    then show ?thesis
      using live_delete [OF assms, of ?P sid] ch by (simp add: sess_End_def counts_live Let_def)
  next
    case (OTouch now sid)
    then show ?thesis using touch by (simp add: Touch_def counts_live)
  next
    case (OTouchWrite now sid)
    then show ?thesis using touch by (simp add: counts_live)
  next
    case (OAttach sid fn)
    show ?thesis
    proof (cases "fn = None \<or> map_of (sm_sessions m) sid = None")
      case True
      then show ?thesis using OAttach by (auto simp: AttachTerminator_def split: option.split)
    next
      case False
      then obtain g s where "fn = Some g" "map_of (sm_sessions m) sid = Some s" by auto
      then show ?thesis
        using live_update [OF assms, of ?P sid "s\<lparr>ss_terminate := Some g\<rparr>"] OAttach
        by (auto simp: AttachTerminator_def counts_live)
    qed
  next
    case (OKill sid)
    show ?thesis
    proof (cases "map_of (sm_sessions m) sid")
      case None
      then show ?thesis using OKill by (simp add: Kill_def)
    next
      case (Some s)
      then show ?thesis
        using live_delete [OF assms, of ?P sid] OKill ch
        by (cases "ss_terminate s") (auto simp: Kill_def counts_live Let_def)
    qed
  next
    case (OOnChange b)
    then show ?thesis by (simp add: SetOnChange_def counts_live)
  qed
qed

lemma run_terminate:
  assumes "distinct (map fst (sm_sessions m))"
  shows "count_list (fst (sess_run ops m)) (Terminate f) + pending (snd (sess_run ops m)) f
    \<le> pending m f + length (filter (\<lambda>a. case a of OAttach _ (Some g) \<Rightarrow> g = f | _ \<Rightarrow> False) ops)"
  using assms
proof (induction ops arbitrary: m)
  case (Cons a ops)
  obtain cs m1 where st: "sess_step a m = (cs, m1)" by force
  have "distinct (map fst (sm_sessions m1))" using step_distinct [OF Cons.prems, of a] st by simp
  then show ?case
    using Cons.IH [of m1] step_terminate [OF Cons.prems, of a f] st
    by (cases "sess_run ops m1") (auto split: sess_op.splits option.splits if_splits)
qed simp

text \<open>A terminator never runs twice: over any sequence of calls, a terminator runs at most as often as it was attached, and what it may still
  run is counted too, so two racing kills of a session close its connection once; a killed session is gone, and killing it again does nothing.\<close>

theorem terminator_runs_once:
  assumes "sess_run ops NewSessions = (cs, m)"
  shows "count_list cs (Terminate f) + pending m f \<le> length (filter (\<lambda>a. case a of OAttach _ (Some g) \<Rightarrow> g = f | _ \<Rightarrow> False) ops)
    \<and> (case Kill sid m of ((ok, cs'), m') \<Rightarrow> sess_Get sid m' = None \<and> Kill sid m' = ((False, []), m') \<and> (ok \<longleftrightarrow> sess_Get sid m \<noteq> None))"
proof -
  have "pending NewSessions f = 0" by (simp add: pending_def NewSessions_def)
  then have "count_list cs (Terminate f) + pending m f \<le> length (filter (\<lambda>a. case a of OAttach _ (Some g) \<Rightarrow> g = f | _ \<Rightarrow> False) ops)"
    using run_terminate [of NewSessions ops f] assms by (simp add: NewSessions_def)
  then show ?thesis by (simp add: Kill_def sess_Get_def Let_def split: option.split)
qed

theorem terminator_runs_once_witness:
  "count_list (fst (sess_run [OStart ''a'' 1 ''bob'' ''ftp'' ''x'' 1, OAttach ''a'' (Some 7), OKill ''a'', OKill ''a''] NewSessions)) (Terminate 7) = 1"
proof -
  have "count_list (fst (sess_run [OStart ''a'' 1 ''bob'' ''ftp'' ''x'' 1, OAttach ''a'' (Some 7), OKill ''a'', OKill ''a''] NewSessions)) (Terminate 7) \<le> 1"
    using terminator_runs_once [OF prod.collapse [symmetric], of "[OStart ''a'' 1 ''bob'' ''ftp'' ''x'' 1, OAttach ''a'' (Some 7), OKill ''a'', OKill ''a'']" 7 "''a''"]
    by simp
  moreover have "Terminate 7 \<in> set (fst (sess_run [OStart ''a'' 1 ''bob'' ''ftp'' ''x'' 1, OAttach ''a'' (Some 7), OKill ''a'', OKill ''a''] NewSessions))"
    by code_simp
  ultimately show ?thesis by (metis count_list_0_iff le_antisym less_one not_le)
qed

definition starts_of :: "string \<Rightarrow> sess_op list \<Rightarrow> nat" where
  "starts_of p ops = length (filter (\<lambda>a. case a of OStart _ _ _ proto _ _ \<Rightarrow> proto = p | _ \<Rightarrow> False) ops)"

lemma total_other:
  "(\<And>ulid now user proto addr cap. a \<noteq> OStart ulid now user proto addr cap) \<Longrightarrow>
   sess_total (snd (sess_step a m)) p = sess_total m p \<and> starts_of p [a] = 0"
proof (cases a)
  case (OStart ulid now user proto addr cap)
  assume "\<And>ulid now user proto addr cap. a \<noteq> OStart ulid now user proto addr cap"
  then show ?thesis using OStart by blast
qed (auto simp: sess_defs sess_total_def starts_of_def split: option.split)

lemma step_total:
  assumes "distinct (map fst (sm_sessions m))" and "int (live (\<lambda>s. ss_Protocol s = p) m) \<le> sess_total m p" and "sess_total m p < max_int64"
  shows "int (live (\<lambda>s. ss_Protocol s = p) (snd (sess_step a m))) \<le> sess_total (snd (sess_step a m)) p
    \<and> sess_total (snd (sess_step a m)) p \<le> sess_total m p + int (starts_of p [a])"
proof (cases "\<exists>ulid now user proto addr cap. a = OStart ulid now user proto addr cap")
  case True
  then obtain ulid now user proto addr cap where a: "a = OStart ulid now user proto addr cap" by blast
  have w: "wrap64 (sess_total m p + 1) = sess_total m p + 1"
    using assms(2,3) by (intro wrap64_id in_int64_nonneg) (simp_all add: max_int64_def)
  show ?thesis
  proof (cases rule: StartLimited_cases [of cap m user ulid now proto addr])
    case refused
    then show ?thesis using a assms(2) by simp
  next
    case (admitted m1)
    then have "sess_total m1 p = sess_total m p + (if proto = p then 1 else 0)" using w by (simp add: sess_total_def)
    then show ?thesis
      using live_start [OF assms(1), of "\<lambda>s. ss_Protocol s = p" ulid now user proto addr cap] a admitted(2) assms(2)
      by (auto simp: starts_of_def split: if_splits)
  qed
next
  case False
  then have n: "\<And>ulid now user proto addr cap. a \<noteq> OStart ulid now user proto addr cap" by blast
  show ?thesis
    using live_other [OF assms(1), of "\<lambda>s. ss_Protocol s = p" a] total_other [OF n, of m p] n assms(2) by simp
qed

lemma run_total:
  assumes "distinct (map fst (sm_sessions m))" and "int (live (\<lambda>s. ss_Protocol s = p) m) \<le> sess_total m p"
    and "sess_total m p + int (starts_of p ops) \<le> max_int64"
  shows "int (live (\<lambda>s. ss_Protocol s = p) (snd (sess_run ops m))) \<le> sess_total (snd (sess_run ops m)) p
    \<and> sess_total (snd (sess_run ops m)) p \<le> sess_total m p + int (starts_of p ops)"
  using assms
proof (induction ops arbitrary: m)
  case (Cons a ops)
  obtain cs m1 where st: "sess_step a m = (cs, m1)" by force
  have split: "starts_of p (a # ops) = starts_of p [a] + starts_of p ops" by (simp add: starts_of_def)
  have "int (live (\<lambda>s. ss_Protocol s = p) m1) \<le> sess_total m1 p \<and> sess_total m1 p \<le> sess_total m p + int (starts_of p [a])"
  proof (cases "sess_total m p < max_int64")
    case True
    then show ?thesis using step_total [OF Cons.prems(1,2), of a] st by simp
  next
    case False
    then have "starts_of p [a] = 0" using Cons.prems(3) split by simp
    then show ?thesis
    proof (cases "\<exists>ulid now user proto addr cap. a = OStart ulid now user proto addr cap")
      case True
      then obtain ulid now user proto addr cap where a: "a = OStart ulid now user proto addr cap" by blast
      then have "proto \<noteq> p" using \<open>starts_of p [a] = 0\<close> by (auto simp: starts_of_def)
      then show ?thesis
        using live_start [OF Cons.prems(1), of "\<lambda>s. ss_Protocol s = p" ulid now user proto addr cap] Cons.prems(2) a st
        by (cases rule: StartLimited_cases [of cap m user ulid now proto addr]) (auto simp: sess_total_def)
    next
      case False
      then have n: "\<And>ulid now user proto addr cap. a \<noteq> OStart ulid now user proto addr cap" by blast
      show ?thesis
        using live_other [OF Cons.prems(1), of "\<lambda>s. ss_Protocol s = p" a] total_other [OF n, of m p] n Cons.prems(2) st by simp
    qed
  qed
  then show ?case
    using Cons.IH [of m1] step_distinct [OF Cons.prems(1), of a] Cons.prems(3) split st by (cases "sess_run ops m1") simp
qed (simp add: starts_of_def)

lemma add_active_fold:
  "map_of (fold add_active xs acc) p =
   (let n = length (filter (\<lambda>(_, s). ss_Protocol s = p) xs) in
    if n = 0 then map_of acc p else Some ((case map_of acc p of None \<Rightarrow> 0 | Some k \<Rightarrow> k) + n))"
proof (induction xs arbitrary: acc)
  case (Cons x xs)
  show ?case
    using Cons.IH [of "add_active x acc"] by (cases x) (auto simp: add_active_def Let_def)
qed simp

text \<open>The counters the server reports are exact: the active count of a protocol is the number of its live sessions (absent when there is none),
  and its total is at least that and at most the number of starts; no interleaving loses or doubles one.\<close>

theorem protocol_stats_exact:
  assumes "sess_run ops NewSessions = (cs, m)" and "int (starts_of p ops) \<le> max_int64"
  shows "map_of (fst (ProtocolStats m)) p = (let n = length (filter (\<lambda>s. ss_Protocol s = p) (sess_List m)) in if n = 0 then None else Some n)
    \<and> int (length (filter (\<lambda>s. ss_Protocol s = p) (sess_List m))) \<le> (case map_of (snd (ProtocolStats m)) p of None \<Rightarrow> 0 | Some n \<Rightarrow> n)
    \<and> (case map_of (snd (ProtocolStats m)) p of None \<Rightarrow> 0 | Some n \<Rightarrow> n) \<le> int (starts_of p ops)"
proof -
  have l: "length (filter (\<lambda>s. ss_Protocol s = p) (sess_List m)) = live (\<lambda>s. ss_Protocol s = p) m"
    by (simp add: sess_List_def live_def filter_map o_def split_def)
  have "int (live (\<lambda>s. ss_Protocol s = p) m) \<le> sess_total m p \<and> sess_total m p \<le> int (starts_of p ops)"
    using run_total [of NewSessions p ops] assms by (simp add: NewSessions_def live_def sess_total_def)
  moreover have "map_of (fst (ProtocolStats m)) p = (let n = live (\<lambda>s. ss_Protocol s = p) m in if n = 0 then None else Some n)"
    using add_active_fold [of "sm_sessions m" "[]" p] by (simp add: ProtocolStats_def live_def Let_def)
  ultimately show ?thesis by (simp add: l ProtocolStats_def sess_total_def)
qed

theorem protocol_stats_exact_witness:
  "map_of (fst (ProtocolStats (snd (sess_run [OStart ''a'' 1 ''bob'' ''ftp'' ''x'' 1, OEnd ''a''] NewSessions)))) ''ftp'' = None"
proof -
  have "sess_List (snd (sess_run [OStart ''a'' 1 ''bob'' ''ftp'' ''x'' 1, OEnd ''a''] NewSessions)) = []" by code_simp
  then show ?thesis
    using protocol_stats_exact [OF prod.collapse [symmetric], of "''ftp''" "[OStart ''a'' 1 ''bob'' ''ftp'' ''x'' 1, OEnd ''a'']"]
    by (simp add: starts_of_def max_int64_def)
qed

end
