(* ===== verification/Ftp_Text.thy ===== *)
theory Ftp_Text
  imports Netguard Login
begin

text \<open>
  The text handling of \<^verbatim>\<open>internal/protocol/ftp/server.go\<close> and \<^verbatim>\<open>extra_commands.go\<close>: control lines, commands, paths,
  virtual host names, the addresses of data connections, port ranges, replies and time stamps.  The
  functions of Go's \<^verbatim>\<open>strings\<close>, \<^verbatim>\<open>strconv\<close>, \<^verbatim>\<open>net\<close>, \<^verbatim>\<open>bufio\<close> and \<^verbatim>\<open>time\<close> that the code calls are defined with it.
\<close>

section \<open>Library functions\<close>

text \<open>
  \<^verbatim>\<open>strings.ToUpper\<close>.  The two letters beyond ASCII whose upper case is an ASCII letter are the dotless i (\<^verbatim>\<open>C4 B1\<close>) and the
  long s (\<^verbatim>\<open>C5 BF\<close>); other bytes beyond ASCII are left as they are.
\<close>

definition upper_char :: "char \<Rightarrow> char" where
  "upper_char c = (if CHR ''a'' \<le> c \<and> c \<le> CHR ''z'' then char_of (of_char c - 32 :: nat) else c)"

fun ToUpper :: "string \<Rightarrow> string" where
  "ToUpper [] = []"
| "ToUpper [c] = [upper_char c]"
| "ToUpper (c # d # s) =
     (if c = CHR 0xC4 \<and> d = CHR 0xB1 then CHR ''I'' # ToUpper s
      else if c = CHR 0xC5 \<and> d = CHR 0xBF then CHR ''S'' # ToUpper s
      else upper_char c # ToUpper (d # s))"

text \<open>\<^verbatim>\<open>strings.SplitN(s, sep, 2)\<close>: the text before the first separator and, when there is one, the text after it.\<close>

definition cut_at :: "char \<Rightarrow> string \<Rightarrow> string \<times> string option" where
  "cut_at c s = (takeWhile (\<lambda>x. x \<noteq> c) s, case dropWhile (\<lambda>x. x \<noteq> c) s of [] \<Rightarrow> None | _ # r \<Rightarrow> Some r)"

text \<open>\<^verbatim>\<open>strings.Fields\<close>; one more round than the string has bytes is enough fuel.\<close>

definition flush_field :: "string \<Rightarrow> string list" where
  "flush_field w = (if w = [] then [] else [w])"

fun fields_fuel :: "nat \<Rightarrow> string \<Rightarrow> string \<Rightarrow> string list" where
  "fields_fuel 0 w s = flush_field w"
| "fields_fuel (Suc n) w s =
     (case s of
        [] \<Rightarrow> flush_field w
      | c # cs \<Rightarrow>
          (case find (\<lambda>r. prefix r s) space_runes of
             Some r \<Rightarrow> flush_field w @ fields_fuel n [] (drop (length r) s)
           | None \<Rightarrow> fields_fuel n (w @ [c]) cs))"

definition Fields :: "string \<Rightarrow> string list" where
  "Fields s = fields_fuel (Suc (length s)) [] s"

text \<open>\<^verbatim>\<open>strings.Trim(s, cutset)\<close> and \<^verbatim>\<open>strings.TrimRight\<close>.\<close>

definition trim_right_chars :: "char list \<Rightarrow> string \<Rightarrow> string" where
  "trim_right_chars cs s = rev (dropWhile (\<lambda>c. c \<in> set cs) (rev s))"

definition trim_chars :: "char list \<Rightarrow> string \<Rightarrow> string" where
  "trim_chars cs s = trim_right_chars cs (dropWhile (\<lambda>c. c \<in> set cs) s)"

text \<open>
  \<^verbatim>\<open>strconv.Atoi\<close> and \<^verbatim>\<open>strconv.ParseInt(s, 10, 64)\<close>: the value returned, and whether there was no error.  A value out
  of range is the nearest one in range, a malformed one is 0.
\<close>

definition is_digit :: "char \<Rightarrow> bool" where
  "is_digit c \<longleftrightarrow> CHR ''0'' \<le> c \<and> c \<le> CHR ''9''"

definition decimal :: "string \<Rightarrow> int" where
  "decimal s = from_digits 10 (map digit_value s)"

definition Atoi :: "string \<Rightarrow> int \<times> bool" where
  "Atoi s =
     (let neg = (s \<noteq> [] \<and> hd s = CHR ''-''); ds = (if s \<noteq> [] \<and> hd s \<in> {CHR ''-'', CHR ''+''} then tl s else s) in
      if ds = [] \<or> \<not> list_all is_digit ds then (0, False)
      else let v = (if neg then - decimal ds else decimal ds) in
        if v > max_int64 then (max_int64, False)
        else if v < - max_int64 - 1 then (- max_int64 - 1, False)
        else (v, True))"

text \<open>\<^verbatim>\<open>strconv.ParseUint(s, 8, 32)\<close>, \<open>None\<close> for an error.\<close>

definition ParseOctal32 :: "string \<Rightarrow> int option" where
  "ParseOctal32 s =
     (if s = [] \<or> \<not> list_all (\<lambda>c. CHR ''0'' \<le> c \<and> c \<le> CHR ''7'') s then None
      else let v = from_digits 8 (map digit_value s) in if v \<ge> 2 ^ 32 then None else Some v)"

text \<open>
  \<^verbatim>\<open>net.ParseIP\<close>: no zone; an IPv4 address and its 4-in-6 form are the same address, so it is kept unmapped.  \<^verbatim>\<open>IP.To4\<close> is not
  nil exactly for a \<^term>\<open>V4\<close> here, \<^verbatim>\<open>IP.Equal\<close> is equality and \<^verbatim>\<open>IP.String\<close> prints the unmapped address.
\<close>

definition ParseIP :: "string \<Rightarrow> addr option" where
  "ParseIP s = (if CHR ''%'' \<in> set s then None else map_option Unmap (ParseAddr s))"

definition JoinHostPort :: "string \<Rightarrow> string \<Rightarrow> string" where
  "JoinHostPort host port =
     (if CHR '':'' \<in> set host then ''['' @ host @ '']:'' @ port else host @ '':'' @ port)"

text \<open>The port \<^verbatim>\<open>net.SplitHostPort\<close> returns beside the host.\<close>

definition split_port :: "string \<Rightarrow> string" where
  "split_port hp = (case last_index_byte CHR '':'' hp of None \<Rightarrow> [] | Some i \<Rightarrow> drop (i + 1) hp)"

section \<open>Control lines\<close>

definition maxControlLineBytes :: nat where
  "maxControlLineBytes = 65536"

text \<open>The buffer of \<^verbatim>\<open>bufio.NewReader\<close>; \<^verbatim>\<open>ReadSlice\<close> returns up to the newline, or a full buffer without one.\<close>

definition bufferSize :: nat where
  "bufferSize = 4096"

text \<open>
  One line of a capped reader (\<open>what\<close> names it in the error): the bytes still to come are \<open>s\<close>, which ends where the connection does (\<open>e\<close> is the error it ends with).
  Returns the line with its newline and the bytes after it.
\<close>

function control_line :: "string \<Rightarrow> goerr \<Rightarrow> bytes \<Rightarrow> bytes \<Rightarrow> (goerr + bytes) \<times> bytes" where
  "control_line what e buf s =
     (let chunk = take bufferSize s in
      if CHR 0x0A \<in> set chunk then
        let l = takeWhile (\<lambda>c. c \<noteq> CHR 0x0A) chunk @ [CHR 0x0A] in (Inr (buf @ l), drop (length l) s)
      else if length chunk < bufferSize then (Inl e, [])
      else if length (buf @ chunk) > maxControlLineBytes
        then (Inl (ErrMsg (what @ '' line exceeds '' @ show_int (int maxControlLineBytes) @ '' bytes'')), drop bufferSize s)
      else control_line what e (buf @ chunk) (drop bufferSize s))"
  by pat_completeness auto

termination
  by (relation "measure (\<lambda>(what, e, buf, s). length s)") (auto simp: bufferSize_def)

declare control_line.simps [simp del]

definition readControlLine :: "goerr \<Rightarrow> bytes \<Rightarrow> (goerr + bytes) \<times> bytes" where
  "readControlLine e s = control_line ''control'' e [] s"

definition stripTelnet :: "string \<Rightarrow> string" where
  "stripTelnet line = dropWhile (\<lambda>c. c \<in> {CHR 0xFF, CHR 0xF4, CHR 0xF2}) line"

definition splitCommand :: "string \<Rightarrow> string \<times> string" where
  "splitCommand line =
     (case cut_at CHR '' '' line of
        (a, None) \<Rightarrow> (ToUpper (trim_space a), [])
      | (a, Some b) \<Rightarrow> (ToUpper (trim_space a), trim_space b))"

definition isAbortCommand :: "bytes \<Rightarrow> bool" where
  "isAbortCommand line \<longleftrightarrow> fst (splitCommand (trim_space (stripTelnet line))) = ''ABOR''"

definition legacyAliases :: "(string \<times> string) list" where
  "legacyAliases = [(''XPWD'', ''PWD''), (''XCWD'', ''CWD''), (''XCUP'', ''CDUP''), (''XMKD'', ''MKD''), (''XRMD'', ''RMD'')]"

section \<open>Paths and names\<close>

definition resolvePath :: "string \<Rightarrow> string \<Rightarrow> string" where
  "resolvePath cwd arg = (if prefix ''/'' arg then path_clean arg else path_join [''/'', cwd, arg])"

definition stripListFlags :: "string \<Rightarrow> string" where
  "stripListFlags arg = join_with '' '' (dropWhile (\<lambda>f. prefix ''-'' f) (Fields arg))"

definition host_char :: "char \<Rightarrow> bool" where
  "host_char c \<longleftrightarrow> c = CHR ''-'' \<or> c = CHR ''.'' \<or> c = CHR '':'' \<or> (CHR ''a'' \<le> c \<and> c \<le> CHR ''z'') \<or> is_digit c"

definition normalizeHostName :: "string \<Rightarrow> string" where
  "normalizeHostName raw =
     (let name = trim_suffix '']'' (trim_prefix ''['' (ToLower (trim_suffix ''.'' (trim_space raw)))) in
      if name = [] \<or> length name > 253 then []
      else if list_all host_char name then name else [])"

section \<open>Data connection addresses\<close>

definition hostFromAddr :: "string \<Rightarrow> string" where
  "hostFromAddr addr0 =
     (let addr = trim_space addr0 in
      if addr = [] then []
      else (case SplitHostPort addr of
              None \<Rightarrow> trim_chars ''[]'' addr
            | Some host \<Rightarrow> trim_chars ''[]'' host))"

definition hostsEqual :: "string \<Rightarrow> string \<Rightarrow> bool" where
  "hostsEqual a b =
     (case (ParseIP a, ParseIP b) of
        (Some ipA, Some ipB) \<Rightarrow> ipA = ipB
      | _ \<Rightarrow> EqualFold a b)"

definition port_field :: "string \<Rightarrow> int option" where
  "port_field p = (case Atoi (trim_space p) of (n, ok) \<Rightarrow> if \<not> ok \<or> n < 0 \<or> n > 255 then None else Some n)"

definition parsePORTArg :: "string \<Rightarrow> string res" where
  "parsePORTArg arg =
     (let parts = split_on CHR '','' (trim_space arg) in
      if length parts \<noteq> 6 then Inl (ErrMsg ''PORT needs 6 fields'')
      else if None \<in> set (map port_field parts) then Inl (ErrMsg ''PORT field out of range'')
      else
        let nums = map (the \<circ> port_field) parts in
        Inr (JoinHostPort (show_addr (V4 (word_of_int (from_digits 256 (take 4 nums)))))
               (show_int (nums ! 4 * 256 + nums ! 5))))"

definition eprt_family :: "string \<Rightarrow> addr \<Rightarrow> string \<Rightarrow> goerr option" where
  "eprt_family proto ip field =
     (if proto = ''1'' then (case ip of V4 _ \<Rightarrow> None | V6 _ \<Rightarrow> Some (ErrMsg ''EPRT protocol/address mismatch''))
      else if proto = ''2'' then
        (case ip of V4 _ \<Rightarrow> if CHR '':'' \<in> set field then None else Some (ErrMsg ''EPRT protocol/address mismatch'') | V6 _ \<Rightarrow> None)
      else Some (ErrMsg ''EPRT unsupported protocol''))"

definition split_byte :: "string \<Rightarrow> string list" where
  "split_byte arg = split_on (hd arg) arg"

definition parseEPRTArg :: "string \<Rightarrow> string res" where
  "parseEPRTArg arg0 =
     (let arg = trim_space arg0 in
      if length arg < 7 then Inl (ErrMsg ''EPRT too short'')
      else
        let fields = split_byte arg in
        if length fields \<noteq> 5 \<or> fields ! 0 \<noteq> [] \<or> fields ! 4 \<noteq> [] then Inl (ErrMsg ''EPRT malformed'')
        else (case ParseIP (fields ! 2) of
                None \<Rightarrow> Inl (ErrMsg ''EPRT bad address'')
              | Some ip \<Rightarrow>
                  (case eprt_family (fields ! 1) ip (fields ! 2) of
                     Some e \<Rightarrow> Inl e
                   | None \<Rightarrow>
                       (case Atoi (fields ! 3) of (port, ok) \<Rightarrow>
                          if \<not> ok \<or> port < 1 \<or> port > 65535 then Inl (ErrMsg ''EPRT bad port'')
                          else Inr (JoinHostPort (show_addr ip) (show_int port))))))"

text \<open>The reason to refuse an active target, empty when it is accepted.\<close>

definition validateActiveTarget :: "string \<Rightarrow> string \<Rightarrow> string" where
  "validateActiveTarget target controlRemote =
     (case SplitHostPort target of
        None \<Rightarrow> ''malformed target''
      | Some host \<Rightarrow>
          if fst (Atoi (split_port target)) < 1024 then ''privileged port''
          else
            let controlHost = hostFromAddr controlRemote in
            if controlHost = [] \<or> \<not> hostsEqual controlHost host then ''address differs from control connection''
            else [])"

definition parsePortRange :: "string \<Rightarrow> (int \<times> int) res" where
  "parsePortRange raw =
     (case cut_at CHR ''-'' raw of
        (_, None) \<Rightarrow> Inl (ErrMsg ''invalid range'')
      | (a, Some b) \<Rightarrow>
          (case (Atoi (trim_space a), Atoi (trim_space b)) of
             ((lo, ok1), (hi, ok2)) \<Rightarrow>
               if \<not> ok1 \<or> \<not> ok2 then Inl (ErrMsg ''strconv.Atoi'')
               else if lo < 1024 \<or> hi > 65535 \<or> lo > hi then Inl (ErrMsg ''invalid range bounds'')
               else Inr (lo, hi)))"

section \<open>Replies\<close>

definition CRLF :: string where
  "CRLF = [CHR 0x0D, CHR 0x0A]"

definition reply_line :: "nat \<Rightarrow> string \<Rightarrow> bytes" where
  "reply_line code msg = show_int (int code) @ '' '' @ msg @ CRLF"

text \<open>The writes of \<^verbatim>\<open>writeMultiline\<close>; the only element of a one-element list is both the opening and the closing line.\<close>

definition multiline :: "nat \<Rightarrow> string list \<Rightarrow> bytes list" where
  "multiline code lns =
     (if lns = [] then [reply_line code []]
      else [show_int (int code) @ ''-'' @ trim_space (hd lns) @ CRLF]
           @ map (\<lambda>l. '' '' @ trim_space l @ CRLF) (butlast (tl lns))
           @ [show_int (int code) @ '' '' @ trim_space (last lns) @ CRLF])"

section \<open>Time stamps\<close>

text \<open>
  The layout \<^verbatim>\<open>20060102150405\<close> in UTC.  A day number counts from 1 January 1970 of the proleptic Gregorian calendar; years start in
  March in the two conversions, so that the leap day comes last.
\<close>

definition nanos :: int where
  "nanos = 1000000000"

definition civil_of_days :: "int \<Rightarrow> int \<times> int \<times> int" where
  "civil_of_days z0 =
     (let z = z0 + 719468; era = z div 146097; doe = z mod 146097;
          yoe = (doe - doe div 1460 + doe div 36524 - doe div 146096) div 365;
          doy = doe - (365 * yoe + yoe div 4 - yoe div 100);
          mp = (5 * doy + 2) div 153;
          d = doy - (153 * mp + 2) div 5 + 1;
          m = (if mp < 10 then mp + 3 else mp - 9)
      in (yoe + era * 400 + (if m \<le> 2 then 1 else 0), m, d))"

definition days_of_civil :: "int \<Rightarrow> int \<Rightarrow> int \<Rightarrow> int" where
  "days_of_civil y0 m d =
     (let y = (if m \<le> 2 then y0 - 1 else y0); era = y div 400; yoe = y mod 400;
          mp = (if m > 2 then m - 3 else m + 9);
          doy = (153 * mp + 2) div 5 + d - 1;
          doe = yoe * 365 + yoe div 4 - yoe div 100 + doy
      in era * 146097 + doe - 719468)"

definition pad_int :: "nat \<Rightarrow> int \<Rightarrow> string" where
  "pad_int w n =
     (let ds = show_int (abs n) in (if n < 0 then ''-'' else []) @ replicate (w - length ds) CHR ''0'' @ ds)"

definition format_stamp :: "int \<Rightarrow> string" where
  "format_stamp t =
     (let secs = t div nanos; sod = secs mod 86400 in
      case civil_of_days (secs div 86400) of
        (y, m, d) \<Rightarrow> pad_int 4 y @ pad_int 2 m @ pad_int 2 d @ pad_int 2 (sod div 3600) @ pad_int 2 (sod mod 3600 div 60) @ pad_int 2 (sod mod 60))"

definition leap_year :: "int \<Rightarrow> bool" where
  "leap_year y \<longleftrightarrow> y mod 4 = 0 \<and> (y mod 100 \<noteq> 0 \<or> y mod 400 = 0)"

definition days_in :: "int \<Rightarrow> int \<Rightarrow> int" where
  "days_in m y = (if m = 2 then if leap_year y then 29 else 28 else if m \<in> {4, 6, 9, 11} then 30 else 31)"

text \<open>
  \<^verbatim>\<open>time.Parse\<close> also takes a fraction of a second that the layout does not have; its first nine digits count.
\<close>

definition stamp_fraction :: "string \<Rightarrow> int \<times> string" where
  "stamp_fraction s =
     (if length s \<ge> 2 \<and> hd s \<in> {CHR ''.'', CHR '',''} \<and> is_digit (s ! 1) then
        let ds = takeWhile is_digit (tl s); used = take 9 ds
        in (decimal used * 10 ^ (9 - length used), drop (length ds + 1) s)
      else (0, s))"

definition ParseStamp :: "string \<Rightarrow> int option" where
  "ParseStamp s =
     (if length s < 14 \<or> \<not> list_all is_digit (take 14 s) then None
      else
        let y = decimal (take 4 s); m = decimal (take 2 (drop 4 s)); d = decimal (take 2 (drop 6 s));
            h = decimal (take 2 (drop 8 s)); mi = decimal (take 2 (drop 10 s)); sec = decimal (take 2 (drop 12 s))
        in (case stamp_fraction (drop 14 s) of (ns, rest) \<Rightarrow>
              if m < 1 \<or> m > 12 \<or> h > 23 \<or> mi > 59 \<or> sec > 59 \<or> rest \<noteq> [] \<or> d < 1 \<or> d > days_in m y then None
              else Some ((days_of_civil y m d * 86400 + h * 3600 + mi * 60 + sec) * nanos + ns)))"

end
