(* ===== verification/Ftp_Server.thy ===== *)
theory Ftp_Server
  imports Ftp_Text Session_Manager Sftp_Handler
begin

text \<open>
  The FTP server of \<^verbatim>\<open>internal/protocol/ftp\<close>: the state of a control connection, one function per command, the loop over
  the lines a client sends, and the admission of connections.  What the other components hold (accounts, throttle, sessions,
  transfers, the audit log, the storage) is \<open>shared\<close>; other connections may change it between two commands.  The outside world
  is an argument of each command: the time, the ports that can be bound, the peers of data connections and what they
  send and take, an \<^verbatim>\<open>ABOR\<close> during the transfer, the outcome of a TLS handshake.  The control connection takes everything written
  to it; \<open>f_out\<close> lists the writes, \<open>f_data\<close> the bytes sent over each data connection and whether it was encrypted.
  A panic (or a loop that does not end) of the layers below is kept in \<open>f_stopped\<close> and nothing of the command runs after it.
\<close>

section \<open>Configuration and environment\<close>

record virtualHost =
  vh_Banner :: string
  vh_AllowedGroups :: "string list"

record ftpConfig =
  cf_ListenAddr :: string
  cf_Port :: int
  cf_Banner :: string
  cf_PassivePortRange :: string
  cf_PassiveIP :: string
  cf_IdleTimeout :: int
  cf_TransferTimeout :: int
  cf_FTPSMode :: string
  cf_FTPSImplicitPort :: int
  cf_TLS :: bool
  cf_ActiveMode :: bool
  cf_IPFilter :: "ipFilter option"
  cf_MaxConnections :: int
  cf_VirtualHosts :: "(string \<times> virtualHost) list"

text \<open>The defaults of \<^verbatim>\<open>NewServer\<close>.\<close>

definition NewServer :: "ftpConfig \<Rightarrow> ftpConfig" where
  "NewServer c =
     c\<lparr>cf_ListenAddr := (if cf_ListenAddr c = [] then ''0.0.0.0'' else cf_ListenAddr c),
       cf_Port := (if cf_Port c = 0 then 2121 else cf_Port c),
       cf_Banner := (if cf_Banner c = [] then ''Welcome to Kervan File Server'' else cf_Banner c),
       cf_PassivePortRange := (if cf_PassivePortRange c = [] then ''50000-50100'' else cf_PassivePortRange c),
       cf_IdleTimeout := (if cf_IdleTimeout c \<le> 0 then 300 * nanos else cf_IdleTimeout c),
       cf_TransferTimeout := (if cf_TransferTimeout c \<le> 0 then 3600 * nanos else cf_TransferTimeout c),
       cf_FTPSMode := (if cf_FTPSMode c = [] then ''explicit'' else cf_FTPSMode c),
       cf_FTPSImplicitPort := (if cf_FTPSImplicitPort c = 0 then 990 else cf_FTPSImplicitPort c)\<rparr>"

definition ftpsExplicitEnabled :: "ftpConfig \<Rightarrow> bool" where
  "ftpsExplicitEnabled c \<longleftrightarrow> cf_TLS c \<and> ToLower (cf_FTPSMode c) \<in> {''explicit'', ''both''}"

definition ftpsImplicitEnabled :: "ftpConfig \<Rightarrow> bool" where
  "ftpsImplicitEnabled c \<longleftrightarrow> cf_TLS c \<and> ToLower (cf_FTPSMode c) \<in> {''implicit'', ''both''}"

text \<open>
  The peer of a data connection: its address, what each read of the copy loop got and how the stream ended (\<open>None\<close> is
  the end of file), how many bytes writes get through before one fails (\<open>None\<close>: all of them), the outcome of the TLS
  handshake that is forced before the close, and of the close.
\<close>

record dataconn =
  dc_remote :: string
  dc_chunks :: "bytes list"
  dc_readErr :: "goerr option"
  dc_room :: "nat option"
  dc_hsErr :: "goerr option"
  dc_closeErr :: "goerr option"

text \<open>
  What a command meets: \<open>o_listen p\<close> is the address of the listener when port \<open>p\<close> can be bound, \<open>o_dial\<close> the
  connection a dial returns, \<open>o_accepts\<close> the peers that connect to the passive listener before its deadline.
\<close>

record outside =
  o_now :: int
  o_listen :: "int \<Rightarrow> string option"
  o_dial :: "string \<Rightarrow> dataconn option"
  o_accepts :: "dataconn list"
  o_abort :: bool
  o_handshake :: bool
  o_sni :: string

record 'w ftpEnv =
  fe_cfg :: ftpConfig
  fe_auth :: authlib
  fe_engine :: engine
  fe_buildFS :: "user \<Rightarrow> 'w \<Rightarrow> 'w filesystem res \<times> 'w"
  fe_release :: "'w filesystem \<Rightarrow> 'w \<Rightarrow> 'w"
  fe_ulid :: "nat \<Rightarrow> string"
  fe_listTime :: "int \<Rightarrow> string"
  fe_connID :: nat
  fe_implicitTLS :: bool
  fe_fuel :: nat

section \<open>State\<close>

record 'w shared =
  f_world :: 'w
  f_users :: ustore
  f_throttle :: throttle
  f_sessions :: sessions
  f_xfer :: "manager option"
  f_audit :: "audit_event list option"
  f_ulids :: nat

text \<open>\<^verbatim>\<open>connState\<close>; a passive listener is the text of its address.\<close>

record 'w ftp = "'w shared" +
  c_username :: string
  c_user :: "user option"
  c_session :: "session option"
  c_cwd :: string
  c_fs :: "'w filesystem option"
  c_rnfr :: string
  c_passiveLn :: "string option"
  c_activeAddr :: string
  c_restOffset :: int
  c_ftpType :: string
  c_vhost :: string
  c_passiveIP :: string
  c_remoteAddr :: string
  c_secureControl :: bool
  c_pbszSet :: bool
  c_dataProtPrivate :: bool
  f_out :: "bytes list"
  f_data :: "(bool \<times> bytes) list"
  f_ended :: bool
  f_stopped :: "goerr option"

type_synonym 'w command = "'w ftp \<Rightarrow> 'w ftp"

section \<open>Replies, audit, storage\<close>

definition writeReply :: "nat \<Rightarrow> string \<Rightarrow> 'w command" where
  "writeReply code msg s = s\<lparr>f_out := f_out s @ [reply_line code msg]\<rparr>"

definition writeMultiline :: "nat \<Rightarrow> string list \<Rightarrow> 'w command" where
  "writeMultiline code lns s = s\<lparr>f_out := f_out s @ multiline code lns\<rparr>"

definition emit_event :: "string \<Rightarrow> string \<Rightarrow> string \<Rightarrow> string \<Rightarrow> string \<Rightarrow> (string \<times> string) list \<Rightarrow> 'w command" where
  "emit_event ty user p status msg meta s =
     s\<lparr>f_audit := map_option (\<lambda>es. es @ [\<lparr>ev_Type = ty, ev_Username = user, ev_Protocol = ''ftp'', ev_Path = p,
          ev_IP = c_remoteAddr s, ev_Status = status, ev_Message = msg, ev_Meta = meta\<rparr>]) (f_audit s)\<rparr>"

definition emitAudit :: "string \<Rightarrow> string \<Rightarrow> string \<Rightarrow> string \<Rightarrow> string \<Rightarrow> 'w command" where
  "emitAudit ty user p status msg s = emit_event ty user p status msg [] s"

text \<open>\<^verbatim>\<open>isAuthed\<close>: the rest of the command runs with the user and the file system, or is refused.\<close>

definition authed :: "('w filesystem \<Rightarrow> user \<Rightarrow> 'w command) \<Rightarrow> 'w command" where
  "authed k s =
     (case c_user s of
        None \<Rightarrow> writeReply 530 ''Please login with USER and PASS.'' s
      | Some u \<Rightarrow>
          (case c_fs s of
             None \<Rightarrow> writeReply 530 ''Please login with USER and PASS.'' s
           | Some fsys \<Rightarrow> k fsys u s))"

text \<open>A call into the storage, with what follows an error and what follows a result.\<close>

definition on_storage :: "('w \<Rightarrow> 'a res \<times> 'w) \<Rightarrow> (goerr \<Rightarrow> 'w command) \<Rightarrow> ('a \<Rightarrow> 'w command) \<Rightarrow> 'w command" where
  "on_storage op bad good s =
     (case op (f_world s) of
        (Inl e, w) \<Rightarrow> if stops e then s\<lparr>f_world := w, f_stopped := Some e\<rparr> else bad e (s\<lparr>f_world := w\<rparr>)
      | (Inr x, w) \<Rightarrow> good x (s\<lparr>f_world := w\<rparr>))"

definition as_res :: "goerr option \<times> 'w \<Rightarrow> unit res \<times> 'w" where
  "as_res r = (case r of (None, w) \<Rightarrow> (Inr (), w) | (Some e, w) \<Rightarrow> (Inl e, w))"

definition stat_call :: "'w filesystem \<Rightarrow> string \<Rightarrow> 'w \<Rightarrow> fileinfo res \<times> 'w" where
  "stat_call fsys p w = (fs_stat fsys p w, w)"

definition cleanupConnState :: "'w command" where
  "cleanupConnState s =
     s\<lparr>c_activeAddr := [], c_passiveLn := None,
       f_sessions := (case c_session s of None \<Rightarrow> f_sessions s | Some ss \<Rightarrow> snd (sess_End (ss_ID ss) (f_sessions s))),
       c_session := None\<rparr>"

definition hang_up :: "'w command" where
  "hang_up s = (cleanupConnState s)\<lparr>f_ended := True\<rparr>"

definition release_fs :: "'w ftpEnv \<Rightarrow> 'w command" where
  "release_fs env s =
     (case c_fs s of None \<Rightarrow> s | Some fsys \<Rightarrow> s\<lparr>f_world := fe_release env fsys (f_world s)\<rparr>)"

section \<open>Virtual hosts and login\<close>

definition adoptSNIHost :: "'w ftpEnv \<Rightarrow> outside \<Rightarrow> 'w command" where
  "adoptSNIHost env out s =
     (if c_vhost s \<noteq> [] \<or> cf_VirtualHosts (fe_cfg env) = [] then s
      else
        let name = normalizeHostName (o_sni out) in
        if map_of (cf_VirtualHosts (fe_cfg env)) name \<noteq> None then s\<lparr>c_vhost := name\<rparr> else s)"

definition vhostAllows :: "ftpConfig \<Rightarrow> string \<Rightarrow> user \<Rightarrow> bool" where
  "vhostAllows cfg vhost user =
     (case map_of (cf_VirtualHosts cfg) vhost of
        None \<Rightarrow> True
      | Some vh \<Rightarrow>
          if vh_AllowedGroups vh = [] then True
          else list_ex (\<lambda>allowed. EqualFold (u_PrimaryGroup user) allowed
                  \<or> list_ex (\<lambda>g. EqualFold g allowed) (u_SecondaryGrps user)) (vh_AllowedGroups vh))"

definition cmd_HOST :: "'w ftpEnv \<Rightarrow> string \<Rightarrow> 'w command" where
  "cmd_HOST env arg s =
     (if c_user s \<noteq> None \<or> c_username s \<noteq> [] then writeReply 503 ''HOST must be sent before USER.'' s
      else
        let name = normalizeHostName arg in
        if name = [] then writeReply 501 ''Syntax error in host name.'' s
        else
          (case map_of (cf_VirtualHosts (fe_cfg env)) name of
             None \<Rightarrow>
               if cf_VirtualHosts (fe_cfg env) \<noteq> [] then writeReply 504 ''Unknown virtual host.'' s
               else writeReply 220 ''Host accepted.'' (s\<lparr>c_vhost := name\<rparr>)
           | Some vh \<Rightarrow>
               writeReply 220 (if vh_Banner vh \<noteq> [] then vh_Banner vh else ''Host accepted.'') (s\<lparr>c_vhost := name\<rparr>)))"

text \<open>\<^verbatim>\<open>err.Error()\<close> of the errors of package auth; an account name that needs no escapes is quoted as it is.\<close>

fun auth_text :: "autherr \<Rightarrow> string" where
  "auth_text ErrInvalidCredentials = ''invalid credentials''"
| "auth_text ErrUserDisabled = ''user disabled''"
| "auth_text ErrUserLocked = ''user temporarily locked''"
| "auth_text ErrAccountExpired = ''account expired''"
| "auth_text ErrIPNotAllowed = ''sign-in not allowed from this address''"
| "auth_text ErrProtocolNotAllowed = ''sign-in not allowed over this protocol''"
| "auth_text ErrTooManySessions = ''too many concurrent sessions''"
| "auth_text ErrIPBanned = ''too many failed logins from this address''"
| "auth_text ErrAccountConflict = ''username belongs to another account''"
| "auth_text ErrNotProvisioned = ''account is not provisioned''"
| "auth_text ErrPasswordNotManaged = ''password is managed by an external identity provider''"
| "auth_text ErrGroupNotFound = ''group not found''"
| "auth_text (ErrGroupInUse n name) = ''group has members''"
| "auth_text (ErrAlreadyExists name) = ''username '' @ [CHR 0x22] @ name @ [CHR 0x22] @ '' already exists''"
| "auth_text errLastLoginFresh = ''last-login time is already fresh''"
| "auth_text (AuthMsg m) = m"

text \<open>From the user's session on: end the connection's old session, start the new one within the user's cap.\<close>

definition end_old_session :: "'w ftpEnv \<Rightarrow> 'w command" where
  "end_old_session env s =
     (let s1 = (case c_session s of
                  None \<Rightarrow> s
                | Some ss \<Rightarrow> s\<lparr>f_sessions := snd (sess_End (ss_ID ss) (f_sessions s)), c_session := None\<rparr>)
      in (release_fs env s1)\<lparr>c_fs := None\<rparr>)"

definition open_session :: "'w ftpEnv \<Rightarrow> outside \<Rightarrow> user \<Rightarrow> 'w filesystem \<Rightarrow> 'w command" where
  "open_session env out user userFS s =
     (case StartLimited (fe_ulid env (f_ulids s)) (o_now out) (u_Username user) ''ftp'' (c_remoteAddr s) (u_MaxSessions user) (f_sessions s) of
        ((None, _), _) \<Rightarrow>
          emitAudit ''auth.failure'' (u_Username user) [] ''failed'' (auth_text ErrTooManySessions)
            (writeReply 530 ''Login not allowed: too many concurrent sessions.''
              (s\<lparr>f_ulids := Suc (f_ulids s), f_world := fe_release env userFS (f_world s), c_user := None, c_fs := None\<rparr>))
      | ((Some sess, _), m) \<Rightarrow>
          emitAudit ''auth.success'' (u_Username user) [] ''ok''
            (''login success'' @ (if c_vhost s \<noteq> [] then '' (host '' @ c_vhost s @ '')'' else []))
            (writeReply 230 ''User logged in, proceed.''
              (s\<lparr>f_ulids := Suc (f_ulids s), f_users := snd (RecordSuccessfulLogin (o_now out) (u_ID user) (f_users s)),
                 c_user := Some user, c_fs := Some userFS, c_cwd := ''/'', c_session := Some sess,
                 f_sessions := snd (AttachTerminator (ss_ID sess) (Some (fe_connID env)) m)\<rparr>)))"

definition login_user :: "'w ftpEnv \<Rightarrow> outside \<Rightarrow> user \<Rightarrow> 'w command" where
  "login_user env out user s =
     (if \<not> vhostAllows (fe_cfg env) (c_vhost s) user then
        emitAudit ''auth.failure'' (u_Username user) [] ''failed'' (''not permitted on virtual host '' @ c_vhost s)
          (writeReply 530 ''Login incorrect.'' s)
      else
        (case CheckAccess user (c_remoteAddr s) (o_now out) [if c_secureControl s then ProtocolFTPS else ProtocolFTP] of
           Some accessErr \<Rightarrow>
             emitAudit ''auth.failure'' (u_Username user) [] ''failed'' (auth_text accessErr)
               (writeReply 530 (''Login not allowed: '' @ auth_text accessErr @ ''.'') s)
         | None \<Rightarrow>
             on_storage (fe_buildFS env user)
               (\<lambda>_. writeReply 550 ''Unable to mount filesystem.'')
               (\<lambda>userFS s1. open_session env out user userFS (end_old_session env s1)) s))"

definition cmd_PASS :: "'w ftpEnv \<Rightarrow> outside \<Rightarrow> string \<Rightarrow> 'w command" where
  "cmd_PASS env out arg s =
     (if c_username s = [] then writeReply 503 ''Login with USER first.'' s
      else
        (case throttle_Check (f_throttle s) (c_remoteAddr s) (o_now out) of
           Some banErr \<Rightarrow>
             hang_up (emitAudit ''auth.failure'' (c_username s) [] ''failed'' (auth_text banErr)
               (writeReply 421 ''Too many failed logins, try again later.'' s))
         | None \<Rightarrow>
             (case authenticate (fe_auth env) (fe_engine env) (fe_ulid env (f_ulids s)) (o_now out) (c_username s) arg (f_users s) of
                (r, users) \<Rightarrow>
                  let s1 = s\<lparr>f_users := users, f_ulids := Suc (f_ulids s)\<rparr> in
                  (case r of
                     Inl authErr \<Rightarrow>
                       emitAudit ''auth.failure'' (c_username s) [] ''failed'' (auth_text authErr)
                         (writeReply 530 ''Login incorrect.''
                           (s1\<lparr>f_throttle := snd (RecordFailure (c_remoteAddr s) (o_now out) (f_throttle s))\<rparr>))
                   | Inr found \<Rightarrow>
                       let s2 = s1\<lparr>f_throttle := RecordSuccess (c_remoteAddr s) (f_throttle s)\<rparr> in
                       (case found of
                          None \<Rightarrow> s2\<lparr>f_stopped := Some GoPanic\<rparr>
                        | Some user \<Rightarrow> login_user env out user s2)))))"

end
