(* ===== verification/Ftp_Commands.thy ===== *)
theory Ftp_Commands
  imports Ftp_Server
begin

text \<open>
  The commands of \<^verbatim>\<open>handleConn\<close> after login (navigation, changes, metadata, data connections, listings, transfers) and those that
  need none, the dispatch of a line, a whole connection and its admission.
\<close>

section \<open>Navigation and changes\<close>

definition cmd_PWD :: "'w command" where
  "cmd_PWD = authed (\<lambda>_ _ s. writeReply 257 ([CHR 0x22] @ c_cwd s @ [CHR 0x22] @ '' is current directory.'') s)"

definition cmd_CWD :: "string \<Rightarrow> 'w command" where
  "cmd_CWD arg = authed (\<lambda>fsys _ s.
     let target = resolvePath (c_cwd s) arg in
     on_storage (stat_call fsys target)
       (\<lambda>_. writeReply 550 ''Failed to change directory.'')
       (\<lambda>info s1. if \<not> fi_isDir info then writeReply 550 ''Failed to change directory.'' s1
                  else writeReply 250 ''Directory changed.'' (s1\<lparr>c_cwd := target\<rparr>)) s)"

definition cmd_MKD :: "string \<Rightarrow> 'w command" where
  "cmd_MKD arg = authed (\<lambda>fsys u s.
     let p = resolvePath (c_cwd s) arg in
     on_storage (\<lambda>w. as_res (fs_mkdir fsys p 0x1ED w))
       (\<lambda>_. writeReply 550 ''Create directory failed.'')
       (\<lambda>_ s1. emitAudit ''dir.create'' (u_Username u) p ''ok'' ''mkdir''
                 (writeReply 257 ([CHR 0x22] @ p @ [CHR 0x22] @ '' created.'') s1)) s)"

definition cmd_RMD :: "string \<Rightarrow> 'w command" where
  "cmd_RMD arg = authed (\<lambda>fsys u s.
     let p = resolvePath (c_cwd s) arg in
     on_storage (\<lambda>w. as_res (fs_remove fsys p w))
       (\<lambda>_. writeReply 550 ''Remove directory failed.'')
       (\<lambda>_ s1. emitAudit ''dir.delete'' (u_Username u) p ''ok'' ''rmdir'' (writeReply 250 ''Directory removed.'' s1)) s)"

definition cmd_DELE :: "string \<Rightarrow> 'w command" where
  "cmd_DELE arg = authed (\<lambda>fsys u s.
     let p = resolvePath (c_cwd s) arg in
     on_storage (\<lambda>w. as_res (fs_remove fsys p w))
       (\<lambda>_. writeReply 550 ''Delete failed.'')
       (\<lambda>_ s1. emitAudit ''file.delete'' (u_Username u) p ''ok'' ''file deleted'' (writeReply 250 ''Delete successful.'' s1)) s)"

definition cmd_RNFR :: "string \<Rightarrow> 'w command" where
  "cmd_RNFR arg = authed (\<lambda>fsys _ s.
     let p = resolvePath (c_cwd s) arg in
     on_storage (stat_call fsys p)
       (\<lambda>_ s1. writeReply 550 ''File unavailable.'' (s1\<lparr>c_rnfr := []\<rparr>))
       (\<lambda>_. writeReply 350 ''Requested file action pending further information.'') (s\<lparr>c_rnfr := p\<rparr>))"

definition cmd_RNTO :: "string \<Rightarrow> 'w command" where
  "cmd_RNTO arg = authed (\<lambda>fsys u s.
     if c_rnfr s = [] then writeReply 503 ''Need RNFR first.'' s
     else
       let to = resolvePath (c_cwd s) arg in
       on_storage (\<lambda>w. as_res (fs_rename fsys (c_rnfr s) to w))
         (\<lambda>_. writeReply 550 ''Rename failed.'')
         (\<lambda>_ s1. writeReply 250 ''Rename successful.''
                   ((emit_event ''file.rename'' (u_Username u) (c_rnfr s1) ''ok'' ''rename'' [(''to'', to)] s1)\<lparr>c_rnfr := []\<rparr>)) s)"

definition cmd_SIZE :: "string \<Rightarrow> 'w command" where
  "cmd_SIZE arg = authed (\<lambda>fsys _ s.
     on_storage (stat_call fsys (resolvePath (c_cwd s) arg))
       (\<lambda>_. writeReply 550 ''File unavailable.'')
       (\<lambda>info s1. if fi_isDir info then writeReply 550 ''File unavailable.'' s1
                  else writeReply 213 (show_int (fi_size info)) s1) s)"

definition cmd_MDTM :: "string \<Rightarrow> 'w command" where
  "cmd_MDTM arg = authed (\<lambda>fsys _ s.
     on_storage (stat_call fsys (resolvePath (c_cwd s) arg))
       (\<lambda>_. writeReply 550 ''File unavailable.'')
       (\<lambda>info. writeReply 213 (format_stamp (fi_modTime info))) s)"

definition handleSite :: "string \<Rightarrow> 'w command" where
  "handleSite arg = authed (\<lambda>fsys _ s.
     case splitCommand arg of (sub, rest) \<Rightarrow>
       if sub = ''CHMOD'' then
         (case splitCommand rest of (modeStr, target) \<Rightarrow>
            (case ParseOctal32 modeStr of
               None \<Rightarrow> writeReply 501 ''Usage: SITE CHMOD <octal mode> <path>.'' s
             | Some mode \<Rightarrow>
                 if mode > 0xFFF \<or> trim_space target = [] then writeReply 501 ''Usage: SITE CHMOD <octal mode> <path>.'' s
                 else on_storage (\<lambda>w. as_res (fs_chmod fsys (resolvePath (c_cwd s) target) (word_of_int mode) w))
                        (\<lambda>_. writeReply 550 ''SITE CHMOD failed.'')
                        (\<lambda>_. writeReply 200 ''SITE CHMOD command successful.'') s))
       else if sub = ''HELP'' \<or> sub = [] then
         writeMultiline 214 [''The following SITE commands are recognized:'', ''CHMOD HELP'', ''End''] s
       else writeReply 504 ''SITE command not implemented.'' s)"

definition handleMFMT :: "string \<Rightarrow> 'w command" where
  "handleMFMT arg = authed (\<lambda>fsys _ s.
     case splitCommand arg of (stamp, target) \<Rightarrow>
       (case ParseStamp stamp of
          None \<Rightarrow> writeReply 501 ''Usage: MFMT <YYYYMMDDHHMMSS> <path>.'' s
        | Some mtime \<Rightarrow>
            if trim_space target = [] then writeReply 501 ''Usage: MFMT <YYYYMMDDHHMMSS> <path>.'' s
            else on_storage (\<lambda>w. as_res (fs_chtimes fsys (resolvePath (c_cwd s) target) mtime mtime w))
                   (\<lambda>_. writeReply 550 ''Could not set modification time.'')
                   (\<lambda>_. writeReply 213 (''Modify='' @ format_stamp mtime @ ''; '' @ target)) s))"

section \<open>Listings\<close>

definition pad_left :: "nat \<Rightarrow> string \<Rightarrow> string" where
  "pad_left n t = replicate (n - length t) CHR '' '' @ t"

definition formatLIST :: "(int \<Rightarrow> string) \<Rightarrow> fileinfo \<Rightarrow> string" where
  "formatLIST listTime fi =
     (if fi_isDir fi then ''drwxr-xr-x'' else ''-rw-r--r--'') @ '' 1 owner group '' @ pad_left 12 (show_int (fi_size fi))
       @ '' '' @ listTime (fi_modTime fi) @ '' '' @ fi_name fi"

definition facts :: "bool \<Rightarrow> fileinfo \<Rightarrow> string" where
  "facts isDir fi =
     ''type='' @ (if isDir then ''dir'' else ''file'') @ '';size='' @ show_int (fi_size fi) @ '';modify='' @ format_stamp (fi_modTime fi) @ ''; ''"

definition entry_line :: "(int \<Rightarrow> string) \<Rightarrow> string \<Rightarrow> 'w \<Rightarrow> 'w direntry \<Rightarrow> bytes option" where
  "entry_line listTime mode w de =
     (case de_info de w of
        Inl _ \<Rightarrow> None
      | Inr fi \<Rightarrow>
          Some ((if mode = ''NLST'' then de_name de w
                 else if mode = ''MLSD'' then facts (de_isDir de w) fi @ de_name de w
                 else formatLIST listTime fi) @ CRLF))"

text \<open>The writes of \<^verbatim>\<open>writeListing\<close>.\<close>

definition listing_lines :: "(int \<Rightarrow> string) \<Rightarrow> 'w filesystem \<Rightarrow> string \<Rightarrow> string \<Rightarrow> 'w \<Rightarrow> bytes list res" where
  "listing_lines listTime fsys target mode w =
     (let info = fs_stat fsys target w in
      if mode = ''MLST'' then
        map_sum (\<lambda>e. e) (\<lambda>fi. ['' '' @ facts (fi_isDir fi) fi @ target @ CRLF]) info
      else
        (case info of
           Inr fi \<Rightarrow>
             if \<not> fi_isDir fi then
               Inr [(if mode = ''NLST'' then fi_name fi
                     else if mode = ''MLSD'' then facts False fi @ fi_name fi
                     else formatLIST listTime fi) @ CRLF]
             else map_sum (\<lambda>e. e) (List.map_filter (entry_line listTime mode w)) (fs_readDir fsys target w)
         | Inl _ \<Rightarrow> map_sum (\<lambda>e. e) (List.map_filter (entry_line listTime mode w)) (fs_readDir fsys target w)))"

text \<open>Writing to a connection that takes \<open>room\<close> more bytes: what gets through, and whether every write succeeded.\<close>

fun write_lines :: "nat option \<Rightarrow> bytes list \<Rightarrow> bytes \<times> bool" where
  "write_lines room [] = ([], True)"
| "write_lines room (l # ls) =
     (case room of
        None \<Rightarrow> (case write_lines None ls of (bs, ok) \<Rightarrow> (l @ bs, ok))
      | Some n \<Rightarrow>
          if length l \<le> n then (case write_lines (Some (n - length l)) ls of (bs, ok) \<Rightarrow> (l @ bs, ok))
          else (take n l, False))"

section \<open>Data connections\<close>

definition enterPassiveMode :: "'w ftpEnv \<Rightarrow> outside \<Rightarrow> 'w ftp \<Rightarrow> goerr option \<times> 'w ftp" where
  "enterPassiveMode env out s0 =
     (let s = s0\<lparr>c_activeAddr := [], c_passiveLn := None\<rparr> in
      case parsePortRange (cf_PassivePortRange (fe_cfg env)) of
        Inl e \<Rightarrow> (Some e, s)
      | Inr (lo, hi) \<Rightarrow>
          (case find (\<lambda>p. o_listen out p \<noteq> None) [lo..hi] of
             None \<Rightarrow> (Some (ErrMsg ''no passive port available''), s)
           | Some p \<Rightarrow> (None, s\<lparr>c_passiveLn := o_listen out p\<rparr>)))"

text \<open>The host the \<^verbatim>\<open>PASV\<close> reply names.\<close>

definition pasv_host :: "string \<Rightarrow> string \<Rightarrow> string" where
  "pasv_host passiveIP addr =
     (let host = (case SplitHostPort addr of None \<Rightarrow> [] | Some h \<Rightarrow> h) in
      if passiveIP \<noteq> [] then passiveIP
      else (case ParseIP host of Some (V4 w) \<Rightarrow> show_v4 w | _ \<Rightarrow> host))"

definition addr_port :: "string \<Rightarrow> string" where
  "addr_port addr = (case SplitHostPort addr of None \<Rightarrow> [] | Some _ \<Rightarrow> split_port addr)"

definition pasv_text :: "string list \<Rightarrow> int \<Rightarrow> string" where
  "pasv_text h p = join_with '','' (h @ [show_int (p div 256), show_int (p mod 256)])"

definition cmd_PASV :: "'w ftpEnv \<Rightarrow> outside \<Rightarrow> 'w command" where
  "cmd_PASV env out = authed (\<lambda>_ _ s.
     case enterPassiveMode env out s of
       (Some _, s1) \<Rightarrow> writeReply 425 ''Can't open passive connection.'' s1
     | (None, s1) \<Rightarrow>
         let addr = the (c_passiveLn s1); h = split_on CHR ''.'' (pasv_host (c_passiveIP s1) addr) in
         if length h \<noteq> 4 then writeReply 425 ''Passive address is not IPv4.'' s1
         else writeReply 227 (''Entering Passive Mode ('' @ pasv_text h (fst (Atoi (addr_port addr))) @ '').'') s1)"

definition cmd_EPSV :: "'w ftpEnv \<Rightarrow> outside \<Rightarrow> string \<Rightarrow> 'w command" where
  "cmd_EPSV env out arg = authed (\<lambda>_ _ s.
     let proto = trim_space arg in
     if EqualFold proto ''ALL'' then writeReply 200 ''EPSV ALL ok.'' s
     else if proto \<notin> {[], ''1'', ''2''} then writeReply 522 ''Network protocol not supported, use (1,2)'' s
     else
       (case enterPassiveMode env out s of
          (Some _, s1) \<Rightarrow> writeReply 425 ''Can't open passive connection.'' s1
        | (None, s1) \<Rightarrow>
            writeReply 229 (''Entering Extended Passive Mode (|||'' @ addr_port (the (c_passiveLn s1)) @ ''|)'') s1))"

definition cmd_PORT :: "'w ftpEnv \<Rightarrow> string \<Rightarrow> string \<Rightarrow> 'w command" where
  "cmd_PORT env cmd arg = authed (\<lambda>_ _ s.
     if \<not> cf_ActiveMode (fe_cfg env) then writeReply 502 ''Active mode is disabled; use PASV or EPSV.'' s
     else
       (case (if cmd = ''PORT'' then parsePORTArg arg else parseEPRTArg arg) of
          Inl _ \<Rightarrow> writeReply 501 ''Syntax error in parameters.'' s
        | Inr target \<Rightarrow>
            if validateActiveTarget target (c_remoteAddr s) \<noteq> [] then writeReply 504 ''Illegal PORT/EPRT target.'' s
            else writeReply 200 (cmd @ '' command successful.'') (s\<lparr>c_passiveLn := None, c_activeAddr := target\<rparr>)))"

text \<open>\<^verbatim>\<open>wrapDataConn\<close>: whether TLS is used on a data connection.\<close>

definition wrapDataConn :: "'w ftpEnv \<Rightarrow> 'w ftp \<Rightarrow> bool" where
  "wrapDataConn env s \<longleftrightarrow> c_secureControl s \<and> c_dataProtPrivate s \<and> cf_TLS (fe_cfg env)"

definition expected_peer :: "string \<Rightarrow> dataconn \<Rightarrow> bool" where
  "expected_peer controlHost dc \<longleftrightarrow>
     \<not> (controlHost \<noteq> [] \<and> hostFromAddr (dc_remote dc) \<noteq> [] \<and> \<not> hostsEqual controlHost (hostFromAddr (dc_remote dc)))"

definition acceptDataConn :: "outside \<Rightarrow> 'w ftp \<Rightarrow> dataconn option \<times> 'w ftp" where
  "acceptDataConn out s =
     (if c_activeAddr s \<noteq> [] then (o_dial out (c_activeAddr s), s\<lparr>c_activeAddr := []\<rparr>)
      else (case c_passiveLn s of
              None \<Rightarrow> (None, s)
            | Some _ \<Rightarrow> (find (expected_peer (hostFromAddr (c_remoteAddr s))) (o_accepts out), s\<lparr>c_passiveLn := None\<rparr>)))"

definition with_data :: "outside \<Rightarrow> (dataconn \<Rightarrow> 'w command) \<Rightarrow> 'w command" where
  "with_data out k s =
     (case acceptDataConn out s of
        (None, s1) \<Rightarrow> writeReply 425 ''Use PASV, EPSV or PORT first.'' s1
      | (Some dc, s1) \<Rightarrow> k dc s1)"

text \<open>The handshake that is completed before the close of an encrypted connection.\<close>

definition late_handshake :: "bool \<Rightarrow> dataconn \<Rightarrow> goerr option \<Rightarrow> goerr option" where
  "late_handshake private dc err = (if private \<and> err = None then dc_hsErr dc else err)"

definition first_error :: "goerr option \<Rightarrow> goerr option \<Rightarrow> goerr option" where
  "first_error a b = (if a = None then b else a)"

definition write_failed :: goerr where
  "write_failed = ErrMsg ''write failed''"

definition cmd_LIST :: "'w ftpEnv \<Rightarrow> outside \<Rightarrow> string \<Rightarrow> string \<Rightarrow> 'w command" where
  "cmd_LIST env out cmd arg = authed (\<lambda>fsys _ s.
     let pathArg = stripListFlags arg; target = (if pathArg \<noteq> [] then resolvePath (c_cwd s) pathArg else c_cwd s) in
     with_data out (\<lambda>dc s1.
       let private = wrapDataConn env s1; s2 = writeReply 150 ''Opening data connection.'' s1 in
       case (case listing_lines (fe_listTime env) fsys target cmd (f_world s2) of
               Inl e \<Rightarrow> ([], Some e)
             | Inr ls \<Rightarrow> (case write_lines (dc_room dc) ls of (bs, ok) \<Rightarrow> (bs, if ok then None else Some write_failed))) of
         (sent, err) \<Rightarrow>
           let s3 = s2\<lparr>f_data := f_data s2 @ [(private, sent)]\<rparr> in
           if late_handshake private dc err \<noteq> None then writeReply 550 ''Listing failed.'' s3
           else writeReply 226 ''Transfer complete.'' s3) s)"

definition cmd_MLST :: "'w ftpEnv \<Rightarrow> string \<Rightarrow> 'w command" where
  "cmd_MLST env arg = authed (\<lambda>fsys _ s.
     let target = (if trim_space arg \<noteq> [] then resolvePath (c_cwd s) arg else c_cwd s) in
     case listing_lines (fe_listTime env) fsys target ''MLST'' (f_world s) of
       Inl _ \<Rightarrow> writeReply 550 ''Listing failed.'' s
     | Inr ls \<Rightarrow> s\<lparr>f_out := f_out s @ [''250-Listing '' @ target @ CRLF, concat ls, ''250 End'' @ CRLF]\<rparr>)"

section \<open>Transfers\<close>

text \<open>The buffer of \<^verbatim>\<open>io.Copy\<close>.\<close>

definition copyBuffer :: nat where
  "copyBuffer = 32768"

text \<open>\<^verbatim>\<open>io.Copy(dc, f)\<close>: the bytes the connection took and the error; \<open>fuel\<close> bounds the rounds.\<close>

fun copy_out :: "nat \<Rightarrow> 'w vfile \<Rightarrow> nat option \<Rightarrow> bytes \<Rightarrow> 'w \<Rightarrow> (bytes \<times> goerr option) \<times> 'w" where
  "copy_out 0 f room sent w = ((sent, Some NoFuel), w)"
| "copy_out (Suc k) f room sent w =
     (case f_read f copyBuffer w of
        ((bs, er), w1) \<Rightarrow>
          let took = (case room of None \<Rightarrow> bs | Some r \<Rightarrow> take r bs) in
          if length took < length bs then ((sent @ took, Some write_failed), w1)
          else (case er of
                  None \<Rightarrow> copy_out k f (map_option (\<lambda>r. r - length bs) room) (sent @ bs) w1
                | Some EOF \<Rightarrow> ((sent @ bs, None), w1)
                | Some e \<Rightarrow> ((sent @ bs, Some e), w1)))"

text \<open>\<^verbatim>\<open>io.Copy(f, dc)\<close> over what the reads returned: the bytes written and the error.\<close>

fun copy_in :: "'w vfile \<Rightarrow> bytes list \<Rightarrow> goerr option \<Rightarrow> int \<Rightarrow> 'w \<Rightarrow> (int \<times> goerr option) \<times> 'w" where
  "copy_in f [] rerr n w = ((n, rerr), w)"
| "copy_in f (p # ps) rerr n w =
     (if p = [] then copy_in f ps rerr n w
      else (case f_write f p w of
              ((nw0, ew), w1) \<Rightarrow>
                let nw = (if nw0 > length p then 0 else nw0) in
                if ew \<noteq> None then ((n + int nw, ew), w1)
                else if nw0 > length p then ((n, Some (ErrMsg ''invalid write result'')), w1)
                else if nw \<noteq> length p then ((n + int nw, Some (ErrMsg ''short write'')), w1)
                else copy_in f ps rerr (n + int nw) w1))"

definition start_xfer :: "'w ftpEnv \<Rightarrow> outside \<Rightarrow> user \<Rightarrow> string \<Rightarrow> direction \<Rightarrow> int \<Rightarrow> 'w ftp \<Rightarrow> string \<times> 'w ftp" where
  "start_xfer env out u p dir n s =
     (case f_xfer s of
        None \<Rightarrow> ([], s)
      | Some m \<Rightarrow>
          (case Start (fe_ulid env (f_ulids s)) (o_now out) (u_Username u) ''ftp'' p dir n m of
             (tid, m') \<Rightarrow> (tid, s\<lparr>f_xfer := Some m', f_ulids := Suc (f_ulids s)\<rparr>)))"

text \<open>The transfer record is closed, the reply sent and the outcome audited.\<close>

definition endTransfer ::
    "outside \<Rightarrow> user \<Rightarrow> string \<Rightarrow> string \<Rightarrow> string \<Rightarrow> string \<Rightarrow> int \<Rightarrow> goerr option \<Rightarrow> 'w command" where
  "endTransfer out u tid ty p msg n err0 s =
     (let aborted = o_abort out;
          err = (if aborted \<and> err0 = None then Some (ErrMsg ''transfer aborted by client'') else err0);
          status = (if err = None then ''ok'' else if aborted then ''aborted'' else ''failed'');
          s1 = (if tid = [] then s
                else s\<lparr>f_xfer := map_option (\<lambda>m.
                   (case err of
                      Some e \<Rightarrow> End (o_now out) tid StatusFailed (err_text e) (AddBytes tid n m)
                    | None \<Rightarrow> End (o_now out) tid StatusCompleted [] (AddBytes tid n m))) (f_xfer s)\<rparr>);
          s2 = (if err = None then writeReply 226 ''Transfer complete.'' s1
                else if aborted then writeReply 226 ''ABOR command successful.'' (writeReply 426 ''Transfer aborted.'' s1)
                else writeReply 426 ''Transfer aborted.'' s1)
      in emit_event ty (u_Username u) p status msg [(''bytes'', show_int n)] s2)"

text \<open>\<^verbatim>\<open>f.Close()\<close> where the result is dropped.\<close>

definition close_file :: "'w vfile \<Rightarrow> 'w command \<Rightarrow> 'w command" where
  "close_file f k = on_storage (\<lambda>w. as_res (f_close f w)) (\<lambda>_. k) (\<lambda>_. k)"

definition cmd_REST :: "string \<Rightarrow> 'w command" where
  "cmd_REST arg = authed (\<lambda>_ _ s.
     case Atoi (trim_space arg) of (offset, ok) \<Rightarrow>
       if \<not> ok \<or> offset < 0 then writeReply 501 ''Invalid restart marker.'' s
       else writeReply 350 (''Restarting at '' @ show_int offset @ ''. Send STOR or RETR.'') (s\<lparr>c_restOffset := offset\<rparr>))"

text \<open>The download proper: the file is at the restart marker, \<open>n\<close> bytes are announced.\<close>

definition send_file :: "'w ftpEnv \<Rightarrow> outside \<Rightarrow> user \<Rightarrow> string \<Rightarrow> dataconn \<Rightarrow> 'w vfile \<Rightarrow> int \<Rightarrow> 'w command" where
  "send_file env out u p dc f n s =
     (case start_xfer env out u p DirectionDownload n s of (tid, s0) \<Rightarrow>
        let private = wrapDataConn env s0; s1 = writeReply 150 ''Opening binary mode data connection.'' s0 in
        case copy_out (fe_fuel env) f (dc_room dc) [] (f_world s1) of
          ((sent, err0), w) \<Rightarrow>
            let s2 = s1\<lparr>f_world := w, f_data := f_data s1 @ [(private, sent)]\<rparr> in
            if (case err0 of Some e \<Rightarrow> stops e | None \<Rightarrow> False) then s2\<lparr>f_stopped := err0\<rparr>
            else
              let err1 = late_handshake private dc err0;
                  finish = (\<lambda>cErr. endTransfer out u tid ''file.read'' p ''download'' (int (length sent))
                              (first_error err1 (first_error cErr (dc_closeErr dc))))
              in on_storage (\<lambda>w. as_res (f_close f w)) (\<lambda>e. finish (Some e)) (\<lambda>_. finish None) s2)"

definition cmd_RETR :: "'w ftpEnv \<Rightarrow> outside \<Rightarrow> string \<Rightarrow> 'w command" where
  "cmd_RETR env out arg = authed (\<lambda>fsys u s.
     let p = resolvePath (c_cwd s) arg; offset = c_restOffset s in
     with_data out (\<lambda>dc.
       on_storage (fs_open fsys p O_RDONLY 0)
         (\<lambda>_. writeReply 550 ''File unavailable.'')
         (\<lambda>f s1.
           let n = (case f_stat f (f_world s1) of Inr info \<Rightarrow> fi_size info | Inl _ \<Rightarrow> 0) in
           if offset > 0 then
             if offset > n then close_file f (writeReply 554 ''Restart marker beyond end of file.'') s1
             else on_storage (f_seek f offset SeekStart)
                    (\<lambda>_. close_file f (writeReply 554 ''Cannot restart at the requested offset.''))
                    (\<lambda>_. send_file env out u p dc f (n - offset)) s1
           else send_file env out u p dc f n s1))
       (s\<lparr>c_restOffset := 0\<rparr>))"

text \<open>\<open>i\<close> runs from 1 to 1000; a candidate is tried before the next one is made.\<close>

fun unique_loop :: "'w filesystem \<Rightarrow> string \<Rightarrow> string \<Rightarrow> int list \<Rightarrow> string \<Rightarrow> 'w \<Rightarrow> string res" where
  "unique_loop fsys dir base [] candidate w = Inl (ErrMsg ''no unique name available'')"
| "unique_loop fsys dir base (i # is) candidate w =
     (case fs_stat fsys candidate w of
        Inl e \<Rightarrow> if e = ErrNotExist then Inr candidate else Inl e
      | Inr _ \<Rightarrow> unique_loop fsys dir base is (path_join [dir, base @ ''.'' @ show_int i]) w)"

definition uniqueName :: "'w filesystem \<Rightarrow> string \<Rightarrow> string \<Rightarrow> 'w \<Rightarrow> string res" where
  "uniqueName fsys dir hint w =
     (let b = path_base (trim_space hint);
          base = (if b = ''.'' \<or> b = ''/'' \<or> b = [] then ''upload'' else b)
      in unique_loop fsys dir base [1..1000] (path_join [dir, base]) w)"

definition store_flags :: "string \<Rightarrow> int \<Rightarrow> flags" where
  "store_flags cmd offset =
     (O_CREATE OR O_WRONLY) OR
       (if cmd = ''APPE'' then O_APPEND
        else if cmd = ''STOU'' then O_EXCL
        else if offset = 0 then O_TRUNC
        else 0)"

definition receive_file :: "'w ftpEnv \<Rightarrow> outside \<Rightarrow> string \<Rightarrow> user \<Rightarrow> string \<Rightarrow> dataconn \<Rightarrow> 'w vfile \<Rightarrow> 'w command" where
  "receive_file env out cmd u p dc f s =
     (case start_xfer env out u p DirectionUpload (- 1) s of (tid, s0) \<Rightarrow>
        let s1 = writeReply 150 (if cmd = ''STOU'' then ''FILE: '' @ path_base p else ''Ok to send data.'') s0;
            s2 = s1\<lparr>f_data := f_data s1 @ [(wrapDataConn env s1, [])]\<rparr>
        in case copy_in f (dc_chunks dc) (dc_readErr dc) 0 (f_world s2) of
             ((n, err0), w) \<Rightarrow>
               if (case err0 of Some e \<Rightarrow> stops e | None \<Rightarrow> False) then s2\<lparr>f_world := w, f_stopped := err0\<rparr>
               else
                 let finish = (\<lambda>cErr. endTransfer out u tid ''file.write'' p ''upload'' n
                                 (first_error err0 (first_error cErr (dc_closeErr dc))))
                 in on_storage (\<lambda>w. as_res (f_close f w)) (\<lambda>e. finish (Some e)) (\<lambda>_. finish None) (s2\<lparr>f_world := w\<rparr>))"

definition store_file :: "'w ftpEnv \<Rightarrow> outside \<Rightarrow> string \<Rightarrow> string \<Rightarrow> int \<Rightarrow> 'w filesystem \<Rightarrow> user \<Rightarrow> 'w command" where
  "store_file env out cmd p offset fsys u =
     with_data out (\<lambda>dc.
       on_storage (fs_open fsys p (store_flags cmd offset) 0x1A4)
         (\<lambda>_. writeReply 550 ''Cannot open target file.'')
         (\<lambda>f. if cmd = ''STOR'' \<and> offset > 0 then
                on_storage (f_seek f offset SeekStart)
                  (\<lambda>_. close_file f (writeReply 554 ''Cannot restart at the requested offset.''))
                  (\<lambda>_. receive_file env out cmd u p dc f)
              else receive_file env out cmd u p dc f))"

definition cmd_STOR :: "'w ftpEnv \<Rightarrow> outside \<Rightarrow> string \<Rightarrow> string \<Rightarrow> 'w command" where
  "cmd_STOR env out cmd arg = authed (\<lambda>fsys u s.
     let p = resolvePath (c_cwd s) arg; offset = c_restOffset s; s1 = s\<lparr>c_restOffset := 0\<rparr> in
     if cmd = ''STOU'' then
       (case uniqueName fsys (c_cwd s) arg (f_world s) of
          Inl _ \<Rightarrow> writeReply 450 ''Cannot pick a unique file name.'' s1
        | Inr unique \<Rightarrow> store_file env out cmd unique 0 fsys u s1)
     else store_file env out cmd p offset fsys u s1)"

section \<open>Protection of the connections\<close>

definition cmd_AUTH :: "'w ftpEnv \<Rightarrow> outside \<Rightarrow> string \<Rightarrow> 'w command" where
  "cmd_AUTH env out arg s =
     (if \<not> ftpsExplicitEnabled (fe_cfg env) then writeReply 502 ''TLS not configured.'' s
      else if \<not> EqualFold (trim_space arg) ''TLS'' then writeReply 504 ''Only AUTH TLS is supported.'' s
      else if c_secureControl s then writeReply 503 ''Already using TLS.'' s
      else
        let s1 = writeReply 234 ''AUTH TLS successful.'' s in
        if \<not> o_handshake out then hang_up s1
        else
          let s2 = s1\<lparr>c_secureControl := True\<rparr>;
              s3 = (if c_username s2 = [] then adoptSNIHost env out s2 else s2)
          in s3\<lparr>c_pbszSet := False, c_dataProtPrivate := False\<rparr>)"

definition cmd_PBSZ :: "string \<Rightarrow> 'w command" where
  "cmd_PBSZ arg s =
     (if \<not> c_secureControl s then writeReply 503 ''Secure control connection required.'' s
      else if trim_space arg \<noteq> ''0'' then writeReply 501 ''PBSZ must be 0.'' s
      else writeReply 200 ''PBSZ=0'' (s\<lparr>c_pbszSet := True\<rparr>))"

definition cmd_PROT :: "string \<Rightarrow> 'w command" where
  "cmd_PROT arg s =
     (if \<not> c_secureControl s then writeReply 503 ''Secure control connection required.'' s
      else if \<not> c_pbszSet s then writeReply 503 ''Send PBSZ 0 first.'' s
      else
        let level = ToUpper (trim_space arg) in
        if level = ''P'' then writeReply 200 ''Data channel protection set to Private.'' (s\<lparr>c_dataProtPrivate := True\<rparr>)
        else if level = ''C'' then writeReply 200 ''Data channel protection set to Clear.'' (s\<lparr>c_dataProtPrivate := False\<rparr>)
        else writeReply 504 ''PROT accepts only C or P.'' s)"

section \<open>Information\<close>

definition features :: "'w ftpEnv \<Rightarrow> string list" where
  "features env =
     ['' UTF8'', '' PASV'', '' EPSV'', '' REST STREAM'', '' HOST'', '' SIZE'', '' MDTM'', '' MFMT'',
      '' MLST type*;size*;modify*;'', '' MLSD'']
     @ (if cf_ActiveMode (fe_cfg env) then ['' EPRT''] else [])
     @ (if ftpsExplicitEnabled (fe_cfg env) \<or> fe_implicitTLS env then ['' AUTH TLS'', '' PBSZ'', '' PROT''] else [])"

definition cmd_FEAT :: "'w ftpEnv \<Rightarrow> 'w command" where
  "cmd_FEAT env = writeMultiline 211 ([''Features:''] @ features env @ [''End''])"

definition cmd_TYPE :: "string \<Rightarrow> 'w command" where
  "cmd_TYPE arg s =
     (if arg = [] then writeReply 200 (''Type set to '' @ c_ftpType s @ ''.'') s
      else if arg = ''I'' \<or> arg = ''A'' then writeReply 200 ''Type set.'' (s\<lparr>c_ftpType := arg\<rparr>)
      else writeReply 504 ''Type not supported.'' s)"

definition cmd_MODE :: "string \<Rightarrow> 'w command" where
  "cmd_MODE arg =
     (if ToUpper arg = ''S'' then writeReply 200 ''Mode set to Stream.''
      else if ToUpper arg \<in> {''B'', ''C'', ''Z''} then writeReply 504 ''Only Stream mode is supported.''
      else writeReply 501 ''Unknown mode.'')"

definition cmd_STRU :: "string \<Rightarrow> 'w command" where
  "cmd_STRU arg =
     (if ToUpper arg = ''F'' then writeReply 200 ''Structure set to File.''
      else if ToUpper arg \<in> {''R'', ''P''} then writeReply 504 ''Only File structure is supported.''
      else writeReply 501 ''Unknown structure.'')"

text \<open>The lines of a listing sent over the control connection, each behind a blank.\<close>

definition status_lines :: "bytes \<Rightarrow> bytes list" where
  "status_lines buf =
     map (\<lambda>l. '' '' @ l @ CRLF)
       (filter (\<lambda>l. l \<noteq> []) (map (trim_right_chars [CHR 0x0D]) (split_on CHR 0x0A (trim_right_chars CRLF buf))))"

definition handleStat :: "'w ftpEnv \<Rightarrow> string \<Rightarrow> 'w command" where
  "handleStat env arg s =
     (if trim_space arg = [] then
        writeMultiline 211
          ([''Kervan FTP server status:'', ''Connected from '' @ c_remoteAddr s]
           @ [case c_user s of Some u \<Rightarrow> ''Logged in as '' @ u_Username u | None \<Rightarrow> ''Not logged in'']
           @ (if c_secureControl s then [''Control connection is encrypted''] else [])
           @ [''TYPE: BINARY, STRUcture: File, MODE: Stream'', ''End of status'']) s
      else authed (\<lambda>fsys _ s.
        case listing_lines (fe_listTime env) fsys (resolvePath (c_cwd s) arg) ''LIST'' (f_world s) of
          Inl _ \<Rightarrow> writeReply 450 (''Cannot list '' @ arg @ ''.'') s
        | Inr ls \<Rightarrow>
            s\<lparr>f_out := f_out s @ [''213-Status of '' @ arg @ '':'' @ CRLF] @ status_lines (concat ls)
                 @ [''213 End of status'' @ CRLF]\<rparr>) s)"

definition helpCommands :: "string list" where
  "helpCommands =
     [''ABOR ALLO APPE AUTH CDUP CWD DELE EPRT EPSV FEAT HELP HOST LIST'',
      ''MDTM MFMT MKD MLSD MLST MODE NLST NOOP OPTS PASS PASV PBSZ PORT'',
      ''PROT PWD QUIT REST RETR RMD RNFR RNTO SITE SIZE STAT STOR STOU'',
      ''STRU SYST TYPE USER XCUP XCWD XMKD XPWD XRMD'']"

definition handleHelp :: "'w command" where
  "handleHelp = writeMultiline 214 ([''The following commands are recognized:''] @ helpCommands @ [''Help OK.''])"

section \<open>The command loop\<close>

definition ftp_command :: "'w ftpEnv \<Rightarrow> outside \<Rightarrow> string \<Rightarrow> string \<Rightarrow> 'w command" where
  "ftp_command env out cmd arg s =
     (if cmd = ''HOST'' then cmd_HOST env arg s
      else if cmd = ''USER'' then writeReply 331 ''User name okay, need password.'' (s\<lparr>c_username := arg\<rparr>)
      else if cmd = ''PASS'' then cmd_PASS env out arg s
      else if cmd = ''QUIT'' then hang_up (writeReply 221 ''Goodbye.'' s)
      else if cmd = ''NOOP'' then writeReply 200 ''OK'' s
      else if cmd = ''SYST'' then writeReply 215 ''UNIX Type: L8'' s
      else if cmd = ''FEAT'' then cmd_FEAT env s
      else if cmd = ''OPTS'' then writeReply 200 ''OK'' s
      else if cmd = ''PWD'' then cmd_PWD s
      else if cmd = ''TYPE'' then cmd_TYPE arg s
      else if cmd = ''CWD'' then cmd_CWD arg s
      else if cmd = ''CDUP'' then cmd_CWD ''..'' s
      else if cmd = ''MKD'' then cmd_MKD arg s
      else if cmd = ''RMD'' then cmd_RMD arg s
      else if cmd = ''DELE'' then cmd_DELE arg s
      else if cmd = ''RNFR'' then cmd_RNFR arg s
      else if cmd = ''RNTO'' then cmd_RNTO arg s
      else if cmd = ''SIZE'' then cmd_SIZE arg s
      else if cmd = ''MDTM'' then cmd_MDTM arg s
      else if cmd = ''PASV'' then cmd_PASV env out s
      else if cmd = ''EPSV'' then cmd_EPSV env out arg s
      else if cmd = ''PORT'' \<or> cmd = ''EPRT'' then cmd_PORT env cmd arg s
      else if cmd = ''LIST'' \<or> cmd = ''NLST'' \<or> cmd = ''MLSD'' then cmd_LIST env out cmd arg s
      else if cmd = ''MLST'' then cmd_MLST env arg s
      else if cmd = ''REST'' then cmd_REST arg s
      else if cmd = ''RETR'' then cmd_RETR env out arg s
      else if cmd = ''STOR'' \<or> cmd = ''APPE'' \<or> cmd = ''STOU'' then cmd_STOR env out cmd arg s
      else if cmd = ''AUTH'' then cmd_AUTH env out arg s
      else if cmd = ''PBSZ'' then cmd_PBSZ arg s
      else if cmd = ''PROT'' then cmd_PROT arg s
      else if cmd = ''ABOR'' then writeReply 225 ''No transfer to abort.'' s
      else if cmd = ''MODE'' then cmd_MODE arg s
      else if cmd = ''STRU'' then cmd_STRU arg s
      else if cmd = ''ALLO'' then writeReply 202 ''No storage allocation necessary.'' s
      else if cmd = ''SITE'' then handleSite arg s
      else if cmd = ''MFMT'' then handleMFMT arg s
      else if cmd = ''STAT'' then handleStat env arg s
      else if cmd = ''HELP'' then handleHelp s
      else writeReply 502 ''Command not implemented.'' s)"

definition touch_session :: "outside \<Rightarrow> 'w command" where
  "touch_session out s =
     (case c_session s of
        None \<Rightarrow> s
      | Some ss \<Rightarrow> s\<lparr>f_sessions := Touch (o_now out) (ss_ID ss) (f_sessions s)\<rparr>)"

text \<open>One turn of the loop with the line \<^verbatim>\<open>readControlLine\<close> returned.\<close>

definition handle_line :: "'w ftpEnv \<Rightarrow> outside \<Rightarrow> bytes \<Rightarrow> 'w command" where
  "handle_line env out raw s =
     (let line = trim_space (stripTelnet raw) in
      if line = [] then s
      else
        (case splitCommand line of (cmd, arg) \<Rightarrow>
           ftp_command env out (case map_of legacyAliases cmd of None \<Rightarrow> cmd | Some alias \<Rightarrow> alias) arg (touch_session out s)))"

text \<open>What happens on a connection: it gets a line, or other connections change what is shared.\<close>

datatype 'w event = Line outside bytes | Others "'w shared \<Rightarrow> 'w shared"

definition others :: "('w shared \<Rightarrow> 'w shared) \<Rightarrow> 'w command" where
  "others g s = shared.extend (g (shared.truncate s)) (shared.more s)"

definition over :: "'w ftp \<Rightarrow> bool" where
  "over s \<longleftrightarrow> f_ended s \<or> f_stopped s \<noteq> None"

fun ftp_run :: "'w ftpEnv \<Rightarrow> 'w event list \<Rightarrow> 'w command" where
  "ftp_run env [] s = s"
| "ftp_run env (Line out raw # es) s = (if over s then ftp_run env es s else ftp_run env es (handle_line env out raw s))"
| "ftp_run env (Others g # es) s = ftp_run env es (others g s)"

definition new_conn :: "'w ftpEnv \<Rightarrow> string \<Rightarrow> 'w shared \<Rightarrow> 'w ftp" where
  "new_conn env remote sh =
     shared.extend sh
       \<lparr>c_username = [], c_user = None, c_session = None, c_cwd = ''/'', c_fs = None, c_rnfr = [], c_passiveLn = None,
        c_activeAddr = [], c_restOffset = 0, c_ftpType = ''I'', c_vhost = [], c_passiveIP = cf_PassiveIP (fe_cfg env),
        c_remoteAddr = remote, c_secureControl = False, c_pbszSet = False, c_dataProtPrivate = False,
        f_out = [], f_data = [], f_ended = False, f_stopped = None\<rparr>"

text \<open>The greeting, after the handshake of an implicit TLS listener.\<close>

definition greet :: "'w ftpEnv \<Rightarrow> outside \<Rightarrow> 'w command" where
  "greet env out s =
     (if fe_implicitTLS env \<and> \<not> o_handshake out then s\<lparr>f_ended := True\<rparr>
      else
        let s1 = (if fe_implicitTLS env then adoptSNIHost env out (s\<lparr>c_secureControl := True\<rparr>) else s);
            banner = (case map_of (cf_VirtualHosts (fe_cfg env)) (c_vhost s1) of
                        Some vh \<Rightarrow> if vh_Banner vh \<noteq> [] then vh_Banner vh else cf_Banner (fe_cfg env)
                      | None \<Rightarrow> cf_Banner (fe_cfg env))
        in writeReply 220 banner s1)"

text \<open>
  The end of \<^verbatim>\<open>handleConn\<close>: a failed read cleans up, and whatever the reason (a panic too, which \<^verbatim>\<open>recoverConnPanic\<close> catches) the
  deferred call releases the file system; a call that never returns reaches neither.
\<close>

definition conn_end :: "'w ftpEnv \<Rightarrow> 'w command" where
  "conn_end env s =
     (case f_stopped s of
        Some e \<Rightarrow> if e = NoFuel then s else (release_fs env s)\<lparr>f_ended := True\<rparr>
      | None \<Rightarrow> release_fs env (if f_ended s then s else hang_up s))"

definition handleConn :: "'w ftpEnv \<Rightarrow> outside \<Rightarrow> string \<Rightarrow> 'w event list \<Rightarrow> 'w shared \<Rightarrow> 'w ftp" where
  "handleConn env out remote es sh = conn_end env (ftp_run env es (greet env out (new_conn env remote sh)))"

section \<open>Admission\<close>

record gate =
  gt_limiter :: "limiter option"
  gt_perIP :: perIPLimiter
  gt_audit :: "audit_event list option"

datatype admission = Denied "bytes option" | Admitted "nat option"

definition emitRejection :: "string \<Rightarrow> string \<Rightarrow> gate \<Rightarrow> gate" where
  "emitRejection remote reason g =
     g\<lparr>gt_audit := map_option (\<lambda>es. es @ [\<lparr>ev_Type = ''connection.rejected'', ev_Username = [], ev_Protocol = ''ftp'', ev_Path = [],
         ev_IP = remote, ev_Status = ''rejected'', ev_Message = reason, ev_Meta = []\<rparr>]) (gt_audit g)\<rparr>"

text \<open>
  A denied connection is closed, after the given bytes; an admitted one owns a slot of the limiter and one of the per-address
  limiter.  Releasing from an empty limiter would block for ever: the slot just taken is there, so the result is always \<open>Some\<close>.
\<close>

definition give_back :: "limiter option \<Rightarrow> limiter option" where
  "give_back l = (case limiter_Release l of None \<Rightarrow> l | Some l' \<Rightarrow> l')"

definition admit :: "ftpConfig \<Rightarrow> string \<Rightarrow> gate \<Rightarrow> admission \<times> gate" where
  "admit cfg remote g =
     (if \<not> AllowedRemote (cf_IPFilter cfg) remote then (Denied None, g)
      else
        (case TryAcquire (gt_limiter g) of
           (False, _) \<Rightarrow>
             (Denied (Some (reply_line 421 ''Too many connections, try again later.'')),
              emitRejection remote ''max connections reached'' g)
         | (True, l) \<Rightarrow>
             (case Acquire remote (gt_perIP g) of
                ((_, False), ips) \<Rightarrow>
                  (Denied (Some (reply_line 421 ''Too many connections from your address.'')),
                   emitRejection remote ''max connections per ip reached'' (g\<lparr>gt_limiter := give_back l, gt_perIP := ips\<rparr>))
              | ((rel, True), ips) \<Rightarrow> (Admitted rel, g\<lparr>gt_limiter := l, gt_perIP := ips\<rparr>))))"

text \<open>The deferred calls of an admitted connection's goroutine.\<close>

definition depart :: "nat option \<Rightarrow> gate \<Rightarrow> gate" where
  "depart rel g =
     g\<lparr>gt_limiter := give_back (gt_limiter g),
       gt_perIP := (case rel of None \<Rightarrow> gt_perIP g | Some i \<Rightarrow> release i (gt_perIP g))\<rparr>"

end
