(* ===== verification/Scp.thy ===== *)
theory Scp
  imports Ftp_Commands
begin

text \<open>
  SCP, \<^verbatim>\<open>internal/protocol/sftp/scp.go\<close>: the command line of an exec request, the records of the protocol, and its two ends: the
  source, which sends a file or a tree, and the sink, which receives one.  The input of the channel is the bytes the client will
  send; how much a single read of them returns is the environment's choice (\<open>se_cut\<close>), and so is the error they end with.  The
  channel takes \<open>sc_room\<close> bytes before writes fail (\<open>None\<close>: all).  Renewing the idle deadline is not visible.
\<close>

section \<open>The command line\<close>

definition parseExecPayload :: "bytes \<Rightarrow> string res" where
  "parseExecPayload payload =
     (case r_uint32 payload of
        (Inl _, _) \<Rightarrow> Inl (ErrMsg ''invalid exec payload'')
      | (Inr n, r) \<Rightarrow> if length r < unat n then Inl (ErrMsg ''invalid exec payload length'') else Inr (take (unat n) r))"

definition word_space :: "char \<Rightarrow> bool" where
  "word_space c \<longleftrightarrow> c \<in> {CHR '' '', CHR 0x09, CHR 0x0A}"

text \<open>
  \<^verbatim>\<open>splitShellWords\<close>: the words so far, the current word (\<open>None\<close> outside one) and the open quote.  It works byte by byte: every
  character it looks for is ASCII, and the decoding of UTF-8 keeps the bytes of valid text.
\<close>

fun shell_words :: "string list \<Rightarrow> string option \<Rightarrow> char option \<Rightarrow> string \<Rightarrow> string list res" where
  "shell_words ws cur q [] =
     (if q \<noteq> None then Inl (ErrMsg ''unterminated quote in exec command'')
      else Inr (case cur of None \<Rightarrow> ws | Some w \<Rightarrow> ws @ [w]))"
| "shell_words ws cur q (r # rs) =
     (let w = (case cur of None \<Rightarrow> [] | Some w \<Rightarrow> w) in
      if q = Some CHR 0x27 then
        (if r = CHR 0x27 then shell_words ws (Some w) None rs else shell_words ws (Some (w @ [r])) q rs)
      else if q = Some CHR 0x22 then
        (if r = CHR 0x22 then shell_words ws (Some w) None rs
         else if r = CHR 0x5C then
           (case rs of
              c # cs \<Rightarrow>
                if c \<in> {CHR ''$'', CHR 0x60, CHR 0x22, CHR 0x5C, CHR 0x0A} then shell_words ws (Some (w @ [c])) q cs
                else shell_words ws (Some (w @ [r])) q rs
            | [] \<Rightarrow> shell_words ws (Some (w @ [r])) q rs)
         else shell_words ws (Some (w @ [r])) q rs)
      else if r = CHR 0x27 \<or> r = CHR 0x22 then shell_words ws (Some w) (Some r) rs
      else if r = CHR 0x5C then
        (case rs of
           c # cs \<Rightarrow> shell_words ws (Some (w @ [c])) q cs
         | [] \<Rightarrow> shell_words ws (Some w) q rs)
      else if word_space r then
        (case cur of None \<Rightarrow> shell_words ws None q rs | Some w \<Rightarrow> shell_words (ws @ [w]) None q rs)
      else shell_words ws (Some (w @ [r])) q rs)"

definition splitShellWords :: "string \<Rightarrow> string list res" where
  "splitShellWords s = shell_words [] None None s"

datatype scpMode = Source | Sink

record scpRequest =
  rq_mode :: "scpMode option"
  rq_target :: string
  rq_preserve :: bool
  rq_recursive :: bool

fun scp_args :: "bool \<Rightarrow> string list \<Rightarrow> scpRequest \<Rightarrow> string list \<Rightarrow> scpRequest \<times> string list" where
  "scp_args optionsDone targets req [] = (req, targets)"
| "scp_args optionsDone targets req (arg # args) =
     (if \<not> optionsDone \<and> arg = ''--'' then scp_args True targets req args
      else if \<not> optionsDone \<and> prefix ''-'' arg then
        scp_args optionsDone targets
          (req\<lparr>rq_mode := (if CHR ''t'' \<in> set arg then Some Sink else if CHR ''f'' \<in> set arg then Some Source else rq_mode req),
               rq_preserve := (rq_preserve req \<or> CHR ''p'' \<in> set arg),
               rq_recursive := (rq_recursive req \<or> CHR ''r'' \<in> set arg)\<rparr>) args
      else scp_args optionsDone (targets @ [arg]) req args)"

definition parseSCPExec :: "string \<Rightarrow> scpRequest res" where
  "parseSCPExec command =
     (case splitShellWords command of
        Inl e \<Rightarrow> Inl e
      | Inr args \<Rightarrow>
          if args = [] \<or> hd args \<noteq> ''scp'' then Inl (ErrMsg ''unsupported exec command'')
          else
            (case scp_args False [] \<lparr>rq_mode = None, rq_target = [], rq_preserve = False, rq_recursive = False\<rparr> (tl args) of
               (req, targets) \<Rightarrow>
                 if rq_mode req = None then Inl (ErrMsg ''scp mode is missing'')
                 else if targets = [] then Inr (req\<lparr>rq_target := ''.''\<rparr>)
                 else if length targets = 1 then Inr (req\<lparr>rq_target := hd targets\<rparr>)
                 else Inl (ErrMsg ''ambiguous target'')))"

section \<open>Records\<close>

text \<open>\<^verbatim>\<open>unicode.IsControl\<close> of some rune: a C0 control or DEL, or the UTF-8 bytes of a C1 control.\<close>

fun has_control :: "string \<Rightarrow> bool" where
  "has_control [] = False"
| "has_control (c # cs) =
     ((of_char c :: nat) < 32 \<or> c = CHR 0x7F
      \<or> (c = CHR 0xC2 \<and> (case cs of d # _ \<Rightarrow> 0x80 \<le> (of_char d :: nat) \<and> (of_char d :: nat) < 0xA0 | [] \<Rightarrow> False))
      \<or> has_control cs)"

definition validateSCPFileName :: "string \<Rightarrow> goerr option" where
  "validateSCPFileName name =
     (let trimmed = trim_space name in
      if trimmed \<in> {[], ''.'', ''..''} \<or> CHR ''/'' \<in> set trimmed \<or> CHR 0x5C \<in> set trimmed \<or> has_control trimmed
      then Some (ErrMsg ''invalid file name'') else None)"

text \<open>\<^verbatim>\<open>strings.SplitN(s, " ", 3)\<close> when it has three parts.\<close>

definition split3 :: "string \<Rightarrow> (string \<times> string \<times> string) option" where
  "split3 s =
     (case cut_at CHR '' '' s of
        (a, Some r) \<Rightarrow> (case cut_at CHR '' '' r of (b, Some c) \<Rightarrow> Some (a, b, c) | _ \<Rightarrow> None)
      | _ \<Rightarrow> None)"

definition parseSCPRecord :: "string \<Rightarrow> char \<Rightarrow> (filemode \<times> int \<times> string) res" where
  "parseSCPRecord header kind =
     (if length header < 2 \<or> hd header \<noteq> kind then Inl (ErrMsg ''invalid scp file header'')
      else
        (case split3 (tl header) of
           None \<Rightarrow> Inl (ErrMsg ''invalid scp file header fields'')
         | Some (modeStr, sizeStr, rest) \<Rightarrow>
             (case ParseOctal32 modeStr of
                None \<Rightarrow> Inl (ErrMsg ''invalid file mode'')
              | Some m \<Rightarrow>
                  (case Atoi sizeStr of
                     (sz, ok) \<Rightarrow>
                       if \<not> ok \<or> sz < 0 then Inl (ErrMsg ''invalid file size'')
                       else
                         let name = trim_space rest in
                         if name = [] then Inl (ErrMsg ''empty file name'')
                         else
                           (case validateSCPFileName name of
                              Some e \<Rightarrow> Inl e
                            | None \<Rightarrow> Inr (word_of_int m AND 0x1FF, sz, name))))))"

text \<open>Access and modification time of a \<^verbatim>\<open>T\<close> record.\<close>

definition parseSCPTimes :: "string \<Rightarrow> (int \<times> int) option" where
  "parseSCPTimes header =
     (let fields = Fields (if prefix ''T'' header then tl header else header) in
      if length fields \<noteq> 4 then None
      else
        (case (Atoi (fields ! 0), Atoi (fields ! 2)) of
           ((mtime, ok1), (atime, ok2)) \<Rightarrow>
             if \<not> ok1 \<or> \<not> ok2 \<or> mtime < 0 \<or> atime < 0 then None else Some (atime * nanos, mtime * nanos)))"

definition normalizeSCPPath :: "string \<Rightarrow> string" where
  "normalizeSCPPath p = (if p = [] then ''/'' else path_clean (CHR ''/'' # trim_space p))"

definition resolveSCPSinkPath :: "'w filesystem \<Rightarrow> string \<Rightarrow> string \<Rightarrow> 'w \<Rightarrow> string" where
  "resolveSCPSinkPath fsys target0 fileName w =
     (let target = normalizeSCPPath target0 in
      if suffix ''/'' target then path_clean (path_join [target, fileName])
      else (case fs_stat fsys target w of
              Inr info \<Rightarrow> if fi_isDir info then path_clean (path_join [target, fileName]) else target
            | Inl _ \<Rightarrow> target))"

definition maxSCPDirDepth :: nat where
  "maxSCPDirDepth = 128"

text \<open>\<^verbatim>\<open>%04o\<close> of permission bits: four octal digits.\<close>

definition octal4 :: "filemode \<Rightarrow> string" where
  "octal4 m = (let n = unat (m AND ModePerm) in [CHR ''0'', char_of (48 + n div 64), char_of (48 + n div 8 mod 8), char_of (48 + n mod 8)])"

text \<open>\<^verbatim>\<open>%q\<close>; bytes above 127 are left as they are.\<close>

definition quote_char :: "char \<Rightarrow> string" where
  "quote_char c =
     (if c = CHR 0x22 \<or> c = CHR 0x5C then [CHR 0x5C, c]
      else if c = CHR 0x07 then [CHR 0x5C, CHR ''a''] else if c = CHR 0x08 then [CHR 0x5C, CHR ''b'']
      else if c = CHR 0x0C then [CHR 0x5C, CHR ''f''] else if c = CHR 0x0A then [CHR 0x5C, CHR ''n'']
      else if c = CHR 0x0D then [CHR 0x5C, CHR ''r''] else if c = CHR 0x09 then [CHR 0x5C, CHR ''t'']
      else if c = CHR 0x0B then [CHR 0x5C, CHR ''v'']
      else if of_char c < (32::nat) \<or> c = CHR 0x7F then [CHR 0x5C, CHR ''x'', hex_digit (of_char c div 16), hex_digit (of_char c mod 16)]
      else [c])"

definition go_quote :: "string \<Rightarrow> string" where
  "go_quote s = [CHR 0x22] @ concat (map quote_char s) @ [CHR 0x22]"

section \<open>The channel\<close>

record 'w scp =
  sc_world :: 'w
  sc_in :: bytes
  sc_out :: bytes
  sc_room :: "nat option"
  sc_xfer :: "manager option"
  sc_audit :: "audit_event list option"
  sc_ulids :: nat

record 'w scpEnv =
  se_fs :: "'w filesystem"
  se_username :: string
  se_remoteAddr :: string
  se_ulid :: "nat \<Rightarrow> string"
  se_now :: int
  se_end :: goerr
  se_cut :: "bytes \<Rightarrow> nat"
  se_writeErr :: goerr
  se_fuel :: nat

type_synonym ('w, 'a) act = "'w scp \<Rightarrow> 'a res \<times> 'w scp"

definition pass :: "'a \<Rightarrow> ('w, 'a) act" where
  "pass x s = (Inr x, s)"

definition fails :: "goerr \<Rightarrow> ('w, 'a) act" where
  "fails e s = (Inl e, s)"

text \<open>A call with what follows its error and its result; a panic ends everything.\<close>

definition after :: "('w, 'a) act \<Rightarrow> (goerr \<Rightarrow> ('w, 'b) act) \<Rightarrow> ('a \<Rightarrow> ('w, 'b) act) \<Rightarrow> ('w, 'b) act" where
  "after m bad good s =
     (case m s of
        (Inl e, s1) \<Rightarrow> if stops e then (Inl e, s1) else bad e s1
      | (Inr x, s1) \<Rightarrow> good x s1)"

definition whatever :: "('w, 'a) act \<Rightarrow> ('w, 'b) act \<Rightarrow> ('w, 'b) act" where
  "whatever m k = after m (\<lambda>_. k) (\<lambda>_. k)"

definition on_w :: "('w \<Rightarrow> 'a res \<times> 'w) \<Rightarrow> ('w, 'a) act" where
  "on_w op s = (case op (sc_world s) of (r, w) \<Rightarrow> (r, s\<lparr>sc_world := w\<rparr>))"

definition ch_write :: "'w scpEnv \<Rightarrow> bytes \<Rightarrow> ('w, unit) act" where
  "ch_write env bs s =
     (case sc_room s of
        None \<Rightarrow> (Inr (), s\<lparr>sc_out := sc_out s @ bs\<rparr>)
      | Some n \<Rightarrow>
          if length bs \<le> n then (Inr (), s\<lparr>sc_out := sc_out s @ bs, sc_room := Some (n - length bs)\<rparr>)
          else (Inl (se_writeErr env), s\<lparr>sc_out := sc_out s @ take n bs, sc_room := Some 0\<rparr>))"

definition readSCPLE :: "'w scpEnv \<Rightarrow> ('w, bytes) act" where
  "readSCPLE env s = (case control_line ''scp'' (se_end env) [] (sc_in s) of (r, rest) \<Rightarrow> (r, s\<lparr>sc_in := rest\<rparr>))"

definition read_byte :: "'w scpEnv \<Rightarrow> ('w, char) act" where
  "read_byte env s = (case sc_in s of [] \<Rightarrow> (Inl (se_end env), s) | c # r \<Rightarrow> (Inr c, s\<lparr>sc_in := r\<rparr>))"

definition readSCPAck :: "'w scpEnv \<Rightarrow> ('w, unit) act" where
  "readSCPAck env =
     after (read_byte env) fails (\<lambda>b.
       if b = CHR 0x00 then pass ()
       else if b = CHR 0x01 \<or> b = CHR 0x02 then after (readSCPLE env) fails (\<lambda>msg. fails (ErrMsg (trim_space msg)))
       else fails (ErrMsg (''unexpected ack byte: '' @ show_int (of_char b))))"

definition writeSCPError :: "'w scpEnv \<Rightarrow> bool \<Rightarrow> string \<Rightarrow> ('w, unit) act" where
  "writeSCPError env fatal msg = ch_write env ([if fatal then CHR 0x02 else CHR 0x01] @ trim_space msg @ [CHR 0x0A])"

text \<open>\<^verbatim>\<open>_ = writeSCPError(...); return err\<close>\<close>

definition scp_reject :: "'w scpEnv \<Rightarrow> bool \<Rightarrow> goerr \<Rightarrow> ('w, 'a) act" where
  "scp_reject env fatal e = whatever (writeSCPError env fatal (err_text e)) (fails e)"

definition scp_start :: "'w scpEnv \<Rightarrow> string \<Rightarrow> direction \<Rightarrow> int \<Rightarrow> ('w, string) act" where
  "scp_start env p dir n s =
     (case sc_xfer s of
        None \<Rightarrow> (Inr [], s)
      | Some m \<Rightarrow>
          (case Start (se_ulid env (sc_ulids s)) (se_now env) (se_username env) ''scp'' p dir n m of
             (tid, m') \<Rightarrow> (Inr tid, s\<lparr>sc_xfer := Some m', sc_ulids := Suc (sc_ulids s)\<rparr>)))"

definition scp_end :: "'w scpEnv \<Rightarrow> string \<Rightarrow> int \<Rightarrow> goerr option \<Rightarrow> 'w scp \<Rightarrow> 'w scp" where
  "scp_end env tid n err s =
     (if tid = [] then s
      else s\<lparr>sc_xfer := map_option (\<lambda>m.
              (case err of
                 Some e \<Rightarrow> End (se_now env) tid StatusFailed (err_text e) (AddBytes tid n m)
               | None \<Rightarrow> End (se_now env) tid StatusCompleted [] (AddBytes tid n m))) (sc_xfer s)\<rparr>)"

definition scp_emit :: "'w scpEnv \<Rightarrow> string \<Rightarrow> string \<Rightarrow> string \<Rightarrow> 'w scp \<Rightarrow> 'w scp" where
  "scp_emit env ty p msg s =
     s\<lparr>sc_audit := map_option (\<lambda>es. es @ [\<lparr>ev_Type = ty, ev_Username = se_username env, ev_Protocol = ''scp'', ev_Path = p,
          ev_IP = se_remoteAddr env, ev_Status = ''ok'', ev_Message = msg, ev_Meta = []\<rparr>]) (sc_audit s)\<rparr>"

section \<open>The source\<close>

text \<open>
  \<^verbatim>\<open>io.CopyN\<close> to the channel: how many bytes it took, and the error of the copy before the count is compared.  \<open>fuel\<close> bounds the
  reads.
\<close>

fun copy_n_out :: "nat \<Rightarrow> 'w scpEnv \<Rightarrow> 'w vfile \<Rightarrow> nat \<Rightarrow> nat \<Rightarrow> 'w scp \<Rightarrow> (nat \<times> goerr option) \<times> 'w scp" where
  "copy_n_out 0 env f left n s = ((n, if left = 0 then None else Some NoFuel), s)"
| "copy_n_out (Suc k) env f left n s =
     (if left = 0 then ((n, None), s)
      else
        (case f_read f (min left copyBuffer) (sc_world s) of
           ((bs, er), w) \<Rightarrow>
             let s1 = s\<lparr>sc_world := w\<rparr>; room = sc_room s1 in
             (case (if bs = [] then (Inr (), s1) else ch_write env bs s1) of
                (Inl e, s2) \<Rightarrow> ((n + (case room of None \<Rightarrow> 0 | Some r \<Rightarrow> min r (length bs)), Some e), s2)
              | (Inr _, s2) \<Rightarrow>
                  (case er of
                     None \<Rightarrow> copy_n_out k env f (left - length bs) (n + length bs) s2
                   | Some EOF \<Rightarrow> ((n + length bs, None), s2)
                   | Some e \<Rightarrow> ((n + length bs, Some e), s2)))))"

text \<open>\<^verbatim>\<open>CopyN\<close>: no error when the whole sz was copied, \<^verbatim>\<open>io.EOF\<close> when less was and the copy itself saw none.\<close>

definition copy_n_result :: "int \<Rightarrow> int \<Rightarrow> goerr option \<Rightarrow> goerr option" where
  "copy_n_result sz written err =
     (if written = sz then None else if written < sz \<and> err = None then Some EOF else err)"

definition sendTimes :: "'w scpEnv \<Rightarrow> bool \<Rightarrow> fileinfo \<Rightarrow> ('w, unit) act" where
  "sendTimes env preserve info =
     (if \<not> preserve then pass ()
      else
        let mtime = show_int (fi_modTime info div nanos) in
        after (ch_write env (''T'' @ mtime @ '' 0 '' @ mtime @ '' 0'' @ [CHR 0x0A])) fails (\<lambda>_. readSCPAck env))"

definition send_record :: "'w scpEnv \<Rightarrow> char \<Rightarrow> filemode \<Rightarrow> int \<Rightarrow> string \<Rightarrow> ('w, unit) act" where
  "send_record env kind mode sz name =
     (case validateSCPFileName name of
        Some e \<Rightarrow> scp_reject env False e
      | None \<Rightarrow>
          after (ch_write env ([kind] @ octal4 mode @ '' '' @ show_int sz @ '' '' @ name @ [CHR 0x0A])) fails (\<lambda>_. readSCPAck env))"

text \<open>\<^verbatim>\<open>defer f.Close()\<close>, which runs after a panic too.\<close>

definition closing :: "'w vfile \<Rightarrow> ('w, 'a) act \<Rightarrow> ('w, 'a) act" where
  "closing f m s =
     (case m s of
        (r, s1) \<Rightarrow>
          if r = Inl NoFuel then (r, s1)
          else (case f_close f (sc_world s1) of
                  (c, w) \<Rightarrow> (case c of
                      Some e \<Rightarrow> if stops e then (Inl e, s1\<lparr>sc_world := w\<rparr>) else (r, s1\<lparr>sc_world := w\<rparr>)
                    | None \<Rightarrow> (r, s1\<lparr>sc_world := w\<rparr>))))"

text \<open>The contents, the closing NUL and the last acknowledgement.\<close>

definition send_contents :: "'w scpEnv \<Rightarrow> string \<Rightarrow> bool \<Rightarrow> 'w vfile \<Rightarrow> fileinfo \<Rightarrow> ('w, unit) act" where
  "send_contents env filePath eofIsSuccess f info =
     after (scp_start env filePath DirectionDownload (fi_size info)) fails (\<lambda>tid s.
       case copy_n_out (se_fuel env) env f (nat (fi_size info)) 0 s of
         ((n0, err0), s1) \<Rightarrow>
           let n = int n0; failed = (\<lambda>e s. (Inl e, scp_end env tid n (Some e) s)) in
           (case (if err0 = Some NoFuel \<or> err0 = Some GoPanic then err0 else copy_n_result (fi_size info) n err0) of
              Some e \<Rightarrow> if stops e then (Inl e, s1) else failed e s1
            | None \<Rightarrow>
                after (ch_write env [CHR 0x00]) failed (\<lambda>_ s2.
                  let finish = (\<lambda>s. (Inr (), scp_emit env ''file.read'' filePath ''scp download'' (scp_end env tid n None s))) in
                  case readSCPAck env s2 of
                    (Inl e, s3) \<Rightarrow> if eofIsSuccess \<and> e = EOF then finish s3 else if stops e then (Inl e, s3) else failed e s3
                  | (Inr _, s3) \<Rightarrow> finish s3) s1))"

definition sendFile :: "'w scpEnv \<Rightarrow> bool \<Rightarrow> string \<Rightarrow> bool \<Rightarrow> ('w, unit) act" where
  "sendFile env preserve filePath eofIsSuccess =
     after (on_w (fs_open (se_fs env) filePath O_RDONLY 0)) (scp_reject env False) (\<lambda>f.
       closing f
         (after (on_w (\<lambda>w. (f_stat f w, w))) (scp_reject env False) (\<lambda>info.
            after (sendTimes env preserve info) fails (\<lambda>_.
              after (send_record env CHR ''C'' (fi_mode info) (fi_size info) (fi_name info)) fails (\<lambda>_.
                send_contents env filePath eofIsSuccess f info)))))"

text \<open>The entries of a directory; \<open>sub\<close> sends a subdirectory.  What is neither a directory nor a regular file is left out.\<close>

primrec send_entries :: "'w scpEnv \<Rightarrow> bool \<Rightarrow> (string \<Rightarrow> fileinfo \<Rightarrow> ('w, unit) act) \<Rightarrow> string \<Rightarrow> 'w direntry list \<Rightarrow> ('w, unit) act" where
  "send_entries env preserve sub dirPath [] = pass ()"
| "send_entries env preserve sub dirPath (e # es) = (\<lambda>s.
     let child = path_join [dirPath, de_name e (sc_world s)]; rest = send_entries env preserve sub dirPath es in
     (if de_isDir e (sc_world s) then
        after (on_w (\<lambda>w. (fs_stat (se_fs env) child w, w)))
          (\<lambda>err. whatever (writeSCPError env False (err_text err)) rest)
          (\<lambda>childInfo. after (sub child childInfo) fails (\<lambda>_. rest))
      else if de_type e (sc_world s) AND ModeType = 0 then
        after (sendFile env preserve child False) fails (\<lambda>_. rest)
      else rest) s)"

primrec sendDir :: "nat \<Rightarrow> 'w scpEnv \<Rightarrow> bool \<Rightarrow> string \<Rightarrow> fileinfo \<Rightarrow> ('w, unit) act" where
  "sendDir 0 env preserve dirPath info = fails NoFuel"
| "sendDir (Suc k) env preserve dirPath info =
     after (sendTimes env preserve info) fails (\<lambda>_.
       after (send_record env CHR ''D'' (fi_mode info) 0 (path_base dirPath)) fails (\<lambda>_.
         after (on_w (\<lambda>w. (fs_readDir (se_fs env) dirPath w, w))) (scp_reject env False) (\<lambda>entries.
           after (send_entries env preserve (sendDir k env preserve) dirPath entries) fails (\<lambda>_.
             after (ch_write env (''E'' @ [CHR 0x0A])) fails (\<lambda>_. readSCPAck env)))))"

definition runSCPSource :: "'w scpEnv \<Rightarrow> string \<Rightarrow> scpRequest \<Rightarrow> ('w, unit) act" where
  "runSCPSource env target req =
     after (readSCPAck env) fails (\<lambda>_.
       after (on_w (\<lambda>w. (fs_stat (se_fs env) target w, w))) (scp_reject env False) (\<lambda>info.
         if fi_isDir info then
           (if \<not> rq_recursive req then scp_reject env False (ErrMsg (target @ '': not a regular file (use -r)''))
            else sendDir (se_fuel env) env (rq_preserve req) target info)
         else sendFile env (rq_preserve req) target True))"

section \<open>The sink\<close>

text \<open>What the reads of \<^verbatim>\<open>io.CopyN(f, br, n)\<close> return.\<close>

function pieces :: "(bytes \<Rightarrow> nat) \<Rightarrow> nat \<Rightarrow> bytes \<Rightarrow> bytes list" where
  "pieces rd n s =
     (if n = 0 \<or> s = [] then []
      else
        let k = max 1 (min (rd s) (min n copyBuffer)) in
        take k s # pieces rd (n - length (take k s)) (drop k s))"
  by pat_completeness auto

termination
  by (relation "measure (\<lambda>(rd, n, s). length s)") auto

declare pieces.simps [simp del]

type_synonym sink_dirs = "(string \<times> (int \<times> int) option) list"

text \<open>
  A file record: the directory stack \<open>dirs\<close> has its innermost directory first.  The result is the pending times that are left.
\<close>

text \<open>The ways a reception ends: reported to the client, not reported, and complete.\<close>

definition receive_failed :: "'w scpEnv \<Rightarrow> string \<Rightarrow> int \<Rightarrow> goerr \<Rightarrow> ('w, unit) act" where
  "receive_failed env tid n e = after (\<lambda>s. (Inr (), scp_end env tid n (Some e) s)) fails (\<lambda>_. scp_reject env True e)"

definition receive_broken :: "'w scpEnv \<Rightarrow> string \<Rightarrow> int \<Rightarrow> goerr \<Rightarrow> ('w, unit) act" where
  "receive_broken env tid n e s = (Inl e, scp_end env tid n (Some e) s)"

definition receive_complete :: "'w scpEnv \<Rightarrow> string \<Rightarrow> (int \<times> int) option \<Rightarrow> string \<Rightarrow> int \<Rightarrow> ('w, unit) act" where
  "receive_complete env dst tms tid n =
     after (\<lambda>s. (Inr (), scp_end env tid n None s)) fails (\<lambda>_.
       (case tms of
          None \<Rightarrow> pass ()
        | Some (atime, mtime) \<Rightarrow> whatever (on_w (\<lambda>w. as_res (fs_chtimes (se_fs env) dst atime mtime w))) (pass ())))"

text \<open>The trailer; a client may close instead of sending it.\<close>

definition receive_trailer :: "'w scpEnv \<Rightarrow> string \<Rightarrow> (int \<times> int) option \<Rightarrow> string \<Rightarrow> int \<Rightarrow> ('w, unit) act" where
  "receive_trailer env dst tms tid n s =
     (if sc_in s = [] \<and> se_end env = EOF then whatever (ch_write env [CHR 0x00]) (receive_complete env dst tms tid n) s
      else
        after (read_byte env) (receive_broken env tid n) (\<lambda>trailer.
          if trailer \<noteq> CHR 0x00 then receive_failed env tid n (ErrMsg ''invalid scp file trailer'')
          else after (ch_write env [CHR 0x00]) (receive_broken env tid n) (\<lambda>_. receive_complete env dst tms tid n)) s)"

text \<open>After the copy of \<open>n\<close> of the \<open>sz\<close> bytes: the close, the trailer and the acknowledgement.\<close>

definition receive_rest ::
    "'w scpEnv \<Rightarrow> string \<Rightarrow> int \<Rightarrow> 'w vfile \<Rightarrow> (int \<times> int) option \<Rightarrow> string \<Rightarrow> int \<Rightarrow> goerr option \<Rightarrow> ('w, unit) act" where
  "receive_rest env dst sz f tms tid n err0 =
     (case (if err0 = Some NoFuel \<or> err0 = Some GoPanic then err0 else copy_n_result sz n err0) of
        Some e \<Rightarrow> if stops e then fails e else whatever (on_w (\<lambda>w. as_res (f_close f w))) (receive_failed env tid n e)
      | None \<Rightarrow> after (on_w (\<lambda>w. as_res (f_close f w))) (receive_failed env tid n) (\<lambda>_. receive_trailer env dst tms tid n))"

definition receive_contents ::
    "'w scpEnv \<Rightarrow> string \<Rightarrow> int \<Rightarrow> 'w vfile \<Rightarrow> (int \<times> int) option \<Rightarrow> ('w, unit) act" where
  "receive_contents env dst sz f tms =
     after (scp_start env dst DirectionUpload sz) fails (\<lambda>tid s.
       let ps = pieces (se_cut env) (nat sz) (sc_in s); got = length (concat ps) in
       case copy_in f ps (if int got < sz \<and> se_end env \<noteq> EOF then Some (se_end env) else None) 0 (sc_world s) of
         ((n, err0), w) \<Rightarrow>
           receive_rest env dst sz f tms tid n err0 (s\<lparr>sc_world := w, sc_in := drop got (sc_in s)\<rparr>))"

text \<open>Where a record's file or directory goes.\<close>

definition sink_dst :: "'w scpEnv \<Rightarrow> string \<Rightarrow> sink_dirs \<Rightarrow> string \<Rightarrow> 'w \<Rightarrow> string" where
  "sink_dst env target dirs name w =
     (case dirs of [] \<Rightarrow> resolveSCPSinkPath (se_fs env) target name w | (d, _) # _ \<Rightarrow> path_join [d, name])"

definition sink_file ::
    "'w scpEnv \<Rightarrow> filemode \<Rightarrow> int \<Rightarrow> (int \<times> int) option \<Rightarrow> sink_dirs \<Rightarrow> string \<Rightarrow> ('w, ((int \<times> int) option \<times> sink_dirs) option) act" where
  "sink_file env mode sz tms dirs dst =
     after (on_w (fs_open (se_fs env) dst (O_CREATE OR O_WRONLY OR O_TRUNC) mode)) (scp_reject env True) (\<lambda>f.
       after (ch_write env [CHR 0x00]) (\<lambda>e. whatever (on_w (\<lambda>w. as_res (f_close f w))) (fails e)) (\<lambda>_.
         after (receive_contents env dst sz f tms) fails (\<lambda>_ s.
           (Inr (Some (None, dirs)), scp_emit env ''file.write'' dst ''scp upload'' s))))"

definition receive_file_record ::
    "'w scpEnv \<Rightarrow> string \<Rightarrow> string \<Rightarrow> (int \<times> int) option \<Rightarrow> sink_dirs \<Rightarrow> ('w, ((int \<times> int) option \<times> sink_dirs) option) act" where
  "receive_file_record env target header tms dirs =
     (case parseSCPRecord header CHR ''C'' of
        Inl e \<Rightarrow> scp_reject env True e
      | Inr (mode, sz, filename) \<Rightarrow> (\<lambda>s. sink_file env mode sz tms dirs (sink_dst env target dirs filename (sc_world s)) s))"

definition receive_dir ::
    "'w scpEnv \<Rightarrow> filemode \<Rightarrow> (int \<times> int) option \<Rightarrow> sink_dirs \<Rightarrow> string \<Rightarrow> ('w, ((int \<times> int) option \<times> sink_dirs) option) act" where
  "receive_dir env mode tms dirs dst =
     (let entered = after (ch_write env [CHR 0x00]) fails (\<lambda>_. pass (Some (None, (dst, tms) # dirs))) in
      after (on_w (\<lambda>w. as_res (fs_mkdir (se_fs env) dst (mode OR 0x1C0) w)))
        (\<lambda>e. after (on_w (\<lambda>w. (fs_stat (se_fs env) dst w, w))) (\<lambda>_. scp_reject env True e)
               (\<lambda>info. if fi_isDir info then entered else scp_reject env True e))
        (\<lambda>_. entered))"

definition receive_dir_record ::
    "'w scpEnv \<Rightarrow> string \<Rightarrow> bool \<Rightarrow> string \<Rightarrow> (int \<times> int) option \<Rightarrow> sink_dirs \<Rightarrow> ('w, ((int \<times> int) option \<times> sink_dirs) option) act" where
  "receive_dir_record env target recursive header tms dirs =
     (if \<not> recursive then scp_reject env True (ErrMsg ''received directory without -r'')
      else if length dirs \<ge> maxSCPDirDepth then
        scp_reject env True (ErrMsg (''directory nesting exceeds '' @ show_int (int maxSCPDirDepth) @ '' levels''))
      else
        (case parseSCPRecord header CHR ''D'' of
           Inl e \<Rightarrow> scp_reject env True e
         | Inr (mode, _, dirname) \<Rightarrow> (\<lambda>s. receive_dir env mode tms dirs (sink_dst env target dirs dirname (sc_world s)) s)))"

definition sink_ack :: "'w scpEnv \<Rightarrow> 'a \<Rightarrow> ('w, 'a) act" where
  "sink_ack env next = after (ch_write env [CHR 0x00]) fails (\<lambda>_. pass next)"

text \<open>An \<^verbatim>\<open>E\<close> record closes the innermost directory; with none open it ends the session.\<close>

definition leave_dir ::
    "'w scpEnv \<Rightarrow> (int \<times> int) option \<Rightarrow> sink_dirs \<Rightarrow> ('w, ((int \<times> int) option \<times> sink_dirs) option) act" where
  "leave_dir env tms dirs =
     (case dirs of
        [] \<Rightarrow> sink_ack env None
      | (d, ts) # ds \<Rightarrow>
          (case ts of
             None \<Rightarrow> sink_ack env (Some (tms, ds))
           | Some (atime, mtime) \<Rightarrow>
               whatever (on_w (\<lambda>w. as_res (fs_chtimes (se_fs env) d atime mtime w))) (sink_ack env (Some (tms, ds)))))"

text \<open>One record of the sink: what goes on (pending times and directories), or \<open>None\<close> when the session is over.\<close>

definition sink_record ::
    "'w scpEnv \<Rightarrow> string \<Rightarrow> bool \<Rightarrow> string \<Rightarrow> (int \<times> int) option \<Rightarrow> sink_dirs \<Rightarrow> ('w, ((int \<times> int) option \<times> sink_dirs) option) act" where
  "sink_record env target recursive header tms dirs =
     (if header = [] \<or> hd header = CHR 0x00 then pass (Some (tms, dirs))
      else if hd header = CHR ''T'' then sink_ack env (Some (parseSCPTimes header, dirs))
      else if hd header = CHR ''D'' then receive_dir_record env target recursive header tms dirs
      else if hd header = CHR ''C'' then receive_file_record env target header tms dirs
      else if hd header = CHR ''E'' then leave_dir env tms dirs
      else if hd header = CHR 0x01 \<or> hd header = CHR 0x02 then fails (ErrMsg (trim_space (tl header)))
      else scp_reject env True (ErrMsg (''unsupported scp command: '' @ go_quote header)))"

definition sink_step ::
    "'w scpEnv \<Rightarrow> string \<Rightarrow> bool \<Rightarrow> (int \<times> int) option \<Rightarrow> sink_dirs \<Rightarrow> ('w, ((int \<times> int) option \<times> sink_dirs) option) act" where
  "sink_step env target recursive tms dirs =
     after (readSCPLE env) (\<lambda>e. if e = EOF then pass None else fails e)
       (\<lambda>line. sink_record env target recursive (trim_space line) tms dirs)"

text \<open>Nothing gives input back, and a line takes at least its newline.\<close>

definition shrinks :: "('w, 'a) act \<Rightarrow> bool" where
  "shrinks m \<longleftrightarrow> (\<forall>s. length (sc_in (snd (m s))) \<le> length (sc_in s))"

named_theorems shrinking \<open>operations that only consume input\<close>

lemma shrinks_after [shrinking]:
  assumes "shrinks m" "\<And>e. shrinks (bad e)" "\<And>x. shrinks (good x)"
  shows "shrinks (after m bad good)"
  unfolding shrinks_def
proof
  fix s
  obtain r s1 where m: "m s = (r, s1)" by fastforce
  have "length (sc_in s1) \<le> length (sc_in s)" using assms(1) m unfolding shrinks_def by (metis snd_conv)
  moreover have "length (sc_in (snd (bad e s1))) \<le> length (sc_in s1)" "length (sc_in (snd (good x s1))) \<le> length (sc_in s1)" for e x
    using assms(2,3) unfolding shrinks_def by blast+
  ultimately show "length (sc_in (snd (after m bad good s))) \<le> length (sc_in s)"
    by (auto simp: after_def m split: sum.split intro: order_trans)
qed

lemma shrinks_whatever [shrinking]: "shrinks m \<Longrightarrow> shrinks k \<Longrightarrow> shrinks (whatever m k)"
  unfolding whatever_def by (intro shrinking)

lemma shrinks_same: "(\<And>s. sc_in (snd (m s)) = sc_in s) \<Longrightarrow> shrinks m"
  by (simp add: shrinks_def)

lemma shrinks_basic [shrinking]:
  "shrinks (pass x)" "shrinks (fails e)" "shrinks (on_w op)" "shrinks (ch_write env bs)" "shrinks (scp_start env p dir n)"
  by (rule shrinks_same, simp add: pass_def fails_def on_w_def ch_write_def scp_start_def split: option.split prod.split)+

lemma shrinks_update [shrinking]:
  "shrinks (\<lambda>s. (r, scp_end env tid n err s))" "shrinks (\<lambda>s. (r, scp_emit env ty p msg s))"
  by (rule shrinks_same, simp add: scp_end_def scp_emit_def)+

lemma shrinks_reject [shrinking]: "shrinks (scp_reject env fatal e)"
  unfolding scp_reject_def writeSCPError_def by (intro shrinking)

lemma control_line_shorter:
  "control_line what e buf s = (r, rest) \<Longrightarrow> length rest \<le> length s \<and> (isl r \<or> length rest < length s)"
proof (induction what e buf s arbitrary: r rest rule: control_line.induct)
  case (1 what e buf s)
  show ?case
  proof (cases "CHR 0x0A \<in> set (take bufferSize s)")
    case True
    then have "s \<noteq> []" by auto
    then show ?thesis using 1(2) True by (subst (asm) control_line.simps) (auto simp: Let_def)
  next
    case no: False
    show ?thesis
    proof (cases "length (take bufferSize s) < bufferSize \<or> length (buf @ take bufferSize s) > maxControlLineBytes")
      case True
      then show ?thesis using 1(2) no by (subst (asm) control_line.simps) (auto simp: Let_def split: if_splits)
    next
      case False
      then have "control_line what e (buf @ take bufferSize s) (drop bufferSize s) = (r, rest)"
        using 1(2) no by (subst (asm) control_line.simps) (simp add: Let_def)
      moreover have "length (drop bufferSize s) < length s" using False by (auto simp: bufferSize_def min_def split: if_splits)
      ultimately show ?thesis using 1(1) [OF refl no _ _, of r rest] False by fastforce
    qed
  qed
qed

lemma shrinks_line [shrinking]: "shrinks (readSCPLE env)"
  by (auto simp: shrinks_def readSCPLE_def split: prod.split dest: control_line_shorter)

lemma shrinks_byte [shrinking]: "shrinks (read_byte env)"
  by (simp add: shrinks_def read_byte_def split: list.split)

lemma shrinks_if [shrinking]: "(c \<Longrightarrow> shrinks a) \<Longrightarrow> (\<not> c \<Longrightarrow> shrinks b) \<Longrightarrow> shrinks (if c then a else b)"
  by simp

lemma shrinks_dep: "(\<And>x. shrinks (k x)) \<Longrightarrow> shrinks (\<lambda>s. k (h s) s)"
  by (simp add: shrinks_def)

lemma shrinks_ends [shrinking]:
  "shrinks (receive_failed env tid n e)" "shrinks (receive_broken env tid n e)" "shrinks (receive_complete env dst tms tid n)"
proof -
  show "shrinks (receive_failed env tid n e)" unfolding receive_failed_def by (intro shrinking)
  show "shrinks (receive_broken env tid n e)" by (simp add: shrinks_def receive_broken_def scp_end_def)
  have "shrinks (case tms of None \<Rightarrow> pass ()
      | Some (atime, mtime) \<Rightarrow> whatever (on_w (\<lambda>w. as_res (fs_chtimes (se_fs env) dst atime mtime w))) (pass ()))"
    by (auto split: option.split intro!: shrinking)
  then show "shrinks (receive_complete env dst tms tid n)" unfolding receive_complete_def by (intro shrinking)
qed

lemma shrinks_trailer [shrinking]: "shrinks (receive_trailer env dst tms tid n)"
proof -
  have a: "shrinks (whatever (ch_write env [CHR 0x00]) (receive_complete env dst tms tid n))" by (intro shrinking)
  have b: "shrinks (after (read_byte env) (receive_broken env tid n) (\<lambda>trailer.
          if trailer \<noteq> CHR 0x00 then receive_failed env tid n (ErrMsg ''invalid scp file trailer'')
          else after (ch_write env [CHR 0x00]) (receive_broken env tid n) (\<lambda>_. receive_complete env dst tms tid n)))"
    by (intro shrinking)
  show ?thesis
    unfolding shrinks_def
  proof
    fix s
    show "length (sc_in (snd (receive_trailer env dst tms tid n s))) \<le> length (sc_in s)"
      using a b unfolding receive_trailer_def
      by (simp only: a [unfolded shrinks_def, rule_format] b [unfolded shrinks_def, rule_format] split: if_split) simp
  qed
qed

lemma shrinks_rest [shrinking]: "shrinks (receive_rest env dst sz f tms tid n err0)"
  unfolding receive_rest_def by (split option.split) (intro conjI allI impI shrinking)

lemma shrinks_contents [shrinking]: "shrinks (receive_contents env dst sz f tms)"
proof -
  have "shrinks (\<lambda>s. let ps = pieces (se_cut env) (nat sz) (sc_in s); got = length (concat ps) in
       case copy_in f ps (if int got < sz \<and> se_end env \<noteq> EOF then Some (se_end env) else None) 0 (sc_world s) of
         ((n, err0), w) \<Rightarrow>
           receive_rest env dst sz f tms tid n err0 (s\<lparr>sc_world := w, sc_in := drop got (sc_in s)\<rparr>))" for tid
  proof -
    have r: "length (sc_in (snd (receive_rest env dst sz f tms tid n err0 (s\<lparr>sc_world := w, sc_in := drop g (sc_in s)\<rparr>)))) \<le> length (sc_in s)" for n err0 w g s
    proof -
      have "length (sc_in (snd (receive_rest env dst sz f tms tid n err0 u))) \<le> length (sc_in u)" for u
        using shrinks_rest unfolding shrinks_def by blast
      from this [of "s\<lparr>sc_world := w, sc_in := drop g (sc_in s)\<rparr>"] show ?thesis by (rule order_trans) simp
    qed
    show ?thesis unfolding shrinks_def by (simp add: Let_def r split: prod.split)
  qed
  then show ?thesis unfolding receive_contents_def by (intro shrinking) auto
qed

lemma shrinks_file [shrinking]: "shrinks (sink_file env mode sz tms dirs dst)" "shrinks (receive_dir env mode tms dirs dst)"
  unfolding sink_file_def receive_dir_def Let_def by (intro shrinking)+

lemma shrinks_records [shrinking]:
  "shrinks (receive_file_record env target header tms dirs)" "shrinks (receive_dir_record env target recursive header tms dirs)"
  unfolding receive_file_record_def receive_dir_record_def
  by (auto split: sum.split intro!: shrinking shrinks_dep [where k = "sink_file env _ _ tms dirs"] shrinks_dep [where k = "receive_dir env _ tms dirs"])

lemma shrinks_record [shrinking]: "shrinks (sink_record env target recursive header tms dirs)"
proof -
  have a: "shrinks (sink_ack env nx)" for nx :: "((int \<times> int) option \<times> sink_dirs) option"
    unfolding sink_ack_def by (intro shrinking)
  have "shrinks (leave_dir env tms dirs)"
    unfolding leave_dir_def by (auto split: list.split option.split intro!: shrinks_whatever shrinks_basic a)
  then show ?thesis unfolding sink_record_def by (intro shrinking a)
qed

lemma sink_step_shorter:
  assumes "sink_step env target recursive tms dirs s = (Inr (Some next), s1)"
  shows "length (sc_in s1) < length (sc_in s)"
proof -
  obtain r rest where c: "control_line ''scp'' (se_end env) [] (sc_in s) = (r, rest)" by fastforce
  have l: "length (sc_in (snd (sink_record env target recursive h tms dirs t))) \<le> length (sc_in t)" for h t
    using shrinks_record unfolding shrinks_def by blast
  show ?thesis
  proof (cases r)
    case (Inl e)
    then show ?thesis using assms by (auto simp: sink_step_def after_def readSCPLE_def c pass_def fails_def split: if_splits)
  next
    case (Inr line)
    then have "sink_record env target recursive (trim_space line) tms dirs (s\<lparr>sc_in := rest\<rparr>) = (Inr (Some next), s1)"
      using assms by (simp add: sink_step_def after_def readSCPLE_def c)
    then have "length (sc_in s1) \<le> length rest" using l [of "trim_space line" "s\<lparr>sc_in := rest\<rparr>"] by simp
    then show ?thesis using control_line_shorter [OF c] Inr by simp
  qed
qed

text \<open>The loop of \<^verbatim>\<open>runSCPSink\<close>; every turn that goes on has consumed a line.\<close>

function sink_loop :: "'w scpEnv \<Rightarrow> string \<Rightarrow> bool \<Rightarrow> (int \<times> int) option \<Rightarrow> sink_dirs \<Rightarrow> 'w scp \<Rightarrow> unit res \<times> 'w scp" where
  "sink_loop env target recursive tms dirs s =
     (case sink_step env target recursive tms dirs s of
        (Inl e, s1) \<Rightarrow> (Inl e, s1)
      | (Inr None, s1) \<Rightarrow> (Inr (), s1)
      | (Inr (Some (tms1, dirs1)), s1) \<Rightarrow> sink_loop env target recursive tms1 dirs1 s1)"
  by pat_completeness auto

termination
  by (relation "measure (\<lambda>(env, target, recursive, tms, dirs, s). length (sc_in s))") (auto dest: sink_step_shorter [OF sym])

declare sink_loop.simps [simp del]

definition runSCPSink :: "'w scpEnv \<Rightarrow> string \<Rightarrow> bool \<Rightarrow> ('w, unit) act" where
  "runSCPSink env target recursive = after (ch_write env [CHR 0x00]) fails (\<lambda>_. sink_loop env target recursive None [])"

definition runSCP :: "'w scpEnv \<Rightarrow> scpRequest \<Rightarrow> ('w, unit) act" where
  "runSCP env req =
     (case rq_mode req of
        Some Source \<Rightarrow> runSCPSource env (normalizeSCPPath (rq_target req)) req
      | Some Sink \<Rightarrow> runSCPSink env (normalizeSCPPath (rq_target req)) (rq_recursive req)
      | None \<Rightarrow> fails (ErrMsg ''unknown scp mode: ''))"

end
