(* ===== verification/Ssh_Server.thy ===== *)
theory Ssh_Server
  imports Scp
begin

text \<open>
  The SSH server of \<^verbatim>\<open>internal/protocol/sftp/server.go\<close> around SFTP and SCP: the sign-in callbacks, the access policy carried
  in the SSH permissions, the session of a connection, the requests of a channel, and admission.  The SSH transport itself is a
  library: it calls the callbacks and delivers channel requests.  The shared parts of the server are the record \<open>shared\<close> of
  the FTP server.
\<close>

record sshPermissions =
  sp_username :: string
  sp_userID :: string
  sp_maxSessions :: string
  sp_protocols :: string

record 'w sshEnv =
  sh_auth :: authlib
  sh_engine :: engine
  sh_buildFS :: "string \<Rightarrow> 'w \<Rightarrow> 'w filesystem res \<times> 'w"
  sh_release :: "'w filesystem \<Rightarrow> 'w \<Rightarrow> 'w"
  sh_ulid :: "nat \<Rightarrow> string"
  sh_fmtTime :: "int \<Rightarrow> string"
  sh_connID :: nat
  sh_fuel :: nat

section \<open>Sign-in\<close>

definition ssh_emit :: "string \<Rightarrow> string \<Rightarrow> string \<Rightarrow> string \<Rightarrow> string \<Rightarrow> string \<Rightarrow> string \<Rightarrow> 'w shared \<Rightarrow> 'w shared" where
  "ssh_emit ty user protocol p ip status msg sh =
     sh\<lparr>f_audit := map_option (\<lambda>es. es @ [\<lparr>ev_Type = ty, ev_Username = user, ev_Protocol = protocol, ev_Path = p,
          ev_IP = ip, ev_Status = status, ev_Message = msg, ev_Meta = []\<rparr>]) (f_audit sh)\<rparr>"

definition sshPermissions_of :: "user \<Rightarrow> sshPermissions" where
  "sshPermissions_of u =
     \<lparr>sp_username = u_Username u, sp_userID = u_ID u, sp_maxSessions = show_int (u_MaxSessions u),
      sp_protocols = join_with '','' (u_AllowedProtocols u)\<rparr>"

definition checkAccess :: "user \<Rightarrow> string \<Rightarrow> int \<Rightarrow> 'w shared \<Rightarrow> autherr option" where
  "checkAccess u remote now sh =
     (case CheckAccess u remote now [ProtocolSFTP, ProtocolSCP] of
        Some e \<Rightarrow> Some e
      | None \<Rightarrow>
          if u_MaxSessions u > 0 \<and> int (CountUser (f_sessions sh) (u_Username u)) \<ge> u_MaxSessions u then Some ErrTooManySessions
          else None)"

text \<open>\<^verbatim>\<open>strings.Split(s, ",")\<close> of the carried protocols, and the test.\<close>

definition sshProtocolAllowed :: "string list \<Rightarrow> string \<Rightarrow> bool" where
  "sshProtocolAllowed allowed protocol \<longleftrightarrow> allowed = [] \<or> allowed = [[]] \<or> protocol \<in> set allowed"

datatype decision = Rejected autherr | Granted sshPermissions | Crashed

definition passwordCallback :: "'w sshEnv \<Rightarrow> int \<Rightarrow> string \<Rightarrow> string \<Rightarrow> string \<Rightarrow> 'w shared \<Rightarrow> decision \<times> 'w shared" where
  "passwordCallback env now name remote password sh =
     (case throttle_Check (f_throttle sh) remote now of
        Some banErr \<Rightarrow> (Rejected banErr, ssh_emit ''auth.failure'' name ''sftp'' [] remote ''failed'' (auth_text banErr) sh)
      | None \<Rightarrow>
          (case authenticate (sh_auth env) (sh_engine env) (sh_ulid env (f_ulids sh)) now name password (f_users sh) of
             (r, users) \<Rightarrow>
               let sh1 = sh\<lparr>f_users := users, f_ulids := Suc (f_ulids sh)\<rparr> in
               (case r of
                  Inl authErr \<Rightarrow>
                    (Rejected (AuthMsg ''invalid credentials''),
                     ssh_emit ''auth.failure'' name ''sftp'' [] remote ''failed'' (auth_text authErr)
                       (sh1\<lparr>f_throttle := snd (RecordFailure remote now (f_throttle sh1))\<rparr>))
                | Inr found \<Rightarrow>
                    let sh2 = sh1\<lparr>f_throttle := RecordSuccess remote (f_throttle sh1)\<rparr> in
                    (case found of
                       None \<Rightarrow> (Crashed, sh2)
                     | Some user \<Rightarrow>
                         (case checkAccess user remote now sh2 of
                            Some accessErr \<Rightarrow>
                              (Rejected accessErr,
                               ssh_emit ''auth.failure'' (u_Username user) ''sftp'' [] remote ''failed'' (auth_text accessErr) sh2)
                          | None \<Rightarrow>
                              (Granted (sshPermissions_of user),
                               ssh_emit ''auth.success'' (u_Username user) ''sftp'' [] remote ''ok'' ''login success''
                                 (sh2\<lparr>f_users := snd (RecordSuccessfulLogin now (u_ID user) (f_users sh2))\<rparr>)))))))"

definition publicKeyCallback :: "'w sshEnv \<Rightarrow> int \<Rightarrow> string \<Rightarrow> string \<Rightarrow> bytes \<Rightarrow> 'w shared \<Rightarrow> decision \<times> 'w shared" where
  "publicKeyCallback env now name remote key sh =
     (case throttle_Check (f_throttle sh) remote now of
        Some banErr \<Rightarrow> (Rejected banErr, sh)
      | None \<Rightarrow>
          (case AuthenticatePublicKey (sh_auth env) now name key (f_users sh) of
             (Inl authErr, users) \<Rightarrow>
               (Rejected (AuthMsg ''invalid public key''),
                ssh_emit ''auth.failure'' name ''sftp'' [] remote ''failed'' (auth_text authErr) (sh\<lparr>f_users := users\<rparr>))
           | (Inr user, users) \<Rightarrow>
               (case checkAccess user remote now sh of
                  Some accessErr \<Rightarrow>
                    (Rejected accessErr,
                     ssh_emit ''auth.failure'' (u_Username user) ''sftp'' [] remote ''failed'' (auth_text accessErr) (sh\<lparr>f_users := users\<rparr>))
                | None \<Rightarrow>
                    (Granted (sshPermissions_of user),
                     ssh_emit ''auth.success'' (u_Username user) ''sftp'' [] remote ''ok'' ''public key login success'' (sh\<lparr>f_users := users\<rparr>)))))"

section \<open>A connection\<close>

record 'w sshConn =
  sn_fs :: "'w filesystem"
  sn_username :: string
  sn_remote :: string
  sn_allowed :: "string list"
  sn_session :: session

text \<open>\<^verbatim>\<open>handleConn\<close> from the end of the handshake to the first channel; \<open>None\<close> when it returns before.\<close>

definition ssh_open :: "'w sshEnv \<Rightarrow> int \<Rightarrow> string \<Rightarrow> sshPermissions \<Rightarrow> 'w shared \<Rightarrow> 'w sshConn option \<times> 'w shared" where
  "ssh_open env now remote p sh =
     (case sh_buildFS env (sp_username p) (f_world sh) of
        (Inl e, w) \<Rightarrow> (None, sh\<lparr>f_world := w\<rparr>)
      | (Inr userFS, w) \<Rightarrow>
          let sh1 = sh\<lparr>f_world := w, f_ulids := Suc (f_ulids sh)\<rparr> in
          (case StartLimited (sh_ulid env (f_ulids sh)) now (sp_username p) ''sftp'' remote (fst (Atoi (sp_maxSessions p))) (f_sessions sh) of
             ((None, _), _) \<Rightarrow>
               (None, (ssh_emit ''auth.failure'' (sp_username p) ''sftp'' [] remote ''failed'' (auth_text ErrTooManySessions) sh1)
                  \<lparr>f_world := sh_release env userFS w\<rparr>)
           | ((Some sess, _), m) \<Rightarrow>
               (Some \<lparr>sn_fs = userFS, sn_username = sp_username p, sn_remote = remote,
                      sn_allowed = split_on CHR '','' (sp_protocols p), sn_session = sess\<rparr>,
                sh1\<lparr>f_sessions := snd (AttachTerminator (ss_ID sess) (Some (sh_connID env)) m)\<rparr>)))"

definition ssh_close :: "'w sshEnv \<Rightarrow> 'w sshConn \<Rightarrow> 'w shared \<Rightarrow> 'w shared" where
  "ssh_close env c sh =
     sh\<lparr>f_sessions := snd (sess_End (ss_ID (sn_session c)) (f_sessions sh)), f_world := sh_release env (sn_fs c) (f_world sh)\<rparr>"

section \<open>A channel\<close>

datatype chanRequest = Subsystem bytes | Exec bytes | OtherRequest

record chanIn =
  ci_bytes :: bytes
  ci_end :: goerr
  ci_cut :: "bytes \<Rightarrow> nat"
  ci_room :: "nat option"
  ci_writeErr :: goerr
  ci_now :: int

text \<open>The answers to the requests, what was written to the channel, the exit status, and a panic that closed the channel.\<close>

record chanOut =
  co_replies :: "bool list"
  co_bytes :: bytes
  co_exit :: "int option"
  co_stopped :: bool

definition run_sftp_channel :: "'w sshEnv \<Rightarrow> 'w sshConn \<Rightarrow> chanIn \<Rightarrow> 'w shared \<Rightarrow> chanOut \<times> 'w shared" where
  "run_sftp_channel env c i sh =
     (let s = runSFTP \<lparr>e_username = sn_username c, e_remoteIP = sn_remote c, e_ulid = sh_ulid env, e_fmtTime = sh_fmtTime env\<rparr>
                (sn_fs c) (ci_bytes i) (f_world sh) (f_audit sh) (f_xfer sh) (f_ulids sh) (ci_now i)
      in (\<lparr>co_replies = [True], co_bytes = h_out s, co_exit = (if h_stopped s then None else Some 0), co_stopped = h_stopped s\<rparr>,
          sh\<lparr>f_world := h_world s, f_audit := h_audit s, f_xfer := h_xfer s, f_ulids := h_ulids s\<rparr>))"

definition run_scp_channel :: "'w sshEnv \<Rightarrow> 'w sshConn \<Rightarrow> chanIn \<Rightarrow> scpRequest \<Rightarrow> 'w shared \<Rightarrow> chanOut \<times> 'w shared" where
  "run_scp_channel env c i req sh =
     (case runSCP \<lparr>se_fs = sn_fs c, se_username = sn_username c, se_remoteAddr = sn_remote c, se_ulid = sh_ulid env, se_now = ci_now i,
                   se_end = ci_end i, se_cut = ci_cut i, se_writeErr = ci_writeErr i, se_fuel = sh_fuel env\<rparr> req
            \<lparr>sc_world = f_world sh, sc_in = ci_bytes i, sc_out = [], sc_room = ci_room i, sc_xfer = f_xfer sh, sc_audit = f_audit sh,
             sc_ulids = f_ulids sh\<rparr> of
        (r, s) \<Rightarrow>
          (\<lparr>co_replies = [True], co_bytes = sc_out s,
            co_exit = (case r of Inr _ \<Rightarrow> Some 0 | Inl e \<Rightarrow> if stops e then None else Some 1),
            co_stopped = (case r of Inr _ \<Rightarrow> False | Inl e \<Rightarrow> stops e)\<rparr>,
           sh\<lparr>f_world := sc_world s, f_audit := sc_audit s, f_xfer := sc_xfer s, f_ulids := sc_ulids s\<rparr>))"

definition refuse :: "chanOut \<Rightarrow> chanOut" where
  "refuse o' = o'\<lparr>co_replies := False # co_replies o'\<rparr>"

definition no_output :: chanOut where
  "no_output = \<lparr>co_replies = [], co_bytes = [], co_exit = None, co_stopped = False\<rparr>"

text \<open>\<^verbatim>\<open>handleSessionChannel\<close>.\<close>

fun handleSessionChannel :: "'w sshEnv \<Rightarrow> 'w sshConn \<Rightarrow> chanIn \<Rightarrow> chanRequest list \<Rightarrow> 'w shared \<Rightarrow> chanOut \<times> 'w shared" where
  "handleSessionChannel env c i [] sh = (no_output, sh)"
| "handleSessionChannel env c i (Subsystem payload # rs) sh =
     (if length payload \<ge> 4 \<and> drop 4 payload = ''sftp'' then
        (if \<not> sshProtocolAllowed (sn_allowed c) ProtocolSFTP then
           map_prod refuse (\<lambda>x. x)
             (handleSessionChannel env c i rs
               (ssh_emit ''auth.failure'' (sn_username c) ''sftp'' [] (sn_remote c) ''failed'' (auth_text ErrProtocolNotAllowed) sh))
         else run_sftp_channel env c i sh)
      else map_prod refuse (\<lambda>x. x) (handleSessionChannel env c i rs sh))"
| "handleSessionChannel env c i (Exec payload # rs) sh =
     (case parseExecPayload payload of
        Inl _ \<Rightarrow> (refuse no_output, sh)
      | Inr command \<Rightarrow>
          (case parseSCPExec command of
             Inl _ \<Rightarrow> (refuse no_output, sh)
           | Inr req \<Rightarrow>
               if \<not> sshProtocolAllowed (sn_allowed c) ProtocolSCP then
                 (refuse no_output,
                  ssh_emit ''auth.failure'' (sn_username c) ''scp'' [] (sn_remote c) ''failed'' (auth_text ErrProtocolNotAllowed) sh)
               else run_scp_channel env c i req sh))"
| "handleSessionChannel env c i (OtherRequest # rs) sh = map_prod refuse (\<lambda>x. x) (handleSessionChannel env c i rs sh)"

section \<open>Connections\<close>

text \<open>
  What happens on a connection: a session channel is opened and served, or other connections change what is shared.  Channels that
  overlap in time interleave their calls; here each is served at once.
\<close>

datatype 'w sshEvent = Channel chanIn "chanRequest list" | Elsewhere "'w shared \<Rightarrow> 'w shared"

fun ssh_run :: "'w sshEnv \<Rightarrow> 'w sshConn \<Rightarrow> 'w sshEvent list \<Rightarrow> 'w shared \<Rightarrow> chanOut list \<times> 'w shared" where
  "ssh_run env c [] sh = ([], sh)"
| "ssh_run env c (Channel i rs # es) sh =
     (case handleSessionChannel env c i rs (sh\<lparr>f_sessions := Touch (ci_now i) (ss_ID (sn_session c)) (f_sessions sh)\<rparr>) of
        (o1, sh1) \<Rightarrow> (case ssh_run env c es sh1 of (os, sh2) \<Rightarrow> (o1 # os, sh2)))"
| "ssh_run env c (Elsewhere g # es) sh = ssh_run env c es (g sh)"

definition ssh_handleConn :: "'w sshEnv \<Rightarrow> int \<Rightarrow> string \<Rightarrow> sshPermissions \<Rightarrow> 'w sshEvent list \<Rightarrow> 'w shared \<Rightarrow> chanOut list \<times> 'w shared" where
  "ssh_handleConn env now remote p es sh =
     (case ssh_open env now remote p sh of
        (None, sh1) \<Rightarrow> ([], sh1)
      | (Some c, sh1) \<Rightarrow> (case ssh_run env c es sh1 of (os, sh2) \<Rightarrow> (os, ssh_close env c sh2)))"

definition ssh_admit :: "ipFilter option \<Rightarrow> string \<Rightarrow> gate \<Rightarrow> (nat option) option \<times> gate" where
  "ssh_admit filt remote g =
     (let rejected = (\<lambda>reason g. g\<lparr>gt_audit := map_option (\<lambda>es. es @ [\<lparr>ev_Type = ''connection.rejected'', ev_Username = [],
             ev_Protocol = ''sftp'', ev_Path = [], ev_IP = remote, ev_Status = ''rejected'', ev_Message = reason, ev_Meta = []\<rparr>]) (gt_audit g)\<rparr>)
      in if \<not> AllowedRemote filt remote then (None, g)
         else
           (case TryAcquire (gt_limiter g) of
              (False, _) \<Rightarrow> (None, rejected ''max connections reached'' g)
            | (True, l) \<Rightarrow>
                (case Acquire remote (gt_perIP g) of
                   ((_, False), ips) \<Rightarrow>
                     (None, rejected ''max connections per ip reached'' (g\<lparr>gt_limiter := give_back l, gt_perIP := ips\<rparr>))
                 | ((rel, True), ips) \<Rightarrow> (Some rel, g\<lparr>gt_limiter := l, gt_perIP := ips\<rparr>))))"

end
