(* ===== verification/Ftp_Text_Props.thy ===== *)
theory Ftp_Text_Props
  imports Ftp_Commands
begin

text \<open>
  What the text handling of the FTP server satisfies: numbers, addresses and time stamps are read back as they were written,
  the address of a \<^verbatim>\<open>PASV\<close> reply is the address \<^verbatim>\<open>PORT\<close> reads, an accepted active target is the peer itself, and how long a
  control line may be.
\<close>

section \<open>Numbers\<close>

lemma digit_char: "n < 10 \<Longrightarrow> is_digit (char_of (48 + n)) \<and> digit_value (char_of (48 + n)) = int n" for n :: nat
  using of_nat_of_char [of "char_of (48 + n)", where 'a = int] by (simp add: is_digit_def digit_value_def less_eq_char_def)

lemma digits_digit: "list_all is_digit (digits k n)"
  by (induction k n rule: digits.induct) (use digit_char in auto)

lemma digits_nonempty: "digits (Suc k) n \<noteq> []"
  by simp

lemma from_digits_snoc: "from_digits b (xs @ [x]) = from_digits b xs * b + x"
  by (simp add: from_digits_def)

lemma decimal_digits: "n < k \<Longrightarrow> decimal (digits k n) = int n"
proof (induction k n rule: digits.induct)
  case (2 k n)
  show ?case
  proof (cases "n < 10")
    case True
    then show ?thesis using digit_char [of n] by (simp add: decimal_def from_digits_def)
  next
    case False
    then have "decimal (digits k (n div 10)) = int (n div 10)" using 2 by simp
    then show ?thesis using False digit_char [of "n mod 10"]
      by (simp add: decimal_def from_digits_snoc) (simp add: zdiv_int zmod_int)
  qed
qed simp

lemma show_nat: "0 \<le> i \<Longrightarrow> show_int i = digits (Suc (nat i)) (nat i)"
  by (simp add: show_int_def)

lemma show_int_digits: "0 \<le> i \<Longrightarrow> list_all is_digit (show_int i) \<and> show_int i \<noteq> []"
  by (simp only: show_nat digits_digit digits_nonempty simp_thms not_False_eq_True)

lemma decimal_show_int: "0 \<le> i \<Longrightarrow> decimal (show_int i) = i"
  using decimal_digits [of "nat i" "Suc (nat i)"] by (simp add: show_nat del: digits.simps)

lemma not_digit: "\<not> is_digit CHR ''-''" "\<not> is_digit CHR ''+''" "\<not> is_digit CHR '':''" "\<not> is_digit CHR ''.''" "\<not> is_digit CHR '',''"
  "\<not> is_digit CHR ''[''" "\<not> is_digit CHR '']''" "\<not> is_digit CHR ''%''"
  by (simp_all add: is_digit_def)

lemma Atoi_digits:
  assumes "ds \<noteq> []" "list_all is_digit ds" "decimal ds \<le> max_int64" "0 \<le> decimal ds"
  shows "Atoi ds = (decimal ds, True)"
proof -
  have "hd ds \<noteq> CHR ''-''" "hd ds \<noteq> CHR ''+''" using assms(1,2) not_digit by (cases ds; auto)+
  then show ?thesis using assms by (simp add: Atoi_def Let_def max_int64_def)
qed

lemma Atoi_show_int [simp]: "0 \<le> i \<Longrightarrow> i \<le> max_int64 \<Longrightarrow> Atoi (show_int i) = (i, True)"
  using Atoi_digits [of "show_int i"] show_int_digits [of i] decimal_show_int [of i] by simp

lemma digit_plain: "is_digit c \<Longrightarrow> plain_char c"
  by (simp add: is_digit_def plain_char_def less_eq_char_def)

lemma trim_digits: "list_all is_digit s \<Longrightarrow> trim_space s = s"
proof (cases "s = []")
  case True
  then show ?thesis by (simp add: trim_space_def)
next
  case False
  assume "list_all is_digit s"
  then show ?thesis using False by (intro trim_space_plain) (auto simp: list_all_iff intro: digit_plain)
qed

lemma digits_head: "0 < n \<Longrightarrow> n < k \<Longrightarrow> hd (digits k n) \<noteq> CHR ''0''"
proof (induction k n rule: digits.induct)
  case (2 k n)
  show ?case
  proof (cases "n < 10")
    case True
    have "digit_value CHR ''0'' = 0" by (simp add: digit_value_def)
    then have "char_of (48 + n) \<noteq> CHR ''0''" using digit_char [OF True] 2(2) by auto
    then show ?thesis using True 2(2) by simp
  next
    case False
    then have k: "k \<noteq> 0" using 2(3) by auto
    have "hd (digits k (n div 10)) \<noteq> CHR ''0''" using 2 False by simp
    moreover have "digits k (n div 10) \<noteq> []" using k digits_nonempty by (metis not0_implies_Suc)
    ultimately show ?thesis using False by simp
  qed
qed simp

lemma parse_octet_show: 
  assumes "0 \<le> i" "i \<le> 255"
  shows "parse_octet (show_int i) = Some i"
proof -
  have d: "list_all (\<lambda>c. CHR ''0'' \<le> c \<and> c \<le> CHR ''9'') (show_int i)" "show_int i \<noteq> []"
    using show_int_digits [OF assms(1)] by (simp_all add: is_digit_def [abs_def])
  have z: "\<not> (hd (show_int i) = CHR ''0'' \<and> length (show_int i) > 1)"
  proof (cases "i = 0")
    case True
    then show ?thesis by (simp add: show_int_def)
  next
    case False
    then show ?thesis using digits_head [of "nat i" "Suc (nat i)"] assms by (simp only: show_nat) simp
  qed
  have "foldl (\<lambda>a c. a * 10 + digit_value c) 0 (show_int i) = decimal (show_int i)"
    by (simp add: decimal_def from_digits_def foldl_map)
  then show ?thesis using d z assms decimal_show_int [OF assms(1)] by (auto simp: parse_octet_def Let_def)
qed


section \<open>Addresses\<close>

lemma join_with_chars: "c \<in> set (join_with sep xs) \<Longrightarrow> c \<in> set sep \<or> (\<exists>x\<in>set xs. c \<in> set x)"
  by (induction sep xs rule: join_with.induct) auto

lemma show_v4_chars: "c \<in> set (show_v4 w) \<Longrightarrow> c = CHR ''.'' \<or> is_digit c"
  using show_int_digits by (fastforce simp: show_v4_def list_all_iff dest: join_with_chars)

lemma hex_digit_chars: "c = hex_digit n \<Longrightarrow> n < 16 \<Longrightarrow> c \<notin> set ''[]%''"
  by (auto simp: hex_digit_def char_of_eq_iff take_bit_eq_mod)

lemma show_hex_chars: "0 \<le> n \<Longrightarrow> c \<in> set (show_hex k n) \<Longrightarrow> c \<notin> set ''[]%''"
proof (induction k n rule: show_hex.induct)
  case (2 k n)
  have "nat n < 16" if "n < 16" using that by simp
  moreover have "nat (n mod 16) < 16" by simp
  ultimately show ?case using 2 hex_digit_chars [of c] by (auto simp: pos_imp_zdiv_nonneg_iff split: if_splits)
qed simp

lemma show_v6_chars: "c \<in> set (show_v6 w) \<Longrightarrow> c \<notin> set ''[]%''"
proof -
  have hx: "c \<notin> set ''[]%''" if "c \<in> set (join_with '':'' (map (show_hex 4) g))" "set g \<subseteq> set (groups_of w)" for g
  proof -
    have "0 \<le> x" if "x \<in> set (groups_of w)" for x using that by (auto simp: groups_of_def)
    then have "c \<notin> set ''[]%''" if "x \<in> set g" "c \<in> set (show_hex 4 x)" for x
      using that \<open>set g \<subseteq> set (groups_of w)\<close> show_hex_chars by blast
    then show ?thesis using join_with_chars [OF that(1)] by auto
  qed
  assume c: "c \<in> set (show_v6 w)"
  show ?thesis
  proof (cases "longest_run (groups_of w)")
    case None
    then show ?thesis using c hx [of "groups_of w"] by (simp add: show_v6_def Let_def)
  next
    case (Some r)
    obtain i l where r: "r = (i, l)" by fastforce
    have "c \<in> set (join_with '':'' (map (show_hex 4) (take i (groups_of w)))) \<or> c = CHR '':''
        \<or> c \<in> set (join_with '':'' (map (show_hex 4) (drop (i + l) (groups_of w))))"
      using c by (auto simp del: show_hex.simps simp: show_v6_def Let_def Some r)
    then show ?thesis
      using hx [of "take i (groups_of w)"] hx [of "drop (i + l) (groups_of w)"] by (auto simp: set_take_subset set_drop_subset)
  qed
qed

lemma show_addr_chars:
  assumes "c \<in> set (show_addr a)"
  shows "c \<noteq> CHR ''['' \<and> c \<noteq> CHR '']'' \<and> c \<noteq> CHR ''%''"
proof (cases "\<exists>w. a = V6 w \<and> \<not> Is4In6 a")
  case True
  then show ?thesis using assms show_v6_chars [of c] by (auto simp: show_addr_def)
next
  case False
  then have "c \<in> set ''::ffff:'' \<or> (\<exists>w. c \<in> set (show_v4 w))"
    using assms by (cases a) (auto simp: show_addr_def)
  then show ?thesis using show_v4_chars not_digit by auto
qed

lemma split_join_host:
  assumes "CHR ''['' \<notin> set h" "CHR '']'' \<notin> set h" "list_all is_digit p"
  shows "SplitHostPort (JoinHostPort h p) = Some h" "split_port (JoinHostPort h p) = p"
proof -
  have p: "CHR '':'' \<notin> set p" "CHR ''['' \<notin> set p" "CHR '']'' \<notin> set p"
    using assms(3) not_digit by (auto simp: list_all_iff)
  have lst: "last_index_byte CHR '':'' (x @ CHR '':'' # p) = Some (length x)" for x
  proof -
    have "takeWhile (\<lambda>x. x \<noteq> CHR '':'') (rev p @ CHR '':'' # rev x) = rev p"
      using p(1) by (subst takeWhile_append2) auto
    then show ?thesis by (simp add: last_index_byte_def)
  qed
  consider (v6) "CHR '':'' \<in> set h" | (v4) "CHR '':'' \<notin> set h" by blast
  then show "SplitHostPort (JoinHostPort h p) = Some h" 
  proof cases
    case v6
    have j: "JoinHostPort h p = (''['' @ h @ '']'') @ CHR '':'' # p" using v6 by (simp add: JoinHostPort_def)
    have "takeWhile (\<lambda>x. x \<noteq> CHR '']'') ((''['' @ h @ '']'') @ CHR '':'' # p) = ''['' @ h"
      using assms(2) by (simp, subst takeWhile_append2) auto
    then have e: "index_byte CHR '']'' ((''['' @ h @ '']'') @ CHR '':'' # p) = Some (Suc (length h))"
      by (simp add: index_byte_def)
    show ?thesis unfolding SplitHostPort_def j lst option.case e
      using assms p by simp
  next
    case v4
    then have j: "JoinHostPort h p = h @ CHR '':'' # p" by (simp add: JoinHostPort_def)
    have "hd (h @ CHR '':'' # p) \<noteq> CHR ''[''" using assms(1) by (cases h) auto
    then show ?thesis unfolding SplitHostPort_def j lst option.case
      using assms p v4 by simp
  qed
  have "JoinHostPort h p = (if CHR '':'' \<in> set h then ''['' @ h @ '']'' else h) @ CHR '':'' # p"
    by (simp add: JoinHostPort_def)
  then show "split_port (JoinHostPort h p) = p" unfolding split_port_def
    by (simp only: lst option.case) simp
qed

lemma octet_of: "uint (drop_bit n w AND 0xFF) = uint (w :: 32 word) div 2 ^ n mod 256"
proof -
  have m: "(0xFF :: 32 word) = mask 8" by (simp add: mask_eq_exp_minus_1)
  show ?thesis
    unfolding m take_bit_eq_mask [symmetric] unsigned_take_bit_eq [where 'a=int] unsigned_drop_bit_eq [where 'a=int]
    using uint_lt2p [of w] by (simp add: take_bit_eq_mod drop_bit_eq_div)
qed

definition octets_of :: "32 word \<Rightarrow> int list" where
  "octets_of w = map (\<lambda>i. uint (drop_bit (8 * i) w AND 0xFF)) [3, 2, 1, 0]"

lemma octets_of_range: "x \<in> set (octets_of w) \<Longrightarrow> 0 \<le> x \<and> x \<le> 255"
  by (auto simp: octets_of_def octet_of)

lemma octets_of_length [simp]: "length (octets_of w) = 4"
  by (simp add: octets_of_def)

lemma div_256: "(x :: int) div 65536 = x div 256 div 256" "x div 16777216 = x div 256 div 256 div 256"
  by (simp_all add: zdiv_zmult2_eq [symmetric])

lemma octets_of_value: "from_digits 256 (octets_of w) = uint w"
proof -
  have "uint w < 2 ^ 32" using uint_lt2p [of w] by simp
  then have top: "uint w div 16777216 mod 256 = uint w div 16777216"
    using uint_ge_0 [of w] by (intro mod_pos_pos_trivial) (simp_all add: pos_imp_zdiv_nonneg_iff)
  have "from_digits 256 (octets_of w) =
      ((uint w div 16777216 * 256 + uint w div 65536 mod 256) * 256 + uint w div 256 mod 256) * 256 + uint w mod 256"
    by (simp add: octets_of_def octet_of from_digits_def top)
  then show ?thesis unfolding div_256 by (simp only: div_mult_mod_eq)
qed

lemma show_v4_octets: "show_v4 w = join_with ''.'' (map show_int (octets_of w))"
  by (simp add: show_v4_def octets_of_def)

lemma split_show_ints:
  assumes "xs \<noteq> []" "\<forall>x\<in>set xs. 0 \<le> x" "\<not> is_digit c"
  shows "split_on c (join_with [c] (map show_int xs)) = map show_int xs"
proof (rule split_join)
  show "\<forall>x\<in>set (map show_int xs). c \<notin> set x"
    using assms show_int_digits by (auto simp: list_all_iff)
qed (use assms in simp)

lemma parse_octets_show: "parse_octets (show_v4 w) = Some (octets_of w)"
proof -
  have "split_on CHR ''.'' (show_v4 w) = map show_int (octets_of w)"
    unfolding show_v4_octets using octets_of_range not_digit by (intro split_show_ints) (auto simp: octets_of_def)
  moreover have "map parse_octet (map show_int (octets_of w)) = map Some (octets_of w)"
    using octets_of_range parse_octet_show by auto
  ultimately show ?thesis by (simp add: parse_octets_def Let_def comp_def) (simp add: map_idI)
qed

lemma show_v4_shape: obtains a b where "show_v4 w = a @ CHR ''.'' # b" "list_all is_digit a" "a \<noteq> []"
proof -
  obtain i j k l where o: "octets_of w = [i, j, k, l]" by (auto simp: octets_of_def)
  then have "0 \<le> i" using octets_of_range [of i w] by simp
  then show ?thesis
    using that [of "show_int i" "join_with ''.'' (map show_int [j, k, l])"] show_int_digits [of i] by (simp add: show_v4_octets o)
qed

lemma ParseAddr_show_v4 [simp]: "ParseAddr (show_v4 w) = Some (V4 w)"
proof -
  obtain a b where s: "show_v4 w = a @ CHR ''.'' # b" "list_all is_digit a" by (rule show_v4_shape)
  have "dropWhile (\<lambda>c. c \<noteq> CHR ''.'' \<and> c \<noteq> CHR '':'' \<and> c \<noteq> CHR ''%'') (a @ CHR ''.'' # b) = CHR ''.'' # b"
    using s(2) not_digit by (subst dropWhile_append2) (auto simp: list_all_iff)
  then show ?thesis
    using parse_octets_show [of w] octets_of_value [of w] by (simp add: ParseAddr_def s(1) parseIPv4_def)
qed

lemma ParseIP_show_v4 [simp]: "ParseIP (show_v4 w) = Some (V4 w)"
  using show_v4_chars [of "CHR ''%''" w] not_digit by (auto simp: ParseIP_def Unmap_def)

section \<open>Addresses of data connections\<close>

definition active_target :: "addr \<Rightarrow> int \<Rightarrow> string" where
  "active_target ip port = JoinHostPort (show_addr ip) (show_int port)"

lemma active_target_split:
  assumes "0 \<le> port"
  shows "SplitHostPort (active_target ip port) = Some (show_addr ip)" "split_port (active_target ip port) = show_int port"
  unfolding active_target_def using split_join_host [of "show_addr ip" "show_int port"] show_addr_chars show_int_digits [OF assms] by blast+

lemma parsePORTArg_target:
  assumes "parsePORTArg arg = Inr a"
  obtains ip port where "a = active_target ip port" "0 \<le> port" "port \<le> 65535"
proof -
  define parts where "parts = split_on CHR '','' (trim_space arg)"
  have l: "length parts = 6" and n: "None \<notin> set (map port_field parts)"
    and a: "a = active_target (V4 (word_of_int (from_digits 256 (take 4 (map (the \<circ> port_field) parts)))))
       (the (port_field (parts ! 4)) * 256 + the (port_field (parts ! 5)))"
    using assms by (auto simp: parsePORTArg_def active_target_def parts_def [symmetric] Let_def split: if_splits)
  have "0 \<le> the (port_field (parts ! i)) \<and> the (port_field (parts ! i)) \<le> 255" if "i < 6" for i
  proof -
    have "port_field (parts ! i) \<noteq> None" using n that l by (metis nth_map nth_mem length_map)
    then show ?thesis by (auto simp: port_field_def split: prod.splits if_splits)
  qed
  from this [of 4] this [of 5] show ?thesis using that [OF a] by simp
qed

lemma parseEPRTArg_target:
  assumes "parseEPRTArg arg = Inr a"
  obtains ip port where "a = active_target ip port" "0 \<le> port" "port \<le> 65535"
  using assms that by (fastforce simp: parseEPRTArg_def active_target_def Let_def split: if_splits option.splits prod.splits)

lemma lower_char_digit:
  assumes "lower_char c = d" "d = CHR ''.'' \<or> is_digit d"
  shows "c = d"
proof (rule ccontr)
  assume "c \<noteq> d"
  then have up: "CHR ''A'' \<le> c" "c \<le> CHR ''Z''" and d: "d = char_of (of_char c + 32 :: nat)"
    using assms(1) by (auto simp: lower_char_def split: if_splits)
  then have "of_char d = (of_char c + 32 :: nat)" by (simp add: less_eq_char_def)
  then show False using up assms(2) by (auto simp: is_digit_def less_eq_char_def)
qed

lemma EqualFold_v4: "EqualFold h (show_v4 w) \<longleftrightarrow> h = show_v4 w"
proof
  assume f: "EqualFold h (show_v4 w)"
  have "lower_char c = c" if "c \<in> set (show_v4 w)" for c
    using show_v4_chars [OF that] by (auto simp: lower_char_def is_digit_def less_eq_char_def)
  then have e: "map lower_char h = show_v4 w"
    using f by (simp add: EqualFold_def ToLower_def map_idI)
  have "lower_char c = c" if "c \<in> set h" for c
  proof -
    have "lower_char c \<in> set (show_v4 w)" using that e by (metis image_eqI list.set_map)
    then show ?thesis using lower_char_digit [OF refl] show_v4_chars by metis
  qed
  then show "h = show_v4 w" using e by (simp add: map_idI)
qed (simp add: EqualFold_def)

text \<open>The target of an accepted \<^verbatim>\<open>PORT\<close> or \<^verbatim>\<open>EPRT\<close> is the peer of the control connection at an unprivileged port.\<close>

lemma validateActiveTarget_spec:
  assumes "validateActiveTarget (active_target ip port) remote = []" "0 \<le> port" "port \<le> 65535"
  shows "1024 \<le> port" "hostFromAddr remote \<noteq> []" "hostsEqual (hostFromAddr remote) (show_addr ip)"
    "ip = V4 w \<Longrightarrow> ParseIP (hostFromAddr remote) = Some ip"
proof -
  have "Atoi (show_int port) = (port, True)" using assms by (simp add: max_int64_def)
  then show "1024 \<le> port" "hostFromAddr remote \<noteq> []" and h: "hostsEqual (hostFromAddr remote) (show_addr ip)"
    using assms(1) active_target_split [OF assms(2), of ip] by (auto simp: validateActiveTarget_def Let_def split: if_splits)
  assume "ip = V4 w"
  then have "hostsEqual (hostFromAddr remote) (show_v4 w)" using h by (simp add: show_addr_def)
  then show "ParseIP (hostFromAddr remote) = Some ip"
    using \<open>ip = V4 w\<close> by (auto simp: hostsEqual_def EqualFold_v4 split: option.splits)
qed

section \<open>PASV and PORT\<close>

text \<open>C39. The address of a PASV reply is one PORT reads: for every IPv4 address and port, what the server writes between the parentheses is
  parsed by the PORT command as that address and port.\<close>

theorem pasv_port_roundtrip:
  assumes "0 \<le> port" "port \<le> 65535"
  shows "parsePORTArg (pasv_text (split_on CHR ''.'' (show_v4 w)) port) = Inr (active_target (V4 w) port)"
proof -
  define nums where "nums = octets_of w @ [port div 256, port mod 256]"
  have r: "0 \<le> x \<and> x \<le> 255" if "x \<in> set nums" for x
    using that octets_of_range assms by (auto simp: nums_def pos_imp_zdiv_nonneg_iff)
  have l: "length nums = 6" by (simp add: nums_def)
  have "split_on CHR ''.'' (show_v4 w) = map show_int (octets_of w)"
    unfolding show_v4_octets using octets_of_range not_digit by (intro split_show_ints) (auto simp: octets_of_def)
  then have t: "pasv_text (split_on CHR ''.'' (show_v4 w)) port = join_with '','' (map show_int nums)"
    by (simp add: pasv_text_def nums_def)
  obtain a as where n1: "nums = a # as" using l by (cases nums) auto
  then have n: "nums = a # as" "as \<noteq> []" using l by auto
  define z where "z = last nums"
  have z: "z \<in> set nums" "a \<in> set nums" using n by (auto simp: z_def)
  have j: "join_with '','' (map show_int nums) \<noteq> []" "hd (join_with '','' (map show_int nums)) = hd (show_int a)"
    "last (join_with '','' (map show_int nums)) = last (show_int z)"
  proof -
    have ne: "show_int x \<noteq> []" if "x \<in> set nums" for x using show_int_digits r that by blast
    show "join_with '','' (map show_int nums) \<noteq> []" "hd (join_with '','' (map show_int nums)) = hd (show_int a)"
      using n ne [OF z(2)] by (cases as; simp)+
    have "butlast nums \<noteq> []" using n by simp
    then have "join_with '','' (map show_int (butlast nums) @ [show_int z]) = join_with '','' (map show_int (butlast nums)) @ '','' @ show_int z"
      by (subst join_append) simp_all
    then have "join_with '','' (map show_int (butlast nums @ [z])) = join_with '','' (map show_int (butlast nums)) @ '','' @ show_int z"
      by (simp only: map_append list.map)
    moreover have "butlast nums @ [z] = nums" using n by (simp add: z_def)
    ultimately show "last (join_with '','' (map show_int nums)) = last (show_int z)"
      using ne [OF z(1)] by (metis append_is_Nil_conv last_appendR)
  qed
  have dg: "is_digit (hd (show_int a))" "is_digit (last (show_int z))"
    using show_int_digits r z by (meson hd_in_set last_in_set list.pred_set)+
  have tr: "trim_space (join_with '','' (map show_int nums)) = join_with '','' (map show_int nums)"
    using j dg by (intro trim_space_plain) (auto intro: digit_plain)
  have sp: "split_on CHR '','' (join_with '','' (map show_int nums)) = map show_int nums"
    using r n not_digit by (intro split_show_ints) auto
  have pf: "port_field (show_int x) = Some x" if "x \<in> set nums" for x
    using r [OF that] trim_digits show_int_digits by (simp add: port_field_def max_int64_def)
  have "map port_field (map show_int nums) = map Some nums" "map (the \<circ> port_field) (map show_int nums) = nums"
    using pf by (auto simp: map_idI)
  then have "parsePORTArg (join_with '','' (map show_int nums)) =
      Inr (JoinHostPort (show_addr (V4 (word_of_int (from_digits 256 (take 4 nums))))) (show_int (nums ! 4 * 256 + nums ! 5)))"
    using l by (simp add: parsePORTArg_def tr sp Let_def)
  moreover have "take 4 nums = octets_of w" "nums ! 4 * 256 + nums ! 5 = port"
    by (simp_all add: nums_def nth_append)
  ultimately show ?thesis unfolding t by (simp add: active_target_def octets_of_value)
qed

section \<open>Control lines\<close>

lemma control_line_found:
  assumes "CHR 0x0A \<notin> set l" "length buf = bufferSize * k" "k \<le> 16"
  shows "control_line what e buf (l @ CHR 0x0A # rest) =
     (if length buf + length l < bufferSize * 17 then (Inr (buf @ l @ [CHR 0x0A]), rest)
      else (Inl (ErrMsg (what @ '' line exceeds '' @ show_int (int maxControlLineBytes) @ '' bytes'')),
            drop (bufferSize * 17 - length buf) (l @ CHR 0x0A # rest)))"
  using assms
proof (induction what e buf "l @ CHR 0x0A # rest" arbitrary: k l rule: control_line.induct)
  case (1 what e buf)
  show ?case
  proof (cases "length l < bufferSize")
    case True
    obtain j where c: "take bufferSize (l @ CHR 0x0A # rest) = l @ CHR 0x0A # take j rest"
      using True by (cases "bufferSize - length l") auto
    have tw: "takeWhile (\<lambda>c. c \<noteq> CHR 0x0A) (l @ CHR 0x0A # take j rest) = l"
      using 1(2) by (subst takeWhile_append2) auto
    have "length buf + length l < bufferSize * 17" using True 1(3,4) by (simp add: bufferSize_def)
    then show ?thesis by (subst control_line.simps, simp only: Let_def c) (simp add: tw)
  next
    case False
    then have c: "take bufferSize (l @ CHR 0x0A # rest) = take bufferSize l" "drop bufferSize (l @ CHR 0x0A # rest) = drop bufferSize l @ CHR 0x0A # rest"
      and len: "length (take bufferSize l) = bufferSize" and no: "CHR 0x0A \<notin> set (take bufferSize l)"
      using 1(2) set_take_subset by (auto dest: in_set_takeD)
    have step: "control_line what e buf (l @ CHR 0x0A # rest) =
        (if length (buf @ take bufferSize l) > maxControlLineBytes
         then (Inl (ErrMsg (what @ '' line exceeds '' @ show_int (int maxControlLineBytes) @ '' bytes'')), drop bufferSize l @ CHR 0x0A # rest)
         else control_line what e (buf @ take bufferSize l) (drop bufferSize l @ CHR 0x0A # rest))"
      using no len by (subst control_line.simps, simp only: Let_def c) simp
    show ?thesis
    proof (cases "k = 16")
      case True
      then show ?thesis unfolding step using False 1(3) len by (simp add: bufferSize_def maxControlLineBytes_def)
    next
      case k: False
      then have le: "\<not> length (buf @ take bufferSize l) > maxControlLineBytes"
        using 1(3,4) len by (simp add: bufferSize_def maxControlLineBytes_def)
      have b: "length (buf @ take bufferSize l) = bufferSize * (k + 1)" "k + 1 \<le> 16" "CHR 0x0A \<notin> set (drop bufferSize l)"
        using 1(2-4) len k by (auto dest: in_set_dropD)
      have ih: "control_line what e (buf @ take bufferSize l) (drop bufferSize l @ CHR 0x0A # rest) =
         (if length (buf @ take bufferSize l) + length (drop bufferSize l) < bufferSize * 17
          then (Inr ((buf @ take bufferSize l) @ drop bufferSize l @ [CHR 0x0A]), rest)
          else (Inl (ErrMsg (what @ '' line exceeds '' @ show_int (int maxControlLineBytes) @ '' bytes'')),
                drop (bufferSize * 17 - length (buf @ take bufferSize l)) (drop bufferSize l @ CHR 0x0A # rest)))"
        by (rule 1(1) [OF c(1) [symmetric] no _ le c(2) b(3,1,2)]) (use len in simp)
      have "16 * bufferSize - length buf + bufferSize = bufferSize * 17 - length buf"
        using 1(3,4) by (simp add: bufferSize_def)
      then show ?thesis unfolding step using le ih False by simp
    qed
  qed
qed

text \<open>
  A line is returned whole when it has at most 69,632 bytes (17 buffers), and any longer one closes the connection; the limit of
  65,536 is only checked when a whole buffer came without a newline.
\<close>

text \<open>C40. A control line is read up to its line feed and no further if it has at most 69632 bytes, and refused otherwise after
  69632 bytes.  (The constant and the error text say 65536: the check runs once per full buffer of 4096 bytes, after the addition.)\<close>

theorem control_line_limit:
  assumes "CHR 0x0A \<notin> set l"
  shows "readControlLine e (l @ CHR 0x0A # rest) =
     (if length l + 1 \<le> 69632 then (Inr (l @ [CHR 0x0A]), rest)
      else (Inl (ErrMsg (''control line exceeds '' @ show_int 65536 @ '' bytes'')), drop 69632 (l @ CHR 0x0A # rest)))"
  using control_line_found [OF assms, of "[]" 0 "''control''" e rest] by (simp add: readControlLine_def bufferSize_def maxControlLineBytes_def)

section \<open>Time stamps\<close>

text \<open>The day of a 400-year era, decomposed: \<open>c\<close> centuries, \<open>q\<close> groups of four years, \<open>r\<close> years, and the day of the year from 1 March.\<close>

lemma year_of_era:
  fixes c q r doy :: int
  assumes c: "0 \<le> c" "c < 4" and q: "0 \<le> q" "q < 25" and r: "0 \<le> r" "r < 4" and doy: "0 \<le> doy" "doy \<le> 365"
    and leap: "doy = 365 \<longrightarrow> r = 3 \<and> (q \<noteq> 24 \<or> c = 3)"
  defines "yoe \<equiv> 100 * c + 4 * q + r" and "doe \<equiv> 36524 * c + 1461 * q + 365 * r + doy"
  shows "(doe - doe div 1460 + doe div 36524 - doe div 146096) div 365 = yoe"
    and "365 * yoe + yoe div 4 - yoe div 100 + doy = doe" "0 \<le> doe" "doe < 146097"
proof -
  have e: "0 \<le> 1461 * q + 365 * r + doy" "1461 * q + 365 * r + doy \<le> 36524"
    "1461 * q + 365 * r + doy = 36524 \<Longrightarrow> c = 3"
    using assms by (auto; cases "doy = 365"; force)+
  have y: "yoe div 4 = 25 * c + q" "yoe div 100 = c"
    using assms by (simp_all add: yoe_def) 
  show d: "365 * yoe + yoe div 4 - yoe div 100 + doy = doe" "0 \<le> doe" "doe < 146097"
    using y e assms by (simp_all add: yoe_def doe_def)
  define cd where "cd = 1461 * q + 365 * r + doy"
  have dc: "doe = 36524 * c + cd" by (simp add: doe_def cd_def)
  have cent: "doe div 36524 - doe div 146096 = c"
  proof (cases "cd = 36524")
    case True
    then have "doe = 146096" using e(3) dc by (simp add: cd_def)
    then show ?thesis using True e(3) by (simp add: cd_def)
  next
    case False
    then have "0 \<le> cd" "cd < 36524" using e(1,2) by (simp_all add: cd_def)
    then have "doe div 36524 = c" "doe div 146096 = 0" using c unfolding dc by simp_all
    then show ?thesis by simp
  qed
  define z where "z = 24 * c + q + 365 * r + doy"
  have "doe = 1460 * (25 * c + q) + z" by (simp add: doe_def z_def)
  then have four: "doe div 1460 = 25 * c + q + z div 1460" by simp
  have "0 \<le> z" "z < 2 * 1460" using assms by (simp_all add: z_def)
  then have "z div 1460 = (if z < 1460 then 0 else 1)" by auto
  then have "doe - doe div 1460 + (doe div 36524 - doe div 146096) = 365 * yoe + (doy - (if z < 1460 then 0 else 1))"
    unfolding four cent by (simp add: doe_def yoe_def)
  moreover have "0 \<le> doy - (if z < 1460 then 0 else 1)" "doy - (if z < 1460 then 0 else 1) < 365"
    using assms(1-8) leap by (auto simp: z_def; cases "doy = 365"; force)+
  ultimately have "(doe - doe div 1460 + (doe div 36524 - doe div 146096)) div 365 = yoe"
    by (metis add.commute add.right_neutral div_mult_self4 div_pos_pos_trivial zero_neq_numeral)
  then show "(doe - doe div 1460 + doe div 36524 - doe div 146096) div 365 = yoe"
    by (simp add: algebra_simps)
qed


lemma month_of_year:
  assumes "1 \<le> m" "m \<le> 12" "1 \<le> d" "d \<le> (if m = 2 then 29 else if m \<in> {4, 6, 9, 11} then 30 else 31)"
  defines "mp \<equiv> (if m > 2 then m - 3 else m + 9)" and "doy \<equiv> (153 * (if m > 2 then m - 3 else m + 9) + 2) div 5 + d - (1 :: int)"
  shows "(5 * doy + 2) div 153 = mp" "doy - (153 * mp + 2) div 5 + 1 = d" "(if mp < 10 then mp + 3 else mp - 9) = m"
    "0 \<le> doy" "doy \<le> 365" "doy = 365 \<Longrightarrow> m = 2 \<and> d = 29"
proof -
  have "m \<in> {1, 2, 3, 4, 5, 6, 7, 8, 9, 10, 11, 12}" using assms(1,2) by (simp, presburger)
  then have "(5 * doy + 2) div 153 = mp \<and> 0 \<le> doy \<and> doy \<le> 365 \<and> (doy = 365 \<longrightarrow> m = 2 \<and> d = 29)"
    using assms(3,4) unfolding mp_def doy_def by (elim insertE emptyE) auto
  then show "(5 * doy + 2) div 153 = mp" "0 \<le> doy" "doy \<le> 365" "doy = 365 \<Longrightarrow> m = 2 \<and> d = 29" by auto
qed (use assms in \<open>auto simp: mp_def doy_def\<close>)

theorem civil_roundtrip:
  assumes m: "1 \<le> m" "m \<le> 12" and d: "1 \<le> d" "d \<le> days_in m y"
  shows "civil_of_days (days_of_civil y m d) = (y, m, d)"
proof -
  define y' where "y' = (if m \<le> 2 then y - 1 else y)"
  define era where "era = y' div 400"
  define yoe where "yoe = y' mod 400"
  define c where "c = yoe div 100"
  define q where "q = yoe mod 100 div 4"
  define r where "r = yoe mod 4"
  define mp where "mp = (if m > 2 then m - 3 else m + 9)"
  define doy where "doy = (153 * mp + 2) div 5 + d - 1"
  define doe where "doe = 36524 * c + 1461 * q + 365 * r + doy"
  have yoe: "0 \<le> yoe" "yoe < 400" by (simp_all add: yoe_def)
  have mod4: "yoe mod 100 mod 4 = yoe mod 4" by (simp add: mod_mod_cancel)
  have dec: "yoe = 100 * c + 4 * q + r"
    using mult_div_mod_eq [of 100 yoe] mult_div_mod_eq [of 4 "yoe mod 100"] mod4 unfolding c_def q_def r_def by linarith
  have cq: "0 \<le> c" "c < 4" "0 \<le> q" "q < 25" "0 \<le> r" "r < 4"
    using yoe by (auto simp: c_def q_def r_def pos_imp_zdiv_nonneg_iff)
  have md: "d \<le> (if m = 2 then 29 else if m \<in> {4, 6, 9, 11} then 30 else 31)"
    using d by (auto simp: days_in_def split: if_splits)
  note M = month_of_year [OF m d(1) md, folded mp_def, folded doy_def]
  have leap: "r = 3 \<and> (q \<noteq> 24 \<or> c = 3)" if "doy = 365"
  proof -
    have "m = 2" "d = 29" using M(6) that by simp_all
    then have "leap_year y" and "y = y' + 1" using d(2) by (auto simp: days_in_def y'_def split: if_splits)
    moreover have "y' = 400 * era + yoe" by (simp add: era_def yoe_def)
    ultimately have "y = 4 * (100 * era) + (yoe + 1)" "y = 100 * (4 * era) + (yoe + 1)" "y = 400 * era + (yoe + 1)" and ly: "leap_year y"
      by simp_all
    then have "y mod 4 = (yoe + 1) mod 4" "y mod 100 = (yoe + 1) mod 100" "y mod 400 = (yoe + 1) mod 400"
      by (metis mod_mult_self4)+
    then have "(yoe + 1) mod 4 = 0" "(yoe + 1) mod 100 \<noteq> 0 \<or> (yoe + 1) mod 400 = 0"
      using ly unfolding leap_year_def by metis+
    then have f: "(4 * (25 * c + q) + (r + 1)) mod 4 = 0" "(100 * c + (4 * q + r + 1)) mod 100 \<noteq> 0 \<or> (100 * c + (4 * q + r + 1)) mod 400 = 0"
      by (simp_all add: dec algebra_simps)
    have "(r + 1) mod 4 = 0" using f(1) by (simp only: mod_mult_self4)
    moreover have "r = 0 \<or> r = 1 \<or> r = 2 \<or> r = 3" using cq(5,6) by arith
    ultimately have r3: "r = 3" by (elim disjE) simp_all
    moreover have "c = 3" if "q = 24"
    proof -
      have "(100 * c + 100) mod 100 \<noteq> 0 \<or> (100 * c + 100) mod 400 = 0" using f(2) unfolding that r3 by simp
      moreover have "c = 0 \<or> c = 1 \<or> c = 2 \<or> c = 3" using cq(1,2) by arith
      ultimately show ?thesis by (elim disjE) simp_all
    qed
    ultimately show ?thesis by blast
  qed
  have "doy = 365 \<longrightarrow> r = 3 \<and> (q \<noteq> 24 \<or> c = 3)" using leap by blast
  note Y = year_of_era [OF cq(1-6) M(4,5) this, folded dec doe_def]
  have days: "days_of_civil y m d + 719468 = era * 146097 + doe"
  proof -
    have "days_of_civil y m d + 719468 = era * 146097 + (yoe * 365 + yoe div 4 - yoe div 100 + doy)"
      by (simp add: days_of_civil_def Let_def y'_def [symmetric] era_def [symmetric] yoe_def [symmetric] mp_def [symmetric])
         (simp add: doy_def)
    then show ?thesis using Y(2) by simp
  qed
  have e: "(era * 146097 + doe) div 146097 = era" "(era * 146097 + doe) mod 146097 = doe" using Y(3,4) by auto
  have dd: "doe - (365 * yoe + yoe div 4 - yoe div 100) = doy" using Y(2) by simp
  have "civil_of_days (days_of_civil y m d) = (yoe + era * 400 + (if m \<le> 2 then 1 else 0), m, d)"
    unfolding civil_of_days_def Let_def days e Y(1) dd M(1) M(2) M(3) by (rule refl)
  moreover have "yoe + era * 400 = y'" by (simp add: yoe_def era_def)
  ultimately show ?thesis by (simp add: y'_def)
qed

lemma is_digitE:
  assumes "is_digit c"
  obtains k where "c = char_of (48 + k)" "k < 10" "digit_value c = int k"
proof -
  define k where "k = of_char c - (48 :: nat)"
  have b: "48 \<le> (of_char c :: nat)" "(of_char c :: nat) \<le> 57" using assms by (simp_all add: is_digit_def less_eq_char_def)
  then have "c = char_of (48 + k)" "k < 10" by (simp_all add: k_def)
  then show ?thesis using that digit_char [of k] by metis
qed

lemma decimal_snoc: "decimal (s @ [c]) = decimal s * 10 + digit_value c"
  by (simp add: decimal_def from_digits_snoc)

lemma decimal_bound: "list_all is_digit s \<Longrightarrow> 0 \<le> decimal s \<and> decimal s < 10 ^ length s"
proof (induction s rule: rev_induct)
  case (snoc c s)
  then obtain k where "digit_value c = int k" "k < 10" using is_digitE [of c] by auto
  then show ?case using snoc by (auto simp: decimal_snoc)
qed (simp add: decimal_def from_digits_def)

lemma digits_fuel: "n < k \<Longrightarrow> n < k' \<Longrightarrow> digits k n = digits k' n"
proof (induction k n arbitrary: k' rule: digits.induct)
  case (2 k n)
  then show ?case by (cases k') auto
qed simp

lemma zero_char: "char_of (48 :: nat) = CHR ''0''"
  by (simp add: char_of_def bit_Suc_0_iff bit_1_iff)

lemma pad_digits: "list_all is_digit s \<Longrightarrow> s \<noteq> [] \<Longrightarrow> pad_int (length s) (decimal s) = s"
proof (induction s rule: rev_induct)
  case (snoc c s)
  obtain k where k: "c = char_of (48 + k)" "k < 10" "digit_value c = int k" using snoc(2) is_digitE [of c] by auto
  have s: "list_all is_digit s" "0 \<le> decimal s" using snoc(2) decimal_bound by auto
  define n where "n = nat (decimal s)"
  have v: "decimal (s @ [c]) = int (10 * n + k)" using s(2) k(3) by (simp add: decimal_snoc n_def)
  have d: "show_int (int (10 * n + k)) = digits (Suc (10 * n + k)) (10 * n + k)"
    by (simp only: show_int_def of_nat_less_0_iff if_False nat_int Suc_eq_plus1)
  show ?case
  proof (cases "s = []")
    case True
    then have "n = 0" by (simp add: n_def decimal_def from_digits_def)
    then have "show_int (int k) = [c]" using d k by simp
    moreover have "decimal [c] = int k" using k by (simp add: decimal_def from_digits_def)
    ultimately show ?thesis using True by (simp add: pad_int_def)
  next
    case False
    have ih: "replicate (length s - length (show_int (decimal s))) CHR ''0'' @ show_int (decimal s) = s"
      using snoc(1) [OF s(1) False] s(2) by (simp add: pad_int_def Let_def)
    show ?thesis
    proof (cases "n = 0")
      case True
      then have "decimal s = 0" using s(2) by (simp add: n_def)
      then have r: "s = replicate (length s) CHR ''0''"
        using ih False zero_char by (cases "length s") (auto simp: show_int_def replicate_append_same)
      have "replicate (length s) CHR ''0'' @ [c] = s @ [c]" using r by simp
      moreover have "show_int (int (10 * n + k)) = [c]" using d True k by simp
      ultimately show ?thesis by (simp add: pad_int_def v Let_def del: of_nat_add of_nat_mult)
    next
      case n: False
      have "digits (10 * n + k) n = digits (Suc n) n" using n k(2) by (intro digits_fuel) auto
      moreover have "digits (Suc (10 * n + k)) (10 * n + k) = digits (10 * n + k) n @ [c]"
        using n k by (subst digits.simps(2)) (simp del: digits.simps)
      moreover have "show_int (decimal s) = digits (Suc n) n"
        using s(2) by (simp only: n_def show_nat)
      ultimately have "show_int (int (10 * n + k)) = show_int (decimal s) @ [c]" unfolding d by (simp only:)
      then show ?thesis using ih by (simp add: pad_int_def v Let_def del: of_nat_add of_nat_mult)
    qed
  qed
qed simp

lemma stamp_fraction_bound: "fst (stamp_fraction s) \<ge> 0 \<and> fst (stamp_fraction s) < nanos"
proof -
  define used where "used = take 9 (takeWhile is_digit (tl s))"
  have "list_all is_digit used" by (auto simp: used_def list_all_iff dest!: in_set_takeD set_takeWhileD)
  then have b: "0 \<le> decimal used" "decimal used < 10 ^ length used" using decimal_bound by blast+
  have l: "length used \<le> 9" by (simp add: used_def)
  have "decimal used * 10 ^ (9 - length used) < 10 ^ length used * 10 ^ (9 - length used)" using b by simp
  also have "\<dots> = nanos" using l by (simp add: nanos_def flip: power_add)
  finally show ?thesis
    unfolding stamp_fraction_def Let_def used_def [symmetric] using b by (simp add: nanos_def)
qed

text \<open>MFMT and MDTM agree: a time stamp MFMT accepts is printed by MDTM, MLST and the reply as its first 14 digits, leap days and all; a fraction is dropped.\<close>

theorem stamp_roundtrip:
  assumes "ParseStamp s = Some t"
  shows "format_stamp t = take 14 s"
proof -
  define y where "y = decimal (take 4 s)"
  define m where "m = decimal (take 2 (drop 4 s))"
  define d where "d = decimal (take 2 (drop 6 s))"
  define h where "h = decimal (take 2 (drop 8 s))"
  define mi where "mi = decimal (take 2 (drop 10 s))"
  define sec where "sec = decimal (take 2 (drop 12 s))"
  define days where "days = days_of_civil y m d"
  define tod where "tod = h * 3600 + mi * 60 + sec"
  obtain ns rest where f: "stamp_fraction (drop 14 s) = (ns, rest)" by fastforce
  have len: "14 \<le> length s" and dg: "list_all is_digit (take 14 s)" using assms by (auto simp: ParseStamp_def split: if_splits)
  have rng: "1 \<le> m" "m \<le> 12" "1 \<le> d" "d \<le> days_in m y" "h \<le> 23" "mi \<le> 59" "sec \<le> 59"
    and t: "t = (days * 86400 + h * 3600 + mi * 60 + sec) * nanos + ns"
    using assms len dg f
    by (auto simp: ParseStamp_def Let_def y_def [symmetric] m_def [symmetric] d_def [symmetric] h_def [symmetric] mi_def [symmetric]
        sec_def [symmetric] days_def [symmetric] split: if_splits)
  have digs: "list_all is_digit (take n (drop k s)) \<and> length (take n (drop k s)) = n" if "n + k \<le> 14" for n k
  proof -
    have "take n (drop k s) = drop k (take (n + k) s)" by (simp add: take_drop)
    then have "set (take n (drop k s)) \<subseteq> set (take 14 s)"
      using that by (metis set_drop_subset set_take_subset_set_take subset_trans)
    then show ?thesis using dg len that by (auto simp: list_all_iff)
  qed
  have pad: "pad_int n (decimal (take n (drop k s))) = take n (drop k s)" "0 \<le> decimal (take n (drop k s))" if "n + k \<le> 14" "0 < n" for n k
    using pad_digits [of "take n (drop k s)"] decimal_bound [of "take n (drop k s)"] digs [OF that(1)] that(2) by auto
  have pos: "0 \<le> h" "0 \<le> mi" "0 \<le> sec" using pad(2) [of 2 8] pad(2) [of 2 10] pad(2) [of 2 12] by (simp_all add: h_def mi_def sec_def)
  have "0 \<le> ns" "ns < nanos" using stamp_fraction_bound [of "drop 14 s"] f by simp_all
  then have sd: "t div nanos = days * 86400 + tod" by (simp add: t tod_def nanos_def)
  have tod: "0 \<le> tod" "tod < 86400" "tod div 3600 = h" "tod mod 3600 div 60 = mi" "tod mod 60 = sec"
  proof -
    show "0 \<le> tod" "tod < 86400" using pos rng by (simp_all add: tod_def)
    have e: "tod = 3600 * h + (mi * 60 + sec)" "tod = 60 * (60 * h + mi) + sec" by (simp_all add: tod_def)
    show "tod div 3600 = h" unfolding e(1) using pos rng by simp
    have "tod mod 3600 = mi * 60 + sec" unfolding e(1) using pos rng by (simp add: mod_mult_self4)
    then show "tod mod 3600 div 60 = mi" using pos rng by simp
    show "tod mod 60 = sec" unfolding e(2) mod_mult_self4 using pos rng by simp
  qed
  have "tod mod 86400 = tod" using tod(1,2) by simp
  then have cd: "(days * 86400 + tod) div 86400 = days" "(days * 86400 + tod) mod 86400 = tod" "tod mod 86400 = tod" using tod(1,2) by auto
  have civ: "civil_of_days days = (y, m, d)" unfolding days_def by (rule civil_roundtrip [OF rng(1-4)])
  have "format_stamp t = pad_int 4 y @ pad_int 2 m @ pad_int 2 d @ pad_int 2 h @ pad_int 2 mi @ pad_int 2 sec"
    by (simp add: format_stamp_def Let_def sd cd civ tod(3-5))
  also have "\<dots> = take 4 s @ take 2 (drop 4 s) @ take 2 (drop 6 s) @ take 2 (drop 8 s) @ take 2 (drop 10 s) @ take 2 (drop 12 s)"
    using pad(1) [of 4 0] pad(1) [of 2 4] pad(1) [of 2 6] pad(1) [of 2 8] pad(1) [of 2 10] pad(1) [of 2 12]
    by (simp add: y_def m_def d_def h_def mi_def sec_def)
  also have "\<dots> = take 14 s"
    using take_add [of 4 2 s] take_add [of 6 2 s] take_add [of 8 2 s] take_add [of 10 2 s] take_add [of 12 2 s] by simp
  finally show ?thesis .
qed

section \<open>Examples\<close>

theorem pasv_port_roundtrip_witness:
  "parsePORTArg (pasv_text (split_on CHR ''.'' (show_v4 0x0A000001)) 50001) = Inr (active_target (V4 0x0A000001) 50001)"
  by (rule pasv_port_roundtrip) simp_all

theorem control_line_limit_witness:
  "readControlLine EOF (''QUIT'' @ CHR 0x0A # ''NOOP'') = (Inr (''QUIT'' @ [CHR 0x0A]), ''NOOP'')
    \<and> fst (readControlLine EOF (replicate 70000 CHR ''a'' @ CHR 0x0A # [])) = Inl (ErrMsg (''control line exceeds '' @ show_int 65536 @ '' bytes''))"
proof
  show "readControlLine EOF (''QUIT'' @ CHR 0x0A # ''NOOP'') = (Inr (''QUIT'' @ [CHR 0x0A]), ''NOOP'')"
    by (subst control_line_limit) simp_all
  show "fst (readControlLine EOF (replicate 70000 CHR ''a'' @ CHR 0x0A # [])) = Inl (ErrMsg (''control line exceeds '' @ show_int 65536 @ '' bytes''))"
    by (subst control_line_limit) simp_all
qed

theorem stamp_roundtrip_witness:
  "\<exists>t. ParseStamp ''20240229120000.5'' = Some t \<and> format_stamp t = ''20240229120000''"
proof -
  have "\<not> ParseStamp ''20240229120000.5'' = None" by code_simp
  then obtain t where t: "ParseStamp ''20240229120000.5'' = Some t" by auto
  show ?thesis using stamp_roundtrip [OF t] t by simp
qed

end
