(* ===== verification/Ftp_Conn.thy ===== *)
theory Ftp_Conn
  imports Ftp_Text_Props
begin

text \<open>
  A connection as a sequence of small steps: whatever lines a client sends and whatever other connections do in between, an
  invariant that the steps keep holds wherever the connection gets.  With it: the protection of data connections, the paths
  kept by a connection, and the target of active data connections.
\<close>

section \<open>Steps of a connection\<close>

text \<open>
  Whatever a command does is a sequence of these steps: changes of the fields no invariant is about, and the changes of the
  working directory, the pending rename, the data address, the session, the protection and the data sent.  A command changes the
  protection, logs in, or does neither and may send data.
\<close>

datatype kind = Ordinary | Protection | Login

definition same_core :: "'w ftp \<Rightarrow> 'w ftp \<Rightarrow> bool" where
  "same_core s t \<longleftrightarrow>
     f_sessions t = f_sessions s \<and> c_session t = c_session s \<and> c_cwd t = c_cwd s \<and> c_rnfr t = c_rnfr s
     \<and> c_activeAddr t = c_activeAddr s \<and> c_remoteAddr t = c_remoteAddr s \<and> c_secureControl t = c_secureControl s
     \<and> c_pbszSet t = c_pbszSet s \<and> c_dataProtPrivate t = c_dataProtPrivate s \<and> f_data t = f_data s
     \<and> c_user t = c_user s \<and> c_fs t = c_fs s \<and> f_ended t = f_ended s"

inductive ftp_step :: "'w ftpEnv \<Rightarrow> kind \<Rightarrow> 'w ftp \<Rightarrow> 'w ftp \<Rightarrow> bool" for env ch where
  free: "same_core s t \<Longrightarrow> ftp_step env ch s t"
| cwd: "abs_clean p \<Longrightarrow> ftp_step env ch s (s\<lparr>c_cwd := p\<rparr>)"
| rnfr: "p = [] \<or> abs_clean p \<Longrightarrow> ftp_step env ch s (s\<lparr>c_rnfr := p\<rparr>)"
| active: "a = [] \<or> validateActiveTarget a (c_remoteAddr s) = [] \<and> (\<exists>arg. parsePORTArg arg = Inr a \<or> parseEPRTArg arg = Inr a)
    \<Longrightarrow> ftp_step env ch s (s\<lparr>c_activeAddr := a\<rparr>)"
| session_end: "c_session s = Some ss \<Longrightarrow> ftp_step env ch s (s\<lparr>f_sessions := snd (sess_End (ss_ID ss) (f_sessions s)), c_session := None\<rparr>)"
| ended: "c_session s = None \<Longrightarrow> ftp_step env ch s (s\<lparr>f_ended := True\<rparr>)"
| login: "ch = Login \<Longrightarrow> ftp_step env ch s (s\<lparr>c_user := u, c_fs := fsys\<rparr>)"
| session_start: "ch = Login \<Longrightarrow> c_session s = None \<Longrightarrow> StartLimited (fe_ulid env n) now user ''ftp'' (c_remoteAddr s) cap (f_sessions s) = ((Some sess, cs), m)
    \<Longrightarrow> ftp_step env ch s (s\<lparr>f_sessions := snd (AttachTerminator (ss_ID sess) fn m), c_session := Some sess\<rparr>)"
| session_touch: "c_session s = Some ss \<Longrightarrow> ftp_step env ch s (s\<lparr>f_sessions := Touch now (ss_ID ss) (f_sessions s)\<rparr>)"
| secure: "ch = Protection \<Longrightarrow> cf_TLS (fe_cfg env) \<Longrightarrow> ftp_step env ch s (s\<lparr>c_secureControl := True, c_pbszSet := False, c_dataProtPrivate := False\<rparr>)"
| pbsz: "ch = Protection \<Longrightarrow> c_secureControl s \<Longrightarrow> ftp_step env ch s (s\<lparr>c_pbszSet := True\<rparr>)"
| prot: "ch = Protection \<Longrightarrow> c_secureControl s \<Longrightarrow> c_pbszSet s \<Longrightarrow> ftp_step env ch s (s\<lparr>c_dataProtPrivate := b\<rparr>)"
| data_sent: "ch = Ordinary \<Longrightarrow> ftp_step env ch s (s\<lparr>f_data := f_data s @ [(wrapDataConn env s, bs)]\<rparr>)"

abbreviation steps :: "'w ftpEnv \<Rightarrow> kind \<Rightarrow> 'w ftp \<Rightarrow> 'w ftp \<Rightarrow> bool" where
  "steps env ch \<equiv> (ftp_step env ch)\<^sup>*\<^sup>*"

named_theorems ftp_steps \<open>how the parts of a command are made of steps\<close>

lemma steps_free: "steps env ch s t \<Longrightarrow> same_core t u \<Longrightarrow> steps env ch s u"
  by (meson ftp_step.free rtranclp.rtrancl_into_rtrancl)

lemma steps_same: "same_core s u \<Longrightarrow> steps env ch s u"
  by (meson ftp_step.free r_into_rtranclp)

lemma steps_refl [ftp_steps]: "steps env ch s s"
  by simp

lemma steps_fields [ftp_steps]:
  assumes "steps env ch s t"
  shows "steps env ch s (t\<lparr>f_world := w\<rparr>)" "steps env ch s (t\<lparr>f_users := us\<rparr>)" "steps env ch s (t\<lparr>f_throttle := th\<rparr>)"
    "steps env ch s (t\<lparr>f_xfer := x\<rparr>)" "steps env ch s (t\<lparr>f_audit := a\<rparr>)" "steps env ch s (t\<lparr>f_ulids := n\<rparr>)"
    "steps env ch s (t\<lparr>c_username := un\<rparr>)"
    "steps env ch s (t\<lparr>c_passiveLn := l\<rparr>)" "steps env ch s (t\<lparr>c_restOffset := i\<rparr>)" "steps env ch s (t\<lparr>c_ftpType := ty\<rparr>)"
    "steps env ch s (t\<lparr>c_vhost := h\<rparr>)" "steps env ch s (t\<lparr>f_out := os\<rparr>)"
    "steps env ch s (t\<lparr>f_stopped := e\<rparr>)"
  by (rule steps_free [OF assms]; simp add: same_core_def)+

lemma steps_last: "steps env ch s t \<Longrightarrow> ftp_step env ch t u \<Longrightarrow> steps env ch s u"
  by (rule rtranclp.rtrancl_into_rtrancl)

lemma steps_writes [ftp_steps]:
  assumes "steps env ch s t"
  shows "steps env ch s (writeReply code msg t)" "steps env ch s (writeMultiline code lns t)"
    "steps env ch s (emit_event ty user p status msg' meta t)" "steps env ch s (emitAudit ty user p status msg' t)"
  using assms by (simp_all add: writeReply_def writeMultiline_def emit_event_def emitAudit_def steps_fields)

lemma steps_release [ftp_steps]: "steps env ch s t \<Longrightarrow> steps env ch s (release_fs env t)"
  by (simp add: release_fs_def steps_fields split: option.split)

lemma steps_authed [ftp_steps]:
  "(\<And>fsys u. c_user t = Some u \<Longrightarrow> c_fs t = Some fsys \<Longrightarrow> steps env ch s (k fsys u t)) \<Longrightarrow> steps env ch s t \<Longrightarrow> steps env ch s (authed k t)"
  by (simp add: authed_def steps_writes split: option.split)

lemma steps_storage [ftp_steps]:
  "(\<And>e w. steps env ch s (bad e (t\<lparr>f_world := w\<rparr>))) \<Longrightarrow> (\<And>x w. steps env ch s (good x (t\<lparr>f_world := w\<rparr>))) \<Longrightarrow> steps env ch s t
   \<Longrightarrow> steps env ch s (on_storage op bad good t)"
proof -
  assume a: "\<And>e w. steps env ch s (bad e (t\<lparr>f_world := w\<rparr>))" "\<And>x w. steps env ch s (good x (t\<lparr>f_world := w\<rparr>))" "steps env ch s t"
  have "steps env ch s (t\<lparr>f_world := w, f_stopped := Some e\<rparr>)" for w e
    by (rule steps_free [OF a(3)]) (simp add: same_core_def)
  then show ?thesis using a by (auto simp: on_storage_def split: sum.split prod.split)
qed

lemma steps_cleanup [ftp_steps]: "steps env ch s t \<Longrightarrow> steps env ch s (cleanupConnState t)"
proof -
  assume a: "steps env ch s t"
  have a1: "steps env ch s (t\<lparr>c_activeAddr := []\<rparr>)" by (rule steps_last [OF a]) (rule ftp_step.active, simp)
  show ?thesis
  proof (cases "c_session t")
    case None
    then have "same_core (t\<lparr>c_activeAddr := []\<rparr>) (cleanupConnState t)" by (simp add: same_core_def cleanupConnState_def)
    then show ?thesis by (rule steps_free [OF a1])
  next
    case (Some ss)
    have "steps env ch s (t\<lparr>c_activeAddr := []\<rparr>\<lparr>f_sessions := snd (sess_End (ss_ID ss) (f_sessions (t\<lparr>c_activeAddr := []\<rparr>))), c_session := None\<rparr>)"
      by (rule steps_last [OF a1], rule ftp_step.session_end) (simp add: Some)
    then show ?thesis by (rule steps_free) (simp add: same_core_def cleanupConnState_def Some)
  qed
qed

lemma steps_ended: "steps env ch s t \<Longrightarrow> c_session t = None \<Longrightarrow> steps env ch s (t\<lparr>f_ended := True\<rparr>)"
  by (erule steps_last) (rule ftp_step.ended)

lemma steps_hang_up [ftp_steps]: "steps env ch s t \<Longrightarrow> steps env ch s (hang_up t)"
  unfolding hang_up_def by (intro steps_ended steps_cleanup) (simp_all add: cleanupConnState_def)

lemma steps_login: "steps env Login s t \<Longrightarrow> steps env Login s (t\<lparr>c_user := u, c_fs := fsys\<rparr>)"
  by (erule steps_last) (rule ftp_step.login, simp)

lemma steps_no_fs: "steps env Login s t \<Longrightarrow> steps env Login s (t\<lparr>c_fs := fsys\<rparr>)"
  using steps_login [where u = "c_user t" and fsys = fsys] by force

lemma steps_end_old [ftp_steps]: "steps env Login s t \<Longrightarrow> steps env Login s (end_old_session env t)"
  unfolding end_old_session_def Let_def
  by (intro steps_no_fs steps_release) (auto split: option.split intro: steps_last ftp_step.session_end)

lemma end_old_none [simp]: "c_session (end_old_session env t) = None"
  by (simp add: end_old_session_def release_fs_def split: option.split)

lemma steps_open_session [ftp_steps]:
  assumes "steps env Login s t" "c_session t = None"
  shows "steps env Login s (open_session env out user userFS t)"
proof (cases "StartLimited (fe_ulid env (f_ulids t)) (o_now out) (u_Username user) ''ftp'' (c_remoteAddr t) (u_MaxSessions user) (f_sessions t)")
  case (Pair a m)
  obtain r cs where a: "a = (r, cs)" by fastforce
  show ?thesis
  proof (cases r)
    case None
    have "steps env Login s (t\<lparr>f_ulids := Suc (f_ulids t), f_world := fe_release env userFS (f_world t), c_user := None, c_fs := None\<rparr>)"
      by (intro steps_login steps_fields assms(1))
    with None show ?thesis by (simp add: open_session_def Pair a steps_writes)
  next
    case (Some sess)
    have "steps env Login s (t\<lparr>f_sessions := snd (AttachTerminator (ss_ID sess) (Some (fe_connID env)) m), c_session := Some sess\<rparr>)"
      by (rule steps_last [OF assms(1)], rule ftp_step.session_start [OF refl assms(2)]) (use Pair a Some in blast)
    then have "steps env Login s (t\<lparr>f_sessions := snd (AttachTerminator (ss_ID sess) (Some (fe_connID env)) m), c_session := Some sess, c_cwd := ''/''\<rparr>)"
      by (rule steps_last) (rule ftp_step.cwd, simp)
    then have "steps env Login s (t\<lparr>f_sessions := snd (AttachTerminator (ss_ID sess) (Some (fe_connID env)) m), c_session := Some sess, c_cwd := ''/'',
        c_user := Some user, c_fs := Some userFS\<rparr>)"
      by (rule steps_login)
    then have "steps env Login s (t\<lparr>f_ulids := Suc (f_ulids t), f_users := snd (RecordSuccessfulLogin (o_now out) (u_ID user) (f_users t)),
        c_user := Some user, c_fs := Some userFS, c_cwd := ''/'', c_session := Some sess,
        f_sessions := snd (AttachTerminator (ss_ID sess) (Some (fe_connID env)) m)\<rparr>)"
      by (rule steps_free) (simp add: same_core_def)
    then show ?thesis
      unfolding open_session_def Pair a Some prod.case option.case by (intro steps_writes)
  qed
qed

lemma steps_login_user [ftp_steps]: "steps env Login s t \<Longrightarrow> steps env Login s (login_user env out user t)"
  unfolding login_user_def
  by (auto intro!: ftp_steps split: option.split)

lemma steps_PASS: "steps env Login s t \<Longrightarrow> steps env Login s (cmd_PASS env out arg t)"
  unfolding cmd_PASS_def Let_def
  by (auto intro!: ftp_steps split: option.split sum.split prod.split)

lemma resolvePath_clean [simp]: "abs_clean (resolvePath cwd arg)"
proof -
  have "\<exists>q. join_with ''/'' (filter (\<lambda>x. x \<noteq> []) [''/'', cwd, arg]) = CHR ''/'' # q" by simp
  then obtain q where "join_with ''/'' (filter (\<lambda>x. x \<noteq> []) [''/'', cwd, arg]) = CHR ''/'' # q" ..
  then have "path_join [''/'', cwd, arg] = path_clean (CHR ''/'' # q)" by (simp add: path_join_def)
  then show ?thesis by (auto simp: resolvePath_def path_clean_rooted prefix_def)
qed

lemma steps_plain [ftp_steps]:
  assumes "steps env ch s t"
  shows "steps env ch s (cmd_PWD t)" "steps env ch s (cmd_MKD arg t)" "steps env ch s (cmd_RMD arg t)" "steps env ch s (cmd_DELE arg t)"
    "steps env ch s (cmd_SIZE arg t)" "steps env ch s (cmd_MDTM arg t)" "steps env ch s (cmd_HOST env arg t)" "steps env ch s (cmd_REST arg t)"
    "steps env ch s (cmd_TYPE arg t)" "steps env ch s (cmd_FEAT env t)" "steps env ch s (handleHelp t)"
    "steps env ch s (cmd_MODE arg t)" "steps env ch s (cmd_STRU arg t)" 
    "steps env ch s (handleSite arg t)" "steps env ch s (handleMFMT arg t)" "steps env ch s (cmd_MLST env arg t)" "steps env ch s (handleStat env arg t)"
proof -
qed (use assms in \<open>auto simp: cmd_PWD_def cmd_MKD_def cmd_RMD_def cmd_DELE_def cmd_SIZE_def cmd_MDTM_def
   cmd_HOST_def cmd_REST_def cmd_TYPE_def cmd_FEAT_def handleHelp_def cmd_MODE_def cmd_STRU_def handleSite_def handleMFMT_def
   cmd_MLST_def handleStat_def Let_def intro!: ftp_steps split: prod.split option.split sum.split\<close>)

lemma steps_cwd: "steps env ch s t \<Longrightarrow> abs_clean p \<Longrightarrow> steps env ch s (t\<lparr>c_cwd := p\<rparr>)"
  by (rule steps_last) (auto intro: ftp_step.cwd)

lemma steps_CWD [ftp_steps]: "steps env ch s t \<Longrightarrow> steps env ch s (cmd_CWD arg t)"
  unfolding cmd_CWD_def Let_def
  by (auto intro!: ftp_steps steps_cwd)

lemma steps_rnfr: "steps env ch s t \<Longrightarrow> p = [] \<or> abs_clean p \<Longrightarrow> steps env ch s (t\<lparr>c_rnfr := p\<rparr>)"
  by (rule steps_last) (auto intro: ftp_step.rnfr)

lemma steps_RNFR [ftp_steps]: "steps env ch s t \<Longrightarrow> steps env ch s (cmd_RNFR arg t)"
  unfolding cmd_RNFR_def Let_def
  by (rule steps_authed, rule steps_storage) (auto intro!: steps_writes steps_rnfr steps_fields)

lemma steps_RNTO [ftp_steps]: "steps env ch s t \<Longrightarrow> steps env ch s (cmd_RNTO arg t)"
  unfolding cmd_RNTO_def Let_def
  by (auto intro!: ftp_steps steps_rnfr)

lemma steps_active: "steps env ch s t \<Longrightarrow> a = [] \<or> validateActiveTarget a (c_remoteAddr t) = [] \<and> (\<exists>arg. parsePORTArg arg = Inr a \<or> parseEPRTArg arg = Inr a)
  \<Longrightarrow> steps env ch s (t\<lparr>c_activeAddr := a\<rparr>)"
  by (rule steps_last) (auto intro: ftp_step.active)

lemma steps_passive [ftp_steps]: "steps env ch s t \<Longrightarrow> steps env ch s (snd (enterPassiveMode env out t))"
  by (auto simp: enterPassiveMode_def Let_def intro!: steps_fields steps_active split: sum.split option.split)

lemma steps_PASV [ftp_steps]: "steps env ch s t \<Longrightarrow> steps env ch s (cmd_PASV env out t)"
  unfolding cmd_PASV_def Let_def
  using steps_passive [of env ch s t out]
  by (auto intro!: steps_authed steps_writes split: prod.split option.split)

lemma steps_EPSV [ftp_steps]: "steps env ch s t \<Longrightarrow> steps env ch s (cmd_EPSV env out arg t)"
  unfolding cmd_EPSV_def Let_def
  using steps_passive [of env ch s t out]
  by (auto intro!: steps_authed steps_writes split: prod.split option.split)

lemma steps_PORT [ftp_steps]: 
  assumes "steps env ch s t"
  shows "steps env ch s (cmd_PORT env cmd arg t)"
proof -
  have "steps env ch s (t\<lparr>c_passiveLn := None, c_activeAddr := a\<rparr>)"
    if "(if cmd = ''PORT'' then parsePORTArg arg else parseEPRTArg arg) = Inr a" "validateActiveTarget a (c_remoteAddr t) = []" for a
    using steps_active [of env ch s "t\<lparr>c_passiveLn := None\<rparr>" a] steps_fields [OF assms] that by (auto split: if_splits)
  then show ?thesis
    unfolding cmd_PORT_def Let_def using assms by (auto intro!: steps_authed steps_writes split: sum.split)
qed

lemma steps_accept: "steps env ch s t \<Longrightarrow> acceptDataConn out t = (r, u) \<Longrightarrow> steps env ch s u"
  by (auto simp: acceptDataConn_def intro!: steps_fields steps_active split: if_splits option.splits)

lemma steps_with_data [ftp_steps]:
  "(\<And>dc u. steps env ch s u \<Longrightarrow> steps env ch s (k dc u)) \<Longrightarrow> steps env ch s t \<Longrightarrow> steps env ch s (with_data out k t)"
  by (auto simp: with_data_def intro!: steps_writes dest: steps_accept split: prod.split option.split)

lemma steps_data:
  "steps env Ordinary s t \<Longrightarrow> ds = f_data t @ [(wrapDataConn env t, bs)] \<Longrightarrow> steps env Ordinary s (t\<lparr>f_data := ds\<rparr>)"
  by (auto intro: steps_last ftp_step.data_sent)

lemma wrapDataConn_frame [simp]:
  "wrapDataConn env (writeReply c m t) = wrapDataConn env t" "wrapDataConn env (t\<lparr>f_world := w\<rparr>) = wrapDataConn env t"
  by (simp_all add: wrapDataConn_def writeReply_def)

lemma f_data_writeReply [simp]: "f_data (writeReply c m t) = f_data t"
  by (simp add: writeReply_def)

lemma steps_LIST [ftp_steps]: "steps env Ordinary s t \<Longrightarrow> steps env Ordinary s (cmd_LIST env out cmd arg t)"
  unfolding cmd_LIST_def Let_def
  by (intro steps_authed steps_with_data)
     (simp_all only: split_beta if_split, intro conjI impI; (intro steps_writes steps_data; simp)?)

lemma steps_endTransfer [ftp_steps]: "steps env ch s t \<Longrightarrow> steps env ch s (endTransfer out u tid ty p msg n err t)"
  unfolding endTransfer_def Let_def
  by (auto intro!: steps_writes steps_fields)

lemma steps_start_xfer: "steps env ch s t \<Longrightarrow> start_xfer env out u p dir n t = (tid, t') \<Longrightarrow> steps env ch s t'"
  by (auto simp: start_xfer_def intro!: steps_fields split: option.splits prod.splits)

lemma steps_close_file [ftp_steps]: 
  "(\<And>w. steps env ch s (k (t\<lparr>f_world := w\<rparr>))) \<Longrightarrow> steps env ch s t \<Longrightarrow> steps env ch s (close_file f k t)"
  by (simp add: close_file_def steps_storage)

lemma steps_send_file [ftp_steps]:
  assumes "steps env Ordinary s t"
  shows "steps env Ordinary s (send_file env out u p dc f n t)"
proof (cases "start_xfer env out u p DirectionDownload n t")
  case (Pair tid t0)
  note t0 = steps_start_xfer [OF assms Pair]
  obtain sent err w where c: "copy_out (fe_fuel env) f (dc_room dc) [] (f_world (writeReply 150 ''Opening binary mode data connection.'' t0)) = ((sent, err), w)"
    by (metis prod.collapse)
  have "steps env Ordinary s (writeReply 150 ''Opening binary mode data connection.'' t0\<lparr>f_world := w,
      f_data := f_data (writeReply 150 ''Opening binary mode data connection.'' t0) @ [(wrapDataConn env t0, sent)]\<rparr>)"
    by (intro steps_data steps_fields steps_writes t0) simp
  then show ?thesis
    unfolding send_file_def Pair c Let_def prod.case
    by (simp only: if_split, intro conjI impI steps_storage steps_endTransfer steps_fields)
qed

lemma steps_RETR [ftp_steps]: "steps env Ordinary s t \<Longrightarrow> steps env Ordinary s (cmd_RETR env out arg t)"
  unfolding cmd_RETR_def Let_def
  by (intro steps_authed steps_with_data steps_storage steps_fields steps_writes)
     (simp_all only: if_split, (intro conjI impI steps_close_file steps_storage steps_fields steps_writes steps_send_file; assumption?)+)

lemma steps_receive_file [ftp_steps]:
  assumes "steps env Ordinary s t"
  shows "steps env Ordinary s (receive_file env out cmd u p dc f t)"
proof (cases "start_xfer env out u p DirectionUpload (- 1) t")
  case (Pair tid t0)
  note t0 = steps_start_xfer [OF assms Pair]
  define t1 where "t1 = writeReply 150 (if cmd = ''STOU'' then ''FILE: '' @ path_base p else ''Ok to send data.'') t0"
  define t2 where "t2 = t1\<lparr>f_data := f_data t1 @ [(wrapDataConn env t1, [])]\<rparr>"
  obtain n err w where c: "copy_in f (dc_chunks dc) (dc_readErr dc) 0 (f_world t2) = ((n, err), w)"
    by (metis prod.collapse)
  have t2: "steps env Ordinary s t2"
    unfolding t2_def t1_def by (intro steps_data steps_fields steps_writes t0) simp
  have eq: "receive_file env out cmd u p dc f t =
      (if (case err of Some e \<Rightarrow> stops e | None \<Rightarrow> False) then t2\<lparr>f_world := w, f_stopped := err\<rparr>
       else on_storage (\<lambda>w. as_res (f_close f w))
         (\<lambda>e. endTransfer out u tid ''file.write'' p ''upload'' n (first_error err (first_error (Some e) (dc_closeErr dc))))
         (\<lambda>_. endTransfer out u tid ''file.write'' p ''upload'' n (first_error err (first_error None (dc_closeErr dc)))) (t2\<lparr>f_world := w\<rparr>))"
    unfolding receive_file_def Pair Let_def prod.case t1_def [symmetric] t2_def [symmetric] c by (rule refl)
  show ?thesis
    unfolding eq using t2
    by (simp only: if_split, intro conjI impI steps_storage steps_endTransfer steps_fields)
qed

lemma steps_store_file [ftp_steps]: "steps env Ordinary s t \<Longrightarrow> steps env Ordinary s (store_file env out cmd p offset fsys u t)"
  unfolding store_file_def
  by (cases "cmd = ''STOR'' \<and> 0 < offset"; simp only: simp_thms if_True if_False;
      intro steps_with_data steps_storage steps_fields steps_writes steps_close_file steps_receive_file; assumption)

lemma steps_STOR [ftp_steps]: "steps env Ordinary s t \<Longrightarrow> steps env Ordinary s (cmd_STOR env out cmd arg t)"
  unfolding cmd_STOR_def Let_def
  by (auto intro!: steps_authed steps_writes steps_store_file steps_fields split: sum.split)

lemma steps_protect:
  "steps env Protection s t \<Longrightarrow> c_secureControl t \<Longrightarrow> c_pbszSet t \<Longrightarrow> steps env Protection s (t\<lparr>c_dataProtPrivate := b\<rparr>)"
  "steps env Protection s t \<Longrightarrow> c_secureControl t \<Longrightarrow> steps env Protection s (t\<lparr>c_pbszSet := True\<rparr>)"
  by (auto elim!: steps_last intro: ftp_step.prot ftp_step.pbsz)

lemma steps_if: "steps env ch s (if c then a else b) \<longleftrightarrow> (if c then steps env ch s a else steps env ch s b)"
  by simp

lemma steps_PROT [ftp_steps]:
  assumes "steps env Protection s t"
  shows "steps env Protection s (cmd_PROT arg t)"
proof (cases "c_secureControl t \<and> c_pbszSet t")
  case True
  then show ?thesis
    unfolding cmd_PROT_def Let_def by (simp only: steps_if steps_writes steps_protect assms if_cancel simp_thms if_False)
next
  case False
  then show ?thesis
    unfolding cmd_PROT_def Let_def by (cases "c_secureControl t"; simp only: steps_if steps_writes assms if_cancel simp_thms if_True if_False)
qed

lemma steps_PBSZ [ftp_steps]:
  assumes "steps env Protection s t"
  shows "steps env Protection s (cmd_PBSZ arg t)"
proof (cases "c_secureControl t")
  case True
  note p = steps_protect(2) [OF assms True]
  show ?thesis
    unfolding cmd_PBSZ_def by (simp only: steps_if steps_writes [OF assms] steps_writes [OF p] if_cancel True simp_thms if_False)
next
  case False
  then show ?thesis
    unfolding cmd_PBSZ_def by (simp only: steps_writes [OF assms] if_True simp_thms)
qed

lemma steps_secured:
  "steps env Protection s t \<Longrightarrow> cf_TLS (fe_cfg env) \<Longrightarrow> same_core (t\<lparr>c_secureControl := True, c_pbszSet := False, c_dataProtPrivate := False\<rparr>) u
    \<Longrightarrow> steps env Protection s u"
  by (erule steps_free [OF steps_last [OF _ ftp_step.secure]]) simp_all

lemma adoptSNIHost_eq: obtains h where "adoptSNIHost env out s = s\<lparr>c_vhost := h\<rparr>"
proof (cases "adoptSNIHost env out s = s")
  case True
  then show ?thesis using that [of "c_vhost s"] by simp
next
  case False
  then show ?thesis using that [of "normalizeHostName (o_sni out)"]
    by (auto simp: adoptSNIHost_def Let_def split: if_splits)
qed

lemma steps_AUTH [ftp_steps]:
  assumes "steps env Protection s t"
  shows "steps env Protection s (cmd_AUTH env out arg t)"
proof -
  define r where "r = writeReply 234 ''AUTH TLS successful.'' t"
  have r: "steps env Protection s r" unfolding r_def by (intro steps_writes assms)
  obtain h where h: "adoptSNIHost env out (r\<lparr>c_secureControl := True\<rparr>) = r\<lparr>c_secureControl := True\<rparr>\<lparr>c_vhost := h\<rparr>"
    by (rule adoptSNIHost_eq)
  have "steps env Protection s (hang_up r)" using r by (rule steps_hang_up)
  moreover have "steps env Protection s (r\<lparr>c_secureControl := True, c_vhost := k, c_pbszSet := False, c_dataProtPrivate := False\<rparr>)"
    "steps env Protection s (r\<lparr>c_secureControl := True, c_pbszSet := False, c_dataProtPrivate := False\<rparr>)"
    if "ftpsExplicitEnabled (fe_cfg env)" for k
    using that by (auto intro!: steps_secured [OF r] simp: ftpsExplicitEnabled_def same_core_def)
  ultimately show ?thesis
    using assms by (simp add: cmd_AUTH_def r_def [symmetric] h Let_def steps_writes)
qed

definition command_kind :: "string \<Rightarrow> kind" where
  "command_kind cmd =
     (if cmd = ''PASS'' then Login else if cmd = ''AUTH'' \<or> cmd = ''PBSZ'' \<or> cmd = ''PROT'' then Protection else Ordinary)"

lemma steps_command:
  assumes "steps env (command_kind cmd) s t"
  shows "steps env (command_kind cmd) s (ftp_command env out cmd arg t)"
proof (cases "command_kind cmd")
  case Login
  then have c: "cmd = ''PASS''" by (auto simp: command_kind_def split: if_splits)
  show ?thesis using steps_PASS [of env s t out arg] assms Login unfolding c by (simp add: ftp_command_def)
next
  case Protection
  then consider "cmd = ''AUTH''" | "cmd = ''PBSZ''" | "cmd = ''PROT''" by (auto simp: command_kind_def split: if_splits)
  then show ?thesis
  proof cases
    case 1
    show ?thesis using steps_AUTH [of env s t out arg] assms Protection unfolding 1 by (simp add: ftp_command_def)
  next
    case 2
    show ?thesis using steps_PBSZ [of env s t arg] assms Protection unfolding 2 by (simp add: ftp_command_def)
  next
    case 3
    show ?thesis using steps_PROT [of env s t arg] assms Protection unfolding 3 by (simp add: ftp_command_def)
  qed
next
  case Ordinary
  then have no: "(cmd = ''PASS'') = False" "(cmd = ''AUTH'') = False" "(cmd = ''PBSZ'') = False" "(cmd = ''PROT'') = False"
    and t: "steps env Ordinary s t"
    using assms by (auto simp: command_kind_def split: if_splits)
  have "steps env Ordinary s (ftp_command env out cmd arg t)"
    unfolding ftp_command_def
    by (simp only: no if_False steps_if ftp_steps t if_cancel)
  then show ?thesis using Ordinary by simp
qed

lemma steps_touch: "steps env ch s t \<Longrightarrow> steps env ch s (touch_session out t)"
  by (auto simp: touch_session_def intro: steps_last ftp_step.session_touch split: option.split)

lemma steps_line: obtains ch where "steps env ch s (handle_line env out raw s)"
proof (cases "trim_space (stripTelnet raw) = []")
  case True
  then have "steps env Ordinary s (handle_line env out raw s)" by (simp add: handle_line_def)
  then show ?thesis by (rule that)
next
  case False
  then obtain cmd arg where "handle_line env out raw s = ftp_command env out cmd arg (touch_session out s)"
    by (cases "splitCommand (trim_space (stripTelnet raw))") (simp add: handle_line_def)
  moreover have "steps env (command_kind cmd) s (ftp_command env out cmd arg (touch_session out s))"
    by (rule steps_command, rule steps_touch, rule steps_refl)
  ultimately show ?thesis using that by metis
qed

lemma steps_greet:
  assumes "fe_implicitTLS env \<longrightarrow> cf_TLS (fe_cfg env)" "\<not> c_pbszSet s" "\<not> c_dataProtPrivate s" "c_session s = None"
  shows "steps env Protection s (greet env out s)"
proof -
  obtain h where h: "adoptSNIHost env out (s\<lparr>c_secureControl := True\<rparr>) = s\<lparr>c_secureControl := True\<rparr>\<lparr>c_vhost := h\<rparr>"
    by (rule adoptSNIHost_eq)
  have "steps env Protection s (s\<lparr>c_secureControl := True, c_vhost := h\<rparr>)" if "fe_implicitTLS env"
    using that assms by (auto intro!: steps_secured [OF steps_refl] simp: same_core_def)
  then show ?thesis using assms(4) by (simp add: greet_def h Let_def steps_writes steps_ended steps_fields steps_refl)
qed

text \<open>Other connections change nothing of this connection's own state.\<close>

lemma others_simps [simp]:
  "c_username (others g s) = c_username s" "c_user (others g s) = c_user s" "c_session (others g s) = c_session s"
  "c_cwd (others g s) = c_cwd s" "c_fs (others g s) = c_fs s" "c_rnfr (others g s) = c_rnfr s"
  "c_passiveLn (others g s) = c_passiveLn s" "c_activeAddr (others g s) = c_activeAddr s" "c_remoteAddr (others g s) = c_remoteAddr s"
  "c_secureControl (others g s) = c_secureControl s" "c_pbszSet (others g s) = c_pbszSet s"
  "c_dataProtPrivate (others g s) = c_dataProtPrivate s" "f_out (others g s) = f_out s" "f_data (others g s) = f_data s"
  "f_ended (others g s) = f_ended s" "f_stopped (others g s) = f_stopped s"
  by (cases s; simp add: others_def shared.defs)+

lemma new_conn_simps [simp]:
  "f_sessions (new_conn env remote sh) = f_sessions sh" "c_user (new_conn env remote sh) = None" "c_session (new_conn env remote sh) = None"
  "c_cwd (new_conn env remote sh) = ''/''" "c_fs (new_conn env remote sh) = None" "c_rnfr (new_conn env remote sh) = []"
  "c_activeAddr (new_conn env remote sh) = []" "c_remoteAddr (new_conn env remote sh) = remote"
  "c_secureControl (new_conn env remote sh) = False" "c_pbszSet (new_conn env remote sh) = False"
  "c_dataProtPrivate (new_conn env remote sh) = False" "f_data (new_conn env remote sh) = []" "f_out (new_conn env remote sh) = []"
  "f_ended (new_conn env remote sh) = False" "f_stopped (new_conn env remote sh) = None"
  by (simp_all add: new_conn_def shared.defs)

text \<open>Reachable states: after the greeting and any events, from any shared state.\<close>

definition reached :: "'w ftpEnv \<Rightarrow> 'w ftp \<Rightarrow> bool" where
  "reached env s \<longleftrightarrow> (\<exists>remote sh out es. s = ftp_run env es (greet env out (new_conn env remote sh)))"

text \<open>An invariant of the steps that does not look at the shared state holds wherever a connection gets.\<close>

locale conn_invariant =
  fixes env :: "'w ftpEnv" and P :: "'w ftp \<Rightarrow> bool"
  assumes start: "P (new_conn env remote sh)"
    and step: "P s \<Longrightarrow> ftp_step env ch s t \<Longrightarrow> P t"
    and other: "P s \<Longrightarrow> P (others g s)"
begin

lemma steps_keep: "P s \<Longrightarrow> steps env ch s t \<Longrightarrow> P t"
  by (rotate_tac, induction rule: rtranclp_induct) (auto intro: step)

lemma line_keeps: "P s \<Longrightarrow> P (handle_line env out raw s)"
  by (rule steps_line [of env s out raw]) (rule steps_keep)

lemma run_keeps: "P s \<Longrightarrow> P (ftp_run env es s)"
proof (induction es arbitrary: s)
  case (Cons e es)
  then show ?case by (cases e) (simp_all add: line_keeps other)
qed simp

lemma reached_keeps:
  assumes "fe_implicitTLS env \<longrightarrow> cf_TLS (fe_cfg env)" "reached env s"
  shows "P s"
  using assms run_keeps steps_keep [OF start steps_greet [OF assms(1)]] by (auto simp: reached_def)

end


section \<open>Properties\<close>

lemma steps_data_sent:
  assumes "steps env ch s t"
  shows "\<exists>ds. f_data t = f_data s @ ds \<and> (\<forall>d\<in>set ds. fst d = wrapDataConn env s) \<and> (ch = Ordinary \<longrightarrow> wrapDataConn env t = wrapDataConn env s)
     \<and> (ch \<noteq> Ordinary \<longrightarrow> ds = [])"
  using assms
proof (induction rule: rtranclp_induct)
  case (step t u)
  then obtain ds where ds: "f_data t = f_data s @ ds" "\<forall>d\<in>set ds. fst d = wrapDataConn env s"
    "ch = Ordinary \<longrightarrow> wrapDataConn env t = wrapDataConn env s" "ch \<noteq> Ordinary \<longrightarrow> ds = []" by blast
  from step(2) show ?case
  proof cases
    case (data_sent bs)
    then show ?thesis using ds by (intro exI [of _ "ds @ [(wrapDataConn env t, bs)]"]) (auto simp: wrapDataConn_def)
  qed (use ds in \<open>auto simp: same_core_def wrapDataConn_def\<close>)
qed simp

lemma steps_keep_user: "steps env ch s t \<Longrightarrow> ch \<noteq> Login \<Longrightarrow> c_user t = c_user s \<and> c_fs t = c_fs s"
proof (induction rule: rtranclp_induct)
  case (step t u)
  from step(2) show ?case by cases (use step in \<open>simp_all add: same_core_def\<close>)
qed simp

definition protection_ok :: "'w ftpEnv \<Rightarrow> 'w ftp \<Rightarrow> bool" where
  "protection_ok env s \<longleftrightarrow> (c_dataProtPrivate s \<longrightarrow> c_pbszSet s) \<and> (c_pbszSet s \<longrightarrow> c_secureControl s) \<and> (c_secureControl s \<longrightarrow> cf_TLS (fe_cfg env))"

interpretation protection: conn_invariant env "protection_ok env" for env
proof
  fix s t :: "'a ftp" and ch
  assume "protection_ok env s" "ftp_step env ch s t"
  from this(2,1) show "protection_ok env t"
    by cases (auto simp: protection_ok_def same_core_def)
qed (simp_all add: protection_ok_def)

text \<open>C17. Protection of data is what the client asked for: wherever a connection gets, a private data channel is only set on an encrypted control
  connection after PBSZ, and every data connection a command uses is encrypted exactly when PROT P is in force.\<close>

theorem ftp_private_data:
  assumes "fe_implicitTLS env \<longrightarrow> cf_TLS (fe_cfg env)" and "reached env s"
  shows "(c_dataProtPrivate s \<longrightarrow> c_secureControl s \<and> c_pbszSet s)
    \<and> (\<exists>ds. f_data (handle_line env out raw s) = f_data s @ ds \<and> (\<forall>(private, bs) \<in> set ds. private = c_dataProtPrivate s))"
proof -
  have ok: "protection_ok env s" by (rule protection.reached_keeps [OF assms])
  then have "wrapDataConn env s = c_dataProtPrivate s" by (auto simp: wrapDataConn_def protection_ok_def)
  moreover obtain ch where "steps env ch s (handle_line env out raw s)" by (rule steps_line)
  ultimately show ?thesis using ok steps_data_sent by (fastforce simp: protection_ok_def)
qed

definition paths_ok :: "'w ftp \<Rightarrow> bool" where
  "paths_ok s \<longleftrightarrow> abs_clean (c_cwd s) \<and> (c_rnfr s = [] \<or> abs_clean (c_rnfr s))"

interpretation paths: conn_invariant env paths_ok for env
proof
  fix s t :: "'a ftp" and ch
  assume "paths_ok s" "ftp_step env ch s t"
  from this(2,1) show "paths_ok t" by cases (auto simp: paths_ok_def same_core_def)
qed (simp_all add: paths_ok_def)

end
