(* ===== verification/Ftp_Props.thy ===== *)
theory Ftp_Props
  imports Ftp_Conn Login_Props Memory_Backend
begin

text \<open>
  What a connection of the FTP server guarantees, whatever its client sends: a data connection goes to the client's own host, nothing
  happens without a login and a login needs everything the policy asks for, and no session outlives its connection.
  The examples at the end follow one connection that logs in and enters passive mode, and one that turns protection on.
\<close>

section \<open>No bounce\<close>

definition data_target_ok :: "'w ftp \<Rightarrow> bool" where
  "data_target_ok s \<longleftrightarrow> c_activeAddr s = [] \<or>
     validateActiveTarget (c_activeAddr s) (c_remoteAddr s) = []
     \<and> (\<exists>arg. parsePORTArg arg = Inr (c_activeAddr s) \<or> parseEPRTArg arg = Inr (c_activeAddr s))"

interpretation target: conn_invariant env data_target_ok for env
proof
  fix s t :: "'a ftp" and ch
  assume "data_target_ok s" "ftp_step env ch s t"
  from this(2,1) show "data_target_ok t"
    by cases (simp_all add: data_target_ok_def same_core_def)
qed (simp_all add: data_target_ok_def)

text \<open>C16. No bounce: wherever a connection gets, a data connection it uses is one it dialed to a target whose host is the address of the control
  connection's peer and whose port is not privileged, or the first peer at its passive port that comes from the control
  connection's host (or whose host, or the client's, cannot be told); other peers are passed over.\<close>

theorem ftp_no_bounce:
  assumes "fe_implicitTLS env \<longrightarrow> cf_TLS (fe_cfg env)" and "reached env s"
    and "acceptDataConn out s = (Some dc, s')"
  shows "(c_activeAddr s \<noteq> [] \<and> o_dial out (c_activeAddr s) = Some dc
      \<and> (\<exists>ip port. c_activeAddr s = active_target ip port \<and> 1024 \<le> port \<and> port \<le> 65535
           \<and> hostFromAddr (c_remoteAddr s) \<noteq> [] \<and> hostsEqual (hostFromAddr (c_remoteAddr s)) (show_addr ip)
           \<and> (\<forall>w. ip = V4 w \<longrightarrow> ParseIP (hostFromAddr (c_remoteAddr s)) = Some (V4 w))))
    \<or> (c_passiveLn s \<noteq> None \<and> dc \<in> set (o_accepts out) \<and> expected_peer (hostFromAddr (c_remoteAddr s)) dc)"
proof (cases "c_activeAddr s = []")
  case True
  then show ?thesis using assms(3) by (auto simp: acceptDataConn_def find_Some_iff split: option.splits)
next
  case False
  have "data_target_ok s" by (rule target.reached_keeps [OF assms(1,2)])
  then obtain arg where v: "validateActiveTarget (c_activeAddr s) (c_remoteAddr s) = []"
    and p: "parsePORTArg arg = Inr (c_activeAddr s) \<or> parseEPRTArg arg = Inr (c_activeAddr s)"
    using False by (auto simp: data_target_ok_def)
  obtain ip port where t: "c_activeAddr s = active_target ip port" "0 \<le> port" "port \<le> 65535"
    using p by (elim disjE parsePORTArg_target parseEPRTArg_target)
  note spec = validateActiveTarget_spec [OF v [unfolded t(1)] t(2,3)]
  show ?thesis using False assms(3) spec t by (intro disjI1) (auto simp: acceptDataConn_def)
qed

section \<open>Nothing without a login\<close>

definition logged_out :: "'w ftp \<Rightarrow> bool" where
  "logged_out s \<longleftrightarrow> c_user s = None \<or> c_fs s = None"

lemma authed_logged_out [simp]: "logged_out s \<Longrightarrow> authed k s = writeReply 530 ''Please login with USER and PASS.'' s"
  by (auto simp: authed_def logged_out_def split: option.split)

definition untouched :: "'w ftp \<Rightarrow> 'w ftp \<Rightarrow> bool" where
  "untouched s t \<longleftrightarrow> f_world t = f_world s \<and> f_data t = f_data s \<and> c_user t = c_user s \<and> c_fs t = c_fs s \<and> f_stopped t = f_stopped s
     \<and> f_xfer t = f_xfer s \<and> c_activeAddr t \<in> {[], c_activeAddr s}"

lemma untouched_simps:
  "untouched s (writeReply c m s)" "untouched s (writeMultiline c l s)" "untouched s s"
  "untouched s (s\<lparr>c_username := u\<rparr>)" "untouched s (s\<lparr>c_vhost := v\<rparr>)"
  by (simp_all add: untouched_def writeReply_def writeMultiline_def)

lemma command_logged_out:
  assumes "logged_out s" "cmd \<noteq> ''PASS''"
  shows "untouched s (ftp_command env out cmd arg s)"
proof -
  have a: "untouched s (cmd_AUTH env out arg s)" for arg
  proof -
    obtain h where "adoptSNIHost env out (writeReply 234 ''AUTH TLS successful.'' s\<lparr>c_secureControl := True\<rparr>) =
        writeReply 234 ''AUTH TLS successful.'' s\<lparr>c_secureControl := True\<rparr>\<lparr>c_vhost := h\<rparr>"
      by (rule adoptSNIHost_eq)
    then show ?thesis
      by (simp add: cmd_AUTH_def untouched_def writeReply_def hang_up_def cleanupConnState_def Let_def)
  qed
  have r: "untouched s (authed k s)" for k using assms(1) by (simp add: untouched_simps)
  have sth: "untouched s (handleStat env arg s)" for arg
    using r by (simp add: handleStat_def untouched_def writeMultiline_def)
  have pr: "untouched s (cmd_PROT arg s)" "untouched s (cmd_PBSZ arg s)" for arg
    by (simp_all add: cmd_PROT_def cmd_PBSZ_def untouched_def writeReply_def Let_def)
  have h: "untouched s (cmd_HOST env arg s)" for arg
    by (simp add: cmd_HOST_def untouched_def writeReply_def Let_def split: option.split)
  have q: "untouched s (hang_up (writeReply 221 ''Goodbye.'' s))"
    by (simp add: hang_up_def cleanupConnState_def untouched_def writeReply_def)
  have i: "untouched s (cmd_TYPE arg s)" "untouched s (cmd_MODE arg s)" "untouched s (cmd_STRU arg s)" "untouched s (cmd_FEAT env s)" "untouched s (handleHelp s)" for arg
    by (simp_all add: cmd_TYPE_def cmd_MODE_def cmd_STRU_def cmd_FEAT_def handleHelp_def untouched_def writeReply_def writeMultiline_def)
  have u: "untouched s (writeReply c m (s\<lparr>c_username := n\<rparr>))" for c m n by (simp add: untouched_def writeReply_def)
  have ifs: "untouched s (if c then x else y) \<longleftrightarrow> (if c then untouched s x else untouched s y)" for c x y by simp
  show ?thesis
    unfolding ftp_command_def cmd_PWD_def cmd_CWD_def cmd_MKD_def cmd_RMD_def cmd_DELE_def cmd_RNFR_def cmd_RNTO_def cmd_SIZE_def
      cmd_MDTM_def handleSite_def handleMFMT_def cmd_PASV_def cmd_EPSV_def cmd_PORT_def cmd_LIST_def cmd_MLST_def cmd_REST_def
      cmd_RETR_def cmd_STOR_def
    by (simp only: ifs a r sth pr h q i u untouched_simps if_cancel assms(2) if_False)
qed

lemma touch_frame [simp]:
  "c_user (touch_session out s) = c_user s" "c_fs (touch_session out s) = c_fs s" "f_world (touch_session out s) = f_world s"
  "f_data (touch_session out s) = f_data s" "f_stopped (touch_session out s) = f_stopped s" "f_xfer (touch_session out s) = f_xfer s"
  "c_activeAddr (touch_session out s) = c_activeAddr s" "f_users (touch_session out s) = f_users s" "f_ulids (touch_session out s) = f_ulids s"
  "f_throttle (touch_session out s) = f_throttle s" "c_username (touch_session out s) = c_username s" "c_vhost (touch_session out s) = c_vhost s"
  "c_remoteAddr (touch_session out s) = c_remoteAddr s" "c_secureControl (touch_session out s) = c_secureControl s"
  "f_out (touch_session out s) = f_out s" "c_cwd (touch_session out s) = c_cwd s"
  by (simp_all add: touch_session_def split: option.split)

text \<open>The command a line is.\<close>

definition line_command :: "bytes \<Rightarrow> string \<times> string" where
  "line_command raw =
     (case splitCommand (trim_space (stripTelnet raw)) of (cmd, arg) \<Rightarrow>
        ((case map_of legacyAliases cmd of None \<Rightarrow> cmd | Some alias \<Rightarrow> alias), arg))"

definition blank_line :: "bytes \<Rightarrow> bool" where
  "blank_line raw \<longleftrightarrow> trim_space (stripTelnet raw) = []"

lemma handle_line_eq:
  "handle_line env out raw s =
     (if blank_line raw then s else ftp_command env out (fst (line_command raw)) (snd (line_command raw)) (touch_session out s))"
  by (simp add: handle_line_def blank_line_def line_command_def Let_def split: prod.split)

lemma ftp_PASS: "ftp_command env out ''PASS'' arg s = cmd_PASS env out arg s"
  by (simp add: ftp_command_def)

lemma user_kept:
  assumes "cmd \<noteq> ''PASS''"
  shows "c_user (ftp_command env out cmd arg s) = c_user s" "c_fs (ftp_command env out cmd arg s) = c_fs s"
proof -
  have "steps env (command_kind cmd) s (ftp_command env out cmd arg s)" by (rule steps_command) (rule steps_refl)
  from steps_keep_user [OF this] assms
  show "c_user (ftp_command env out cmd arg s) = c_user s" "c_fs (ftp_command env out cmd arg s) = c_fs s"
    by (auto simp: command_kind_def split: if_splits)
qed

lemma frame_writes [simp]:
  "c_user (writeReply code m s) = c_user s" "c_user (emitAudit ty user p st m' s) = c_user s" "c_user (hang_up s) = c_user s"
  "c_fs (writeReply code m s) = c_fs s" "c_fs (emitAudit ty user p st m' s) = c_fs s" "c_fs (hang_up s) = c_fs s"
  "f_world (writeReply code m s) = f_world s" "f_world (emitAudit ty user p st m' s) = f_world s" "f_world (hang_up s) = f_world s"
  by (simp_all add: writeReply_def emitAudit_def emit_event_def hang_up_def cleanupConnState_def)

lemma end_old_user [simp]: "c_user (end_old_session env s) = c_user s"
  by (simp add: end_old_session_def release_fs_def split: option.split)

lemma open_session_user:
  "c_user (open_session env out user fsys s) = Some user \<or> c_user (open_session env out user fsys s) = None"
  by (auto simp: open_session_def split: prod.split option.split)

lemma login_user_changes:
  assumes "c_user (login_user env out user s) = Some u" "c_user s \<noteq> Some u"
  shows "user = u \<and> vhostAllows (fe_cfg env) (c_vhost s) u
    \<and> CheckAccess u (c_remoteAddr s) (o_now out) [if c_secureControl s then ProtocolFTPS else ProtocolFTP] = None"
proof -
  have al: "vhostAllows (fe_cfg env) (c_vhost s) user" using assms by (auto simp: login_user_def split: if_splits)
  then have ac: "CheckAccess user (c_remoteAddr s) (o_now out) [if c_secureControl s then ProtocolFTPS else ProtocolFTP] = None"
    using assms by (auto simp: login_user_def split: option.splits)
  have e: "login_user env out user s = on_storage (fe_buildFS env user) (\<lambda>_. writeReply 550 ''Unable to mount filesystem.'')
      (\<lambda>userFS s1. open_session env out user userFS (end_old_session env s1)) s"
    using al ac by (simp add: login_user_def)
  have "user = u"
    using assms(1) assms(2) open_session_user [of env out user]
    unfolding e on_storage_def by (auto split: prod.splits sum.splits if_splits) (metis option.inject option.distinct(1))
  then show ?thesis using al ac by simp
qed



section \<open>Sessions\<close>

definition own_sessions :: "'w ftpEnv \<Rightarrow> 'w ftp \<Rightarrow> bool" where
  "own_sessions env s \<longleftrightarrow>
     (\<forall>n. map_of (sm_sessions (f_sessions s)) (fe_ulid env n) \<noteq> None \<longrightarrow>
        (\<exists>ss. c_session s = Some ss \<and> ss_ID ss = fe_ulid env n))"

lemma StartLimited_sessions:
  assumes "StartLimited i now user proto addr cap m = ((Some sess, cs), m')"
  shows "ss_ID sess = i" "map_of (sm_sessions m') = (map_of (sm_sessions m))(i \<mapsto> sess)"
  using assms by (auto simp: StartLimited_def Let_def split: if_splits)

lemma AttachTerminator_sessions: "map_of (sm_sessions (snd (AttachTerminator i fn m))) k = None \<longleftrightarrow> map_of (sm_sessions m) k = None"
  by (auto simp: AttachTerminator_def split: option.splits)

lemma Touch_sessions: "map_of (sm_sessions (Touch now i m)) k = None \<longleftrightarrow> map_of (sm_sessions m) k = None"
  by (auto simp: Touch_def touch_write_def split: option.splits)

lemma End_sessions: "map_of (sm_sessions (snd (sess_End i m))) = (map_of (sm_sessions m))(i := None)"
  by (simp add: sess_End_def Let_def)

lemma steps_own_sessions: "steps env ch s t \<Longrightarrow> own_sessions env s \<Longrightarrow> own_sessions env t"
proof (induction rule: rtranclp_induct)
  case (step t u)
  have o: "own_sessions env t" using step by blast
  from step(2) show ?case
  proof cases
    case (session_end ss)
    then show ?thesis using o by (auto simp: own_sessions_def End_sessions)
  next
    case (session_start n now user cap sess cs m fn)
    note st = StartLimited_sessions [OF session_start(4)]
    have no: "map_of (sm_sessions (f_sessions t)) (fe_ulid env k) = None" for k
      using o session_start(3) by (auto simp: own_sessions_def)
    have "fe_ulid env k = fe_ulid env n" if "map_of (sm_sessions (f_sessions u)) (fe_ulid env k) \<noteq> None" for k
    proof (rule ccontr)
      assume "fe_ulid env k \<noteq> fe_ulid env n"
      then have "map_of (sm_sessions m) (fe_ulid env k) = None" using st(2) no by simp
      then show False using that by (simp add: session_start(1) AttachTerminator_sessions)
    qed
    moreover have "c_session u = Some sess" by (simp add: session_start(1))
    ultimately show ?thesis using st(1) unfolding own_sessions_def by metis
  next
    case (session_touch ss now)
    then show ?thesis using o by (auto simp: own_sessions_def Touch_sessions)
  qed (use o in \<open>simp_all add: own_sessions_def same_core_def\<close>)
qed

lemma others_sessions: "f_sessions (others g s) = f_sessions (g (shared.truncate s))" "f_sessions (shared.truncate s) = f_sessions s"
  by (simp_all add: others_def shared.defs)

definition foreign :: "'w ftpEnv \<Rightarrow> ('w shared \<Rightarrow> 'w shared) \<Rightarrow> bool" where
  "foreign env g \<longleftrightarrow> (\<forall>sh n. map_of (sm_sessions (f_sessions (g sh))) (fe_ulid env n) \<noteq> None
     \<longrightarrow> map_of (sm_sessions (f_sessions sh)) (fe_ulid env n) \<noteq> None)"

lemma run_own_sessions:
  "own_sessions env s \<Longrightarrow> (\<And>g. Others g \<in> set es \<Longrightarrow> foreign env g) \<Longrightarrow> own_sessions env (ftp_run env es s)"
proof (induction es arbitrary: s)
  case (Cons e es)
  show ?case
  proof (cases e)
    case (Line out raw)
    obtain ch where "steps env ch s (handle_line env out raw s)" by (rule steps_line)
    then have "own_sessions env (handle_line env out raw s)" using Cons(2) by (rule steps_own_sessions)
    then show ?thesis using Cons Line by simp
  next
    case (Others g)
    then have f: "foreign env g" using Cons(3) by simp
    have "own_sessions env (others g s)"
      unfolding own_sessions_def others_sessions others_simps
    proof (intro allI impI)
      fix n
      assume "map_of (sm_sessions (f_sessions (g (shared.truncate s)))) (fe_ulid env n) \<noteq> None"
      then have "map_of (sm_sessions (f_sessions s)) (fe_ulid env n) \<noteq> None"
        using f others_sessions(2) [of s] unfolding foreign_def by metis
      then show "\<exists>ss. c_session s = Some ss \<and> ss_ID ss = fe_ulid env n" using Cons(2) unfolding own_sessions_def by blast
    qed
    then show ?thesis using Cons Others by simp
  qed
qed simp

lemma greet_sessions [simp]: "f_sessions (greet env out s) = f_sessions s" "c_session (greet env out s) = c_session s" "f_stopped (greet env out s) = f_stopped s"
  by (simp_all add: greet_def Let_def writeReply_def adoptSNIHost_def split: if_split)

definition ended_ok :: "'w ftp \<Rightarrow> bool" where
  "ended_ok s \<longleftrightarrow> (f_ended s \<longrightarrow> c_session s = None)"

lemma steps_ended_ok: "steps env ch s t \<Longrightarrow> ch \<noteq> Login \<Longrightarrow> ended_ok s \<Longrightarrow> ended_ok t"
proof (induction rule: rtranclp_induct)
  case (step t u)
  from step(2) show ?case by cases (use step in \<open>simp_all add: same_core_def ended_ok_def\<close>)
qed simp

lemma frame_ended [simp]:
  "f_ended (writeReply code m s) = f_ended s" "f_ended (emitAudit ty user p st m' s) = f_ended s"
  "f_ended (end_old_session env s) = f_ended s" "f_ended (touch_session out s) = f_ended s" "c_session (touch_session out s) = c_session s"
  by (simp_all add: writeReply_def emitAudit_def emit_event_def end_old_session_def release_fs_def touch_session_def split: option.split)

lemma open_session_ended [simp]: "f_ended (open_session env out user fsys s) = f_ended s"
  by (auto simp: open_session_def split: prod.split option.split)

lemma login_user_ended [simp]: "f_ended (login_user env out user s) = f_ended s"
  by (simp add: login_user_def on_storage_def split: option.split sum.split prod.split)

lemma hang_up_session [simp]: "c_session (hang_up s) = None" "f_ended (hang_up s)"
  by (simp_all add: hang_up_def cleanupConnState_def)

lemma PASS_ended: "\<not> f_ended s \<Longrightarrow> ended_ok (cmd_PASS env out arg s)"
  by (simp add: cmd_PASS_def Let_def ended_ok_def split: option.split sum.split prod.split)

lemma line_ended:
  assumes "\<not> over s"
  shows "ended_ok (handle_line env out raw s)"
proof -
  have n: "\<not> f_ended (touch_session out s)" using assms by (simp add: over_def)
  have "ended_ok (ftp_command env out cmd arg (touch_session out s))" for cmd arg
  proof (cases "cmd = ''PASS''")
    case True
    show ?thesis unfolding True ftp_PASS by (rule PASS_ended [OF n])
  next
    case False
    have "steps env (command_kind cmd) (touch_session out s) (ftp_command env out cmd arg (touch_session out s))"
      by (rule steps_command) (rule steps_refl)
    moreover have "command_kind cmd \<noteq> Login" using False by (simp add: command_kind_def)
    moreover have "ended_ok (touch_session out s)" using n by (simp add: ended_ok_def)
    ultimately show ?thesis by (rule steps_ended_ok)
  qed
  moreover have "ended_ok s" using assms by (simp add: ended_ok_def over_def)
  ultimately show ?thesis unfolding handle_line_eq by (cases "blank_line raw") simp_all
qed

lemma run_ended: "ended_ok s \<Longrightarrow> ended_ok (ftp_run env es s)"
proof (induction es arbitrary: s)
  case (Cons e es)
  have "ended_ok (others g s)" for g using Cons(2) by (simp add: ended_ok_def)
  moreover have "ended_ok (ftp_run env es (handle_line env out raw s))" if "\<not> over s" for out raw
    using line_ended [OF that] by (rule Cons(1))
  ultimately show ?case using Cons by (cases e) simp_all
qed simp

text \<open>C18. A connection ends its sessions: whatever lines come and whatever other connections do in between (short of inventing this
  connection's session ids), unless a call below panics, no session of the connection is registered when it is over, and while it
  lives the only session it has registered is its current one.\<close>

theorem ftp_no_session_left:
  assumes fresh: "\<forall>n. map_of (sm_sessions (f_sessions sh)) (fe_ulid env n) = None"
    and other: "\<forall>g. Others g \<in> set es \<longrightarrow> foreign env g"
    and nopanic: "f_stopped (ftp_run env es (greet env out (new_conn env remote sh))) = None"
  shows "map_of (sm_sessions (f_sessions (handleConn env out remote es sh))) (fe_ulid env n) = None
    \<and> (\<forall>n. map_of (sm_sessions (f_sessions (ftp_run env es (greet env out (new_conn env remote sh))))) (fe_ulid env n) \<noteq> None \<longrightarrow>
        (\<exists>ss. c_session (ftp_run env es (greet env out (new_conn env remote sh))) = Some ss \<and> ss_ID ss = fe_ulid env n))"
proof -
  define g where "g = greet env out (new_conn env remote sh)"
  define r where "r = ftp_run env es g"
  have "own_sessions env g" using fresh by (simp add: g_def own_sessions_def)
  then have own: "own_sessions env r" unfolding r_def using other by (intro run_own_sessions) blast+
  have "ended_ok g" by (simp add: ended_ok_def g_def)
  then have e: "ended_ok r" unfolding r_def by (rule run_ended)
  have "map_of (sm_sessions (f_sessions (conn_end env r))) (fe_ulid env n) = None"
  proof (cases "f_ended r")
    case True
    then have "c_session r = None" using e by (simp add: ended_ok_def)
    then have "map_of (sm_sessions (f_sessions r)) (fe_ulid env n) = None" using own by (auto simp: own_sessions_def)
    moreover have "f_sessions (conn_end env r) = f_sessions r"
      using True nopanic by (simp add: conn_end_def release_fs_def r_def g_def split: option.split)
    ultimately show ?thesis by simp
  next
    case False
    have "steps env Ordinary r (hang_up r)" by (rule steps_hang_up) (rule steps_refl)
    then have "own_sessions env (hang_up r)" using own by (rule steps_own_sessions)
    then have "map_of (sm_sessions (f_sessions (hang_up r))) (fe_ulid env n) = None" by (auto simp: own_sessions_def)
    moreover have "f_sessions (conn_end env r) = f_sessions (hang_up r)"
      using False nopanic by (simp add: conn_end_def release_fs_def r_def g_def split: option.split)
    ultimately show ?thesis by simp
  qed
  then show ?thesis using own by (simp add: handleConn_def r_def g_def own_sessions_def)
qed



text \<open>After a panic the deferred calls release the file system, and the session stays registered.\<close>

theorem ftp_panic_leaks_session:
  assumes "f_stopped s = Some GoPanic"
  shows "f_ended (conn_end env s) \<and> f_sessions (conn_end env s) = f_sessions s"
  using assms by (simp add: conn_end_def release_fs_def split: option.split)

lemma run_append: "ftp_run env es' (ftp_run env es s) = ftp_run env (es @ es') s"
proof (induction es arbitrary: s)
  case (Cons e es)
  then show ?case by (cases e) simp_all
qed simp

section \<open>A session\<close>

definition conn_peer :: "string \<Rightarrow> dataconn" where
  "conn_peer a = \<lparr>dc_remote = a, dc_chunks = [''abc'', ''de''], dc_readErr = None, dc_room = None, dc_hsErr = None, dc_closeErr = None\<rparr>"

text \<open>A stranger connects to the passive port before the client does.\<close>

definition conn_outside :: outside where
  "conn_outside = \<lparr>o_now = 5, o_listen = (\<lambda>p. if p = 50001 then Some ''10.0.0.9:50001'' else None), o_dial = (\<lambda>_. None),
     o_accepts = [conn_peer ''10.0.0.6:9'', conn_peer ''10.0.0.1:9''], o_abort = False, o_handshake = True, o_sni = []\<rparr>"

definition conn_cfg :: ftpConfig where
  "conn_cfg = NewServer \<lparr>cf_ListenAddr = [], cf_Port = 0, cf_Banner = [], cf_PassivePortRange = [], cf_PassiveIP = [], cf_IdleTimeout = 0,
     cf_TransferTimeout = 0, cf_FTPSMode = [], cf_FTPSImplicitPort = 0, cf_TLS = True, cf_ActiveMode = False, cf_IPFilter = None,
     cf_MaxConnections = 0, cf_VirtualHosts = []\<rparr>"

definition conn_env :: "mem ftpEnv" where
  "conn_env = \<lparr>fe_cfg = conn_cfg, fe_auth = wit_lib, fe_engine = wit_engine, fe_buildFS = (\<lambda>_ w. (Inr mem_fs, w)),
     fe_release = (\<lambda>_ w. w), fe_ulid = (\<lambda>n. replicate n CHR ''i''), fe_listTime = (\<lambda>_. ''Jan  1 00:00''), fe_connID = 7, fe_implicitTLS = False, fe_fuel = 10\<rparr>"

definition conn_shared :: "mem shared" where
  "conn_shared = \<lparr>f_world = mem_New 5 (\<lambda>_ _. 0), f_users = wit_users,
     f_throttle = \<lparr>th_enabled = False, th_threshold = 0, th_duration = 0, th_whitelist = None, th_entries = []\<rparr>,
     f_sessions = NewSessions, f_xfer = None, f_audit = Some [], f_ulids = 0\<rparr>"

definition conn_line :: "string \<Rightarrow> bytes" where
  "conn_line s = s @ CRLF"

definition conn_start :: "mem ftp" where
  "conn_start = greet conn_env conn_outside (new_conn conn_env ''10.0.0.1:1'' conn_shared)"

definition conn_named :: "mem ftp" where
  "conn_named = handle_line conn_env conn_outside (conn_line ''USER ALICE'') conn_start"

definition conn_in :: "mem ftp" where
  "conn_in = handle_line conn_env conn_outside (conn_line ''PASS h'') conn_named"

lemma find_line_end:
  "find (\<lambda>r. prefix r (CHR 0x0A # t)) (map rev space_runes) = Some [CHR 0x0A]"
  "find (\<lambda>r. prefix r (CHR 0x0D # t)) (map rev space_runes) = Some [CHR 0x0D]"
  by (simp_all add: space_runes_def char_of_def bit_Suc_0_iff bit_1_iff)

lemma trim_space_CRLF:
  assumes "s \<noteq> []" "plain_char (hd s)" "plain_char (last s)"
  shows "trim_space (s @ CRLF) = s"
proof -
  have p: "(32::nat) < of_char (hd s)" "of_char (hd s) < (127::nat)" using assms by (auto simp: plain_char_def)
  have "find (\<lambda>r. prefix r (s @ CRLF)) space_runes = None"
  proof -
    have "\<not> prefix r (s @ CRLF)" if "r \<in> set space_runes" for r
      using space_runes_heads space_runes_ne(1) that assms(1,2) by (cases r; cases s) (auto simp: list_all_iff)
    then show ?thesis by (auto simp: find_None_iff)
  qed
  then have l: "trim_left_fuel n space_runes (s @ CRLF) = s @ CRLF" for n by (rule trim_left_fixed)
  have r: "find (\<lambda>r. prefix r (rev s)) (map rev space_runes) = None"
  proof -
    have "\<not> prefix r (rev s)" if "r \<in> set (map rev space_runes)" for r
    proof -
      have "r \<in> rev ` set space_runes" using that by simp
      then obtain q where q: "r = rev q" "q \<in> set space_runes" by blast
      then have "q \<noteq> []" "\<not> plain_char (last q)" using space_runes_heads space_runes_ne(1) by (auto simp: list_all_iff)
      then show ?thesis using assms(1,3) q(1) by (cases q rule: rev_cases; cases s rule: rev_cases) auto
    qed
    then show ?thesis by (auto simp: find_None_iff)
  qed
  have e: "trim_left_fuel (Suc (Suc (length s))) (map rev space_runes) (CHR 0x0A # CHR 0x0D # rev s) = rev s"
    by (simp only: trim_left_fuel.simps find_line_end option.case list.size One_nat_def plus_nat.add_0 add_Suc drop_Suc_Cons drop_0 trim_left_fixed [OF r])
  have n: "rev (s @ CRLF) = CHR 0x0A # CHR 0x0D # rev s" "length (s @ CRLF) = Suc (Suc (length s))" by (simp_all add: CRLF_def)
  show ?thesis unfolding trim_space_def Let_def l n e by simp
qed

lemma line_command_text:
  assumes "line \<noteq> []" "plain_char (hd line)" "plain_char (last line)"
  shows "line_command (line @ CRLF) = (case splitCommand line of (cmd, arg) \<Rightarrow> ((case map_of legacyAliases cmd of None \<Rightarrow> cmd | Some alias \<Rightarrow> alias), arg))"
    "\<not> blank_line (line @ CRLF)"
proof -
  have p: "hd line \<notin> {CHR 0xFF, CHR 0xF4, CHR 0xF2}" using assms(2) by (auto simp: plain_char_def)
  then have "stripTelnet (line @ CRLF) = line @ CRLF" using assms(1) by (cases line) (auto simp: stripTelnet_def)
  then show "line_command (line @ CRLF) = (case splitCommand line of (cmd, arg) \<Rightarrow> ((case map_of legacyAliases cmd of None \<Rightarrow> cmd | Some alias \<Rightarrow> alias), arg))"
    "\<not> blank_line (line @ CRLF)"
    using trim_space_CRLF [OF assms] assms(1) by (simp_all add: line_command_def blank_line_def)
qed

lemma conn_commands:
  "line_command (conn_line ''USER ALICE'') = (''USER'', ''ALICE'')" "\<not> blank_line (conn_line ''USER ALICE'')"
  "line_command (conn_line ''PASS h'') = (''PASS'', ''h'')" "\<not> blank_line (conn_line ''PASS h'')"
  "line_command (conn_line ''EPSV'') = (''EPSV'', [])" "\<not> blank_line (conn_line ''EPSV'')"
  "line_command (conn_line ''QUIT'') = (''QUIT'', [])" "\<not> blank_line (conn_line ''QUIT'')"
proof -
  have u: "ToUpper ''USER'' = ''USER'' \<and> ToUpper ''PASS'' = ''PASS'' \<and> ToUpper ''EPSV'' = ''EPSV'' \<and> ToUpper ''QUIT'' = ''QUIT''" by code_simp
  show "line_command (conn_line ''USER ALICE'') = (''USER'', ''ALICE'')" "\<not> blank_line (conn_line ''USER ALICE'')"
  "line_command (conn_line ''PASS h'') = (''PASS'', ''h'')" "\<not> blank_line (conn_line ''PASS h'')"
  "line_command (conn_line ''EPSV'') = (''EPSV'', [])" "\<not> blank_line (conn_line ''EPSV'')"
  "line_command (conn_line ''QUIT'') = (''QUIT'', [])" "\<not> blank_line (conn_line ''QUIT'')"
    using u line_command_text [of "''USER ALICE''"] line_command_text [of "''PASS h''"] line_command_text [of "''EPSV''"] line_command_text [of "''QUIT''"]
    by (simp_all add: conn_line_def plain_char_def splitCommand_def cut_at_def trim_space_plain legacyAliases_def)
qed

lemma conn_alice:
  obtains u where "\<And>i now. authenticate wit_lib wit_engine i now ''ALICE'' ''h'' wit_users = (Inr (Some u), wit_users)"
    "\<And>s now' ps. CheckAccess u s now' ps = None" "u_MaxSessions u = 0"
proof -
  have "\<exists>u. wit_users = \<lparr>st_users = [(''u1'', u)], st_byName = [(''alice'', ''u1'')], st_groups = [], st_groupByName = []\<rparr>
    \<and> u_ID u = ''u1'' \<and> u_AuthProvider u = ''local'' \<and> u_PasswordHash u = ''h'' \<and> u_Enabled u \<and> u_LockedUntil u = None \<and> u_ExpiresAt u = None
    \<and> u_AllowedIPs u = [] \<and> u_AllowedProtocols u = [] \<and> u_MaxSessions u = 0"
    by (simp add: wit_users_def user_Create_def userByNameTx_def create_defaults_def empty_store_def usernameIndexKey_def wit_trims Let_def
      put_user_def put_name_def wit_account_def new_user_def AuthProviderLocal_def trim_space_Nil)
  then obtain u where u: "wit_users = \<lparr>st_users = [(''u1'', u)], st_byName = [(''alice'', ''u1'')], st_groups = [], st_groupByName = []\<rparr>"
    "u_ID u = ''u1''" "u_AuthProvider u = ''local''" "u_PasswordHash u = ''h''" "u_Enabled u" "u_LockedUntil u = None" "u_ExpiresAt u = None"
    "u_AllowedIPs u = []" "u_AllowedProtocols u = []" "u_MaxSessions u = 0" by blast
  have g: "GetByUsername wit_users ''ALICE'' = Some u" "GetByID wit_users ''u1'' = Some u"
    unfolding u(1) by (simp_all add: GetByUsername_def GetByID_def usernameIndexKey_def wit_trims Let_def)
  show thesis
  proof (rule that)
    show "authenticate wit_lib wit_engine i now ''ALICE'' ''h'' wit_users = (Inr (Some u), wit_users)" for i now
      using g u(2-10) providers
      by (simp add: authenticate_def authenticateLocalUser_def Let_def wit_lib_def isLDAPUser_def trim_space_plain plain_char_def ensureLoginAllowed_def Expired_def)
    show "CheckAccess u s now' ps = None" for s now' ps
      using u(2-10) by (cases ps) (simp_all add: CheckAccess_def Expired_def IPAllowed_def AnyProtocolAllowed_def ProtocolAllowed_def)
  qed (rule u(10))
qed

lemmas conn_parts = conn_env_def conn_cfg_def NewServer_def conn_outside_def conn_shared_def

lemma conn_start_eq:
  "c_user conn_start = None" "c_session conn_start = None" "f_sessions conn_start = NewSessions" "f_users conn_start = wit_users"
  "f_throttle conn_start = f_throttle conn_shared" "f_ulids conn_start = 0" "f_stopped conn_start = None" "f_ended conn_start = False" "c_vhost conn_start = []"
  "c_username conn_start = []" "c_secureControl conn_start = False" "c_remoteAddr conn_start = ''10.0.0.1:1''" "c_fs conn_start = None" "f_world conn_start = mem_New 5 (\<lambda>_ _. 0)"
  "c_passiveIP conn_start = []" "c_activeAddr conn_start = []" "c_dataProtPrivate conn_start = False" "f_audit conn_start = Some []" 
  by (simp_all add: conn_start_def greet_def writeReply_def conn_parts new_conn_def shared.defs Let_def)

lemma conn_named_eq: "conn_named = writeReply 331 ''User name okay, need password.'' (conn_start\<lparr>c_username := ''ALICE''\<rparr>)"
  by (simp add: conn_named_def handle_line_eq conn_commands touch_session_def conn_start_eq ftp_command_def)

lemma conn_in_eq:
  obtains u ss where "c_user conn_in = Some u" "c_fs conn_in = Some mem_fs" "c_session conn_in = Some ss" "ss_ID ss = ''i''" "f_stopped conn_in = None" "f_ended conn_in = False"
    "c_activeAddr conn_in = []" "c_remoteAddr conn_in = ''10.0.0.1:1''" "c_dataProtPrivate conn_in = False" "map_of (sm_sessions (f_sessions conn_in)) ''i'' \<noteq> None"
    "f_world conn_in = mem_New 5 (\<lambda>_ _. 0)" "c_passiveLn conn_in = c_passiveLn conn_start"
proof -
  obtain u where u: "\<And>i now. authenticate wit_lib wit_engine i now ''ALICE'' ''h'' wit_users = (Inr (Some u), wit_users)"
    "\<And>s now' ps. CheckAccess u s now' ps = None" "u_MaxSessions u = 0" by (rule conn_alice) blast
  have "conn_in = cmd_PASS conn_env conn_outside ''h'' conn_named"
    by (simp add: conn_in_def handle_line_eq conn_commands touch_session_def conn_named_eq writeReply_def conn_start_eq ftp_PASS)
  also have "\<dots> = login_user conn_env conn_outside u (conn_named\<lparr>f_users := wit_users, f_ulids := 1, f_throttle := f_throttle conn_shared\<rparr>)"
    by (simp add: cmd_PASS_def conn_named_eq writeReply_def conn_start_eq conn_parts u throttle_Check_def RecordSuccess_def Let_def)
  finally have e: "conn_in = login_user conn_env conn_outside u (conn_named\<lparr>f_users := wit_users, f_ulids := 1, f_throttle := f_throttle conn_shared\<rparr>)" .
  define ss where "ss = \<lparr>ss_ID = ''i'', ss_Username = u_Username u, ss_Protocol = ''ftp'', ss_RemoteAddr = ''10.0.0.1:1'', ss_StartedAt = 5, ss_LastSeenAt = 5,
    ss_terminate = None\<rparr>"
  have "c_user conn_in = Some u" "c_fs conn_in = Some mem_fs" "c_session conn_in = Some ss" "ss_ID ss = ''i''" "f_stopped conn_in = None" "f_ended conn_in = False"
    "c_activeAddr conn_in = []" "c_remoteAddr conn_in = ''10.0.0.1:1''" "c_dataProtPrivate conn_in = False" "map_of (sm_sessions (f_sessions conn_in)) ''i'' \<noteq> None"
    "f_world conn_in = mem_New 5 (\<lambda>_ _. 0)" "c_passiveLn conn_in = c_passiveLn conn_start"
    by (simp_all add: e ss_def login_user_def vhostAllows_def conn_named_eq writeReply_def conn_start_eq conn_parts u on_storage_def end_old_session_def release_fs_def
        open_session_def StartLimited_def NewSessions_def emitAudit_def emit_event_def AttachTerminator_def Let_def)
  then show thesis by (rule that)
qed

lemma conn_reached: "reached conn_env conn_start" "reached conn_env conn_in"
proof -
  have r: "reached conn_env (ftp_run conn_env es conn_start)" for es
    unfolding reached_def conn_start_def by (rule exI)+ (rule refl)
  show "reached conn_env conn_start" using r [of "[]"] by simp
  have "conn_in = ftp_run conn_env [Line conn_outside (conn_line ''USER ALICE''), Line conn_outside (conn_line ''PASS h'')] conn_start"
    by (simp add: conn_in_def conn_named_def [symmetric] over_def conn_start_eq) (simp add: conn_named_eq writeReply_def over_def conn_start_eq)
  then show "reached conn_env conn_in" by (rule ssubst) (rule r)
qed

definition conn_passive :: "mem ftp" where
  "conn_passive = handle_line conn_env conn_outside (conn_line ''EPSV'') conn_in"

lemma conn_passive_eq:
  "c_activeAddr conn_passive = []" "c_passiveLn conn_passive = Some ''10.0.0.9:50001''" "c_remoteAddr conn_passive = ''10.0.0.1:1''"
proof -
  have r: "parsePortRange ''50000-50100'' = Inr (50000, 50100)"
  proof -
    have "decimal ''50000'' = 50000 \<and> decimal ''50100'' = 50100 \<and> list_all is_digit ''50000'' \<and> list_all is_digit ''50100''" by code_simp
    then have "Atoi ''50000'' = (50000, True)" "Atoi ''50100'' = (50100, True)"
      using Atoi_digits [of "''50000''"] Atoi_digits [of "''50100''"] by (simp_all add: max_int64_def)
    then show ?thesis by (simp add: parsePortRange_def cut_at_def trim_space_plain plain_char_def)
  qed
  have l: "[50000..50100::int] = 50000 # 50001 # [50002..50100]" using upto_rec1 [of 50000 "50100::int"] upto_rec1 [of 50001 "50100::int"] by (simp del: upto_rec_numeral)
  obtain u ss where i: "c_user conn_in = Some u" "c_fs conn_in = Some mem_fs" "c_session conn_in = Some ss" "c_remoteAddr conn_in = ''10.0.0.1:1''" by (rule conn_in_eq)
  have tl: "ToLower [] \<noteq> ToLower ''ALL''" by code_simp
  have p: "enterPassiveMode conn_env conn_outside s = (None, s\<lparr>c_activeAddr := [], c_passiveLn := Some ''10.0.0.9:50001''\<rparr>)" for s
    unfolding enterPassiveMode_def Let_def by (simp add: conn_parts r l)
  have e: "conn_passive = cmd_EPSV conn_env conn_outside [] (touch_session conn_outside conn_in)"
    by (simp add: conn_passive_def handle_line_eq conn_commands ftp_command_def)
  show "c_activeAddr conn_passive = []" "c_passiveLn conn_passive = Some ''10.0.0.9:50001''" "c_remoteAddr conn_passive = ''10.0.0.1:1''"
    unfolding e using i by (simp_all add: cmd_EPSV_def authed_def p trim_space_Nil EqualFold_def writeReply_def tl)
qed


lemma conn_peers:
  "\<not> expected_peer (hostFromAddr ''10.0.0.1:1'') (conn_peer ''10.0.0.6:9'')" "expected_peer (hostFromAddr ''10.0.0.1:1'') (conn_peer ''10.0.0.1:9'')"
proof -
  have s: "SplitHostPort ''10.0.0.1:1'' = Some ''10.0.0.1'' \<and> SplitHostPort ''10.0.0.1:9'' = Some ''10.0.0.1'' \<and> SplitHostPort ''10.0.0.6:9'' = Some ''10.0.0.6''
    \<and> trim_chars ''[]'' ''10.0.0.1'' = ''10.0.0.1'' \<and> trim_chars ''[]'' ''10.0.0.6'' = ''10.0.0.6''" by code_simp
  then have h: "hostFromAddr ''10.0.0.1:1'' = ''10.0.0.1''" "hostFromAddr ''10.0.0.1:9'' = ''10.0.0.1''" "hostFromAddr ''10.0.0.6:9'' = ''10.0.0.6''"
    by (simp_all add: hostFromAddr_def trim_space_plain plain_char_def)
  have "ParseIP ''10.0.0.1'' = Some (V4 0x0A000001) \<and> ParseIP ''10.0.0.6'' = Some (V4 0x0A000006)" by code_simp
  then show "\<not> expected_peer (hostFromAddr ''10.0.0.1:1'') (conn_peer ''10.0.0.6:9'')" "expected_peer (hostFromAddr ''10.0.0.1:1'') (conn_peer ''10.0.0.1:9'')"
    by (simp_all add: expected_peer_def conn_peer_def h hostsEqual_def)
qed

theorem ftp_no_bounce_witness:
  "\<exists>s'. acceptDataConn conn_outside conn_passive = (Some (conn_peer ''10.0.0.1:9''), s') \<and> c_passiveLn conn_passive \<noteq> None"
proof -
  have r: "reached conn_env conn_passive"
  proof -
    obtain u ss where i: "f_ended conn_in = False" "f_stopped conn_in = None" by (rule conn_in_eq)
    then have "conn_passive = ftp_run conn_env [Line conn_outside (conn_line ''EPSV'')] conn_in" by (simp add: conn_passive_def over_def)
    moreover have "reached conn_env (ftp_run conn_env es s)" if "reached conn_env s" for es s
      using that unfolding reached_def by (elim exE, hypsubst) (metis run_append)
    ultimately show ?thesis using conn_reached(2) by metis
  qed
  have a: "acceptDataConn conn_outside conn_passive = (Some (conn_peer ''10.0.0.1:9''), conn_passive\<lparr>c_passiveLn := None\<rparr>)"
    using conn_peers by (simp add: acceptDataConn_def conn_passive_eq) (simp add: conn_outside_def)
  have "fe_implicitTLS conn_env \<longrightarrow> cf_TLS (fe_cfg conn_env)" by (simp add: conn_parts)
  from ftp_no_bounce [OF this r a] a show ?thesis using conn_passive_eq(1) by simp
qed

definition conn_private :: "mem ftp" where
  "conn_private = ftp_run conn_env (map (\<lambda>l. Line conn_outside (conn_line l)) [''AUTH TLS'', ''PBSZ 0'', ''PROT P'']) conn_start"

lemma conn_private_eq: "c_dataProtPrivate conn_private"
proof -
  have u: "ToUpper ''AUTH'' = ''AUTH'' \<and> ToUpper ''PBSZ'' = ''PBSZ'' \<and> ToUpper ''PROT'' = ''PROT'' \<and> ToUpper ''P'' = ''P''" by code_simp
  have l: "line_command (conn_line ''AUTH TLS'') = (''AUTH'', ''TLS'')" "\<not> blank_line (conn_line ''AUTH TLS'')"
    "line_command (conn_line ''PBSZ 0'') = (''PBSZ'', ''0'')" "\<not> blank_line (conn_line ''PBSZ 0'')"
    "line_command (conn_line ''PROT P'') = (''PROT'', ''P'')" "\<not> blank_line (conn_line ''PROT P'')"
    using u line_command_text [of "''AUTH TLS''"] line_command_text [of "''PBSZ 0''"] line_command_text [of "''PROT P''"]
    by (simp_all add: conn_line_def plain_char_def splitCommand_def cut_at_def trim_space_plain legacyAliases_def)
  have e: "ftpsExplicitEnabled (fe_cfg conn_env)"
  proof -
    have "ToLower ''explicit'' = ''explicit''" by code_simp
    then show ?thesis by (simp add: ftpsExplicitEnabled_def conn_parts)
  qed
  have o: "o_handshake conn_outside" by (simp add: conn_outside_def)
  have v: "adoptSNIHost conn_env conn_outside s = s" for s by (simp add: adoptSNIHost_def conn_parts)
  have t: "touch_session conn_outside s = s" if "c_session s = None" for s :: "mem ftp" using that by (simp add: touch_session_def)
  define s1 where "s1 = handle_line conn_env conn_outside (conn_line ''AUTH TLS'') conn_start"
  have s1: "c_session s1 = None" "c_secureControl s1" "f_ended s1 = False" "f_stopped s1 = None"
    by (simp_all add: s1_def handle_line_eq l t conn_start_eq ftp_command_def cmd_AUTH_def e o v EqualFold_def trim_space_plain plain_char_def writeReply_def Let_def)
  define s2 where "s2 = handle_line conn_env conn_outside (conn_line ''PBSZ 0'') s1"
  have s2: "c_session s2 = None" "c_secureControl s2" "c_pbszSet s2" "f_ended s2 = False" "f_stopped s2 = None"
    by (simp_all add: s2_def handle_line_eq l t s1 ftp_command_def cmd_PBSZ_def trim_space_plain plain_char_def writeReply_def)
  have e: "conn_private = handle_line conn_env conn_outside (conn_line ''PROT P'') s2"
    by (simp add: conn_private_def s1_def [symmetric] s2_def [symmetric] over_def conn_start_eq s1 s2)
  show ?thesis
    unfolding e using u by (simp add: handle_line_eq l t s2 ftp_command_def cmd_PROT_def trim_space_plain plain_char_def writeReply_def)
qed

theorem ftp_private_data_witness:
  "c_dataProtPrivate conn_private \<and> c_secureControl conn_private
    \<and> (\<exists>ds. f_data (handle_line conn_env conn_outside (conn_line ''LIST'') conn_private) = f_data conn_private @ ds)"
proof -
  have t: "fe_implicitTLS conn_env \<longrightarrow> cf_TLS (fe_cfg conn_env)" by (simp add: conn_parts)
  have r: "reached conn_env conn_private"
    unfolding reached_def conn_private_def conn_start_def by (rule exI)+ (rule refl)
  from ftp_private_data [OF t r] conn_private_eq show ?thesis by blast
qed


theorem ftp_no_session_left_witness:
  "map_of (sm_sessions (f_sessions (handleConn conn_env conn_outside ''10.0.0.1:1''
       [Line conn_outside (conn_line ''USER ALICE''), Line conn_outside (conn_line ''PASS h'')] conn_shared))) ''i'' = None
    \<and> map_of (sm_sessions (f_sessions conn_in)) ''i'' \<noteq> None"
proof -
  define es :: "mem event list" where "es = [Line conn_outside (conn_line ''USER ALICE''), Line conn_outside (conn_line ''PASS h'')]"
  have s: "ftp_run conn_env es (greet conn_env conn_outside (new_conn conn_env ''10.0.0.1:1'' conn_shared)) = conn_in"
    by (simp add: es_def conn_start_def [symmetric] conn_in_def conn_named_def [symmetric] over_def conn_start_eq) (simp add: conn_named_eq writeReply_def over_def conn_start_eq)
  obtain u ss where i: "f_stopped conn_in = None" "map_of (sm_sessions (f_sessions conn_in)) ''i'' \<noteq> None" by (rule conn_in_eq)
  have f: "\<forall>n. map_of (sm_sessions (f_sessions conn_shared)) (fe_ulid conn_env n) = None" by (simp add: conn_parts NewSessions_def)
  have o: "\<forall>g. Others g \<in> set es \<longrightarrow> foreign conn_env g" by (simp add: es_def)
  have "fe_ulid conn_env 1 = ''i''" by (simp add: conn_env_def)
  then show ?thesis
    using ftp_no_session_left [OF f o, of conn_outside "''10.0.0.1:1''" 1] s i unfolding es_def by simp
qed

end
