(* ===== verification/Scp_Props.thy ===== *)
theory Scp_Props
  imports Ssh_Server Ftp_Props
begin

text \<open>
  What SCP guarantees: a sink touches nothing outside its target, whatever records it gets; records and command lines are read back
  as they were written; an SSH sign-in carries the account's policy to every channel.
\<close>

section \<open>File systems that keep a record\<close>

text \<open>
  A file system that behaves as \<open>F\<close> does and keeps the paths that were opened, made, removed or changed.
\<close>

definition untraced :: "('w \<Rightarrow> 'r \<times> 'w) \<Rightarrow> 'w \<times> string list \<Rightarrow> 'r \<times> ('w \<times> string list)" where
  "untraced op wl = (case op (fst wl) of (r, w) \<Rightarrow> (r, (w, snd wl)))"

definition logged :: "string list \<Rightarrow> ('w \<Rightarrow> 'r \<times> 'w) \<Rightarrow> 'w \<times> string list \<Rightarrow> 'r \<times> ('w \<times> string list)" where
  "logged ps op wl = (case op (fst wl) of (r, w) \<Rightarrow> (r, (w, snd wl @ ps)))"

definition traced_entry :: "'w direntry \<Rightarrow> ('w \<times> string list) direntry" where
  "traced_entry e =
     \<lparr>de_name = (\<lambda>wl. de_name e (fst wl)), de_isDir = (\<lambda>wl. de_isDir e (fst wl)), de_type = (\<lambda>wl. de_type e (fst wl)),
      de_info = (\<lambda>wl. de_info e (fst wl))\<rparr>"

definition traced_file :: "'w vfile \<Rightarrow> ('w \<times> string list) vfile" where
  "traced_file f =
     \<lparr>f_read = (\<lambda>n. untraced (f_read f n)), f_readAt = (\<lambda>n off. untraced (f_readAt f n off)),
      f_write = (\<lambda>bs. untraced (f_write f bs)), f_writeAt = (\<lambda>bs off. untraced (f_writeAt f bs off)),
      f_seek = (\<lambda>off wh. untraced (f_seek f off wh)), f_close = untraced (f_close f), f_stat = (\<lambda>wl. f_stat f (fst wl)),
      f_sync = untraced (f_sync f), f_truncate = (\<lambda>n. untraced (f_truncate f n)),
      f_readDir = (\<lambda>n wl. map_sum (\<lambda>e. e) (map traced_entry) (f_readDir f n (fst wl))), f_name = f_name f\<rparr>"

definition traced :: "'w filesystem \<Rightarrow> ('w \<times> string list) filesystem" where
  "traced F =
     \<lparr>fs_id = fs_id F,
      fs_open = (\<lambda>p fl pm. logged [p] (\<lambda>w. map_prod (map_sum (\<lambda>e. e) traced_file) (\<lambda>w. w) (fs_open F p fl pm w))),
      fs_stat = (\<lambda>p wl. fs_stat F p (fst wl)), fs_lstat = (\<lambda>p wl. fs_lstat F p (fst wl)),
      fs_rename = (\<lambda>p q. logged [p, q] (fs_rename F p q)), fs_remove = (\<lambda>p. logged [p] (fs_remove F p)),
      fs_removeAll = (\<lambda>p. logged [p] (fs_removeAll F p)), fs_mkdir = (\<lambda>p m. logged [p] (fs_mkdir F p m)),
      fs_mkdirAll = (\<lambda>p m. logged [p] (fs_mkdirAll F p m)),
      fs_readDir = (\<lambda>p wl. map_sum (\<lambda>e. e) (map traced_entry) (fs_readDir F p (fst wl))),
      fs_symlink = (\<lambda>p q. logged [p, q] (fs_symlink F p q)), fs_readlink = (\<lambda>p wl. fs_readlink F p (fst wl)),
      fs_chmod = (\<lambda>p m. logged [p] (fs_chmod F p m)), fs_chown = (\<lambda>p u g. logged [p] (fs_chown F p u g)),
      fs_chtimes = (\<lambda>p a m. logged [p] (fs_chtimes F p a m)), fs_statvfs = (\<lambda>p wl. fs_statvfs F p (fst wl))\<rparr>"

section \<open>Confinement\<close>

text \<open>\<open>p\<close> is \<open>t\<close> or under it.\<close>

definition under :: "string \<Rightarrow> string \<Rightarrow> bool" where
  "under t p \<longleftrightarrow> abs_clean p \<and> prefix (clean_comps t) (clean_comps p)"

text \<open>The state predicate \<open>P\<close> is kept, and a result satisfies \<open>Q\<close>.\<close>

definition valid :: "('w scp \<Rightarrow> bool) \<Rightarrow> ('w, 'a) act \<Rightarrow> ('a \<Rightarrow> bool) \<Rightarrow> bool" where
  "valid P m Q \<longleftrightarrow> (\<forall>s r t. P s \<longrightarrow> m s = (r, t) \<longrightarrow> P t \<and> (\<forall>x. r = Inr x \<longrightarrow> Q x))"

named_theorems validity \<open>rules for \<open>valid\<close>\<close>

lemma valid_after:
  assumes "valid P m Q" "\<And>e. valid P (bad e) R" "\<And>x. Q x \<Longrightarrow> valid P (good x) R"
  shows "valid P (after m bad good) R"
  unfolding valid_def
proof (intro allI impI)
  fix s r t
  assume P: "P s" and m: "after m bad good s = (r, t)"
  obtain r1 s1 where e: "m s = (r1, s1)" by fastforce
  have s1: "P s1" "\<And>x. r1 = Inr x \<Longrightarrow> Q x" using assms(1) P e unfolding valid_def by blast+
  have bad: "P u \<and> (\<forall>x. b = Inr x \<longrightarrow> R x)" if "bad e s1 = (b, u)" for e b u using assms(2) s1(1) that unfolding valid_def by blast
  have good: "P u \<and> (\<forall>x. b = Inr x \<longrightarrow> R x)" if "good x s1 = (b, u)" "Q x" for x b u using assms(3) s1(1) that unfolding valid_def by blast
  show "P t \<and> (\<forall>x. r = Inr x \<longrightarrow> R x)"
    using m s1 bad good by (auto simp: after_def e split: sum.splits if_splits)
qed

lemma valid_seq [validity]:
  "valid P m (\<lambda>_. True) \<Longrightarrow> (\<And>e. valid P (bad e) R) \<Longrightarrow> (\<And>x. valid P (good x) R) \<Longrightarrow> valid P (after m bad good) R"
  by (rule valid_after)

lemma valid_whatever [validity]: "valid P m (\<lambda>_. True) \<Longrightarrow> valid P k R \<Longrightarrow> valid P (whatever m k) R"
  unfolding whatever_def by (rule valid_seq)

lemma valid_mono: "valid P m Q \<Longrightarrow> (\<And>x. Q x \<Longrightarrow> R x) \<Longrightarrow> valid P m R"
  unfolding valid_def by blast

lemma valid_any: "valid P m (\<lambda>_. True) \<longleftrightarrow> (\<forall>s. P s \<longrightarrow> P (snd (m s)))"
  unfolding valid_def by (metis prod.collapse snd_conv)

text \<open>The paths of the record are under the target, and only the file system adds to it.\<close>

definition confined :: "string \<Rightarrow> ('w \<times> string list) scp \<Rightarrow> bool" where
  "confined t s \<longleftrightarrow> set (snd (sc_world s)) \<subseteq> Collect (under t)"

lemma valid_quiet:
  assumes "\<And>s. snd (sc_world (snd (m s))) = snd (sc_world s)"
  shows "valid (confined t) m (\<lambda>_. True)"
  using assms by (simp add: valid_any confined_def)

lemma valid_pass [validity]: "Q x \<Longrightarrow> valid P (pass x) Q"
  by (simp add: valid_def pass_def)

lemma valid_fails [validity]: "valid P (fails e) Q"
  by (simp add: valid_def fails_def)

lemma valid_channel [validity]:
  "valid (confined t) (ch_write env bs) (\<lambda>_. True)" "valid (confined t) (readSCPLE env) (\<lambda>_. True)" "valid (confined t) (read_byte env) (\<lambda>_. True)"
  "valid (confined t) (scp_start env p dir n) (\<lambda>_. True)" "valid (confined t) (\<lambda>s. (Inr (), scp_end env tid n err s)) (\<lambda>_. True)"
  "valid (confined t) (on_w (untraced op)) (\<lambda>_. True)" "valid (confined t) (on_w (\<lambda>w. (g w, w))) (\<lambda>_. True)"
  by (rule valid_quiet, simp add: ch_write_def readSCPLE_def read_byte_def scp_start_def scp_end_def on_w_def untraced_def
      split: option.split list.split prod.split)+

lemma valid_reject [validity]: "valid (confined t) (scp_reject env fatal e) Q"
  unfolding scp_reject_def writeSCPError_def by (intro validity)

lemma as_res_untraced: "as_res (untraced op w) = untraced (\<lambda>w. as_res (op w)) w"
  by (simp add: as_res_def untraced_def split: prod.split option.split)

lemma as_res_logged: "as_res (logged ps op w) = logged ps (\<lambda>w. as_res (op w)) w"
  by (simp add: as_res_def logged_def split: prod.split option.split)

lemma valid_logged [validity]:
  assumes "set ps \<subseteq> Collect (under t)" "\<And>w r w'. op w = (Inr r, w') \<Longrightarrow> Q r"
  shows "valid (confined t) (on_w (logged ps op)) Q"
  using assms by (auto simp: valid_def confined_def on_w_def logged_def split: prod.splits)

lemma valid_close [validity]: "valid (confined t) (on_w (\<lambda>w. as_res (f_close (traced_file f) w))) (\<lambda>_. True)"
  by (simp add: traced_file_def as_res_untraced [abs_def] validity)

lemma valid_chtimes [validity]: "under t p \<Longrightarrow> valid (confined t) (on_w (\<lambda>w. as_res (fs_chtimes (traced F) p a m w))) (\<lambda>_. True)"
  by (simp add: traced_def as_res_logged [abs_def] validity)

lemma valid_mkdir [validity]: "under t p \<Longrightarrow> valid (confined t) (on_w (\<lambda>w. as_res (fs_mkdir (traced F) p m w))) (\<lambda>_. True)"
  by (simp add: traced_def as_res_logged [abs_def] validity)

lemma valid_open [validity]:
  "under t p \<Longrightarrow> valid (confined t) (on_w (fs_open (traced F) p fl pm)) (\<lambda>f. \<exists>g. f = traced_file g)"
proof -
  assume b: "under t p"
  have "\<exists>g. r = traced_file g" if "map_prod (map_sum (\<lambda>e. e) traced_file) (\<lambda>w. w) (fs_open F p fl pm w) = (Inr r, w')" for w r w'
    using that by (cases "fs_open F p fl pm w"; cases "fst (fs_open F p fl pm w)") auto
  then show ?thesis using b by (simp add: traced_def validity)
qed

lemma valid_ends:
  assumes "under t dst"
  shows "valid (confined t) (receive_failed env tid n e) Q" "valid (confined t) (receive_broken env tid n e) Q"
    "se_fs env = traced F \<Longrightarrow> valid (confined t) (receive_complete env dst tms tid n) (\<lambda>_. True)"
proof -
  show "valid (confined t) (receive_failed env tid n e) Q" unfolding receive_failed_def by (intro validity)
  show "valid (confined t) (receive_broken env tid n e) Q" by (auto simp: valid_def receive_broken_def scp_end_def confined_def)
  show "valid (confined t) (receive_complete env dst tms tid n) (\<lambda>_. True)" if "se_fs env = traced F"
  proof (cases tms)
    case None
    then show ?thesis unfolding receive_complete_def by (simp add: validity)
  next
    case (Some am)
    then show ?thesis using assms that unfolding receive_complete_def by (cases am) (simp add: validity)
  qed
qed

lemma valid_trailer:
  assumes "under t dst" "se_fs env = traced F"
  shows "valid (confined t) (receive_trailer env dst tms tid n) (\<lambda>_. True)"
proof -
  note c = valid_ends(1,2) [OF assms(1)] valid_ends(3) [OF assms]
  have "valid (confined t) (whatever (ch_write env [CHR 0x00]) (receive_complete env dst tms tid n)) (\<lambda>_. True)"
    by (intro validity c)
  moreover have "valid (confined t) (after (read_byte env) (receive_broken env tid n) (\<lambda>trailer.
          if trailer \<noteq> CHR 0x00 then receive_failed env tid n (ErrMsg ''invalid scp file trailer'')
          else after (ch_write env [CHR 0x00]) (receive_broken env tid n) (\<lambda>_. receive_complete env dst tms tid n))) (\<lambda>_. True)"
    by (rule valid_seq) (simp_all add: validity c)
  ultimately show ?thesis unfolding valid_any by (simp add: receive_trailer_def)
qed

lemma copy_in_traced: "snd (snd (copy_in (traced_file f) ps rerr n wl)) = snd wl"
  by (induction ps arbitrary: n wl) (auto simp: traced_file_def untraced_def Let_def split: prod.split)

lemma valid_contents:
  assumes "under t dst" "se_fs env = traced F"
  shows "valid (confined t) (receive_contents env dst sz (traced_file f) tms) (\<lambda>_. True)"
proof -
  have r: "valid (confined t) (receive_rest env dst sz (traced_file f) tms tid n err0) (\<lambda>_. True)" for tid n err0
    unfolding receive_rest_def
    by (simp add: validity valid_ends(1) [OF assms(1)] valid_trailer [OF assms] split: option.split)
  have "valid (confined t) (\<lambda>s. let ps = pieces (se_cut env) (nat sz) (sc_in s); got = length (concat ps) in
       case copy_in (traced_file f) ps (if int got < sz \<and> se_end env \<noteq> EOF then Some (se_end env) else None) 0 (sc_world s) of
         ((n, err0), w) \<Rightarrow>
           receive_rest env dst sz (traced_file f) tms tid n err0 (s\<lparr>sc_world := w, sc_in := drop got (sc_in s)\<rparr>)) (\<lambda>_. True)" for tid
    unfolding valid_any Let_def
  proof (intro allI impI)
    fix s :: "('a \<times> string list) scp"
    assume c: "confined t s"
    let ?ps = "pieces (se_cut env) (nat sz) (sc_in s)"
    obtain n err0 w where e: "copy_in (traced_file f) ?ps (if int (length (concat ?ps)) < sz \<and> se_end env \<noteq> EOF then Some (se_end env) else None) 0 (sc_world s) = ((n, err0), w)"
      by (metis prod.exhaust)
    have "confined t (s\<lparr>sc_world := w, sc_in := drop (length (concat ?ps)) (sc_in s)\<rparr>)"
      using c copy_in_traced [of f ?ps _ 0 "sc_world s"] e unfolding confined_def by (metis (no_types, lifting) scp.select_convs(1) scp.surjective scp.update_convs(1,2) snd_conv)
    then show "confined t (snd (case copy_in (traced_file f) ?ps (if int (length (concat ?ps)) < sz \<and> se_end env \<noteq> EOF then Some (se_end env) else None) 0 (sc_world s) of
         ((n, err0), w) \<Rightarrow> receive_rest env dst sz (traced_file f) tms tid n err0 (s\<lparr>sc_world := w, sc_in := drop (length (concat ?ps)) (sc_in s)\<rparr>)))"
      using r unfolding e valid_any by simp
  qed
  then show ?thesis unfolding receive_contents_def by (intro valid_seq validity)
qed

lemma normalizeSCPPath_clean [simp]: "abs_clean (normalizeSCPPath p)"
  by (simp add: normalizeSCPPath_def path_clean_rooted)

text \<open>A name a record carries is one path component.\<close>

lemma valid_name_comp:
  assumes "validateSCPFileName name = None" "trim_space name = name"
  shows "clean_comp name"
  using assms by (auto simp: validateSCPFileName_def clean_comp_def Let_def split: if_splits)

lemma parseSCPRecord_name:
  assumes "parseSCPRecord header kind = Inr (mode, sz, name)"
  shows "clean_comp name" "mode AND 0x1FF = mode" "0 \<le> sz"
proof -
  obtain m rest where v: "validateSCPFileName name = None" "name = trim_space rest" "mode = word_of_int m AND 0x1FF" "0 \<le> sz"
    using assms by (auto simp: parseSCPRecord_def Let_def split: if_splits option.splits prod.splits)
  have "trim_space name = name" using v(2) by simp
  with v(1) show "clean_comp name" by (rule valid_name_comp)
  show "mode AND 0x1FF = mode" "0 \<le> sz" using v(3,4) by (simp_all add: and.assoc)
qed

lemma below_join:
  assumes "under t d" "clean_comp name"
  shows "under t (path_join [d, name])"
proof -
  obtain cs where d: "d = abs_path cs" "list_all clean_comp cs" using assms(1) by (auto simp: under_def elim: abs_cleanE)
  have "path_join [d, name] = abs_path (cs @ [name])"
    using path_join_abs_path [OF d(2), of "[name]"] assms(2) by (simp add: d(1))
  moreover have "list_all clean_comp (cs @ [name])" using d(2) assms(2) by simp
  ultimately show ?thesis using assms(1) d by (simp add: under_def)
qed

lemma below_refl: "abs_clean t \<Longrightarrow> under t t"
  by (simp add: under_def)

lemma below_sink_dst:
  assumes "clean_comp name" "\<forall>d\<in>set dirs. under (normalizeSCPPath target) (fst d)"
  shows "under (normalizeSCPPath target) (sink_dst env target dirs name w)"
proof (cases dirs)
  case Nil
  have b: "under (normalizeSCPPath target) (path_join [normalizeSCPPath target, name])"
    using assms(1) by (intro below_join below_refl) simp_all
  then have "path_clean (path_join [normalizeSCPPath target, name]) = path_join [normalizeSCPPath target, name]"
    by (auto simp: under_def elim!: abs_cleanE)
  then show ?thesis using b below_refl [of "normalizeSCPPath target"] Nil
    by (simp add: sink_dst_def resolveSCPSinkPath_def Let_def split: sum.split)
next
  case (Cons d ds)
  then show ?thesis using assms by (cases d) (simp add: sink_dst_def below_join)
qed

definition dirs_below :: "string \<Rightarrow> ((int \<times> int) option \<times> sink_dirs) option \<Rightarrow> bool" where
  "dirs_below t r \<longleftrightarrow> (case r of None \<Rightarrow> True | Some (_, ds) \<Rightarrow> \<forall>d\<in>set ds. under t (fst d))"

lemma valid_dep: "(\<And>x. valid P (k x) Q) \<Longrightarrow> valid P (\<lambda>s. k (h s) s) Q"
  unfolding valid_def by blast

lemma valid_file:
  assumes "se_fs env = traced F" "under t dst" "\<forall>d\<in>set dirs. under t (fst d)"
  shows "valid (confined t) (sink_file env mode sz tms dirs dst) (dirs_below t)"
  unfolding sink_file_def assms(1)
proof (rule valid_after [OF valid_open [OF assms(2)]])
  fix f :: "('a \<times> string list) vfile"
  assume "\<exists>g. f = traced_file g"
  then obtain g where f: "f = traced_file g" ..
  have e: "valid (confined t) (\<lambda>s. (Inr (Some (None, dirs)), scp_emit env ''file.write'' dst ''scp upload'' s)) (dirs_below t)"
    using assms(3) by (auto simp: valid_def dirs_below_def confined_def scp_emit_def)
  show "valid (confined t) (after (ch_write env [CHR 0x00]) (\<lambda>e. whatever (on_w (\<lambda>w. as_res (f_close f w))) (fails e))
      (\<lambda>_. after (receive_contents env dst sz f tms) fails (\<lambda>_ s. (Inr (Some (None, dirs)), scp_emit env ''file.write'' dst ''scp upload'' s))))
      (dirs_below t)"
    unfolding f by (intro valid_seq validity valid_contents [OF assms(2,1)] e)
qed (rule valid_reject)

lemma valid_dir:
  assumes "se_fs env = traced F" "under t dst" "\<forall>d\<in>set dirs. under t (fst d)"
  shows "valid (confined t) (receive_dir env mode tms dirs dst) (dirs_below t)"
proof -
  have "dirs_below t (Some (None, (dst, tms) # dirs))" using assms(2,3) by (simp add: dirs_below_def)
  then show ?thesis
    unfolding receive_dir_def Let_def assms(1)
    by (intro valid_seq valid_mkdir [OF assms(2)] valid_channel valid_reject) (simp_all add: valid_seq valid_channel valid_reject valid_fails valid_pass)
qed

lemma valid_record:
  assumes "se_fs env = traced F" "\<forall>d\<in>set dirs. under (normalizeSCPPath target) (fst d)"
  shows "valid (confined (normalizeSCPPath target)) (sink_record env target recursive header tms dirs) (dirs_below (normalizeSCPPath target))"
proof -
  let ?t = "normalizeSCPPath target"
  have ack: "valid (confined ?t) (sink_ack env nx) (dirs_below ?t)" if "dirs_below ?t nx" for nx
    unfolding sink_ack_def using that by (intro validity)
  have d0: "dirs_below ?t None" "dirs_below ?t (Some (x, dirs))" for x using assms(2) by (simp_all add: dirs_below_def)
  have p: "valid (confined ?t) (pass (Some (tms, dirs))) (dirs_below ?t)" using d0 by (intro validity)
  have c: "valid (confined ?t) (receive_file_record env target header tms dirs) (dirs_below ?t)"
  proof (cases "parseSCPRecord header CHR ''C''")
    case (Inl e)
    then show ?thesis by (simp add: receive_file_record_def validity)
  next
    case (Inr r)
    obtain mode sz name where r: "r = (mode, sz, name)" by (cases r)
    have "clean_comp name" using parseSCPRecord_name [of header _ mode sz name] Inr r by blast
    then have "valid (confined ?t) (sink_file env mode sz tms dirs (sink_dst env target dirs name w)) (dirs_below ?t)" for w
      by (intro valid_file [OF assms(1)] below_sink_dst assms(2))
    then show ?thesis by (simp add: receive_file_record_def Inr r valid_def)
  qed
  have d: "valid (confined ?t) (receive_dir_record env target recursive header tms dirs) (dirs_below ?t)"
  proof (cases "parseSCPRecord header CHR ''D''")
    case (Inl e)
    then show ?thesis by (simp add: receive_dir_record_def validity)
  next
    case (Inr r)
    obtain mode sz name where r: "r = (mode, sz, name)" by (cases r)
    have "clean_comp name" using parseSCPRecord_name [of header _ mode sz name] Inr r by blast
    then have "valid (confined ?t) (receive_dir env mode tms dirs (sink_dst env target dirs name w)) (dirs_below ?t)" for w
      by (intro valid_dir [OF assms(1)] below_sink_dst assms(2))
    then have "valid (confined ?t) (\<lambda>s. receive_dir env mode tms dirs (sink_dst env target dirs name (sc_world s)) s) (dirs_below ?t)"
      by (simp add: valid_def)
    then show ?thesis by (simp add: receive_dir_record_def Inr r validity)
  qed
  have l: "valid (confined ?t) (leave_dir env tms dirs) (dirs_below ?t)"
    using assms by (auto simp: leave_dir_def dirs_below_def split: list.split option.split intro!: valid_whatever valid_chtimes ack)
  show ?thesis
    unfolding sink_record_def by (simp add: p c d l ack d0 validity)
qed

lemma sink_loop_confined:
  assumes "se_fs env = traced F"
  shows "\<forall>d\<in>set dirs. under (normalizeSCPPath target) (fst d) \<Longrightarrow> confined (normalizeSCPPath target) s
    \<Longrightarrow> confined (normalizeSCPPath target) (snd (sink_loop env target recursive tms dirs s))"
proof (induction "length (sc_in s)" arbitrary: tms dirs s rule: less_induct)
  case less
  let ?t = "normalizeSCPPath target"
  obtain r s1 where st: "sink_step env target recursive tms dirs s = (r, s1)" by fastforce
  have "valid (confined ?t) (sink_step env target recursive tms dirs) (dirs_below ?t)"
    unfolding sink_step_def
    by (rule valid_seq) (use valid_record [OF assms less(2)] in \<open>auto simp: dirs_below_def intro!: validity\<close>)
  then have v: "confined ?t s1" "\<And>x. r = Inr x \<Longrightarrow> dirs_below ?t x" using less(3) st unfolding valid_def by blast+
  show ?case
  proof (cases r)
    case (Inl e)
    then show ?thesis using st v by (subst sink_loop.simps) simp
  next
    case (Inr nx)
    show ?thesis
    proof (cases nx)
      case None
      then show ?thesis using st v Inr by (subst sink_loop.simps) simp
    next
      case (Some p)
      obtain tms1 dirs1 where p: "p = (tms1, dirs1)" by (cases p)
      have st': "sink_step env target recursive tms dirs s = (Inr (Some p), s1)" using st Inr Some by simp
      have "length (sc_in s1) < length (sc_in s)" using st' by (rule sink_step_shorter)
      moreover have "\<forall>d\<in>set dirs1. under ?t (fst d)" using v(2) Inr Some p by (simp add: dirs_below_def)
      ultimately have "confined ?t (snd (sink_loop env target recursive tms1 dirs1 s1))" using less(1) v(1) by blast
      then show ?thesis using st' p by (subst sink_loop.simps) simp
    qed
  qed
qed


section \<open>The command line a client sends\<close>

text \<open>The quoting of OpenSSH's client: single quotes, a quote inside as \<^verbatim>\<open>'\''\<close>.\<close>

definition quoted_char :: "char \<Rightarrow> string" where
  "quoted_char c = (if c = CHR 0x27 then [CHR 0x27, CHR 0x5C, CHR 0x27, CHR 0x27] else [c])"

definition shell_quote :: "string \<Rightarrow> string" where
  "shell_quote w = [CHR 0x27] @ concat (map quoted_char w) @ [CHR 0x27]"

definition scp_command :: "scpMode \<Rightarrow> bool \<Rightarrow> bool \<Rightarrow> string \<Rightarrow> string" where
  "scp_command mode recursive preserve target =
     ''scp '' @ (if recursive then ''-r '' else []) @ (if preserve then ''-p '' else [])
       @ (case mode of Source \<Rightarrow> ''-f '' | Sink \<Rightarrow> ''-t '') @ ''-- '' @ shell_quote target"

lemma shell_words_steps:
  "r \<noteq> CHR 0x27 \<Longrightarrow> shell_words ws (Some u) (Some CHR 0x27) (r # rs) = shell_words ws (Some (u @ [r])) (Some CHR 0x27) rs"
  "shell_words ws (Some u) (Some CHR 0x27) (CHR 0x27 # rs) = shell_words ws (Some u) None rs"
  "shell_words ws cur None (CHR 0x27 # rs) = shell_words ws (Some (case cur of None \<Rightarrow> [] | Some u \<Rightarrow> u)) (Some CHR 0x27) rs"
  "shell_words ws (Some u) None (CHR 0x5C # c # rs) = shell_words ws (Some (u @ [c])) None rs"
  "shell_words ws (Some u) None (CHR '' '' # rs) = shell_words (ws @ [u]) None None rs"
  "plain_char r \<Longrightarrow> r \<notin> {CHR 0x27, CHR 0x22, CHR 0x5C} \<Longrightarrow>
     shell_words ws cur None (r # rs) = shell_words ws (Some ((case cur of None \<Rightarrow> [] | Some u \<Rightarrow> u) @ [r])) None rs"
  "shell_words ws (Some u) None [] = Inr (ws @ [u])"
proof -
  have "\<not> word_space r" if "plain_char r" using that by (auto simp: word_space_def plain_char_def)
  then show "plain_char r \<Longrightarrow> r \<notin> {CHR 0x27, CHR 0x22, CHR 0x5C} \<Longrightarrow>
     shell_words ws cur None (r # rs) = shell_words ws (Some ((case cur of None \<Rightarrow> [] | Some u \<Rightarrow> u) @ [r])) None rs"
    by (subst shell_words.simps) (simp add: Let_def del: shell_words.simps)
qed (subst shell_words.simps, simp add: Let_def word_space_def del: shell_words.simps)+

lemma shell_words_quoted:
  "shell_words ws (Some u) (Some CHR 0x27) (concat (map quoted_char w) @ [CHR 0x27]) = Inr (ws @ [u @ w])"
proof (induction w arbitrary: u)
  case Nil
  show ?case by (simp only: list.map concat.simps append_Nil shell_words_steps(2,7) append_Nil2)
next
  case (Cons a w)
  show ?case
  proof (cases "a = CHR 0x27")
    case True
    have "concat (map quoted_char (a # w)) @ [CHR 0x27] = CHR 0x27 # CHR 0x5C # CHR 0x27 # CHR 0x27 # concat (map quoted_char w) @ [CHR 0x27]"
      by (simp add: True quoted_char_def)
    then show ?thesis
      by (simp only: shell_words_steps(2-4) option.case Cons.IH) (simp add: True)
  next
    case False
    have "concat (map quoted_char (a # w)) @ [CHR 0x27] = a # concat (map quoted_char w) @ [CHR 0x27]"
      using False by (simp add: quoted_char_def)
    then show ?thesis
      by (simp only: shell_words_steps(1) [OF False] Cons.IH) simp
  qed
qed

lemma shell_words_quote: "shell_words ws None None (shell_quote w) = Inr (ws @ [w])"
  using shell_words_quoted [of ws "[]" w] by (simp add: shell_quote_def shell_words_steps del: shell_words.simps)


section \<open>Records\<close>

text \<open>What \<open>send_record\<close> writes, and that it is one line that reads back.\<close>

definition record_line :: "char \<Rightarrow> filemode \<Rightarrow> int \<Rightarrow> string \<Rightarrow> string" where
  "record_line kind mode sz name = [kind] @ octal4 mode @ '' '' @ show_int sz @ '' '' @ name"

lemma has_control_LF: "CHR 0x0A \<in> set s \<Longrightarrow> has_control s"
proof (induction s)
  case (Cons c s)
  then show ?case by (cases "c = CHR 0x0A") (simp_all only: has_control.simps set_simps insert_iff, simp_all)
qed simp

lemma octal4_digits:
  obtains a b c where "octal4 m = [CHR ''0'', char_of (48 + a), char_of (48 + b), char_of (48 + c)]"
    "a < 8" "b < 8" "c < 8" "unat (m AND ModePerm) = a * 64 + b * 8 + c"
proof -
  define n where "n = unat (m AND ModePerm)"
  have "m AND ModePerm \<le> ModePerm" by (rule word_and_le1)
  then have l: "n \<le> 511" unfolding word_le_nat_alt n_def by (simp add: ModePerm_def)
  have d: "n div 64 = n div 8 div 8" using div_mult2_eq [of n 8 8] by simp
  have "n = n div 8 * 8 + n mod 8" "n div 8 = n div 8 div 8 * 8 + n div 8 mod 8" by (simp_all only: div_mult_mod_eq)
  then have s: "n = n div 64 * 64 + n div 8 mod 8 * 8 + n mod 8" unfolding d by linarith
  have "n div 64 < 8" using l by (simp add: less_mult_imp_div_less)
  then show thesis
    by (intro that [of "n div 64" "n div 8 mod 8" "n mod 8"]) (simp_all add: octal4_def Let_def n_def [symmetric] s [symmetric])
qed

text \<open>The records read back; the name must have no blanks around it, which reading strips.\<close>

lemma octal_digit: "d < 8 \<Longrightarrow> CHR ''0'' \<le> char_of (48 + d) \<and> char_of (48 + d) \<le> CHR ''7'' \<and> digit_value (char_of (48 + d)) = int d" for d :: nat
  using of_nat_of_char [of "char_of (48 + d)", where 'a = int] by (simp add: digit_value_def less_eq_char_def)

lemma ParseOctal32_octal4: "ParseOctal32 (octal4 m) = Some (uint (m AND ModePerm))"
proof -
  obtain a b c where o: "octal4 m = [CHR ''0'', char_of (48 + a), char_of (48 + b), char_of (48 + c)]"
    "a < 8" "b < 8" "c < 8" "unat (m AND ModePerm) = a * 64 + b * 8 + c" by (rule octal4_digits)
  have z: "CHR ''0'' = char_of (48 + 0::nat)" by (simp add: char_of_def bit_Suc_0_iff bit_1_iff)
  have v: "from_digits 8 (map digit_value (octal4 m)) = int a * 64 + int b * 8 + int c"
    unfolding o(1) z using octal_digit [of a] octal_digit [of b] octal_digit [of c] octal_digit [of 0] o(2-4)
    by (simp add: from_digits_def algebra_simps)
  have "uint (m AND ModePerm) = int a * 64 + int b * 8 + int c"
    using o(5) by (simp add: uint_nat)
  moreover have "list_all (\<lambda>c. CHR ''0'' \<le> c \<and> c \<le> CHR ''7'') (octal4 m)"
    unfolding o(1) using octal_digit [of a] octal_digit [of b] octal_digit [of c] o(2-4) by (simp add: less_eq_char_def)
  moreover have "int a * 64 + int b * 8 + int c < 2 ^ 32" using o(2-4) by simp
  ultimately show ?thesis using v by (simp add: ParseOctal32_def o(1) Let_def)
qed

lemma trim_end:
  assumes "trim_space s = s"
  shows "find (\<lambda>r. prefix r (rev s)) (map rev space_runes) = None"
proof -
  define l where "l = trim_left_fuel (length s) space_runes s"
  define r where "r = trim_left_fuel (length l) (map rev space_runes) (rev l)"
  have "trim_space s = rev r" by (simp add: trim_space_def l_def r_def Let_def)
  then have "r = rev s" using assms by simp
  moreover have "find (\<lambda>x. prefix x r) (map rev space_runes) = None"
    unfolding r_def by (rule trim_left_done [OF space_runes_ne(2)]) simp
  ultimately show ?thesis by simp
qed

lemma space_rune_blank: "r \<in> set space_runes \<Longrightarrow> CHR '' '' \<in> set r \<Longrightarrow> r = '' ''"
  by (auto simp: space_runes_def char_of_def bit_Suc_0_iff bit_1_iff)

lemma find_LF: "find (\<lambda>r. prefix r (CHR 0x0A # t)) (map rev space_runes) = Some [CHR 0x0A]"
  by (simp add: space_runes_def char_of_def bit_Suc_0_iff bit_1_iff)

lemma trim_space_record:
  assumes "x \<noteq> []" "plain_char (hd x)" "trim_space name = name" "name \<noteq> []"
  shows "trim_space (x @ CHR '' '' # name @ [CHR 0x0A]) = x @ CHR '' '' # name"
proof -
  let ?s = "x @ CHR '' '' # name"
  have "\<not> prefix r (?s @ [CHR 0x0A])" if "r \<in> set space_runes" for r
    using space_runes_heads space_runes_ne(1) that assms(1,2) by (cases r; cases x) (auto simp: list_all_iff)
  then have "find (\<lambda>r. prefix r (?s @ [CHR 0x0A])) space_runes = None" by (auto simp: find_None_iff)
  then have l: "trim_left_fuel n space_runes (?s @ [CHR 0x0A]) = ?s @ [CHR 0x0A]" for n by (rule trim_left_fixed)
  have no: "\<not> suffix r ?s" if r: "r \<in> set space_runes" for r
  proof
    assume "suffix r ?s"
    then consider "suffix r name" | "CHR '' '' \<in> set r" by (auto simp: suffix_append suffix_Cons)
    then show False
    proof cases
      case 1
      then have "prefix (rev r) (rev name)" by (simp add: suffix_to_prefix)
      then show False using trim_end [OF assms(3)] r by (auto simp: find_None_iff)
    next
      case 2
      then have "r = '' ''" using r by (rule space_rune_blank [rotated])
      then have "suffix '' '' name" using \<open>suffix r ?s\<close> assms(4) by (cases name rule: rev_cases) (auto simp: suffix_def)
      then have "prefix (rev r) (rev name)" using \<open>r = '' ''\<close> by (simp add: suffix_to_prefix)
      then show False using trim_end [OF assms(3)] r by (auto simp: find_None_iff)
    qed
  qed
  then have "find (\<lambda>r. prefix r (rev ?s)) (map rev space_runes) = None"
    by (auto simp: find_None_iff suffix_to_prefix)
  then have e: "trim_left_fuel (Suc (length ?s)) (map rev space_runes) (CHR 0x0A # rev ?s) = rev ?s"
    by (simp only: trim_left_fuel.simps find_LF option.case list.size One_nat_def plus_nat.add_0 add_Suc drop_Suc_Cons drop_0 trim_left_fixed)
  have n: "rev (?s @ [CHR 0x0A]) = CHR 0x0A # rev ?s" "length (?s @ [CHR 0x0A]) = Suc (length ?s)" by simp_all
  have "x @ CHR '' '' # name @ [CHR 0x0A] = ?s @ [CHR 0x0A]" by simp
  then show ?thesis unfolding trim_space_def Let_def by (simp only: l n e rev_rev_ident)
qed

lemma split3_record:
  assumes "CHR '' '' \<notin> set a" "CHR '' '' \<notin> set b"
  shows "split3 (a @ CHR '' '' # b @ CHR '' '' # c) = Some (a, b, c)"
proof -
  have cut: "cut_at CHR '' '' (u @ CHR '' '' # v) = (u, Some v)" if "CHR '' '' \<notin> set u" for u v
    using that by (auto simp: cut_at_def dropWhile_append takeWhile_append split: list.split)
  show ?thesis by (simp add: split3_def cut [OF assms(1)] cut [OF assms(2)])
qed

text \<open>\<open>record_line\<close> is what \<open>send_record\<close> writes.\<close>

lemma send_record_writes:
  assumes "validateSCPFileName name = None" "sc_room s = None"
  shows "send_record env kind mode sz name s = readSCPAck env (s\<lparr>sc_out := sc_out s @ record_line kind mode sz name @ [CHR 0x0A]\<rparr>)"
  using assms by (simp add: send_record_def after_def ch_write_def record_line_def)

lemma record_reads:
  assumes "plain_char kind" "validateSCPFileName name = None" "trim_space name = name" "0 \<le> sz" "sz \<le> max_int64"
  shows "CHR 0x0A \<notin> set (record_line kind mode sz name)
    \<and> parseSCPRecord (trim_space (record_line kind mode sz name @ [CHR 0x0A])) kind = Inr (mode AND ModePerm, sz, name)"
proof
  have d: "list_all is_digit (show_int sz)" "show_int sz \<noteq> []" using show_int_digits assms(4) by simp_all
  have nd: "c \<notin> set (show_int sz)" if "\<not> is_digit c" for c using d(1) that by (auto simp: list_all_iff)
  have o: "list_all is_digit (octal4 mode)"
  proof -
    obtain a b c :: nat where "octal4 mode = [CHR ''0'', char_of (48 + a), char_of (48 + b), char_of (48 + c)]" "a < 8" "b < 8" "c < 8"
      by (rule octal4_digits)
    then show ?thesis using digit_char [of a] digit_char [of b] digit_char [of c] digit_char [of 0] by (simp add: is_digit_def)
  qed
  have no: "c \<notin> set (octal4 mode)" if "\<not> is_digit c" for c using o that by (auto simp: list_all_iff)
  have nm: "\<not> has_control name" using assms(2,3) by (auto simp: validateSCPFileName_def Let_def split: if_splits)
  have ne: "name \<noteq> []" using assms(2,3) by (auto simp: validateSCPFileName_def)
  have sp: "\<not> is_digit CHR '' ''" "\<not> is_digit CHR 0x0A" by (simp_all add: is_digit_def)
  have k: "kind \<noteq> CHR 0x0A" using assms(1) by (auto simp: plain_char_def)
  show "CHR 0x0A \<notin> set (record_line kind mode sz name)"
    using has_control_LF [of name] nm no [OF sp(2)] nd [OF sp(2)] k by (auto simp: record_line_def)
  have t: "trim_space (record_line kind mode sz name @ [CHR 0x0A]) = record_line kind mode sz name"
    using trim_space_record [of "[kind] @ octal4 mode @ '' '' @ show_int sz" name] assms(1,3) ne by (simp add: record_line_def)
  have s: "split3 (tl (record_line kind mode sz name)) = Some (octal4 mode, show_int sz, name)"
    using split3_record [OF no [OF sp(1)] nd [OF sp(1)], of name] by (simp add: record_line_def)
  have "word_of_int (uint (mode AND ModePerm)) AND 0x1FF = mode AND ModePerm" by (simp add: ModePerm_def and.assoc)
  then show "parseSCPRecord (trim_space (record_line kind mode sz name @ [CHR 0x0A])) kind = Inr (mode AND ModePerm, sz, name)"
    unfolding t using s assms ne
    by (simp add: parseSCPRecord_def ParseOctal32_octal4 Atoi_show_int Let_def) (simp add: record_line_def)
qed

text \<open>The record of the root directory has no valid name, so a recursive download of \<^verbatim>\<open>/\<close> is refused.\<close>

theorem scp_root_refused:
  "sendDir (Suc k) env False ''/'' info s = scp_reject env False (ErrMsg ''invalid file name'') s"
proof -
  have "validateSCPFileName ''/'' = Some (ErrMsg ''invalid file name'')"
    by (simp add: validateSCPFileName_def trim_space_plain plain_char_def)
  then show ?thesis
    by (simp add: sendDir.simps sendTimes_def send_record_def after_def pass_def scp_reject_def whatever_def fails_def split: prod.split sum.split)
qed

section \<open>The SSH sign-in policy\<close>

lemma split_join_protocols:
  assumes "\<forall>p\<in>set ps. CHR '','' \<notin> set p" "ps \<noteq> []"
  shows "split_on CHR '','' (join_with '','' ps) = ps"
  using split_join [of ps "CHR '',''"] assms by simp

lemma sshProtocolAllowed_split:
  assumes "\<forall>p\<in>set ps. CHR '','' \<notin> set p" "ps \<noteq> [[]]"
  shows "sshProtocolAllowed (split_on CHR '','' (join_with '','' ps)) protocol \<longleftrightarrow> ps = [] \<or> protocol \<in> set ps"
  using split_join_protocols [OF assms(1)] assms(2) by (cases "ps = []") (auto simp: sshProtocolAllowed_def)

lemma KnownProtocols_plain: "p \<in> set KnownProtocols \<Longrightarrow> CHR '','' \<notin> set p \<and> p \<noteq> []"
  by (auto simp: KnownProtocols_def ProtocolFTP_def ProtocolFTPS_def ProtocolSFTP_def ProtocolSCP_def ProtocolWebUI_def)

lemma permissions_protocols:
  assumes "set (u_AllowedProtocols u) \<subseteq> set KnownProtocols"
  shows "sshProtocolAllowed (split_on CHR '','' (sp_protocols (sshPermissions_of u))) protocol \<longleftrightarrow> ProtocolAllowed u protocol"
proof -
  have "\<forall>p\<in>set (u_AllowedProtocols u). CHR '','' \<notin> set p" "u_AllowedProtocols u \<noteq> [[]]"
    using assms KnownProtocols_plain by (blast, force)
  from sshProtocolAllowed_split [OF this, of protocol] show ?thesis by (simp add: sshPermissions_of_def ProtocolAllowed_def)
qed

text \<open>What a grant rests on.\<close>

definition good_signin :: "string \<Rightarrow> int \<Rightarrow> user \<Rightarrow> 'w shared \<Rightarrow> bool" where
  "good_signin remote now u sh \<longleftrightarrow>
     throttle_Check (f_throttle sh) remote now = None
     \<and> CheckAccess u remote now [ProtocolSFTP, ProtocolSCP] = None
     \<and> (u_MaxSessions u > 0 \<longrightarrow> int (CountUser (f_sessions sh) (u_Username u)) < u_MaxSessions u)"

lemma checkAccess_None:
  "checkAccess u remote now sh = None \<longleftrightarrow> CheckAccess u remote now [ProtocolSFTP, ProtocolSCP] = None
     \<and> (u_MaxSessions u > 0 \<longrightarrow> int (CountUser (f_sessions sh) (u_Username u)) < u_MaxSessions u)"
  by (auto simp: checkAccess_def split: option.split)

lemma passwordCallback_granted:
  assumes "passwordCallback env now name remote password sh = (Granted p, sh1)"
  obtains u where "p = sshPermissions_of u" "good_signin remote now u sh"
    "fst (authenticate (sh_auth env) (sh_engine env) (sh_ulid env (f_ulids sh)) now name password (f_users sh)) = Inr (Some u)"
proof -
  obtain r users where a: "authenticate (sh_auth env) (sh_engine env) (sh_ulid env (f_ulids sh)) now name password (f_users sh) = (r, users)"
    by fastforce
  have th: "throttle_Check (f_throttle sh) remote now = None" using assms by (auto simp: passwordCallback_def split: option.splits)
  obtain u where "r = Inr (Some u)" "p = sshPermissions_of u"
    "checkAccess u remote now (sh\<lparr>f_users := users, f_ulids := Suc (f_ulids sh), f_throttle := RecordSuccess remote (f_throttle sh)\<rparr>) = None"
    using assms th by (auto simp: passwordCallback_def a Let_def split: option.splits sum.splits)
  with th a that show thesis by (simp add: checkAccess_None good_signin_def)
qed

lemma publicKeyCallback_granted:
  assumes "publicKeyCallback env now name remote key sh = (Granted p, sh1)"
  obtains u where "p = sshPermissions_of u" "good_signin remote now u sh"
    "fst (AuthenticatePublicKey (sh_auth env) now name key (f_users sh)) = Inr u"
proof -
  obtain r users where a: "AuthenticatePublicKey (sh_auth env) now name key (f_users sh) = (r, users)" by fastforce
  have th: "throttle_Check (f_throttle sh) remote now = None" using assms by (auto simp: publicKeyCallback_def split: option.splits)
  obtain u where "r = Inr u" "p = sshPermissions_of u" "checkAccess u remote now sh = None"
    using assms th by (auto simp: publicKeyCallback_def a split: option.splits sum.splits)
  with th a that show thesis by (simp add: checkAccess_None good_signin_def)
qed

text \<open>A channel does something only under a protocol the connection may use.\<close>

definition may_serve :: "'w sshConn \<Rightarrow> chanRequest list \<Rightarrow> bool" where
  "may_serve c rs \<longleftrightarrow>
     (\<exists>payload. Subsystem payload \<in> set rs) \<and> sshProtocolAllowed (sn_allowed c) ProtocolSFTP
     \<or> (\<exists>payload. Exec payload \<in> set rs) \<and> sshProtocolAllowed (sn_allowed c) ProtocolSCP"

lemma channel_idle:
  "\<not> may_serve c rs \<Longrightarrow> f_world (snd (handleSessionChannel env c i rs sh)) = f_world sh
     \<and> f_xfer (snd (handleSessionChannel env c i rs sh)) = f_xfer sh \<and> co_bytes (fst (handleSessionChannel env c i rs sh)) = []"
proof (induction env c i rs sh rule: handleSessionChannel.induct)
  case (1 env c i sh)
  show ?case by (simp add: no_output_def)
next
  case (2 env c i payload rs sh)
  have n: "\<not> may_serve c rs" "\<not> sshProtocolAllowed (sn_allowed c) ProtocolSFTP" using 2(3) by (auto simp: may_serve_def)
  show ?case
  proof (cases "length payload \<ge> 4 \<and> drop 4 payload = ''sftp''")
    case True
    from 2(1) [OF this n(2,1)] show ?thesis using True n(2) by (simp add: refuse_def ssh_emit_def)
  next
    case False
    from 2(2) [OF this n(1)] show ?thesis using False by (auto simp: refuse_def)
  qed
next
  case (3 env c i payload rs sh)
  then have "\<not> sshProtocolAllowed (sn_allowed c) ProtocolSCP" by (auto simp: may_serve_def)
  then show ?case by (simp add: refuse_def no_output_def ssh_emit_def split: sum.split)
next
  case (4 env c i rs sh)
  have "\<not> may_serve c rs" using 4(2) by (auto simp: may_serve_def)
  from 4(1) [OF this] show ?case by (simp add: refuse_def)
qed

lemma channel_gate:
  assumes "handleSessionChannel env c i rs sh = (out, sh1)" "f_world sh1 \<noteq> f_world sh \<or> co_bytes out \<noteq> [] \<or> f_xfer sh1 \<noteq> f_xfer sh"
  shows "may_serve c rs"
  using assms channel_idle [of c rs env i sh] by auto

lemma ssh_open_allowed: "ssh_open env now remote p sh = (Some c, sh1) \<Longrightarrow> sn_allowed c = split_on CHR '','' (sp_protocols p)"
  by (auto simp: ssh_open_def Let_def split: prod.splits sum.splits option.splits)

text \<open>C19. An SSH sign-in is granted only to an account that authenticated, by password or key, from an address that is not banned, under its
  access policy and its session limit; and a channel of the connection reads, writes or records anything only under a protocol
  the account may use: SFTP for a subsystem, SCP for a command.\<close>

theorem ssh_policy_enforced:
  assumes "passwordCallback env now name remote password sh = (Granted p, sh1) \<or> publicKeyCallback env now name remote key sh = (Granted p, sh1)"
  shows "\<exists>u. good_signin remote now u sh \<and> sp_username p = u_Username u
    \<and> (fst (authenticate (sh_auth env) (sh_engine env) (sh_ulid env (f_ulids sh)) now name password (f_users sh)) = Inr (Some u)
        \<or> fst (AuthenticatePublicKey (sh_auth env) now name key (f_users sh)) = Inr u)
    \<and> (\<forall>env' now' sh2 c sh3 i rs sh4 out sh5.
         set (u_AllowedProtocols u) \<subseteq> set KnownProtocols \<and> ssh_open env' now' remote p sh2 = (Some c, sh3)
         \<and> handleSessionChannel env' c i rs sh4 = (out, sh5) \<and> (f_world sh5 \<noteq> f_world sh4 \<or> co_bytes out \<noteq> [] \<or> f_xfer sh5 \<noteq> f_xfer sh4) \<longrightarrow>
           (\<exists>payload. Subsystem payload \<in> set rs) \<and> ProtocolAllowed u ProtocolSFTP
           \<or> (\<exists>payload. Exec payload \<in> set rs) \<and> ProtocolAllowed u ProtocolSCP)"
proof -
  obtain u where u: "p = sshPermissions_of u" "good_signin remote now u sh"
    "fst (authenticate (sh_auth env) (sh_engine env) (sh_ulid env (f_ulids sh)) now name password (f_users sh)) = Inr (Some u)
      \<or> fst (AuthenticatePublicKey (sh_auth env) now name key (f_users sh)) = Inr u"
    using assms passwordCallback_granted publicKeyCallback_granted by metis
  show ?thesis
  proof (intro exI [of _ u] conjI u(2,3) allI impI, goal_cases)
    case 1
    show ?case by (simp add: u(1) sshPermissions_of_def)
  next
    case (2 env' now' sh2 c sh3 i rs sh4 out sh5)
    then have k: "set (u_AllowedProtocols u) \<subseteq> set KnownProtocols" and c: "sn_allowed c = split_on CHR '','' (sp_protocols p)"
      and h: "handleSessionChannel env' c i rs sh4 = (out, sh5)" "f_world sh5 \<noteq> f_world sh4 \<or> co_bytes out \<noteq> [] \<or> f_xfer sh5 \<noteq> f_xfer sh4"
      using ssh_open_allowed by blast+
    show ?case
      using channel_gate [OF h] permissions_protocols [OF k] unfolding may_serve_def c u(1) by simp
  qed
qed


text \<open>A server with one account, and the sign-in of its user with her password.\<close>

definition door :: "mem sshEnv" where
  "door = \<lparr>sh_auth = wit_lib, sh_engine = wit_engine, sh_buildFS = (\<lambda>_ w. (Inr mem_fs, w)), sh_release = (\<lambda>_ w. w),
     sh_ulid = (\<lambda>n. replicate n CHR ''i''), sh_fmtTime = (\<lambda>_. ''Jan  1 00:00''), sh_connID = 7, sh_fuel = 10\<rparr>"

lemma door_admits:
  obtains p sh1 where "passwordCallback door 5 ''ALICE'' ''10.0.0.1:1'' ''h'' conn_shared = (Granted p, sh1)"
proof -
  obtain u where u: "\<And>i now. authenticate wit_lib wit_engine i now ''ALICE'' ''h'' wit_users = (Inr (Some u), wit_users)"
    "\<And>s now' ps. CheckAccess u s now' ps = None" "u_MaxSessions u = 0" by (rule conn_alice) blast
  show thesis
    by (rule that [of "sshPermissions_of u"])
      (simp add: passwordCallback_def door_def conn_shared_def throttle_Check_def u checkAccess_def Let_def)
qed

theorem ssh_policy_enforced_witness:
  "\<exists>p sh1 u. passwordCallback door 5 ''ALICE'' ''10.0.0.1:1'' ''h'' conn_shared = (Granted p, sh1)
     \<and> good_signin ''10.0.0.1:1'' 5 u conn_shared \<and> sp_username p = u_Username u"
proof -
  obtain p sh1 where g: "passwordCallback door 5 ''ALICE'' ''10.0.0.1:1'' ''h'' conn_shared = (Granted p, sh1)" by (rule door_admits)
  from ssh_policy_enforced [OF disjI1 [OF g]] g show ?thesis by blast
qed

end
