(* ===== verification/Memory_Transfers.thy ===== *)
theory Memory_Transfers
  imports Scp_Props Memory_Props
begin

text \<open>
  Transfers end to end over the in-memory backend: what a client uploads, over FTP or SCP, in whatever pieces it arrives, is what a
  later download sends.
\<close>

section \<open>A file's contents\<close>

definition mem_holds :: "mem \<Rightarrow> string \<Rightarrow> bytes \<Rightarrow> bool" where
  "mem_holds m p bs \<longleftrightarrow>
     (\<exists>a. map_of (nodes m) (mem_clean p) = Some a \<and> a < length (heap m) \<and> \<not> n_isDir (heap m ! a) \<and> n_data (heap m ! a) = bs)"

text \<open>Handle \<open>i\<close> is open on node \<open>a\<close>, holds \<open>bs\<close> and stands at its end.\<close>

definition appending :: "mem \<Rightarrow> nat \<Rightarrow> nat \<Rightarrow> bytes \<Rightarrow> bool" where
  "appending m i a bs \<longleftrightarrow>
     i < length (files m) \<and> \<not> mf_closed (files m ! i) \<and> mf_node (files m ! i) = a \<and> sl_vis (mf_data (files m ! i)) = bs
     \<and> mf_offset (files m ! i) = int (length bs)"

lemma append_step:
  assumes "appending m i a bs" "int (length (bs @ p)) \<le> maxMemFileSize"
  obtains m' where "f_write (mem_file i q) p m = ((length p, None), m')" "appending m' i a (bs @ p)" "nodes m' = nodes m" "heap m' = heap m"
proof -
  have il: "i < length (files m)" using assms(1) by (simp add: appending_def)
  obtain r m' where w: "memfile_write i p m = (r, m')" by fastforce
  have "\<not> (length (sl_vis (mf_data (files m ! i))) < nat (mf_offset (files m ! i)) )" using assms(1) by (simp add: appending_def)
  have "fst (slice_write (mf_data (files m ! i)) (nat (mf_offset (files m ! i))) p) = None"
    using slice_write_panic [of "mf_data (files m ! i)" "nat (mf_offset (files m ! i))" p] assms(1) by (simp add: appending_def)
  then have r: "r = (length p, None)"
    using w assms by (auto simp: memfile_write_def appending_def Let_def maxMemHole_def split: prod.splits if_splits option.splits)
  have wd: "written bs (length bs) p = bs @ p" by (simp add: written_def)
  have c: "sl_vis (mf_data (files m' ! i)) = bs @ p" "mf_offset (files m' ! i) = int (length (bs @ p))" "nodes m' = nodes m" "heap m' = heap m"
    "length (files m') = length (files m)"
    using memfile_write_cases [OF il w [unfolded r]] assms(1) wd by (simp_all add: appending_def)
  have "\<not> mf_closed (files m' ! i)" "mf_node (files m' ! i) = a"
    using w assms(1) il unfolding memfile_write_def Let_def upd_file_def appending_def
    by (auto split: prod.splits option.splits if_splits)
  with c il have "appending m' i a (bs @ p)" by (simp add: appending_def)
  moreover have "f_write (mem_file i q) p m = ((length p, None), m')" using w r il by (simp add: mem_file_def guarded_def)
  ultimately show thesis using c that by blast
qed

lemma copy_in_appends:
  assumes "appending m i a bs" "int (length (bs @ concat ps)) \<le> maxMemFileSize"
  obtains m' where "copy_in (mem_file i q) ps rerr n m = ((n + int (length (concat ps)), rerr), m')" "appending m' i a (bs @ concat ps)"
    "nodes m' = nodes m" "heap m' = heap m"
proof -
  have "\<exists>m'. copy_in (mem_file i q) ps rerr n m = ((n + int (length (concat ps)), rerr), m') \<and> appending m' i a (bs @ concat ps)
      \<and> nodes m' = nodes m \<and> heap m' = heap m"
    using assms
  proof (induction ps arbitrary: m bs n)
    case (Cons p ps)
    show ?case
    proof (cases "p = []")
      case True
      then show ?thesis using Cons.IH [OF Cons.prems(1), of n] Cons.prems(2) by simp
    next
      case False
      have sz: "int (length (bs @ p)) \<le> maxMemFileSize" using Cons.prems(2) by simp
      obtain m1 where m1: "f_write (mem_file i q) p m = ((length p, None), m1)" "appending m1 i a (bs @ p)" "nodes m1 = nodes m" "heap m1 = heap m"
        by (rule append_step [OF Cons.prems(1) sz])
      obtain m2 where m2: "copy_in (mem_file i q) ps rerr (n + int (length p)) m1 = ((n + int (length p) + int (length (concat ps)), rerr), m2)"
        "appending m2 i a ((bs @ p) @ concat ps)" "nodes m2 = nodes m1" "heap m2 = heap m1"
        using Cons.IH [OF m1(2), of "n + int (length p)"] Cons.prems(2) by auto
      then show ?thesis using False m1 by (intro exI [of _ m2]) (simp add: Let_def)
    qed
  qed simp
  then show thesis using that by blast
qed

text \<open>An upload: open, copy, close.\<close>

lemma upload_holds:
  assumes wf: "mem_wf m" and op: "fs_open mem_fs p upload_flags pm m = (Inr f, m1)" and sz: "int (length (concat ps)) \<le> maxMemFileSize"
  obtains m2 m3 where "copy_in f ps rerr 0 m1 = ((int (length (concat ps)), rerr), m2)" "f_close f m2 = (None, m3)" "mem_holds m3 p (concat ps)"
proof -
  let ?i = "length (files m)"
  obtain a where A: "f = mem_file ?i (mem_clean p)" "map_of (nodes m1) (mem_clean p) = Some a"
    "a < length (heap m1)" "\<not> n_isDir (heap m1 ! a)" "length (files m1) = Suc ?i" "mf_node (files m1 ! ?i) = a"
    "mf_offset (files m1 ! ?i) = 0" "\<not> mf_closed (files m1 ! ?i)" "sl_vis (mf_data (files m1 ! ?i)) = []"
    by (rule mem_open_upload [OF wf, of p pm f m1]) (use op in \<open>simp_all add: mem_fs_def\<close>)
  have "appending m1 ?i a []" using A by (simp add: appending_def)
  then obtain m2 where m2: "copy_in f ps rerr 0 m1 = ((int (length (concat ps)), rerr), m2)" "appending m2 ?i a (concat ps)"
    "nodes m2 = nodes m1" "heap m2 = heap m1"
    using copy_in_appends [of m1 ?i a "[]" ps "mem_clean p" rerr 0] sz unfolding A(1) by auto
  obtain c m3 where c: "f_close f m2 = (c, m3)" by fastforce
  have "c = None" "nodes m3 = nodes m2" "n_data (heap m3 ! a) = concat ps" "\<not> n_isDir (heap m3 ! a)" "length (heap m3) = length (heap m2)"
    using c m2 A by (auto simp: appending_def mem_file_def guarded_def memfile_close_def Let_def upd_node_def upd_file_def)
  then show thesis using that [OF m2(1)] c A m2(3,4) by (simp add: mem_holds_def)
qed

text \<open>Handle \<open>i\<close> is open, holds \<open>bs\<close> and stands before what is left of it.\<close>

definition reading :: "mem \<Rightarrow> nat \<Rightarrow> bytes \<Rightarrow> nat \<Rightarrow> bool" where
  "reading m i bs k \<longleftrightarrow>
     i < length (files m) \<and> \<not> mf_closed (files m ! i) \<and> sl_vis (mf_data (files m ! i)) = bs \<and> mf_offset (files m ! i) = int k \<and> k \<le> length bs"

lemma open_reading:
  assumes "mem_holds m p bs"
  obtains g m1 where "fs_open mem_fs p O_RDONLY 0 m = (Inr g, m1)" "g = mem_file (length (files m)) (mem_clean p)" "reading m1 (length (files m)) bs 0"
    "\<exists>info. f_stat g m1 = Inr info \<and> fi_size info = int (length bs)"
  using assms that
  by (fastforce simp: mem_holds_def mem_fs_def mem_open_def open_node_eq open_base_def newMemFile_def O_CREATE_def O_EXCL_def O_RDONLY_def O_TRUNC_def
      O_APPEND_def reading_def fresh_slice_def mem_file_def memfile_stat_def Let_def)

lemma copyBuffer_pos [simp]: "0 < copyBuffer"
  by (simp add: copyBuffer_def)

lemma copy_out_reads:
  assumes "reading m i bs k" "length bs - k \<le> j * copyBuffer"
  obtains m' where "copy_out (Suc j) (mem_file i q) None sent m = ((sent @ drop k bs, None), m')" "nodes m' = nodes m" "heap m' = heap m"
    "length (files m') = length (files m)"
proof -
  have "\<exists>m'. copy_out (Suc j) (mem_file i q) None sent m = ((sent @ drop k bs, None), m') \<and> nodes m' = nodes m \<and> heap m' = heap m
      \<and> length (files m') = length (files m)"
    using assms
  proof (induction j arbitrary: m k sent)
    case 0
    then have "f_read (mem_file i q) copyBuffer m = (([], Some EOF), m)"
      by (simp add: reading_def mem_file_def guarded_def memfile_read_def)
    then show ?case using 0 by simp
  next
    case (Suc j)
    have il: "i < length (files m)" and off: "mf_offset (files m ! i) = int k" and d: "sl_vis (mf_data (files m ! i)) = bs"
      and c: "\<not> mf_closed (files m ! i)" using Suc(2) by (simp_all add: reading_def)
    show ?case
    proof (cases "k < length bs")
      case False
      then have "f_read (mem_file i q) copyBuffer m = (([], Some EOF), m)"
        using Suc(2) by (simp add: reading_def mem_file_def guarded_def memfile_read_def)
      then show ?thesis using False by simp
    next
      case True
      define b where "b = take copyBuffer (drop k bs)"
      define m1 where "m1 = upd_file i (\<lambda>f. f\<lparr>mf_offset := mf_offset f + int (length b)\<rparr>) m"
      have rd: "f_read (mem_file i q) copyBuffer m = ((b, None), m1)"
        using True il off d c by (simp add: mem_file_def guarded_def memfile_read_def b_def m1_def Let_def)
      have r1: "reading m1 i bs (k + length b)"
        using Suc(2) il True by (auto simp: reading_def m1_def upd_file_def b_def min_def)
      have le: "length bs - (k + length b) \<le> j * copyBuffer" using Suc(3) by (auto simp: b_def min_def)
      obtain m' where m': "copy_out (Suc j) (mem_file i q) None (sent @ b) m1 = (((sent @ b) @ drop (k + length b) bs, None), m')"
        "nodes m' = nodes m1" "heap m' = heap m1" "length (files m') = length (files m1)"
        using Suc(1) [OF r1 le] by blast
      have "b @ drop (k + length b) bs = drop k bs"
      proof -
        have "drop (k + length b) bs = drop (length b) (drop k bs)" by (simp add: add.commute)
        moreover have "b = take (length b) (drop k bs)" by (auto simp: b_def min_def)
        ultimately show ?thesis by (metis append_take_drop_id)
      qed
      then show ?thesis
        using rd m' by (intro exI [of _ m']) (simp add: m1_def upd_file_def copy_out.simps(2) [of "Suc j"] del: copy_out.simps)
    qed
  qed
  then show thesis using that by blast
qed

lemma mem_close: "i < length (files m) \<Longrightarrow> \<exists>m'. f_close (mem_file i q) m = (None, m')"
  by (simp add: mem_file_def guarded_def memfile_close_def Let_def)

section \<open>FTP\<close>

lemma frame_data [simp]:
  "f_data (writeReply code m s) = f_data s" "f_data (emit_event ty us pa st ms mt s) = f_data s"
  "f_data (endTransfer out u tid ty p msg n e s) = f_data s"
  by (simp_all add: writeReply_def emit_event_def endTransfer_def Let_def)

lemma frame_out [simp]: "f_out (emit_event ty us pa st ms mt s) = f_out s"
  by (simp add: emit_event_def)

lemma endTransfer_ok:
  assumes "\<not> o_abort out"
  shows "f_out (endTransfer out u tid ty p msg n None s) = f_out s @ [reply_line 226 ''Transfer complete.'']"
  using assms by (simp add: endTransfer_def writeReply_def Let_def)

lemma frame_world [simp]: "f_world (endTransfer out u tid ty p msg n e s) = f_world s"
  by (simp add: endTransfer_def writeReply_def emit_event_def Let_def)

lemma start_xfer_frame:
  "start_xfer env out u p dir n s = (tid, t) \<Longrightarrow> f_world t = f_world s \<and> f_data t = f_data s \<and> f_out t = f_out s \<and> c_fs t = c_fs s
     \<and> wrapDataConn env t = wrapDataConn env s"
  by (auto simp: start_xfer_def wrapDataConn_def split: option.splits prod.splits)

lemma accept_frame:
  "acceptDataConn out s = (dc, t) \<Longrightarrow> f_world t = f_world s \<and> f_data t = f_data s \<and> f_out t = f_out s \<and> wrapDataConn env t = wrapDataConn env s"
  by (auto simp: acceptDataConn_def wrapDataConn_def split: if_splits option.splits)

lemma upload_flags_store: "store_flags ''STOR'' 0 = upload_flags"
  by (simp add: store_flags_def upload_flags_def O_CREATE_def O_WRONLY_def O_TRUNC_def)

lemma ftp_store_holds:
  assumes login: "c_user s = Some u" "c_fs s = Some mem_fs" "c_restOffset s = 0" and wf: "mem_wf (f_world s)"
    and dc: "acceptDataConn out s = (Some dc, s1)" "dc_readErr dc = None" "dc_closeErr dc = None" "\<not> o_abort out"
    and op: "\<not> isl (fst (mem_open (resolvePath (c_cwd s) arg) upload_flags 0x1A4 (f_world s)))"
    and sz: "int (length (concat (dc_chunks dc))) \<le> maxMemFileSize"
  shows "mem_holds (f_world (ftp_command env out ''STOR'' arg s)) (resolvePath (c_cwd s) arg) (concat (dc_chunks dc))"
    and "last (f_out (ftp_command env out ''STOR'' arg s)) = reply_line 226 ''Transfer complete.''"
proof -
  let ?p = "resolvePath (c_cwd s) arg"
  have s1: "f_world s1 = f_world s" using accept_frame [OF dc(1)] by blast
  have r0: "s\<lparr>c_restOffset := 0\<rparr> = s" using login(3) by (cases s) simp
  obtain f m1 where o1: "fs_open mem_fs ?p upload_flags 0x1A4 (f_world s) = (Inr f, m1)"
    using op by (cases "mem_open ?p upload_flags 0x1A4 (f_world s)"; cases "fst (mem_open ?p upload_flags 0x1A4 (f_world s))") (auto simp: mem_fs_def)
  obtain m2 m3 where up: "copy_in f (dc_chunks dc) None 0 m1 = ((int (length (concat (dc_chunks dc))), None), m2)" "f_close f m2 = (None, m3)"
    "mem_holds m3 ?p (concat (dc_chunks dc))"
    by (rule upload_holds [OF wf o1 sz])
  obtain tid t where x: "start_xfer env out u ?p DirectionUpload (- 1) (s1\<lparr>f_world := m1\<rparr>) = (tid, t)" by fastforce
  have e: "ftp_command env out ''STOR'' arg s = receive_file env out ''STOR'' u ?p dc f (s1\<lparr>f_world := m1\<rparr>)"
    using login dc(1) o1 s1
    by (simp add: ftp_command_def cmd_STOR_def authed_def r0 store_file_def with_data_def upload_flags_store on_storage_def Let_def)
  have w: "f_world t = m1" using start_xfer_frame [OF x] by simp
  have n: "\<not> (case None of Some e \<Rightarrow> stops e | None \<Rightarrow> False)" by simp
  show "mem_holds (f_world (ftp_command env out ''STOR'' arg s)) ?p (concat (dc_chunks dc))"
    "last (f_out (ftp_command env out ''STOR'' arg s)) = reply_line 226 ''Transfer complete.''"
    unfolding e receive_file_def x
    using up w dc(2-4)
    by (simp_all add: Let_def writeReply_def on_storage_def as_res_def first_error_def endTransfer_ok)
qed


lemma ftp_retr_sends:
  assumes login: "c_user s = Some u" "c_fs s = Some mem_fs" "c_restOffset s = 0"
    and h: "mem_holds (f_world s) (resolvePath (c_cwd s) arg) bs"
    and dc: "acceptDataConn out s = (Some dc, s1)" "dc_room dc = None" "dc_hsErr dc = None" "dc_closeErr dc = None" "\<not> o_abort out"
    and fuel: "length bs div copyBuffer + 2 \<le> fe_fuel env"
  shows "f_data (ftp_command env out ''RETR'' arg s) = f_data s @ [(wrapDataConn env s, bs)]"
    and "last (f_out (ftp_command env out ''RETR'' arg s)) = reply_line 226 ''Transfer complete.''"
proof -
  let ?p = "resolvePath (c_cwd s) arg"
  have s1: "f_world s1 = f_world s" "f_data s1 = f_data s" "wrapDataConn env s1 = wrapDataConn env s" using accept_frame [OF dc(1)] by blast+
  have r0: "s\<lparr>c_restOffset := 0\<rparr> = s" using login(3) by (cases s) simp
  obtain g m1 where o1: "fs_open mem_fs ?p O_RDONLY 0 (f_world s) = (Inr g, m1)" "g = mem_file (length (files (f_world s))) (mem_clean ?p)"
    "reading m1 (length (files (f_world s))) bs 0"
    by (rule open_reading [OF h]) blast
  let ?i = "length (files (f_world s))"
  let ?n = "case f_stat g m1 of Inr info \<Rightarrow> fi_size info | Inl _ \<Rightarrow> 0"
  obtain tid t where x: "start_xfer env out u ?p DirectionDownload ?n (s1\<lparr>f_world := m1\<rparr>) = (tid, t)" by fastforce
  have e: "ftp_command env out ''RETR'' arg s = send_file env out u ?p dc g ?n (s1\<lparr>f_world := m1\<rparr>)"
    using login dc(1) o1(1) s1
    by (simp add: ftp_command_def cmd_RETR_def authed_def r0 with_data_def on_storage_def Let_def)
  note fr = start_xfer_frame [OF x]
  obtain j where j: "fe_fuel env = Suc j" "length bs div copyBuffer < j" using fuel by (cases "fe_fuel env") auto
  have "length bs < Suc (length bs div copyBuffer) * copyBuffer"
    using dividend_less_div_times [OF copyBuffer_pos, of "length bs"] by simp
  moreover have "Suc (length bs div copyBuffer) * copyBuffer \<le> j * copyBuffer" using j(2) by (intro mult_right_mono) simp_all
  ultimately have le: "length bs - 0 \<le> j * copyBuffer" by simp
  obtain m2 where m2: "copy_out (Suc j) g None [] m1 = ((bs, None), m2)" "length (files m2) = length (files m1)"
    using copy_out_reads [OF o1(3) le, of "mem_clean ?p" "[]"] unfolding o1(2) by auto
  have "?i < length (files m2)" using o1(3) m2(2) by (simp add: reading_def)
  then obtain m3 where m3: "f_close g m2 = (None, m3)" using mem_close unfolding o1(2) by blast
  have w: "f_world t = m1" "f_data t = f_data s" "wrapDataConn env t = wrapDataConn env s"
    using fr s1 by (simp_all add: wrapDataConn_def)
  show "f_data (ftp_command env out ''RETR'' arg s) = f_data s @ [(wrapDataConn env s, bs)]"
    "last (f_out (ftp_command env out ''RETR'' arg s)) = reply_line 226 ''Transfer complete.''"
    unfolding e send_file_def x
    using w m2(1) m3 dc(2-5) j(1)
    by (simp_all add: Let_def writeReply_def on_storage_def as_res_def first_error_def late_handshake_def endTransfer_ok del: copy_out.simps)
qed

text \<open>
  C21. What a client stores with STOR on the memory back-end is what any later session on the same storage gets back
  with RETR: the very bytes the data connection delivered, in order, whatever the chunks they came in, on an encrypted data connection
  exactly when that session protects its data, and both commands end with 226.
\<close>

theorem ftp_store_retrieve:
  assumes login: "c_user s = Some u" "c_fs s = Some mem_fs" "c_restOffset s = 0" and wf: "mem_wf (f_world s)"
    and dc: "acceptDataConn out s = (Some dc, s1)" "dc_readErr dc = None" "dc_closeErr dc = None" "\<not> o_abort out"
    and op: "\<not> isl (fst (mem_open (resolvePath (c_cwd s) arg) upload_flags 0x1A4 (f_world s)))"
    and sz: "int (length (concat (dc_chunks dc))) \<le> maxMemFileSize"
    and login': "c_user t = Some u'" "c_fs t = Some mem_fs" "c_restOffset t = 0"
    and same: "f_world t = f_world (ftp_command env out ''STOR'' arg s)" "resolvePath (c_cwd t) arg' = resolvePath (c_cwd s) arg"
    and dc': "acceptDataConn out' t = (Some dc', t1)" "dc_room dc' = None" "dc_hsErr dc' = None" "dc_closeErr dc' = None" "\<not> o_abort out'"
    and fuel: "length (concat (dc_chunks dc)) div copyBuffer + 2 \<le> fe_fuel env'"
  shows "last (f_out (ftp_command env out ''STOR'' arg s)) = reply_line 226 ''Transfer complete.''
    \<and> f_data (ftp_command env' out' ''RETR'' arg' t) = f_data t @ [(wrapDataConn env' t, concat (dc_chunks dc))]
    \<and> last (f_out (ftp_command env' out' ''RETR'' arg' t)) = reply_line 226 ''Transfer complete.''"
proof -
  note st = ftp_store_holds [OF login wf dc op sz, of env]
  have "mem_holds (f_world t) (resolvePath (c_cwd t) arg') (concat (dc_chunks dc))" using st(1) same by simp
  note rt = ftp_retr_sends [OF login' this dc' fuel]
  show ?thesis using st(2) rt by simp
qed


section \<open>SCP\<close>

lemma concat_pieces: "concat (pieces rd n s) = take n s"
proof (induction rd n s rule: pieces.induct)
  case (1 rd n s)
  show ?case
  proof (cases "n = 0 \<or> s = []")
    case True
    then show ?thesis by (subst pieces.simps) auto
  next
    case False
    define k where "k = max 1 (min (rd s) (min n copyBuffer))"
    have "k \<le> n" using False by (auto simp: k_def)
    have "concat (pieces rd n s) = take k s @ concat (pieces rd (n - length (take k s)) (drop k s))"
      using False by (subst pieces.simps) (simp add: Let_def k_def)
    also have "\<dots> = take k s @ take (n - length (take k s)) (drop k s)" using 1 [OF False k_def] by simp
    also have "\<dots> = take n s"
    proof (cases "k \<le> length s")
      case True
      then show ?thesis using \<open>k \<le> n\<close> take_add [of k "n - k" s] by (simp add: min_absorb2)
    next
      case False
      then show ?thesis using \<open>k \<le> n\<close> by simp
    qed
    finally show ?thesis .
  qed
qed

lemma scp_frame [simp]:
  "sc_in (scp_end env tid n e s) = sc_in s" "sc_out (scp_end env tid n e s) = sc_out s" "sc_room (scp_end env tid n e s) = sc_room s"
  "sc_world (scp_end env tid n e s) = sc_world s"
  "sc_in (scp_emit env ty p msg s) = sc_in s" "sc_out (scp_emit env ty p msg s) = sc_out s" "sc_room (scp_emit env ty p msg s) = sc_room s"
  "sc_world (scp_emit env ty p msg s) = sc_world s"
  by (simp_all add: scp_end_def scp_emit_def)

lemma scp_start_frame:
  obtains tid t where "scp_start env p dir n s = (Inr tid, t)" "sc_in t = sc_in s" "sc_out t = sc_out s" "sc_room t = sc_room s" "sc_world t = sc_world s"
proof (cases "sc_xfer s")
  case None
  show thesis by (rule that [of "[]" s]) (simp_all add: scp_start_def None)
next
  case (Some m)
  obtain tid m' where x: "Start (se_ulid env (sc_ulids s)) (se_now env) (se_username env) ''scp'' p dir n m = (tid, m')" by fastforce
  show thesis by (rule that [of tid "s\<lparr>sc_xfer := Some m', sc_ulids := Suc (sc_ulids s)\<rparr>"]) (simp_all add: scp_start_def Some x)
qed

lemma upload_flags_scp: "O_CREATE OR O_WRONLY OR O_TRUNC = upload_flags"
  by (simp add: upload_flags_def O_CREATE_def O_WRONLY_def O_TRUNC_def)

lemma sink_file_uploads:
  assumes env: "se_fs env = mem_fs" and s: "sc_room s = None" "sc_in s = bs @ CHR 0x00 # rest" "mem_wf (sc_world s)"
    and op: "\<not> isl (fst (mem_open dst upload_flags mode (sc_world s)))" and sz: "int (length bs) \<le> maxMemFileSize"
  obtains t where "sink_file env mode (int (length bs)) None dirs dst s = (Inr (Some (None, dirs)), t)" "sc_in t = rest"
    "sc_out t = sc_out s @ [CHR 0x00, CHR 0x00]" "mem_holds (sc_world t) dst bs" "sc_room t = None"
proof -
  obtain f m1 where o1: "fs_open mem_fs dst upload_flags mode (sc_world s) = (Inr f, m1)"
    using op by (cases "mem_open dst upload_flags mode (sc_world s)"; cases "fst (mem_open dst upload_flags mode (sc_world s))") (auto simp: mem_fs_def)
  define s1 where "s1 = s\<lparr>sc_world := m1, sc_out := sc_out s @ [CHR 0x00]\<rparr>"
  obtain tid s2 where x: "scp_start env dst DirectionUpload (int (length bs)) s1 = (Inr tid, s2)" "sc_in s2 = sc_in s1" "sc_out s2 = sc_out s1"
    "sc_room s2 = sc_room s1" "sc_world s2 = sc_world s1" by (rule scp_start_frame)
  let ?ps = "pieces (se_cut env) (length bs) (sc_in s2)"
  have c: "concat ?ps = bs" using x(2) s(2) by (simp add: concat_pieces s1_def)
  then have sz': "int (length (concat ?ps)) \<le> maxMemFileSize" using sz by simp
  obtain m2 m3 where up: "copy_in f ?ps None 0 m1 = ((int (length bs), None), m2)" "f_close f m2 = (None, m3)" "mem_holds m3 dst bs"
    by (rule upload_holds [OF s(3) o1 sz', of None]) (unfold c)
  define s3 where "s3 = s2\<lparr>sc_world := m3, sc_in := rest, sc_out := sc_out s2 @ [CHR 0x00]\<rparr>"
  define s4 where "s4 = scp_end env tid (int (length bs)) None s3"
  have w: "sc_world s2 = m1" "drop (length bs) (sc_in s2) = CHR 0x00 # rest" "sc_room s2 = None" using x s by (simp_all add: s1_def)
  have "receive_rest env dst (int (length bs)) f None tid (int (length bs)) None (s2\<lparr>sc_world := m2, sc_in := CHR 0x00 # rest\<rparr>) = (Inr (), s4)"
    using up(2) w
    by (simp add: receive_rest_def copy_n_result_def after_def on_w_def as_res_def receive_trailer_def read_byte_def ch_write_def receive_complete_def
        pass_def s4_def s3_def)
  then have rc: "receive_contents env dst (int (length bs)) f None s1 = (Inr (), s4)"
    unfolding receive_contents_def after_def x(1) Let_def prod.case sum.case nat_int c w(1,2) using up(1) by simp
  have r: "sink_file env mode (int (length bs)) None dirs dst s = (Inr (Some (None, dirs)), scp_emit env ''file.write'' dst ''scp upload'' s4)"
    using o1 s(1) rc by (simp add: sink_file_def after_def on_w_def env upload_flags_scp ch_write_def s1_def)
  show thesis
    by (rule that [OF r]) (use up(3) w x in \<open>simp_all add: s4_def s3_def s1_def\<close>)
qed


text \<open>An upload of one file, as a client sends it.\<close>

definition upload_stream :: "filemode \<Rightarrow> string \<Rightarrow> bytes \<Rightarrow> bytes" where
  "upload_stream mode name bs = record_line CHR ''C'' mode (int (length bs)) name @ CHR 0x0A # bs @ [CHR 0x00]"

lemma scp_upload_holds:
  assumes env: "se_fs env = mem_fs" "se_end env = EOF" and s: "sc_room s = None" "sc_in s = upload_stream mode name bs" "mem_wf (sc_world s)"
    and name: "validateSCPFileName name = None" "trim_space name = name" "length (record_line CHR ''C'' mode (int (length bs)) name) < bufferSize * 17"
    and op: "\<not> isl (fst (mem_open (resolveSCPSinkPath mem_fs target name (sc_world s)) upload_flags (mode AND ModePerm) (sc_world s)))"
    and sz: "int (length bs) \<le> maxMemFileSize"
  obtains t where "runSCPSink env target recursive s = (Inr (), t)" "sc_out t = sc_out s @ [CHR 0x00, CHR 0x00, CHR 0x00]"
    "mem_holds (sc_world t) (resolveSCPSinkPath mem_fs target name (sc_world s)) bs"
proof -
  let ?r = "record_line CHR ''C'' mode (int (length bs)) name" and ?p = "resolveSCPSinkPath mem_fs target name (sc_world s)"
  have big: "int (length bs) \<le> max_int64" using sz by (simp add: maxMemFileSize_def max_int64_def)
  note rr = record_reads [of "CHR ''C''" name "int (length bs)" mode, OF _ name(1,2) _ big]
  have rd: "CHR 0x0A \<notin> set ?r" "parseSCPRecord (trim_space (?r @ [CHR 0x0A])) CHR ''C'' = Inr (mode AND ModePerm, int (length bs), name)"
    using rr by (simp_all add: plain_char_def)
  define s1 where "s1 = s\<lparr>sc_out := sc_out s @ [CHR 0x00]\<rparr>"
  have line: "control_line ''scp'' (se_end env) [] (sc_in s1) = (Inr (?r @ [CHR 0x0A]), bs @ [CHR 0x00])"
    using control_line_found [OF rd(1), of "[]" 0 "''scp''" "se_end env" "bs @ [CHR 0x00]"] name(3) s(2) by (simp add: s1_def upload_stream_def)
  define s2 where "s2 = s1\<lparr>sc_in := bs @ [CHR 0x00]\<rparr>"
  have s2: "sc_room s2 = None" "sc_in s2 = bs @ CHR 0x00 # []" "mem_wf (sc_world s2)" using s by (simp_all add: s2_def s1_def)
  have op2: "\<not> isl (fst (mem_open ?p upload_flags (mode AND ModePerm) (sc_world s2)))" using op by (simp add: s2_def s1_def)
  obtain t where t: "sink_file env (mode AND ModePerm) (int (length bs)) None [] ?p s2 = (Inr (Some (None, [])), t)" "sc_in t = []"
    "sc_out t = sc_out s2 @ [CHR 0x00, CHR 0x00]" "mem_holds (sc_world t) ?p bs"
    by (rule sink_file_uploads [OF env(1) s2 op2 sz])
  have h: "hd (trim_space (?r @ [CHR 0x0A])) = CHR ''C'' \<and> trim_space (?r @ [CHR 0x0A]) \<noteq> []"
  proof -
    have "trim_space (?r @ [CHR 0x0A]) = ?r"
      using trim_space_record [of "CHR ''C'' # octal4 mode @ '' '' @ show_int (int (length bs))" name] name(1,2)
      by (auto simp: record_line_def plain_char_def validateSCPFileName_def split: if_splits)
    then show ?thesis by (simp add: record_line_def)
  qed
  have dst: "sink_dst env target [] name (sc_world s2) = ?p" by (simp add: sink_dst_def env(1) s2_def s1_def)
  have step: "sink_step env target recursive None [] s1 = (Inr (Some (None, [])), t)"
    using h rd(2) t(1) unfolding sink_step_def after_def readSCPLE_def line
    by (simp add: sink_record_def receive_file_record_def dst s2_def [symmetric])
  have stop: "sink_step env target recursive None [] t = (Inr None, t)"
  proof -
    have "control_line ''scp'' EOF [] [] = (Inl EOF, [])" by (subst control_line.simps) (simp add: Let_def bufferSize_def)
    moreover have "t\<lparr>sc_in := []\<rparr> = t" using t(2) by (cases t) simp
    ultimately show ?thesis by (simp add: sink_step_def after_def readSCPLE_def env(2) t(2) pass_def stops_def)
  qed
  have "sink_loop env target recursive None [] s1 = (Inr (), t)"
    by (subst sink_loop.simps, simp add: step, subst sink_loop.simps, simp add: stop)
  then have "runSCPSink env target recursive s = (Inr (), t)" using s(1) by (simp add: runSCPSink_def after_def ch_write_def s1_def)
  then show thesis by (rule that) (use t in \<open>simp_all add: s2_def s1_def\<close>)
qed


text \<open>
  C22. A file a client sends with scp to a server on the memory back-end is acknowledged record by record, and it is what
  any session of the FTP server on the same storage then downloads from the path the sink chose: the very bytes, whatever pieces the
  channel delivered them in.
\<close>

theorem scp_upload_ftp_download:
  assumes env: "se_fs env = mem_fs" "se_end env = EOF" and s: "sc_room s = None" "sc_in s = upload_stream mode name bs" "mem_wf (sc_world s)"
    and name: "validateSCPFileName name = None" "trim_space name = name" "length (record_line CHR ''C'' mode (int (length bs)) name) < bufferSize * 17"
    and op: "\<not> isl (fst (mem_open (resolveSCPSinkPath mem_fs target name (sc_world s)) upload_flags (mode AND ModePerm) (sc_world s)))"
    and sz: "int (length bs) \<le> maxMemFileSize"
    and login: "c_user t = Some u" "c_fs t = Some mem_fs" "c_restOffset t = 0"
    and same: "f_world t = sc_world (snd (runSCPSink env target recursive s))"
      "resolvePath (c_cwd t) arg = resolveSCPSinkPath mem_fs target name (sc_world s)"
    and dc: "acceptDataConn out t = (Some dc, t1)" "dc_room dc = None" "dc_hsErr dc = None" "dc_closeErr dc = None" "\<not> o_abort out"
    and fuel: "length bs div copyBuffer + 2 \<le> fe_fuel fenv"
  shows "fst (runSCPSink env target recursive s) = Inr ()
    \<and> sc_out (snd (runSCPSink env target recursive s)) = sc_out s @ [CHR 0x00, CHR 0x00, CHR 0x00]
    \<and> f_data (ftp_command fenv out ''RETR'' arg t) = f_data t @ [(wrapDataConn fenv t, bs)]
    \<and> last (f_out (ftp_command fenv out ''RETR'' arg t)) = reply_line 226 ''Transfer complete.''"
proof -
  obtain v where v: "runSCPSink env target recursive s = (Inr (), v)" "sc_out v = sc_out s @ [CHR 0x00, CHR 0x00, CHR 0x00]"
    "mem_holds (sc_world v) (resolveSCPSinkPath mem_fs target name (sc_world s)) bs"
    by (rule scp_upload_holds [OF env s name op sz])
  have "mem_holds (f_world t) (resolvePath (c_cwd t) arg) bs" using v(3) same by (simp add: v(1))
  note rt = ftp_retr_sends [OF login this dc fuel]
  show ?thesis using v(1,2) rt by simp
qed

section \<open>Examples\<close>

definition ready :: "mem ftp" where
  "ready = conn_in\<lparr>c_cwd := ''/'', c_restOffset := 0, c_passiveLn := Some ''10.0.0.9:50001''\<rparr>"

lemma ready_eq:
  obtains u where "c_user ready = Some u" "c_fs ready = Some mem_fs" "c_restOffset ready = 0" "f_world ready = mem_New 5 (\<lambda>_ _. 0)" "c_cwd ready = ''/''"
    "c_passiveLn ready = Some ''10.0.0.9:50001''" "c_activeAddr ready = []" "c_remoteAddr ready = ''10.0.0.1:1''"
  by (rule conn_in_eq) (simp add: ready_def that)

lemma ready_accepts:
  "acceptDataConn conn_outside (ready\<lparr>f_world := w\<rparr>) = (Some (conn_peer ''10.0.0.1:9''), ready\<lparr>f_world := w, c_passiveLn := None\<rparr>)"
proof -
  obtain u where r: "c_passiveLn ready = Some ''10.0.0.9:50001''" "c_activeAddr ready = []" "c_remoteAddr ready = ''10.0.0.1:1''" by (rule ready_eq)
  show ?thesis using conn_peers r by (simp add: acceptDataConn_def) (simp add: conn_outside_def)
qed

lemma new_opens:
  "resolvePath ''/'' ''f'' = ''/f''" "\<not> isl (fst (mem_open ''/f'' upload_flags pm (mem_New 5 (\<lambda>_ _. 0))))"
proof -
  show "resolvePath ''/'' ''f'' = ''/f''" by code_simp
  have c: "mem_clean ''/f'' = ''/f'' \<and> path_dir ''/f'' = ''/''" by code_simp
  show "\<not> isl (fst (mem_open ''/f'' upload_flags pm (mem_New 5 (\<lambda>_ _. 0))))"
    by (simp add: mem_open_def open_node_eq c upload_flags_def O_CREATE_def O_EXCL_def O_WRONLY_def O_TRUNC_def mem_New_def newMemFile_def
      ensureParent_def add_node_def Let_def)
qed


theorem ftp_store_retrieve_witness:
  "\<exists>p. f_data (ftp_command conn_env conn_outside ''RETR'' ''f'' (ready\<lparr>f_world := f_world (ftp_command conn_env conn_outside ''STOR'' ''f'' ready)\<rparr>))
     = f_data ready @ [(p, ''abcde'')]"
proof -
  obtain u where r: "c_user ready = Some u" "c_fs ready = Some mem_fs" "c_restOffset ready = 0" "f_world ready = mem_New 5 (\<lambda>_ _. 0)" "c_cwd ready = ''/''"
    by (rule ready_eq)
  let ?t = "ready\<lparr>f_world := f_world (ftp_command conn_env conn_outside ''STOR'' ''f'' ready)\<rparr>" and ?dc = "conn_peer ''10.0.0.1:9''"
  have wf: "mem_wf (f_world ready)" by (simp add: r mem_wf_New)
  have a: "acceptDataConn conn_outside ready = (Some ?dc, ready\<lparr>c_passiveLn := None\<rparr>)" using ready_accepts [of "f_world ready"] by simp
  have dc: "dc_readErr ?dc = None" "dc_closeErr ?dc = None" "\<not> o_abort conn_outside" "dc_room ?dc = None" "dc_hsErr ?dc = None" "dc_chunks ?dc = [''abc'', ''de'']"
    by (simp_all add: conn_peer_def conn_outside_def)
  have op: "\<not> isl (fst (mem_open (resolvePath (c_cwd ready) ''f'') upload_flags 0x1A4 (f_world ready)))" by (simp add: r new_opens)
  have sz: "int (length (concat (dc_chunks ?dc))) \<le> maxMemFileSize" by (simp add: dc maxMemFileSize_def)
  have fuel: "length (concat (dc_chunks ?dc)) div copyBuffer + 2 \<le> fe_fuel conn_env" by (simp add: dc copyBuffer_def conn_env_def)
  have t: "c_user ?t = Some u" "c_fs ?t = Some mem_fs" "c_restOffset ?t = 0" "resolvePath (c_cwd ?t) ''f'' = resolvePath (c_cwd ready) ''f''"
    by (simp_all add: r)
  have w: "f_world ?t = f_world (ftp_command conn_env conn_outside ''STOR'' ''f'' ready)" by simp
  from ftp_store_retrieve [OF r(1-3) wf a dc(1-3) op sz t(1-3) w t(4) ready_accepts dc(4,5,2,3) fuel]
  show ?thesis by (simp add: dc(6))
qed

text \<open>An SCP channel whose client has sent one file.\<close>

definition sink_env :: "mem scpEnv" where
  "sink_env = \<lparr>se_fs = mem_fs, se_username = ''ALICE'', se_remoteAddr = ''10.0.0.1:2'', se_ulid = (\<lambda>n. replicate n CHR ''j''), se_now = 6, se_end = EOF,
     se_cut = (\<lambda>_. 2), se_writeErr = ErrClosed, se_fuel = 5\<rparr>"

definition sink_start :: "mem scp" where
  "sink_start = \<lparr>sc_world = mem_New 5 (\<lambda>_ _. 0), sc_in = upload_stream 0x1A4 ''f'' ''hello'', sc_out = [], sc_room = None, sc_xfer = None, sc_audit = None,
     sc_ulids = 0\<rparr>"

theorem scp_upload_ftp_download_witness:
  "\<exists>p. f_data (ftp_command conn_env conn_outside ''RETR'' ''f'' (ready\<lparr>f_world := sc_world (snd (runSCPSink sink_env ''/'' False sink_start))\<rparr>))
     = f_data ready @ [(p, ''hello'')]"
proof -
  obtain u where r: "c_user ready = Some u" "c_fs ready = Some mem_fs" "c_restOffset ready = 0" "f_world ready = mem_New 5 (\<lambda>_ _. 0)" "c_cwd ready = ''/''"
    by (rule ready_eq)
  let ?t = "ready\<lparr>f_world := sc_world (snd (runSCPSink sink_env ''/'' False sink_start))\<rparr>" and ?dc = "conn_peer ''10.0.0.1:9''"
  have dc: "dc_closeErr ?dc = None" "\<not> o_abort conn_outside" "dc_room ?dc = None" "dc_hsErr ?dc = None"
    by (simp_all add: conn_peer_def conn_outside_def)
  have e: "se_fs sink_env = mem_fs" "se_end sink_env = EOF" by (simp_all add: sink_env_def)
  have st: "sc_room sink_start = None" "sc_in sink_start = upload_stream 0x1A4 ''f'' ''hello''" "mem_wf (sc_world sink_start)"
    "sc_world sink_start = mem_New 5 (\<lambda>_ _. 0)"
    by (simp_all add: sink_start_def mem_wf_New)
  have dst: "resolveSCPSinkPath mem_fs ''/'' ''f'' w = ''/f''" for w
  proof -
    have "normalizeSCPPath ''/'' = ''/'' \<and> path_clean (path_join [''/'', ''f'']) = ''/f''" by code_simp
    then show ?thesis by (simp add: resolveSCPSinkPath_def)
  qed
  have name: "validateSCPFileName ''f'' = None" "trim_space ''f'' = ''f''"
    by (simp_all add: validateSCPFileName_def trim_space_plain plain_char_def)
  have "length (octal4 0x1A4) = 4" by code_simp
  moreover have "length (show_int 5) = 1" by code_simp
  ultimately have len: "length (record_line CHR ''C'' 0x1A4 (int (length ''hello'')) ''f'') < bufferSize * 17"
    by (simp add: record_line_def bufferSize_def)
  have op: "\<not> isl (fst (mem_open (resolveSCPSinkPath mem_fs ''/'' ''f'' (sc_world sink_start)) upload_flags (0x1A4 AND ModePerm) (sc_world sink_start)))"
    unfolding dst st(4) by (rule new_opens(2))
  have sz: "int (length ''hello'') \<le> maxMemFileSize" by (simp add: maxMemFileSize_def)
  have fuel: "length ''hello'' div copyBuffer + 2 \<le> fe_fuel conn_env" by (simp add: copyBuffer_def conn_env_def)
  have t: "c_user ?t = Some u" "c_fs ?t = Some mem_fs" "c_restOffset ?t = 0"
    "resolvePath (c_cwd ?t) ''f'' = resolveSCPSinkPath mem_fs ''/'' ''f'' (sc_world sink_start)"
    by (simp_all add: r dst new_opens)
  have w: "f_world ?t = sc_world (snd (runSCPSink sink_env ''/'' False sink_start))" by simp
  from scp_upload_ftp_download [OF e st(1-3) name len op sz t(1-3) w t(4) ready_accepts dc(3,4,1,2) fuel]
  show ?thesis by simp
qed

end
